(* ===== verification/Prelude.thy ===== *)
theory Prelude
  imports Main "HOL-Library.Word" "HOL-Library.Sublist"
begin

text \<open>
  Shared vocabulary of the development: results as sums, Rust strings as UTF-8 byte
  strings, decimal rendering and parsing, the \<open>Duration\<close> type, and the automation that
  the component theories use.

  A Rust \<open>str\<close> is modelled by its UTF-8 bytes, one HOL \<open>char\<close> per byte, so
  \<open>length\<close> is \<open>str::len\<close>. \<open>char_count\<close> is \<open>chars().count()\<close>, \<open>has_control\<close> is
  \<open>chars().any(char::is_control)\<close> and \<open>trim\<close> is \<open>str::trim\<close>; that the first two agree
  with the scalar values of the text is proved below for every encoded string.
\<close>

section \<open>Proof automation\<close>

named_theorems result_simps \<open>unfolding of the result combinators\<close>
named_theorems model_defs \<open>definitions of small helpers, to be unfolded by simp\<close>

section \<open>Results\<close>

text \<open>A Rust \<open>Result\<close> is a sum with the error on the left; \<open>bindR\<close> is the \<open>?\<close> operator.\<close>

definition bindR :: "'e + 'a \<Rightarrow> ('a \<Rightarrow> 'e + 'b) \<Rightarrow> 'e + 'b" where
  "bindR r f = (case r of Inl e \<Rightarrow> Inl e | Inr x \<Rightarrow> f x)"

definition mapR :: "('a \<Rightarrow> 'b) \<Rightarrow> 'e + 'a \<Rightarrow> 'e + 'b" where
  "mapR f r = (case r of Inl e \<Rightarrow> Inl e | Inr x \<Rightarrow> Inr (f x))"

definition map_errR :: "('e \<Rightarrow> 'f) \<Rightarrow> 'e + 'a \<Rightarrow> 'f + 'a" where
  "map_errR f r = (case r of Inl e \<Rightarrow> Inl (f e) | Inr x \<Rightarrow> Inr x)"

definition ok_or :: "'e \<Rightarrow> 'a option \<Rightarrow> 'e + 'a" where
  "ok_or e x = (case x of None \<Rightarrow> Inl e | Some y \<Rightarrow> Inr y)"

definition guardR :: "bool \<Rightarrow> 'e \<Rightarrow> 'e + unit" where
  "guardR b e = (if b then Inr () else Inl e)"

definition is_ok :: "'e + 'a \<Rightarrow> bool" where
  "is_ok r = (case r of Inl _ \<Rightarrow> False | Inr _ \<Rightarrow> True)"

text \<open>\<open>collect::<Result<Vec<_>, _>>()\<close>: the first error wins.\<close>

fun collectR :: "('e + 'a) list \<Rightarrow> 'e + 'a list" where
  "collectR [] = Inr []"
| "collectR (r # rs) = bindR r (\<lambda>x. mapR (\<lambda>xs. x # xs) (collectR rs))"

lemma bindR_simps [simp]:
  "bindR (Inl e) f = Inl e" "bindR (Inr x) f = f x"
  by (simp_all add: bindR_def)

lemma mapR_simps [simp]:
  "mapR g (Inl e) = Inl e" "mapR g (Inr x) = Inr (g x)"
  by (simp_all add: mapR_def)

lemma map_errR_simps [simp]:
  "map_errR g (Inl e) = Inl (g e)" "map_errR g (Inr x) = Inr x"
  by (simp_all add: map_errR_def)

lemma ok_or_simps [simp]:
  "ok_or e None = Inl e" "ok_or e (Some y) = Inr y"
  by (simp_all add: ok_or_def)

lemma guardR_simps [simp]:
  "guardR True e = Inr ()" "guardR False e = Inl e"
  by (simp_all add: guardR_def)

lemma is_ok_simps [simp]: "is_ok (Inl e) = False" "is_ok (Inr x) = True"
  by (simp_all add: is_ok_def)

lemma bindR_eq_Inr [result_simps]: "bindR r f = Inr y \<longleftrightarrow> (\<exists>x. r = Inr x \<and> f x = Inr y)"
  by (cases r) simp_all

lemma bindR_eq_Inl [result_simps]:
  "bindR r f = Inl e \<longleftrightarrow> r = Inl e \<or> (\<exists>x. r = Inr x \<and> f x = Inl e)"
  by (cases r) auto

lemma mapR_mapR [simp]: "mapR f (mapR g r) = mapR (\<lambda>x. f (g x)) r"
  by (simp add: mapR_def split: sum.splits)

lemma mapR_eq_Inr [result_simps]: "mapR g r = Inr y \<longleftrightarrow> (\<exists>x. r = Inr x \<and> g x = y)"
  by (cases r) auto

lemma mapR_eq_Inl [result_simps]: "mapR g r = Inl e \<longleftrightarrow> r = Inl e"
  by (cases r) auto

lemma map_errR_eq_Inr [result_simps]: "map_errR g r = Inr y \<longleftrightarrow> r = Inr y"
  by (cases r) auto

lemma map_errR_eq_Inl [result_simps]: "map_errR g r = Inl e \<longleftrightarrow> (\<exists>x. r = Inl x \<and> g x = e)"
  by (cases r) auto

lemma ok_or_eq_Inr [result_simps]: "ok_or e m = Inr y \<longleftrightarrow> m = Some y"
  by (cases m) auto

lemma guardR_eq_Inr [result_simps]: "guardR b e = Inr u \<longleftrightarrow> b"
  by (cases b) auto

lemma guardR_eq_Inl [result_simps]: "guardR b e = Inl e' \<longleftrightarrow> \<not> b \<and> e = e'"
  by (cases b) auto

lemma is_ok_iff: "is_ok r \<longleftrightarrow> (\<exists>x. r = Inr x)"
  by (cases r) auto

lemma collectR_Inr_length: "collectR rs = Inr xs \<Longrightarrow> length xs = length rs"
  by (induction rs arbitrary: xs) (auto simp: result_simps)

lemma collectR_map_Inr [simp]: "collectR (map (\<lambda>x. Inr (f x)) xs) = Inr (map f xs)"
  by (induction xs) auto

lemma collectR_Inr_iff:
  "collectR (map f xs) = Inr ys \<longleftrightarrow> list_all2 (\<lambda>x y. f x = Inr y) xs ys"
proof (induction xs arbitrary: ys)
  case Nil
  then show ?case by auto
next
  case (Cons x xs)
  then show ?case by (cases ys) (auto simp: result_simps)
qed

section \<open>Bytes and UTF-8 text\<close>

abbreviation byte :: "char \<Rightarrow> nat" where
  "byte c \<equiv> of_char c"

lemma byte_less_256 [simp]: "byte c < 256"
proof -
  have "byte c mod 256 < 256" by simp
  then show ?thesis by simp
qed

lemma byte_char_of [simp]: "n < 256 \<Longrightarrow> byte (char_of n) = n"
  by simp

definition is_cont :: "char \<Rightarrow> bool" where
  "is_cont c \<longleftrightarrow> 128 \<le> byte c \<and> byte c < 192"

definition char_count :: "string \<Rightarrow> nat" where
  "char_count s = length (filter (\<lambda>c. \<not> is_cont c) s)"

text \<open>Unicode \<open>Cc\<close>: U+0000 to U+001F and U+007F to U+009F (the latter are \<open>C2 80\<close> to \<open>C2 9F\<close>).\<close>

fun has_control :: "string \<Rightarrow> bool" where
  "has_control [] = False"
| "has_control (c # cs) =
     (byte c < 32 \<or> byte c = 127 \<or>
      (byte c = 194 \<and> (case cs of [] \<Rightarrow> False | d # _ \<Rightarrow> 128 \<le> byte d \<and> byte d < 160)) \<or>
      has_control cs)"

definition is_ascii :: "string \<Rightarrow> bool" where
  "is_ascii s = list_all (\<lambda>c. byte c < 128) s"

definition utf8_char :: "nat \<Rightarrow> string" where
  "utf8_char u =
     (if u < 128 then [char_of u]
      else if u < 2048 then [char_of (192 + u div 64), char_of (128 + u mod 64)]
      else if u < 65536 then
        [char_of (224 + u div 4096), char_of (128 + u div 64 mod 64), char_of (128 + u mod 64)]
      else [char_of (240 + u div 262144), char_of (128 + u div 4096 mod 64),
            char_of (128 + u div 64 mod 64), char_of (128 + u mod 64)])"

definition utf8_encode :: "nat list \<Rightarrow> string" where
  "utf8_encode us = concat (map utf8_char us)"

definition is_scalar :: "nat \<Rightarrow> bool" where
  "is_scalar u \<longleftrightarrow> u < 55296 \<or> (57344 \<le> u \<and> u < 1114112)"

definition is_control :: "nat \<Rightarrow> bool" where
  "is_control u \<longleftrightarrow> u < 32 \<or> (127 \<le> u \<and> u < 160)"

text \<open>\<open>str::from_utf8\<close>: well-formed UTF-8.\<close>

fun utf8_valid :: "string \<Rightarrow> bool" where
  "utf8_valid [] = True"
| "utf8_valid (c # cs) =
     (if byte c < 128 then utf8_valid cs
      else if 194 \<le> byte c \<and> byte c < 224
      then (case cs of d # ds \<Rightarrow> is_cont d \<and> utf8_valid ds | _ \<Rightarrow> False)
      else if 224 \<le> byte c \<and> byte c < 240
      then (case cs of
              d # e # es \<Rightarrow> is_cont d \<and> is_cont e \<and> (byte c = 224 \<longrightarrow> 160 \<le> byte d) \<and>
                (byte c = 237 \<longrightarrow> byte d < 160) \<and> utf8_valid es
            | _ \<Rightarrow> False)
      else if 240 \<le> byte c \<and> byte c < 245
      then (case cs of
              d # e # g # gs \<Rightarrow> is_cont d \<and> is_cont e \<and> is_cont g \<and> (byte c = 240 \<longrightarrow> 144 \<le> byte d) \<and>
                (byte c = 244 \<longrightarrow> byte d < 144) \<and> utf8_valid gs
            | _ \<Rightarrow> False)
      else False)"

lemma utf8_valid_ascii: "is_ascii s \<Longrightarrow> utf8_valid s"
  by (induction s) (auto simp: is_ascii_def)

text \<open>\<open>chars().take(n)\<close>: the bytes of the first \<open>n\<close> scalar values.\<close>

fun take_chars :: "nat \<Rightarrow> string \<Rightarrow> string" where
  "take_chars n [] = []"
| "take_chars n (c # cs) =
     (if is_cont c then c # take_chars n cs
      else case n of 0 \<Rightarrow> [] | Suc m \<Rightarrow> c # take_chars m cs)"

lemma take_chars_count: "char_count (take_chars n s) \<le> n"
  by (induction n s rule: take_chars.induct) (auto simp: char_count_def split: nat.split)

lemma take_chars_all: "char_count s \<le> n \<Longrightarrow> take_chars n s = s"
  by (induction n s rule: take_chars.induct)
     (auto simp: char_count_def split: nat.split if_splits)

lemma set_take_chars: "set (take_chars n s) \<subseteq> set s"
  by (induction n s rule: take_chars.induct) (auto split: nat.split)

lemma char_count_append [simp]: "char_count (a @ b) = char_count a + char_count b"
  by (simp add: char_count_def)

lemma char_count_le_length: "char_count s \<le> length s"
  by (simp add: char_count_def)

lemma scalar_bounds: "is_scalar u \<Longrightarrow> u div 262144 < 5 \<and> u div 4096 mod 64 < 64"
  by (auto simp: is_scalar_def)

lemma char_count_utf8_char: "is_scalar u \<Longrightarrow> char_count (utf8_char u) = 1"
  using scalar_bounds [of u]
  by (simp add: char_count_def utf8_char_def is_cont_def)

text \<open>\<open>char_count\<close> counts scalar values: it is \<open>chars().count()\<close> on every encoded string.\<close>

lemma char_count_utf8: "list_all is_scalar us \<Longrightarrow> char_count (utf8_encode us) = length us"
proof (induction us)
  case Nil
  then show ?case by (simp add: utf8_encode_def char_count_def)
next
  case (Cons u us)
  then show ?case by (simp add: utf8_encode_def char_count_utf8_char)
qed

lemma has_control_skip:
  "128 \<le> byte c \<Longrightarrow> byte c \<noteq> 194 \<Longrightarrow> has_control (c # cs) = has_control cs"
  by simp

lemma has_control_utf8_char:
  assumes "is_scalar u"
  shows "has_control (utf8_char u @ s) = (is_control u \<or> has_control s)"
proof -
  consider "u < 128" | "128 \<le> u" "u < 2048" | "2048 \<le> u" "u < 65536" | "65536 \<le> u"
    by linarith
  then show ?thesis
  proof cases
    case 1
    then show ?thesis by (auto simp: utf8_char_def is_control_def)
  next
    case 2
    then have "u div 64 = 2 \<longleftrightarrow> u < 192" by auto
    moreover have "u < 192 \<Longrightarrow> u mod 64 = u - 128"
      using 2 by (simp add: mod_if)
    ultimately show ?thesis
      using 2 by (auto simp: utf8_char_def is_control_def)
  next
    case 3
    then show ?thesis by (auto simp: utf8_char_def is_control_def)
  next
    case 4
    then show ?thesis
      using scalar_bounds [OF assms] by (auto simp: utf8_char_def is_control_def)
  qed
qed

lemma has_control_utf8:
  "list_all is_scalar us \<Longrightarrow> has_control (utf8_encode us) = list_ex is_control us"
  by (induction us) (auto simp: utf8_encode_def has_control_utf8_char)

section \<open>Text operations\<close>

definition is_digit :: "char \<Rightarrow> bool" where
  "is_digit c \<longleftrightarrow> 48 \<le> byte c \<and> byte c \<le> 57"

definition is_upper :: "char \<Rightarrow> bool" where
  "is_upper c \<longleftrightarrow> 65 \<le> byte c \<and> byte c \<le> 90"

definition is_lower :: "char \<Rightarrow> bool" where
  "is_lower c \<longleftrightarrow> 97 \<le> byte c \<and> byte c \<le> 122"

definition is_alpha :: "char \<Rightarrow> bool" where
  "is_alpha c \<longleftrightarrow> is_upper c \<or> is_lower c"

definition is_hexdigit :: "char \<Rightarrow> bool" where
  "is_hexdigit c \<longleftrightarrow> is_digit c \<or> (65 \<le> byte c \<and> byte c \<le> 70) \<or> (97 \<le> byte c \<and> byte c \<le> 102)"

definition lower_char :: "char \<Rightarrow> char" where
  "lower_char c = (if is_upper c then char_of (byte c + 32) else c)"

definition upper_char :: "char \<Rightarrow> char" where
  "upper_char c = (if is_lower c then char_of (byte c - 32) else c)"

abbreviation to_ascii_lowercase :: "string \<Rightarrow> string" where
  "to_ascii_lowercase s \<equiv> map lower_char s"

abbreviation to_ascii_uppercase :: "string \<Rightarrow> string" where
  "to_ascii_uppercase s \<equiv> map upper_char s"

text \<open>\<open>contains\<close> for a string and for a set of characters.\<close>

abbreviation contains :: "string \<Rightarrow> string \<Rightarrow> bool" where
  "contains s p \<equiv> sublist p s"

definition contains_any :: "string \<Rightarrow> char list \<Rightarrow> bool" where
  "contains_any s ps = list_ex (\<lambda>c. c \<in> set ps) s"

abbreviation starts_with :: "string \<Rightarrow> string \<Rightarrow> bool" where
  "starts_with s p \<equiv> prefix p s"

abbreviation ends_with :: "string \<Rightarrow> string \<Rightarrow> bool" where
  "ends_with s p \<equiv> suffix p s"

fun split_on :: "char \<Rightarrow> string \<Rightarrow> string list" where
  "split_on d [] = [[]]"
| "split_on d (c # cs) =
     (if c = d then [] # split_on d cs
      else (case split_on d cs of [] \<Rightarrow> [[c]] | p # ps \<Rightarrow> (c # p) # ps))"

text \<open>\<open>split_once\<close>: the text before and after the first separator.\<close>

fun split_once :: "char \<Rightarrow> string \<Rightarrow> (string \<times> string) option" where
  "split_once d [] = None"
| "split_once d (c # cs) =
     (if c = d then Some ([], cs)
      else map_option (\<lambda>(a, b). (c # a, b)) (split_once d cs))"

fun join_with :: "string \<Rightarrow> string list \<Rightarrow> string" where
  "join_with sep [] = []"
| "join_with sep [x] = x"
| "join_with sep (x # y # zs) = x @ sep @ join_with sep (y # zs)"

text \<open>
  \<open>trim\<close> removes Unicode \<open>White_Space\<close>: U+0009 to U+000D, U+0020, U+0085, U+00A0, U+1680,
  U+2000 to U+200A, U+2028, U+2029, U+202F, U+205F and U+3000, in their UTF-8 bytes.
\<close>

definition ws1 :: "char \<Rightarrow> bool" where
  "ws1 c \<longleftrightarrow> (9 \<le> byte c \<and> byte c \<le> 13) \<or> byte c = 32"

definition ws2 :: "char \<Rightarrow> char \<Rightarrow> bool" where
  "ws2 c d \<longleftrightarrow> byte c = 194 \<and> (byte d = 133 \<or> byte d = 160)"

definition ws3 :: "char \<Rightarrow> char \<Rightarrow> char \<Rightarrow> bool" where
  "ws3 c d e \<longleftrightarrow>
     (byte c = 225 \<and> byte d = 154 \<and> byte e = 128) \<or>
     (byte c = 226 \<and> byte d = 128 \<and>
        ((128 \<le> byte e \<and> byte e \<le> 138) \<or> byte e = 168 \<or> byte e = 169 \<or> byte e = 175)) \<or>
     (byte c = 226 \<and> byte d = 129 \<and> byte e = 159) \<or>
     (byte c = 227 \<and> byte d = 128 \<and> byte e = 128)"

fun ws_prefix :: "string \<Rightarrow> nat" where
  "ws_prefix [] = 0"
| "ws_prefix (c # cs) =
     (if ws1 c then 1
      else case cs of
        [] \<Rightarrow> 0
      | d # ds \<Rightarrow>
          if ws2 c d then 2
          else (case ds of [] \<Rightarrow> 0 | e # _ \<Rightarrow> if ws3 c d e then 3 else 0))"

fun ws_suffix_rev :: "string \<Rightarrow> nat" where
  "ws_suffix_rev [] = 0"
| "ws_suffix_rev (c # cs) =
     (if ws1 c then 1
      else case cs of
        [] \<Rightarrow> 0
      | d # ds \<Rightarrow>
          if ws2 d c then 2
          else (case ds of [] \<Rightarrow> 0 | e # _ \<Rightarrow> if ws3 e d c then 3 else 0))"

lemma ws_prefix_shrinks: "0 < ws_prefix s \<Longrightarrow> length s - ws_prefix s < length s"
  by (cases s) auto

lemma ws_suffix_shrinks: "0 < ws_suffix_rev s \<Longrightarrow> length s - ws_suffix_rev s < length s"
  by (cases s) auto

function trim_start :: "string \<Rightarrow> string" where
  "trim_start s = (if ws_prefix s = 0 then s else trim_start (drop (ws_prefix s) s))"
  by pat_completeness auto
termination
  by (relation "measure length") (auto simp: ws_prefix_shrinks)

function trim_start_rev :: "string \<Rightarrow> string" where
  "trim_start_rev s = (if ws_suffix_rev s = 0 then s else trim_start_rev (drop (ws_suffix_rev s) s))"
  by pat_completeness auto
termination
  by (relation "measure length") (auto simp: ws_suffix_shrinks)

declare trim_start.simps [simp del] trim_start_rev.simps [simp del]

definition trim_end :: "string \<Rightarrow> string" where
  "trim_end s = rev (trim_start_rev (rev s))"

definition trim :: "string \<Rightarrow> string" where
  "trim s = trim_end (trim_start s)"

text \<open>Printable ASCII is never whitespace, so a text that starts and ends with it is trimmed.\<close>

definition graphic :: "char \<Rightarrow> bool" where
  "graphic c \<longleftrightarrow> 33 \<le> byte c \<and> byte c \<le> 126"

lemma ws_prefix_graphic: "graphic c \<Longrightarrow> ws_prefix (c # cs) = 0"
  by (auto simp: graphic_def ws1_def ws2_def ws3_def split: list.splits)

lemma ws_suffix_graphic: "graphic c \<Longrightarrow> ws_suffix_rev (c # cs) = 0"
  by (auto simp: graphic_def ws1_def ws2_def ws3_def split: list.splits)

lemma trim_start_graphic: "s \<noteq> [] \<Longrightarrow> graphic (hd s) \<Longrightarrow> trim_start s = s"
  by (subst trim_start.simps) (cases s, auto simp: ws_prefix_graphic simp del: ws_prefix.simps)

lemma trim_end_graphic: "s \<noteq> [] \<Longrightarrow> graphic (last s) \<Longrightarrow> trim_end s = s"
  unfolding trim_end_def
  by (subst trim_start_rev.simps)
     (cases s rule: rev_cases, auto simp: ws_suffix_graphic simp del: ws_suffix_rev.simps)

lemma trim_graphic: "s \<noteq> [] \<Longrightarrow> graphic (hd s) \<Longrightarrow> graphic (last s) \<Longrightarrow> trim s = s"
  by (simp add: trim_def trim_start_graphic trim_end_graphic)

lemma trim_line:
  assumes "s \<noteq> []" "graphic (hd s)" "graphic (last s)"
  shows "trim (s @ [char_of (10::nat)]) = s"
proof -
  have start: "trim_start (s @ [char_of (10::nat)]) = s @ [char_of (10::nat)]"
    using assms by (intro trim_start_graphic) auto
  have "trim_end (s @ [char_of (10::nat)]) = trim_end s"
    unfolding trim_end_def
    by (subst trim_start_rev.simps) (simp add: ws1_def)
  with start assms show ?thesis
    by (simp add: trim_def trim_end_graphic)
qed

lemma trim_Nil [simp]: "trim [] = []"
  by (simp add: trim_def trim_end_def trim_start.simps trim_start_rev.simps)

section \<open>Decimal numbers\<close>

definition digit_char :: "nat \<Rightarrow> char" where
  "digit_char d = char_of (48 + d)"

fun dec :: "nat \<Rightarrow> string" where
  "dec n = (if n < 10 then [digit_char n] else dec (n div 10) @ [digit_char (n mod 10)])"

declare dec.simps [simp del]

definition dec_int :: "int \<Rightarrow> string" where
  "dec_int z = (if z < 0 then ''-'' @ dec (nat (- z)) else dec (nat z))"

text \<open>The format specifier \<open>{:02}\<close>.\<close>

definition pad2 :: "nat \<Rightarrow> string" where
  "pad2 n = (if n < 10 then ''0'' @ dec n else dec n)"

definition digits_value :: "string \<Rightarrow> nat" where
  "digits_value s = foldl (\<lambda>a c. 10 * a + (byte c - 48)) 0 s"

definition parse_digits :: "string \<Rightarrow> nat option" where
  "parse_digits s = (if s = [] \<or> \<not> list_all is_digit s then None else Some (digits_value s))"

text \<open>\<open>str::parse\<close> for an unsigned type with largest value \<open>m\<close> and for a signed type.\<close>

definition parse_uint :: "nat \<Rightarrow> string \<Rightarrow> nat option" where
  "parse_uint m s =
     (case (case s of c # cs \<Rightarrow> if c = CHR ''+'' then parse_digits cs else parse_digits s | [] \<Rightarrow> None)
      of None \<Rightarrow> None | Some n \<Rightarrow> if n \<le> m then Some n else None)"

definition parse_int :: "int \<Rightarrow> int \<Rightarrow> string \<Rightarrow> int option" where
  "parse_int lo hi s =
     (case (case s of
              [] \<Rightarrow> None
            | c # cs \<Rightarrow>
                if c = CHR ''+'' then map_option int (parse_digits cs)
                else if c = CHR ''-'' then map_option (\<lambda>n. - int n) (parse_digits cs)
                else map_option int (parse_digits s))
      of None \<Rightarrow> None | Some n \<Rightarrow> if lo \<le> n \<and> n \<le> hi then Some n else None)"

lemma is_digit_digit_char: "d < 10 \<Longrightarrow> is_digit (digit_char d)"
  by (simp add: is_digit_def digit_char_def)

lemma dec_digits: "list_all is_digit (dec n)"
proof (induction n rule: dec.induct)
  case (1 n)
  then show ?case
    by (subst dec.simps) (auto simp: is_digit_digit_char)
qed

lemma dec_nonempty [simp]: "dec n \<noteq> []"
  by (subst dec.simps) auto

lemma digits_value_snoc: "digits_value (s @ [c]) = 10 * digits_value s + (byte c - 48)"
  by (simp add: digits_value_def)

lemma digits_value_dec: "digits_value (dec n) = n"
proof (induction n rule: dec.induct)
  case (1 n)
  show ?case
  proof (cases "n < 10")
    case True
    then show ?thesis
      by (subst dec.simps) (simp add: digits_value_def digit_char_def)
  next
    case False
    with "1.IH" show ?thesis
      by (subst dec.simps) (simp add: digits_value_snoc digit_char_def)
  qed
qed

lemma parse_digits_dec: "parse_digits (dec n) = Some n"
  by (simp add: parse_digits_def dec_digits digits_value_dec)

lemma hd_dec_digit: "is_digit (hd (dec n))"
  using dec_digits [of n] by (cases "dec n") auto

lemma last_dec_digit: "is_digit (last (dec n))"
  using dec_digits [of n] by (cases "dec n" rule: rev_cases) auto

lemma digit_graphic: "is_digit c \<Longrightarrow> graphic c"
  by (simp add: is_digit_def graphic_def)

lemma parse_uint_dec: "n \<le> m \<Longrightarrow> parse_uint m (dec n) = Some n"
proof -
  assume n: "n \<le> m"
  obtain c cs where d: "dec n = c # cs" by (cases "dec n") auto
  with hd_dec_digit [of n] have "c \<noteq> CHR ''+''" by (auto simp: is_digit_def)
  then show ?thesis
    using n d parse_digits_dec [of n] by (simp add: parse_uint_def)
qed

lemma trim_dec_line: "trim (dec n @ [char_of (10::nat)]) = dec n"
  by (rule trim_line) (auto simp: hd_dec_digit last_dec_digit digit_graphic)

lemma dec_eq_iff [simp]: "dec m = dec n \<longleftrightarrow> m = n"
  by (metis digits_value_dec)

lemma dec_small: "n < 10 \<Longrightarrow> length (dec n) = 1"
  by (subst dec.simps) simp

lemma dec_digit: "n < 10 \<Longrightarrow> dec n = [digit_char n]"
  by (subst dec.simps) simp

lemma dec_large: "10 \<le> n \<Longrightarrow> hd (dec n) \<noteq> CHR ''0''"
proof (induction n rule: dec.induct)
  case (1 n)
  then show ?case
  proof (cases "n div 10 < 10")
    case True
    with "1.prems" show ?thesis
      apply (subst dec.simps)
      apply (subst dec.simps)
      apply (simp add: digit_char_def char_of_eq_iff take_bit_eq_mod)
      done
  next
    case False
    with "1" show ?thesis
      by (subst dec.simps) (simp add: hd_append)
  qed
qed

lemma dec_zero_small: "n < 10 \<Longrightarrow> ''0'' @ dec n \<noteq> dec m \<or> m < 10"
proof (rule disjCI)
  assume "n < 10" "\<not> m < 10"
  then have "hd (dec m) \<noteq> CHR ''0''" by (simp add: dec_large)
  then show "''0'' @ dec n \<noteq> dec m" by (metis append_Cons list.sel(1))
qed

lemma pad2_eq_iff [simp]: "pad2 m = pad2 n \<longleftrightarrow> m = n"
  using dec_zero_small [of m n] dec_zero_small [of n m]
  by (auto simp: pad2_def)

lemma pad2_digits: "list_all is_digit (pad2 n)"
  by (simp add: pad2_def dec_digits is_digit_def)

lemma pad2_nonempty [simp]: "pad2 n \<noteq> []"
  by (simp add: pad2_def)

lemma minus_not_dec: "''-'' @ s \<noteq> dec n"
proof
  assume "''-'' @ s = dec n"
  then have "dec n = CHR ''-'' # s" by simp
  with hd_dec_digit [of n] show False by (simp add: is_digit_def)
qed

lemma dec_int_eq_iff [simp]: "dec_int a = dec_int b \<longleftrightarrow> a = b"
  using minus_not_dec minus_not_dec [symmetric] by (auto simp: dec_int_def)

definition int_text :: "char \<Rightarrow> bool" where
  "int_text c \<longleftrightarrow> is_digit c \<or> c = CHR ''-''"

lemma dec_int_text: "list_all int_text (dec_int z)"
proof -
  have "list_all int_text (dec n)" for n
    using dec_digits [of n] by (auto simp: int_text_def list_all_iff)
  then show ?thesis by (simp add: dec_int_def int_text_def)
qed

lemma split_on_no_sep: "d \<notin> set s \<Longrightarrow> split_on d s = [s]"
  by (induction s) auto

lemma split_on_append: "d \<notin> set s \<Longrightarrow> split_on d (s @ d # t) = s # split_on d t"
  by (induction s) auto

lemma split_on_join:
  "ws \<noteq> [] \<Longrightarrow> list_all (\<lambda>w. d \<notin> set w) ws \<Longrightarrow> split_on d (join_with [d] ws) = ws"
  by (induction "[d]" ws rule: join_with.induct) (simp_all add: split_on_no_sep split_on_append)

section \<open>Codecs: renderings that can be joined into keys and file names\<close>

text \<open>
  A key or a file name is a sequence of rendered fields with a separator that no field
  can contain. The codec law (injective, over a fixed alphabet) is what makes the joined
  text unambiguous; deduplication keys and media paths are built from codecs.
\<close>

lemma sep_split_eq:
  assumes "list_all P a" "list_all P b" "\<not> P s"
  shows "a @ s # r = b @ s # r' \<longleftrightarrow> a = b \<and> r = r'"
  using assms
proof (induction a arbitrary: b)
  case Nil
  then show ?case by (cases b) auto
next
  case (Cons x xs)
  then show ?case by (cases b) auto
qed

locale text_codec =
  fixes enc :: "'a \<Rightarrow> string" and alphabet :: "char \<Rightarrow> bool"
  assumes enc_inj: "enc x = enc y \<Longrightarrow> x = y"
    and enc_alphabet: "list_all alphabet (enc x)"
begin

lemma enc_iff: "enc x = enc y \<longleftrightarrow> x = y"
  using enc_inj by blast

lemma enc_sep: "\<not> alphabet s \<Longrightarrow> enc x @ s # r = enc y @ s # r' \<longleftrightarrow> x = y \<and> r = r'"
  using sep_split_eq [OF enc_alphabet enc_alphabet] enc_iff by blast

lemma enc_no_sep: "\<not> alphabet s \<Longrightarrow> enc x \<noteq> a @ s # r"
  using enc_alphabet [of x] by auto

lemma enc_sep_end: "\<not> alphabet s \<Longrightarrow> enc x = enc y @ s # r \<longleftrightarrow> False"
  by (simp add: enc_no_sep)

end

interpretation dec_codec: text_codec dec is_digit
  by unfold_locales (auto simp: dec_digits)

interpretation pad2_codec: text_codec pad2 is_digit
  by unfold_locales (auto simp: pad2_digits)

interpretation int_codec: text_codec dec_int int_text
  by unfold_locales (auto simp: dec_int_text)

section \<open>Durations\<close>

text \<open>
  A \<open>std::time::Duration\<close> is its number of nanoseconds; the largest is
  \<open>u64::MAX\<close> seconds and 999,999,999 nanoseconds.
\<close>

type_synonym duration = nat

definition duration_max :: duration where
  "duration_max = (2 ^ 64 - 1) * 1000000000 + 999999999"

definition from_secs :: "nat \<Rightarrow> duration" where
  "from_secs n = n * 1000000000"

definition from_millis :: "nat \<Rightarrow> duration" where
  "from_millis n = n * 1000000"

definition as_secs :: "duration \<Rightarrow> nat" where
  "as_secs d = d div 1000000000"

definition as_micros :: "duration \<Rightarrow> nat" where
  "as_micros d = d div 1000"

definition checked_mul_duration :: "duration \<Rightarrow> nat \<Rightarrow> duration option" where
  "checked_mul_duration d k = (if d * k \<le> duration_max then Some (d * k) else None)"

abbreviation u16_max :: nat where "u16_max \<equiv> 65535"
abbreviation u32_max :: nat where "u32_max \<equiv> 4294967295"
abbreviation u64_max :: nat where "u64_max \<equiv> 18446744073709551615"
abbreviation i64_max :: nat where "i64_max \<equiv> 9223372036854775807"

lemma from_secs_mono: "m \<le> n \<Longrightarrow> from_secs m \<le> from_secs n"
  by (simp add: from_secs_def)

lemma as_secs_from_secs [simp]: "as_secs (from_secs n) = n"
  by (simp add: as_secs_def from_secs_def)

lemma from_secs_eq_0 [simp]: "from_secs n = 0 \<longleftrightarrow> n = 0"
  by (simp add: from_secs_def)

section \<open>Bounded attempt loops\<close>

text \<open>
  The retry loops of the program are \<open>for attempt in 1..=max\<close> with a body that returns,
  or sleeps and continues. \<open>for_attempts n k\<close> runs the body for the attempts \<open>k\<close> to
  \<open>k + n - 1\<close>; \<open>final\<close> is the value after the loop.
\<close>

datatype 'r outcome = Done 'r | Again

fun for_attempts ::
    "nat \<Rightarrow> nat \<Rightarrow> (nat \<Rightarrow> 's \<Rightarrow> 'r outcome \<times> 's) \<Rightarrow> 'r \<Rightarrow> 's \<Rightarrow> 'r \<times> 's" where
  "for_attempts 0 k body final s = (final, s)"
| "for_attempts (Suc n) k body final s =
     (case body k s of
        (Done r, s') \<Rightarrow> (r, s')
      | (Again, s') \<Rightarrow> for_attempts n (Suc k) body final s')"

lemma for_attempts_Done:
  "body k s = (Done r, s') \<Longrightarrow> 0 < n \<Longrightarrow> for_attempts n k body final s = (r, s')"
  by (cases n) auto

lemma for_attempts_Again:
  "body k s = (Again, s') \<Longrightarrow> 0 < n \<Longrightarrow>
   for_attempts n k body final s = for_attempts (n - 1) (Suc k) body final s'"
  by (cases n) auto

lemma for_attempts_post:
  assumes "P s" "for_attempts n k body final s = (r, s')"
    and "\<And>k s s'. P s \<Longrightarrow> body k s = (Again, s') \<Longrightarrow> P s'"
    and "\<And>k s s' r. P s \<Longrightarrow> body k s = (Done r, s') \<Longrightarrow> Q r s'"
    and "\<And>s. P s \<Longrightarrow> Q final s"
  shows "Q r s'"
  using assms(1,2)
proof (induction n arbitrary: k s)
  case 0
  then show ?case using assms(5) by auto
next
  case (Suc n)
  obtain x t where b: "body k s = (x, t)" by (cases "body k s") auto
  then show ?case
    using Suc assms(3) [OF \<open>P s\<close>, of k t] assms(4) [OF \<open>P s\<close>, of k _ t] by (cases x) auto
qed

text \<open>
  The contract of a loop body: it keeps an invariant of the state, spends at most one unit
  of a budget per attempt, and returns only results that satisfy a postcondition; the last
  attempt always returns, so the value after the loop is never reached.
\<close>

locale bounded_attempts =
  fixes body :: "nat \<Rightarrow> 's \<Rightarrow> 'r outcome \<times> 's"
    and limit :: nat
    and inv :: "'s \<Rightarrow> bool"
    and cost :: "'s \<Rightarrow> nat"
    and post :: "'r \<Rightarrow> 's \<Rightarrow> bool"
  assumes again: "inv s \<Longrightarrow> body k s = (Again, s') \<Longrightarrow> inv s' \<and> cost s' \<le> Suc (cost s)"
    and returns: "inv s \<Longrightarrow> body k s = (Done r, s') \<Longrightarrow> post r s' \<and> cost s' \<le> Suc (cost s)"
    and last_returns: "fst (body limit s) \<noteq> Again"
begin

lemma loop:
  assumes "inv s" "for_attempts n k body final s = (r, s')" "n + k = Suc limit" "0 < n"
  shows "cost s' \<le> cost s + n \<and> post r s'"
  using assms
proof (induction n arbitrary: k s)
  case (Suc n)
  obtain x t where b: "body k s = (x, t)" by (cases "body k s") auto
  show ?case
  proof (cases x)
    case (Done q)
    with b Suc.prems returns [of s k q t] show ?thesis by auto
  next
    case Again
    with b again [OF \<open>inv s\<close>, of k t] have t: "inv t" "cost t \<le> Suc (cost s)" by auto
    from Again b last_returns [of s] have "k \<noteq> limit" by auto
    with Suc.prems have "0 < n" by linarith
    moreover have "for_attempts n (Suc k) body final t = (r, s')"
      using Suc.prems b Again by simp
    ultimately have "cost s' \<le> cost t + n \<and> post r s'"
      using Suc.IH [OF t(1)] Suc.prems by simp
    with t show ?thesis by auto
  qed
qed simp

lemma run:
  assumes "inv s" "for_attempts limit 1 body final s = (r, s')" "0 < limit"
  shows "cost s' \<le> cost s + limit \<and> post r s'"
  using loop [OF assms(1,2)] assms(3) by simp

end

end
