(* ===== verification/Domain.thy ===== *)
theory Domain
  imports Prelude
begin

text \<open>
  Values shared by the components: the media namespace of \<open>src/crates/tmdb-domain/src/media.rs\<close>,
  JSON values as \<open>serde_json::Value\<close> holds them, and URLs as the \<open>url\<close> crate parses them.
\<close>

section \<open>Media namespaces\<close>

datatype media_type = Movie | Tv

definition media_type_as_str :: "media_type \<Rightarrow> string" where
  "media_type_as_str m = (case m of Movie \<Rightarrow> ''movie'' | Tv \<Rightarrow> ''tv'')"

definition media_type_from_str :: "string \<Rightarrow> media_type option" where
  "media_type_from_str s =
     (if s = ''movie'' then Some Movie else if s = ''tv'' then Some Tv else None)"

lemma media_type_round_trip: "media_type_from_str (media_type_as_str m) = Some m"
  by (cases m) (simp_all add: media_type_from_str_def media_type_as_str_def)

section \<open>JSON values\<close>

text \<open>
  A number is an integer or, opaquely, the text of any other number; an object is its list of
  entries in the map's order, without duplicate keys.
\<close>

datatype json =
    JNull
  | JBool bool
  | JInt int
  | JFloat string
  | JStr string
  | JArr "json list"
  | JObj "(string \<times> json) list"

fun json_get :: "json \<Rightarrow> string \<Rightarrow> json option" where
  "json_get (JObj kvs) k = map_of kvs k"
| "json_get _ k = None"

definition is_object :: "json \<Rightarrow> bool" where
  "is_object v = (case v of JObj _ \<Rightarrow> True | _ \<Rightarrow> False)"

fun as_str :: "json \<Rightarrow> string option" where
  "as_str (JStr s) = Some s"
| "as_str _ = None"

fun as_u64 :: "json \<Rightarrow> nat option" where
  "as_u64 (JInt n) = (if 0 \<le> n \<and> n \<le> 18446744073709551615 then Some (nat n) else None)"
| "as_u64 _ = None"

fun as_i64 :: "json \<Rightarrow> int option" where
  "as_i64 (JInt n) =
     (if - 9223372036854775808 \<le> n \<and> n \<le> 9223372036854775807 then Some n else None)"
| "as_i64 _ = None"

fun as_array :: "json \<Rightarrow> json list option" where
  "as_array (JArr xs) = Some xs"
| "as_array _ = None"

section \<open>URLs\<close>

record url =
  url_scheme :: string
  url_host :: "string option"
  url_username :: string
  url_password :: "string option"
  url_path :: string
  url_query :: "string option"
  url_fragment :: "string option"

section \<open>HTTP headers\<close>

text \<open>\<open>HeaderValue::to_str\<close> succeeds on visible ASCII, space and tab.\<close>

definition header_text :: "string \<Rightarrow> string option" where
  "header_text v =
     (if list_all (\<lambda>c. (32 \<le> byte c \<and> byte c < 127) \<or> byte c = 9) v then Some v else None)"

end
