(* ===== verification/Job_Model.thy ===== *)
theory Job_Model
  imports Domain
begin

text \<open>
  Durable jobs: the validated values of \<open>src/crates/tmdb-jobs/src/model.rs\<close>, the errors of
  \<open>error.rs\<close> and the execution errors of \<open>worker.rs\<close>. A job identifier is its UUID as a
  number, a timestamp microseconds since the epoch; \<open>year_of\<close> (chrono) and \<open>render\<close>
  (\<open>serde_json::to_vec\<close>) are parameters.
\<close>

section \<open>Errors\<close>

datatype validation_error =
    BadJobType | BadPayloadVersion | BadJsonObject | BadDedupKey | BadWorkerId | BadPriority
  | BadBatchSize | BadMaxAttempts | BadAvailableAt | BadMessage | BadFailureCode | BadDuration

datatype job_error =
    Validation validation_error | JobNotFound | LeaseLost | Rejected | Capacity | DatabaseError

record job_execution_error =
  code :: string
  retry_delay :: duration
  terminal :: bool

definition job_retry :: "string \<Rightarrow> duration \<Rightarrow> job_execution_error" where
  "job_retry c d = \<lparr>code = c, retry_delay = d, terminal = False\<rparr>"

definition job_dead_letter :: "string \<Rightarrow> job_execution_error" where
  "job_dead_letter c = \<lparr>code = c, retry_delay = 0, terminal = True\<rparr>"

section \<open>Limits\<close>

definition max_job_type_chars :: nat where "max_job_type_chars = 128"
definition max_dedup_key_chars :: nat where "max_dedup_key_chars = 256"
definition max_worker_id_chars :: nat where "max_worker_id_chars = 128"
definition max_cancel_message_chars :: nat where "max_cancel_message_chars = 1024"
definition max_failure_message_chars :: nat where "max_failure_message_chars = 2048"
definition max_json_bytes :: nat where "max_json_bytes = 65536"
definition max_lease_micros :: nat where "max_lease_micros = 3600000000"
definition max_retry_micros :: nat where "max_retry_micros = 604800000000"

section \<open>Validation\<close>

definition validate_text :: "string \<Rightarrow> nat \<Rightarrow> validation_error \<Rightarrow> validation_error + unit" where
  "validate_text s max_chars e =
     (if \<not> is_ascii s \<or> trim s = '''' \<or> char_count s > max_chars \<or> has_control s \<or> s \<noteq> trim s
      then Inl e else Inr ())"

definition validate_json_object ::
    "(json \<Rightarrow> string option) \<Rightarrow> json \<Rightarrow> validation_error + unit" where
  "validate_json_object render v =
     (if \<not> is_object v then Inl BadJsonObject
      else case render v of
        None \<Rightarrow> Inl BadJsonObject
      | Some bytes \<Rightarrow> if length bytes > max_json_bytes then Inl BadJsonObject else Inr ())"

definition validate_message :: "string \<Rightarrow> nat \<Rightarrow> validation_error + unit" where
  "validate_message s m = validate_text s m BadMessage"

definition canonical_failure_codes :: "string list" where
  "canonical_failure_codes =
     [''execution_failed'', ''upstream_unavailable'', ''upstream_unauthorized'', ''rate_limited'',
      ''invalid_payload'', ''lease_expired'', ''attempts_exhausted'', ''entity_not_ready'',
      ''export_storage'', ''database_unavailable'', ''export_queue_incomplete'',
      ''changes_queue_full'', ''missing_queue_full'']"

definition validate_legacy_failure_message :: "string \<Rightarrow> validation_error + unit" where
  "validate_legacy_failure_message s =
     (if trim s = '''' \<or> char_count s > max_failure_message_chars \<or> has_control s \<or> s \<noteq> trim s
      then Inl BadFailureCode else Inr ())"

definition validate_failure_code :: "string \<Rightarrow> validation_error + unit" where
  "validate_failure_code s =
     (if s \<in> set canonical_failure_codes then Inr () else validate_legacy_failure_message s)"

section \<open>Identities and states\<close>

definition worker_id_new :: "string \<Rightarrow> validation_error + string" where
  "worker_id_new s = bindR (validate_text s max_worker_id_chars BadWorkerId) (\<lambda>_. Inr s)"

datatype job_status = Queued | Running | RetryWait | Succeeded | DeadLetter | Cancelled

definition job_status_parse :: "string \<Rightarrow> job_error + job_status" where
  "job_status_parse s =
     (if s = ''queued'' then Inr Queued
      else if s = ''running'' then Inr Running
      else if s = ''retry_wait'' then Inr RetryWait
      else if s = ''succeeded'' then Inr Succeeded
      else if s = ''dead_letter'' then Inr DeadLetter
      else if s = ''cancelled'' then Inr Cancelled
      else Inl DatabaseError)"

section \<open>Submissions\<close>

record new_job =
  nj_type :: string
  nj_version :: int
  nj_payload :: json
  nj_priority :: int
  nj_max_attempts :: int
  nj_available_at :: "int option"
  nj_dedup_key :: string

definition new_job_new ::
    "(json \<Rightarrow> string option) \<Rightarrow> string \<Rightarrow> int \<Rightarrow> json \<Rightarrow> string \<Rightarrow> validation_error + new_job" where
  "new_job_new render job_type version payload key =
     bindR (validate_text job_type max_job_type_chars BadJobType) (\<lambda>_.
     if version \<le> 0 then Inl BadPayloadVersion
     else
       bindR (validate_json_object render payload) (\<lambda>_.
       bindR (validate_text key max_dedup_key_chars BadDedupKey) (\<lambda>_.
       Inr \<lparr>nj_type = job_type, nj_version = version, nj_payload = payload, nj_priority = 0,
            nj_max_attempts = 3, nj_available_at = None, nj_dedup_key = key\<rparr>)))"

definition new_job_noop :: "(json \<Rightarrow> string option) \<Rightarrow> string \<Rightarrow> validation_error + new_job" where
  "new_job_noop render key = new_job_new render ''system.noop'' 1 (JObj []) key"

definition with_priority :: "new_job \<Rightarrow> int \<Rightarrow> validation_error + new_job" where
  "with_priority j p =
     (if \<not> (- 1000 \<le> p \<and> p \<le> 1000) then Inl BadPriority else Inr (j\<lparr>nj_priority := p\<rparr>))"

definition with_max_attempts :: "new_job \<Rightarrow> int \<Rightarrow> validation_error + new_job" where
  "with_max_attempts j n =
     (if \<not> (1 \<le> n \<and> n \<le> 100) then Inl BadMaxAttempts else Inr (j\<lparr>nj_max_attempts := n\<rparr>))"

definition with_available_at :: "(int \<Rightarrow> int) \<Rightarrow> new_job \<Rightarrow> int \<Rightarrow> validation_error + new_job" where
  "with_available_at year_of j t =
     (if \<not> (1 \<le> year_of t \<and> year_of t \<le> 9999) then Inl BadAvailableAt
      else Inr (j\<lparr>nj_available_at := Some t\<rparr>))"

text \<open>What every accepted submission satisfies.\<close>

definition wf_new_job :: "(json \<Rightarrow> string option) \<Rightarrow> (int \<Rightarrow> int) \<Rightarrow> new_job \<Rightarrow> bool" where
  "wf_new_job render year_of j \<longleftrightarrow>
     validate_text (nj_type j) max_job_type_chars BadJobType = Inr () \<and> 0 < nj_version j \<and>
     validate_json_object render (nj_payload j) = Inr () \<and>
     - 1000 \<le> nj_priority j \<and> nj_priority j \<le> 1000 \<and>
     1 \<le> nj_max_attempts j \<and> nj_max_attempts j \<le> 100 \<and>
     (case nj_available_at j of None \<Rightarrow> True | Some t \<Rightarrow> 1 \<le> year_of t \<and> year_of t \<le> 9999) \<and>
     validate_text (nj_dedup_key j) max_dedup_key_chars BadDedupKey = Inr ()"

lemma new_job_new_wf: "new_job_new render ty v p k = Inr j \<Longrightarrow> wf_new_job render year_of j"
  by (auto simp: new_job_new_def wf_new_job_def result_simps split: if_splits)

lemma with_priority_wf:
  "with_priority j p = Inr j' \<Longrightarrow> wf_new_job render year_of j \<Longrightarrow> wf_new_job render year_of j'"
  by (auto simp: with_priority_def wf_new_job_def split: if_splits)

lemma with_max_attempts_wf:
  "with_max_attempts j n = Inr j' \<Longrightarrow> wf_new_job render year_of j \<Longrightarrow> wf_new_job render year_of j'"
  by (auto simp: with_max_attempts_def wf_new_job_def split: if_splits)

lemma with_available_at_wf:
  "with_available_at year_of j t = Inr j' \<Longrightarrow> wf_new_job render year_of j \<Longrightarrow>
   wf_new_job render year_of j'"
  by (auto simp: with_available_at_def wf_new_job_def split: if_splits)

lemmas new_job_wf_intros = with_priority_wf with_max_attempts_wf with_available_at_wf

section \<open>Texts that pass validation\<close>

text \<open>Printable ASCII without blanks always passes, if it is short enough.\<close>

lemma graphic_ascii: "list_all graphic s \<Longrightarrow> is_ascii s"
  by (auto simp: is_ascii_def list_all_iff graphic_def)

lemma graphic_no_control: "list_all graphic s \<Longrightarrow> \<not> has_control s"
  by (induction s) (auto simp: graphic_def)

lemma graphic_trim: "list_all graphic s \<Longrightarrow> trim s = s"
  by (cases "s = []") (auto simp: list_all_iff intro!: trim_graphic)

lemma char_count_ascii: "is_ascii s \<Longrightarrow> char_count s = length s"
  by (induction s) (auto simp: is_ascii_def char_count_def is_cont_def)

lemma validate_text_graphic:
  "list_all graphic s \<Longrightarrow> s \<noteq> [] \<Longrightarrow> length s \<le> m \<Longrightarrow> validate_text s m e = Inr ()"
  by (simp add: validate_text_def graphic_ascii graphic_no_control graphic_trim char_count_ascii)

lemma validate_failure_code_canonical:
  "s \<in> set canonical_failure_codes \<Longrightarrow> validate_failure_code s = Inr ()"
  by (simp add: validate_failure_code_def)

section \<open>Claimed jobs and outcomes\<close>

record claimed_job =
  cj_id :: nat
  cj_type :: string
  cj_version :: int
  cj_payload :: json
  cj_attempts :: int
  cj_max_attempts :: int
  cj_lease_expires_at :: int
  cj_cancellation_requested :: bool

record submit_outcome =
  so_job_id :: nat
  so_duplicate :: bool

record job_view =
  jv_id :: nat
  jv_status :: job_status
  jv_attempts :: int
  jv_max_attempts :: int
  jv_available_at :: "int option"
  jv_cancellation_requested :: bool
  jv_error_message :: "string option"
  jv_created_at :: int
  jv_updated_at :: int
  jv_finished_at :: "int option"

datatype failure_disposition = RetryScheduled int | DeadLettered | CancelledInstead

end
