(* ===== verification/Lease_Queue.thy ===== *)
theory Lease_Queue
  imports Job_Model
begin

text \<open>
  The leased job queue behind the repository: the SQL functions of
  \<open>src/crates/tmdb-db/migrations\<close> as of the last migration (\<open>submit_job\<close>, \<open>claim_job_for_types\<close>,
  \<open>heartbeat_job\<close>, \<open>complete_job\<close>, \<open>fail_job\<close>, \<open>dead_letter_job\<close>, \<open>request_job_cancel\<close>,
  \<open>job_cancellation_requested\<close>). A table is the list of its rows; each function is one
  transaction; clock readings, rows locked by other transactions, the job-type registry and the
  worker control switches are arguments. An error is its SQLSTATE.
\<close>

section \<open>Rows and events\<close>

record job_row =
  jr_id :: nat
  jr_type :: string
  jr_version :: int
  jr_payload :: json
  jr_priority :: int
  jr_status :: job_status
  jr_attempts :: int
  jr_max_attempts :: int
  jr_available_at :: int
  jr_lease_owner :: "string option"
  jr_lease_expires :: "int option"
  jr_dedup_key :: string
  jr_cancel :: bool
  jr_claimable :: bool
  jr_result :: "json option"
  jr_error :: "string option"
  jr_created_at :: int
  jr_finished_at :: "int option"

record job_event =
  ev_job :: nat
  ev_kind :: string
  ev_from :: "job_status option"
  ev_to :: job_status
  ev_worker :: "string option"

record job_queue =
  q_rows :: "job_row list"
  q_events :: "job_event list"

definition find_row :: "nat \<Rightarrow> job_queue \<Rightarrow> job_row option" where
  "find_row i q = find (\<lambda>r. jr_id r = i) (q_rows q)"

definition update_row :: "nat \<Rightarrow> (job_row \<Rightarrow> job_row) \<Rightarrow> job_queue \<Rightarrow> job_queue" where
  "update_row i f q = q\<lparr>q_rows := map (\<lambda>r. if jr_id r = i then f r else r) (q_rows q)\<rparr>"

definition log_event :: "job_event \<Rightarrow> job_queue \<Rightarrow> job_queue" where
  "log_event e q = q\<lparr>q_events := q_events q @ [e]\<rparr>"

definition active :: "job_status \<Rightarrow> bool" where
  "active s \<longleftrightarrow> s \<in> {Queued, RetryWait, Running}"

definition is_terminal :: "job_status \<Rightarrow> bool" where
  "is_terminal s \<longleftrightarrow> s \<in> {Succeeded, DeadLetter, Cancelled}"

definition expires_by :: "int \<Rightarrow> job_row \<Rightarrow> bool" where
  "expires_by now r = (case jr_lease_expires r of None \<Rightarrow> False | Some t \<Rightarrow> t \<le> now)"

text \<open>The row is running under a lease of \<open>w\<close> that has not expired.\<close>

definition owns :: "int \<Rightarrow> string \<Rightarrow> job_row \<Rightarrow> bool" where
  "owns now w r \<longleftrightarrow>
     jr_status r = Running \<and> jr_lease_owner r = Some w \<and>
     (case jr_lease_expires r of None \<Rightarrow> False | Some t \<Rightarrow> t > now)"

section \<open>Argument checks\<close>

definition btrim :: "string \<Rightarrow> string" where
  "btrim s = rev (dropWhile (\<lambda>c. c = CHR '' '') (rev (dropWhile (\<lambda>c. c = CHR '' '') s)))"

definition job_valid_ascii :: "string \<Rightarrow> nat \<Rightarrow> bool" where
  "job_valid_ascii s m \<longleftrightarrow>
     0 < m \<and> 1 \<le> char_count s \<and> char_count s \<le> m \<and> length s = char_count s \<and> s = btrim s \<and>
     \<not> has_control s"

definition message_ok :: "string \<Rightarrow> nat \<Rightarrow> bool" where
  "message_ok s m \<longleftrightarrow> s = btrim s \<and> 1 \<le> char_count s \<and> char_count s \<le> m \<and> \<not> has_control s"

text \<open>The codes that \<open>ops.job_failure_code\<close> keeps; any other message becomes \<open>execution_failed\<close>.\<close>

definition stored_failure_codes :: "string list" where
  "stored_failure_codes =
     [''execution_failed'', ''upstream_unavailable'', ''upstream_unauthorized'', ''rate_limited'',
      ''invalid_payload'', ''lease_expired'', ''attempts_exhausted'', ''entity_not_ready'',
      ''export_storage'', ''database_unavailable'', ''export_queue_incomplete'']"

definition job_failure_code :: "string \<Rightarrow> string" where
  "job_failure_code s = (if s \<in> set stored_failure_codes then s else ''execution_failed'')"

section \<open>Submission\<close>

definition submit_job ::
    "(string \<Rightarrow> int \<Rightarrow> bool) \<Rightarrow> (string \<Rightarrow> json option) \<Rightarrow> (int \<Rightarrow> int) \<Rightarrow> int \<Rightarrow> nat \<Rightarrow> string \<Rightarrow> int \<Rightarrow>
     string \<Rightarrow> int \<Rightarrow> int \<Rightarrow> int option \<Rightarrow> string \<Rightarrow> job_queue \<Rightarrow> (string + nat \<times> bool) \<times> job_queue" where
  "submit_job enabled to_jsonb year_of now i ty version payload priority attempts available key q =
     (if \<not> job_valid_ascii ty 128 \<or> version \<le> 0 \<or> length payload > 65536 \<or>
         \<not> (- 1000 \<le> priority \<and> priority \<le> 1000) \<or> \<not> (1 \<le> attempts \<and> attempts \<le> 100) \<or>
         (case available of None \<Rightarrow> False | Some t \<Rightarrow> \<not> (1 \<le> year_of t \<and> year_of t \<le> 9999)) \<or>
         \<not> job_valid_ascii key 256
      then (Inl ''22023'', q)
      else case to_jsonb payload of
        None \<Rightarrow> (Inl ''22023'', q)
      | Some v \<Rightarrow>
          if \<not> is_object v \<or> \<not> enabled ty version then (Inl ''22023'', q)
          else case find (\<lambda>r. jr_type r = ty \<and> jr_dedup_key r = key \<and> active (jr_status r)) (q_rows q) of
            Some r \<Rightarrow> (Inr (jr_id r, True), q)
          | None \<Rightarrow>
              if find_row i q \<noteq> None then (Inl ''23505'', q)
              else
                (Inr (i, False),
                 log_event \<lparr>ev_job = i, ev_kind = ''submitted'', ev_from = None, ev_to = Queued,
                            ev_worker = None\<rparr>
                   (q\<lparr>q_rows := q_rows q @
                     [\<lparr>jr_id = i, jr_type = ty, jr_version = version, jr_payload = v,
                       jr_priority = priority, jr_status = Queued, jr_attempts = 0,
                       jr_max_attempts = attempts,
                       jr_available_at = (case available of Some t \<Rightarrow> t | None \<Rightarrow> now),
                       jr_lease_owner = None, jr_lease_expires = None, jr_dedup_key = key,
                       jr_cancel = False, jr_claimable = True, jr_result = None, jr_error = None,
                       jr_created_at = now, jr_finished_at = None\<rparr>]\<rparr>)))"

section \<open>Claiming\<close>

fun least :: "('a \<Rightarrow> 'a \<Rightarrow> bool) \<Rightarrow> 'a list \<Rightarrow> 'a option" where
  "least before [] = None"
| "least before (x # xs) =
     (case least before xs of None \<Rightarrow> Some x | Some y \<Rightarrow> Some (if before y x then y else x))"

text \<open>\<open>ORDER BY priority DESC, available_at, created_at, id\<close>.\<close>

definition claim_before :: "job_row \<Rightarrow> job_row \<Rightarrow> bool" where
  "claim_before a b \<longleftrightarrow>
     jr_priority a > jr_priority b \<or>
     (jr_priority a = jr_priority b \<and>
       (jr_available_at a < jr_available_at b \<or>
        (jr_available_at a = jr_available_at b \<and>
          (jr_created_at a < jr_created_at b \<or>
           (jr_created_at a = jr_created_at b \<and> jr_id a < jr_id b)))))"

definition expired_before :: "job_row \<Rightarrow> job_row \<Rightarrow> bool" where
  "expired_before a b \<longleftrightarrow>
     the (jr_lease_expires a) < the (jr_lease_expires b) \<or>
     (the (jr_lease_expires a) = the (jr_lease_expires b) \<and> claim_before a b)"

definition type_allowed :: "string list option \<Rightarrow> job_row \<Rightarrow> bool" where
  "type_allowed types r = (case types of None \<Rightarrow> True | Some ts \<Rightarrow> jr_type r \<in> set ts)"

definition finish_row :: "job_status \<Rightarrow> string option \<Rightarrow> int \<Rightarrow> job_row \<Rightarrow> job_row" where
  "finish_row st err now r =
     r\<lparr>jr_status := st, jr_lease_owner := None, jr_lease_expires := None, jr_cancel := False,
       jr_error := err, jr_finished_at := Some now\<rparr>"

definition claim_cancel_expired ::
    "int \<Rightarrow> (nat \<Rightarrow> bool) \<Rightarrow> string list option \<Rightarrow> job_queue \<Rightarrow> job_queue" where
  "claim_cancel_expired now locked types q =
     (case least expired_before
        (filter (\<lambda>r. jr_status r = Running \<and> jr_cancel r \<and> expires_by now r \<and>
                     type_allowed types r \<and> \<not> locked (jr_id r)) (q_rows q)) of
        None \<Rightarrow> q
      | Some r \<Rightarrow>
          log_event \<lparr>ev_job = jr_id r, ev_kind = ''cancelled'', ev_from = Some Running,
                     ev_to = Cancelled, ev_worker = None\<rparr>
            (update_row (jr_id r) (finish_row Cancelled None now) q))"

definition claim_bury_exhausted ::
    "int \<Rightarrow> (nat \<Rightarrow> bool) \<Rightarrow> string list option \<Rightarrow> job_queue \<Rightarrow> job_queue" where
  "claim_bury_exhausted now locked types q =
     (case least claim_before
        (filter (\<lambda>r. jr_status r = Running \<and> jr_attempts r \<ge> jr_max_attempts r \<and>
                     expires_by now r \<and> type_allowed types r \<and> \<not> locked (jr_id r)) (q_rows q)) of
        None \<Rightarrow> q
      | Some r \<Rightarrow>
          (let st = (if jr_cancel r then Cancelled else DeadLetter);
               err = (if jr_cancel r then None else Some ''lease_expired'')
           in log_event \<lparr>ev_job = jr_id r,
                         ev_kind = (if st = Cancelled then ''cancelled'' else ''dead_lettered''),
                         ev_from = Some Running, ev_to = st, ev_worker = None\<rparr>
                (update_row (jr_id r) (finish_row st err now) q)))"

definition claimable_row ::
    "(string \<Rightarrow> int \<Rightarrow> bool) \<Rightarrow> bool \<Rightarrow> (nat \<Rightarrow> bool) \<Rightarrow> string list option \<Rightarrow> job_row \<Rightarrow> bool" where
  "claimable_row enabled media locked types r \<longleftrightarrow>
     enabled (jr_type r) (jr_version r) \<and> jr_claimable r \<and> type_allowed types r \<and>
     (jr_type r \<notin> {''image.download'', ''admin.media_audit''} \<or> media) \<and> \<not> locked (jr_id r)"

definition ready_row :: "int \<Rightarrow> job_row \<Rightarrow> bool" where
  "ready_row now r \<longleftrightarrow> jr_status r \<in> {Queued, RetryWait} \<and> jr_available_at r \<le> now"

definition reclaim_row :: "int \<Rightarrow> job_row \<Rightarrow> bool" where
  "reclaim_row now r \<longleftrightarrow>
     jr_status r = Running \<and> jr_attempts r < jr_max_attempts r \<and> \<not> jr_cancel r \<and> expires_by now r"

definition claim_candidate ::
    "(string \<Rightarrow> int \<Rightarrow> bool) \<Rightarrow> bool \<Rightarrow> int \<Rightarrow> (nat \<Rightarrow> bool) \<Rightarrow> string list option \<Rightarrow> job_queue \<Rightarrow> job_row option" where
  "claim_candidate enabled media now locked types q =
     (let ok = filter (claimable_row enabled media locked types) (q_rows q);
          ready = least claim_before (filter (ready_row now) ok);
          reclaim = least claim_before (filter (reclaim_row now) ok)
      in least claim_before
           ((case ready of None \<Rightarrow> [] | Some r \<Rightarrow> [r]) @ (case reclaim of None \<Rightarrow> [] | Some r \<Rightarrow> [r])))"

definition claim_row :: "int \<Rightarrow> string \<Rightarrow> int \<Rightarrow> job_row \<Rightarrow> job_row" where
  "claim_row now w lease r =
     r\<lparr>jr_status := Running, jr_lease_owner := Some w, jr_lease_expires := Some (now + lease),
       jr_attempts := jr_attempts r + 1\<rparr>"

definition claimed_of :: "job_row \<Rightarrow> claimed_job" where
  "claimed_of r =
     \<lparr>cj_id = jr_id r, cj_type = jr_type r, cj_version = jr_version r, cj_payload = jr_payload r,
      cj_attempts = jr_attempts r, cj_max_attempts = jr_max_attempts r,
      cj_lease_expires_at = (case jr_lease_expires r of None \<Rightarrow> 0 | Some t \<Rightarrow> t),
      cj_cancellation_requested = jr_cancel r\<rparr>"

text \<open>The three clock readings of the function are \<open>t1\<close>, \<open>t2\<close> and \<open>t3\<close>.\<close>

definition claim_job_uncontrolled ::
    "(string \<Rightarrow> int \<Rightarrow> bool) \<Rightarrow> bool \<Rightarrow> int \<times> int \<times> int \<Rightarrow> (nat \<Rightarrow> bool) \<Rightarrow> string \<Rightarrow> int \<Rightarrow>
     string list option \<Rightarrow> job_queue \<Rightarrow> (string + claimed_job option) \<times> job_queue" where
  "claim_job_uncontrolled enabled media clock locked w lease types q =
     (if \<not> job_valid_ascii w 128 \<or> \<not> (1 \<le> lease \<and> lease \<le> 3600000000) \<or>
         (case types of None \<Rightarrow> False
          | Some ts \<Rightarrow> \<not> (1 \<le> length ts \<and> length ts \<le> 64) \<or>
                        list_ex (\<lambda>t. \<not> job_valid_ascii t 128) ts)
      then (Inl ''22023'', q)
      else
        (let (t1, t2, t3) = clock;
             q1 = claim_cancel_expired t1 locked types q;
             q2 = claim_bury_exhausted t2 locked types q1
         in case claim_candidate enabled media t3 locked types q2 of
              None \<Rightarrow> (Inr None, q2)
            | Some r \<Rightarrow>
                (Inr (Some (claimed_of (claim_row t3 w lease r))),
                 log_event \<lparr>ev_job = jr_id r,
                            ev_kind = (if jr_status r = Running then ''reclaimed'' else ''claimed''),
                            ev_from = Some (jr_status r), ev_to = Running, ev_worker = Some w\<rparr>
                   (update_row (jr_id r) (claim_row t3 w lease) q2))))"

text \<open>The control switches in front of it: \<open>claim_enabled\<close> of the media or the ingest scope.\<close>

definition claim_job_for_types ::
    "(string \<Rightarrow> bool) \<Rightarrow> (string \<Rightarrow> int \<Rightarrow> bool) \<Rightarrow> bool \<Rightarrow> int \<times> int \<times> int \<Rightarrow> (nat \<Rightarrow> bool) \<Rightarrow> string \<Rightarrow>
     int \<Rightarrow> string list option \<Rightarrow> job_queue \<Rightarrow> (string + claimed_job option) \<times> job_queue" where
  "claim_job_for_types claim_enabled enabled media clock locked w lease types q =
     (let ts = (case types of None \<Rightarrow> [] | Some ts \<Rightarrow> ts)
      in if list_ex (\<lambda>t. t \<in> {''image.download'', ''admin.media_audit'', ''system.noop''}) ts
         then (if \<not> claim_enabled ''media'' then (Inr None, q)
               else claim_job_uncontrolled enabled media clock locked w lease types q)
         else if list_ex (\<lambda>t. starts_with t ''ingest.'' \<or>
                   t \<in> {''admin.scan'', ''admin.media_scan'', ''admin.analyze''}) ts
         then (if \<not> claim_enabled ''ingest'' then (Inr None, q)
               else claim_job_uncontrolled enabled media clock locked w lease types q)
         else claim_job_uncontrolled enabled media clock locked w lease types q)"

section \<open>Operations under a lease\<close>

text \<open>The common end of every leased operation that finds no row to update.\<close>

definition not_leased :: "nat \<Rightarrow> job_queue \<Rightarrow> string" where
  "not_leased i q = (if find_row i q = None then ''P0002'' else ''P0001'')"

definition heartbeat_job ::
    "int \<Rightarrow> nat \<Rightarrow> string \<Rightarrow> int \<Rightarrow> job_queue \<Rightarrow> (string + int) \<times> job_queue" where
  "heartbeat_job now i w lease q =
     (if \<not> job_valid_ascii w 128 \<or> \<not> (1 \<le> lease \<and> lease \<le> 3600000000) then (Inl ''22023'', q)
      else if \<not> (case find_row i q of None \<Rightarrow> False | Some r \<Rightarrow> owns now w r)
      then (Inl (not_leased i q), q)
      else
        (Inr (now + lease),
         log_event \<lparr>ev_job = i, ev_kind = ''heartbeat'', ev_from = Some Running, ev_to = Running,
                    ev_worker = Some w\<rparr>
           (update_row i (\<lambda>r. r\<lparr>jr_lease_expires := Some (now + lease)\<rparr>) q)))"

definition job_cancellation_requested :: "nat \<Rightarrow> string \<Rightarrow> job_queue \<Rightarrow> bool option" where
  "job_cancellation_requested i w q =
     (case find_row i q of
        None \<Rightarrow> None
      | Some r \<Rightarrow>
          if jr_status r = Running \<and> jr_lease_owner r = Some w then Some (jr_cancel r) else None)"

definition complete_job ::
    "(string \<Rightarrow> json option) \<Rightarrow> int \<Rightarrow> nat \<Rightarrow> string \<Rightarrow> string \<Rightarrow> job_queue \<Rightarrow>
     (string + job_status) \<times> job_queue" where
  "complete_job to_jsonb now i w result q =
     (if \<not> job_valid_ascii w 128 \<or> length result > 65536 then (Inl ''22023'', q)
      else case to_jsonb result of
        None \<Rightarrow> (Inl ''22023'', q)
      | Some v \<Rightarrow>
          if \<not> is_object v then (Inl ''22023'', q)
          else case find_row i q of
            None \<Rightarrow> (Inl ''P0002'', q)
          | Some r \<Rightarrow>
              if \<not> owns now w r then (Inl ''P0001'', q)
              else
                (let st = (if jr_cancel r then Cancelled else Succeeded)
                 in (Inr st,
                     log_event \<lparr>ev_job = i,
                                ev_kind = (if st = Cancelled then ''cancelled'' else ''succeeded''),
                                ev_from = Some Running, ev_to = st, ev_worker = Some w\<rparr>
                       (update_row i (\<lambda>r. (finish_row st None now r)
                          \<lparr>jr_result := (if jr_cancel r then None else Some v)\<rparr>) q))))"

definition fail_job ::
    "int \<Rightarrow> nat \<Rightarrow> string \<Rightarrow> string \<Rightarrow> int \<Rightarrow> job_queue \<Rightarrow> (string + job_status \<times> int) \<times> job_queue" where
  "fail_job now i w msg delay q =
     (if \<not> job_valid_ascii w 128 \<or> \<not> message_ok msg 2048 \<or> \<not> (1 \<le> delay \<and> delay \<le> 604800000000)
      then (Inl ''22023'', q)
      else case find_row i q of
        None \<Rightarrow> (Inl ''P0002'', q)
      | Some r \<Rightarrow>
          if \<not> owns now w r then (Inl ''P0001'', q)
          else
            (let st = (if jr_cancel r then Cancelled
                       else if jr_attempts r < jr_max_attempts r then RetryWait else DeadLetter);
                 err = (if st = Cancelled then None else Some (job_failure_code msg));
                 available = (if st = RetryWait then now + delay else jr_available_at r)
             in (Inr (st, available),
                 log_event \<lparr>ev_job = i,
                            ev_kind = (if st = RetryWait then ''retry_scheduled''
                                       else if st = DeadLetter then ''dead_lettered'' else ''cancelled''),
                            ev_from = Some Running, ev_to = st, ev_worker = Some w\<rparr>
                   (update_row i (\<lambda>r. (finish_row st err now r)
                      \<lparr>jr_available_at := available,
                       jr_finished_at := (if st = RetryWait then None else Some now)\<rparr>) q))))"

definition dead_letter_job ::
    "int \<Rightarrow> nat \<Rightarrow> string \<Rightarrow> string \<Rightarrow> job_queue \<Rightarrow> (string + job_status \<times> int) \<times> job_queue" where
  "dead_letter_job now i w msg q =
     (if \<not> job_valid_ascii w 128 \<or> \<not> message_ok msg 2048 then (Inl ''22023'', q)
      else case find_row i q of
        None \<Rightarrow> (Inl ''P0002'', q)
      | Some r \<Rightarrow>
          if \<not> owns now w r then (Inl ''P0001'', q)
          else
            (let st = (if jr_cancel r then Cancelled else DeadLetter);
                 err = (if st = Cancelled then None else Some (job_failure_code msg))
             in (Inr (st, jr_available_at r),
                 log_event \<lparr>ev_job = i,
                            ev_kind = (if st = DeadLetter then ''dead_lettered'' else ''cancelled''),
                            ev_from = Some Running, ev_to = st, ev_worker = Some w\<rparr>
                   (update_row i (finish_row st err now) q))))"

definition request_job_cancel ::
    "(string \<Rightarrow> int \<Rightarrow> bool) \<Rightarrow> int \<Rightarrow> nat \<Rightarrow> string \<Rightarrow> job_queue \<Rightarrow>
     (string + job_status \<times> bool) \<times> job_queue" where
  "request_job_cancel enabled now i msg q =
     (if \<not> message_ok msg 1024 then (Inl ''22023'', q)
      else case find_row i q of
        None \<Rightarrow> (Inl ''P0002'', q)
      | Some r \<Rightarrow>
          if jr_status r \<in> {Queued, RetryWait} \<or>
             (jr_status r = Running \<and> expires_by now r \<and> \<not> enabled (jr_type r) (jr_version r))
          then (Inr (Cancelled, False),
                log_event \<lparr>ev_job = i, ev_kind = ''cancelled'', ev_from = Some (jr_status r),
                           ev_to = Cancelled, ev_worker = None\<rparr>
                  (update_row i (finish_row Cancelled None now) q))
          else if jr_status r = Running \<and> \<not> jr_cancel r
          then (Inr (Running, True),
                log_event \<lparr>ev_job = i, ev_kind = ''cancellation_requested'', ev_from = Some Running,
                           ev_to = Running, ev_worker = None\<rparr>
                  (update_row i (\<lambda>r. r\<lparr>jr_cancel := True\<rparr>) q))
          else (Inr (jr_status r, jr_cancel r), q))"

section \<open>Rows stay well formed\<close>

text \<open>The constraint \<open>jobs_state_shape_check\<close> and the attempt bounds of the table.\<close>

definition row_ok :: "job_row \<Rightarrow> bool" where
  "row_ok r \<longleftrightarrow>
     0 \<le> jr_attempts r \<and> jr_attempts r \<le> jr_max_attempts r \<and> 1 \<le> jr_max_attempts r \<and>
     jr_max_attempts r \<le> 100 \<and>
     (if jr_status r = Running
      then jr_lease_owner r \<noteq> None \<and> jr_lease_expires r \<noteq> None \<and> jr_finished_at r = None \<and>
           1 \<le> jr_attempts r
      else jr_lease_owner r = None \<and> jr_lease_expires r = None \<and> \<not> jr_cancel r \<and>
           (jr_finished_at r \<noteq> None \<longleftrightarrow> is_terminal (jr_status r)) \<and>
           (is_terminal (jr_status r) \<or> jr_attempts r < jr_max_attempts r))"

definition same_job :: "job_row \<Rightarrow> job_row \<Rightarrow> bool" where
  "same_job r r' \<longleftrightarrow>
     jr_id r' = jr_id r \<and> jr_type r' = jr_type r \<and> jr_version r' = jr_version r \<and>
     jr_payload r' = jr_payload r \<and> jr_dedup_key r' = jr_dedup_key r \<and>
     jr_max_attempts r' = jr_max_attempts r \<and> jr_created_at r' = jr_created_at r"

text \<open>
  One change of one row: a live row moves on, keeps its identity, loses no attempt, is claimed
  only when no lease is live at \<open>now\<close>, and the change is logged. \<open>grant\<close> is the worker that is
  given a lease, if the change is a claim.
\<close>

definition row_change :: "int \<Rightarrow> job_row \<Rightarrow> job_row \<Rightarrow> bool" where
  "row_change now r r' \<longleftrightarrow>
     same_job r r' \<and> \<not> is_terminal (jr_status r) \<and> (row_ok r \<longrightarrow> row_ok r') \<and>
     (if jr_attempts r' = jr_attempts r
      then jr_lease_owner r' = None \<or>
           (jr_lease_owner r' = jr_lease_owner r \<and> jr_status r' = jr_status r)
      else jr_attempts r' = jr_attempts r + 1 \<and> jr_status r' = Running \<and>
           (\<forall>w. \<not> owns now w r))"

inductive queue_move :: "job_queue \<Rightarrow> job_queue \<Rightarrow> bool" where
  change: "find_row i q = Some r \<Longrightarrow> row_change now r (f r) \<Longrightarrow>
    ev_job e = i \<Longrightarrow> ev_from e = Some (jr_status r) \<Longrightarrow> ev_to e = jr_status (f r) \<Longrightarrow>
    queue_move q (log_event e (update_row i f q))"
| insert: "find_row (jr_id r) q = None \<Longrightarrow> row_ok r \<Longrightarrow> jr_status r = Queued \<Longrightarrow>
    jr_attempts r = 0 \<Longrightarrow>
    find (\<lambda>s. jr_type s = jr_type r \<and> jr_dedup_key s = jr_dedup_key r \<and> active (jr_status s))
      (q_rows q) = None \<Longrightarrow>
    ev_job e = jr_id r \<Longrightarrow> ev_from e = None \<Longrightarrow> ev_to e = Queued \<Longrightarrow>
    queue_move q (log_event e (q\<lparr>q_rows := q_rows q @ [r]\<rparr>))"

text \<open>The functions of the queue as one step relation.\<close>

inductive queue_step :: "job_queue \<Rightarrow> job_queue \<Rightarrow> bool" where
  submit: "submit_job enabled to_jsonb year_of now i ty v p pr n av k q = (res, q') \<Longrightarrow> queue_step q q'"
| claim: "claim_job_for_types ce enabled media clock locked w lease types q = (res, q') \<Longrightarrow> queue_step q q'"
| heartbeat: "heartbeat_job now i w lease q = (res, q') \<Longrightarrow> queue_step q q'"
| complete: "complete_job to_jsonb now i w result q = (res, q') \<Longrightarrow> queue_step q q'"
| fail: "fail_job now i w msg delay q = (res, q') \<Longrightarrow> queue_step q q'"
| dead_letter: "dead_letter_job now i w msg q = (res, q') \<Longrightarrow> queue_step q q'"
| cancel: "request_job_cancel enabled now i msg q = (res, q') \<Longrightarrow> queue_step q q'"

section \<open>Every step is a sequence of moves\<close>

definition distinct_ids :: "job_queue \<Rightarrow> bool" where
  "distinct_ids q = distinct (map jr_id (q_rows q))"

lemma find_row_id: "find_row i q = Some r \<Longrightarrow> jr_id r = i"
  by (auto simp: find_row_def find_Some_iff)

lemma find_row_log [simp]: "find_row i (log_event e q) = find_row i q"
  by (simp add: find_row_def log_event_def)

lemma find_row_mem:
  assumes "distinct_ids q" "r \<in> set (q_rows q)"
  shows "find_row (jr_id r) q = Some r"
proof -
  have "find (\<lambda>s. jr_id s = jr_id r) rs = Some r"
    if "distinct (map jr_id rs)" "r \<in> set rs" for rs
    using that by (induction rs) (auto simp: image_iff)
  then show ?thesis using assms by (simp add: find_row_def distinct_ids_def)
qed

lemma least_mem: "least before xs = Some x \<Longrightarrow> x \<in> set xs"
  by (induction xs arbitrary: x) (auto split: option.splits if_splits)

lemma find_row_update:
  assumes "\<And>r. jr_id (f r) = jr_id r"
  shows "find_row j (update_row i f q) =
    (if j = i then map_option f (find_row j q) else find_row j q)"
proof -
  have "find (\<lambda>r. jr_id r = j) (map (\<lambda>r. if jr_id r = i then f r else r) rs) =
      (if j = i then map_option f (find (\<lambda>r. jr_id r = j) rs) else find (\<lambda>r. jr_id r = j) rs)" for rs
    using assms by (induction rs) auto
  then show ?thesis by (simp add: find_row_def update_row_def)
qed

lemma finish_row_id [simp]: "jr_id (finish_row st e now r) = jr_id r"
  by (simp add: finish_row_def)

lemma move_one: "queue_move q q' \<Longrightarrow> queue_move\<^sup>*\<^sup>* q q'"
  by blast

lemma owns_running: "owns now w r \<Longrightarrow> jr_status r = Running"
  by (simp add: owns_def)

text \<open>Ending a running row is a move.\<close>

lemma row_change_finish:
  assumes "jr_status r = Running" "is_terminal st"
  shows "row_change now r (finish_row st err t r)"
  using assms by (auto simp: row_change_def same_job_def finish_row_def row_ok_def is_terminal_def)

lemma row_change_cancel_waiting:
  "jr_status r \<in> {Queued, RetryWait} \<Longrightarrow> row_change now r (finish_row Cancelled None t r)"
  by (auto simp: row_change_def same_job_def finish_row_def row_ok_def is_terminal_def)

lemma complete_moves:
  assumes "complete_job to_jsonb now i w result q = (res, q')"
  shows "queue_move\<^sup>*\<^sup>* q q'"
proof (cases "q' = q")
  case False
  then obtain r v where r: "find_row i q = Some r" "owns now w r" and
    q': "q' = log_event \<lparr>ev_job = i,
          ev_kind = (if (if jr_cancel r then Cancelled else Succeeded) = Cancelled then ''cancelled''
                     else ''succeeded''),
          ev_from = Some Running, ev_to = (if jr_cancel r then Cancelled else Succeeded),
          ev_worker = Some w\<rparr>
        (update_row i (\<lambda>s. (finish_row (if jr_cancel r then Cancelled else Succeeded) None now s)
           \<lparr>jr_result := (if jr_cancel s then None else Some v)\<rparr>) q)"
    using assms by (auto simp: complete_job_def Let_def split: if_splits option.splits)
  show ?thesis unfolding q'
    by (rule move_one, rule queue_move.change [OF r(1), where now = now])
       (use owns_running [OF r(2)] in \<open>auto simp: row_change_def same_job_def finish_row_def row_ok_def
          is_terminal_def\<close>)
qed simp

lemma fail_moves:
  assumes "fail_job now i w msg delay q = (res, q')"
  shows "queue_move\<^sup>*\<^sup>* q q'"
proof (cases "q' = q")
  case False
  then obtain r where r: "find_row i q = Some r" "owns now w r"
    using assms by (auto simp: fail_job_def Let_def split: if_splits option.splits)
  let ?st = "if jr_cancel r then Cancelled
             else if jr_attempts r < jr_max_attempts r then RetryWait else DeadLetter"
  let ?f = "\<lambda>s. (finish_row ?st (if ?st = Cancelled then None else Some (job_failure_code msg)) now s)
      \<lparr>jr_available_at := (if ?st = RetryWait then now + delay else jr_available_at r),
       jr_finished_at := (if ?st = RetryWait then None else Some now)\<rparr>"
  have q': "\<exists>kind. q' = log_event \<lparr>ev_job = i, ev_kind = kind, ev_from = Some Running, ev_to = ?st,
      ev_worker = Some w\<rparr> (update_row i ?f q)"
    using assms False r by (auto simp: fail_job_def Let_def split: if_splits)
  have "row_change now r (?f r)"
    using owns_running [OF r(2)]
    by (auto simp: row_change_def same_job_def finish_row_def row_ok_def is_terminal_def)
  moreover have "?st = jr_status (?f r)" by (simp add: finish_row_def)
  ultimately show ?thesis
    using q' owns_running [OF r(2)] by (auto intro!: move_one queue_move.change [OF r(1)])
qed simp

lemma dead_letter_moves:
  assumes "dead_letter_job now i w msg q = (res, q')"
  shows "queue_move\<^sup>*\<^sup>* q q'"
proof (cases "q' = q")
  case False
  then obtain r where r: "find_row i q = Some r" "owns now w r"
    using assms by (auto simp: dead_letter_job_def Let_def split: if_splits option.splits)
  let ?st = "if jr_cancel r then Cancelled else DeadLetter"
  let ?f = "finish_row ?st (if ?st = Cancelled then None else Some (job_failure_code msg)) now"
  have q': "\<exists>kind. q' = log_event \<lparr>ev_job = i, ev_kind = kind, ev_from = Some Running, ev_to = ?st,
      ev_worker = Some w\<rparr> (update_row i ?f q)"
    using assms False r by (auto simp: dead_letter_job_def Let_def split: if_splits)
  have "row_change now r (?f r)"
    using owns_running [OF r(2)] by (intro row_change_finish) (auto simp: is_terminal_def)
  moreover have "?st = jr_status (?f r)" by (simp add: finish_row_def)
  ultimately show ?thesis
    using q' owns_running [OF r(2)] by (auto intro!: move_one queue_move.change [OF r(1)])
qed simp

lemma heartbeat_moves:
  assumes "heartbeat_job now i w lease q = (res, q')"
  shows "queue_move\<^sup>*\<^sup>* q q'"
proof (cases "q' = q")
  case False
  then obtain r where r: "find_row i q = Some r" "owns now w r" and
    q': "q' = log_event \<lparr>ev_job = i, ev_kind = ''heartbeat'', ev_from = Some Running, ev_to = Running,
          ev_worker = Some w\<rparr> (update_row i (\<lambda>r. r\<lparr>jr_lease_expires := Some (now + lease)\<rparr>) q)"
    using assms by (auto simp: heartbeat_job_def split: if_splits option.splits)
  show ?thesis unfolding q'
    by (rule move_one, rule queue_move.change [OF r(1), where now = now])
       (use owns_running [OF r(2)] in \<open>auto simp: row_change_def same_job_def row_ok_def is_terminal_def\<close>)
qed simp

lemma cancel_moves:
  assumes "request_job_cancel enabled now i msg q = (res, q')"
  shows "queue_move\<^sup>*\<^sup>* q q'"
proof (cases "q' = q")
  case False
  then obtain r where r: "find_row i q = Some r"
    using assms by (auto simp: request_job_cancel_def split: if_splits option.splits)
  consider kind where "jr_status r \<in> {Queued, RetryWait} \<or> jr_status r = Running"
      "q' = log_event \<lparr>ev_job = i, ev_kind = kind, ev_from = Some (jr_status r), ev_to = Cancelled,
         ev_worker = None\<rparr> (update_row i (finish_row Cancelled None now) q)"
    | kind where "jr_status r = Running"
      "q' = log_event \<lparr>ev_job = i, ev_kind = kind, ev_from = Some Running, ev_to = Running,
         ev_worker = None\<rparr> (update_row i (\<lambda>r. r\<lparr>jr_cancel := True\<rparr>) q)"
    using assms False r by (auto simp: request_job_cancel_def split: if_splits)
  then show ?thesis
  proof cases
    case (1 kind)
    then have "row_change now r (finish_row Cancelled None now r)"
      using row_change_finish [of r Cancelled] row_change_cancel_waiting [of r]
      by (auto simp: is_terminal_def)
    then show ?thesis unfolding 1(2)
      by (intro move_one queue_move.change [OF r]) (auto simp: finish_row_def)
  next
    case (2 kind)
    show ?thesis unfolding 2(2)
      by (rule move_one, rule queue_move.change [OF r, where now = now])
         (use 2(1) in \<open>auto simp: row_change_def same_job_def row_ok_def is_terminal_def\<close>)
  qed
qed simp

lemma submit_moves:
  assumes "submit_job enabled to_jsonb year_of now i ty v p pr n av k q = (res, q')"
  shows "queue_move\<^sup>*\<^sup>* q q'"
proof (cases "q' = q")
  case False
  with assms show ?thesis
    by (auto simp: submit_job_def row_ok_def is_terminal_def split: if_splits option.splits
        intro!: move_one queue_move.insert)
qed simp

lemma least_filter_row:
  assumes "distinct_ids q" "least before (filter P (q_rows q)) = Some r"
  shows "find_row (jr_id r) q = Some r \<and> P r"
  using least_mem [OF assms(2)] find_row_mem [OF assms(1)] by simp

lemma cancel_expired_moves:
  assumes "distinct_ids q"
  shows "queue_move\<^sup>*\<^sup>* q (claim_cancel_expired now locked types q)"
proof (cases "least expired_before
    (filter (\<lambda>r. jr_status r = Running \<and> jr_cancel r \<and> expires_by now r \<and>
       type_allowed types r \<and> \<not> locked (jr_id r)) (q_rows q))")
  case (Some r)
  note r = least_filter_row [OF assms Some]
  have "row_change now r (finish_row Cancelled None now r)"
    using r by (intro row_change_finish) (auto simp: is_terminal_def)
  then show ?thesis
    using r Some unfolding claim_cancel_expired_def
    by (auto intro!: move_one queue_move.change simp: finish_row_def)
qed (simp add: claim_cancel_expired_def)

lemma bury_exhausted_moves:
  assumes "distinct_ids q"
  shows "queue_move\<^sup>*\<^sup>* q (claim_bury_exhausted now locked types q)"
proof (cases "least claim_before
    (filter (\<lambda>r. jr_status r = Running \<and> jr_attempts r \<ge> jr_max_attempts r \<and>
       expires_by now r \<and> type_allowed types r \<and> \<not> locked (jr_id r)) (q_rows q))")
  case (Some r)
  note r = least_filter_row [OF assms Some]
  let ?st = "if jr_cancel r then Cancelled else DeadLetter"
  have "row_change now r (finish_row ?st err now r)" for err
    using r by (intro row_change_finish) (auto simp: is_terminal_def)
  then show ?thesis
    using r Some unfolding claim_bury_exhausted_def Let_def
    by (auto intro!: move_one queue_move.change simp: finish_row_def split del: if_split)
qed (simp add: claim_bury_exhausted_def)

lemma candidate_row:
  assumes "distinct_ids q" "claim_candidate enabled media now locked types q = Some r"
  shows "find_row (jr_id r) q = Some r \<and> (ready_row now r \<or> reclaim_row now r) \<and>
    claimable_row enabled media locked types r"
proof -
  let ?ok = "filter (claimable_row enabled media locked types) (q_rows q)"
  have "r \<in> set ?ok \<and> (ready_row now r \<or> reclaim_row now r)"
    using least_mem [of claim_before _ r] assms(2)
    by (auto simp: claim_candidate_def Let_def dest!: least_mem split: option.splits)
  then show ?thesis using find_row_mem [OF assms(1)] by auto
qed

lemma row_change_claim:
  assumes "ready_row now r \<or> reclaim_row now r"
  shows "row_change now r (claim_row now w lease r)"
  using assms
  by (auto simp: row_change_def same_job_def claim_row_def row_ok_def is_terminal_def ready_row_def
      reclaim_row_def owns_def expires_by_def split: option.splits)

text \<open>A move keeps the row identifiers distinct.\<close>

lemma row_ids_update:
  "(\<And>r. jr_id (f r) = jr_id r) \<Longrightarrow> map jr_id (q_rows (update_row i f q)) = map jr_id (q_rows q)"
  by (simp add: update_row_def)

lemma rows_log [simp]: "q_rows (log_event e q) = q_rows q"
  by (simp add: log_event_def)

lemma events_update [simp]: "q_events (update_row i f q) = q_events q"
  by (simp add: update_row_def)

lemma distinct_ids_log [simp]: "distinct_ids (log_event e q) = distinct_ids q"
  by (simp add: distinct_ids_def)

lemma distinct_ids_update:
  "(\<And>r. jr_id (f r) = jr_id r) \<Longrightarrow> distinct_ids (update_row i f q) = distinct_ids q"
  by (simp add: distinct_ids_def row_ids_update)

lemma update_row_only:
  assumes "distinct_ids q" "find_row i q = Some r"
  shows "q_rows (update_row i f q) = map (\<lambda>s. if s = r then f r else s) (q_rows q)"
proof -
  have "jr_id s = i \<longleftrightarrow> s = r" if "s \<in> set (q_rows q)" for s
    by (metis assms find_row_mem find_row_id option.inject that)
  then show ?thesis by (simp add: update_row_def cong: map_cong)
qed

lemma claim_uncontrolled_moves:
  assumes "distinct_ids q"
    and "claim_job_uncontrolled enabled media clock locked w lease types q = (res, q')"
  shows "queue_move\<^sup>*\<^sup>* q q'"
proof (cases "q' = q")
  case False
  obtain t1 t2 t3 where clock: "clock = (t1, t2, t3)" by (cases clock)
  let ?q1 = "claim_cancel_expired t1 locked types q"
  let ?q2 = "claim_bury_exhausted t2 locked types ?q1"
  have d1: "distinct_ids ?q1"
    using assms(1) by (auto simp: claim_cancel_expired_def distinct_ids_update split: option.split)
  then have d2: "distinct_ids ?q2"
    by (auto simp: claim_bury_exhausted_def Let_def distinct_ids_update split: option.split)
  have to2: "queue_move\<^sup>*\<^sup>* q ?q2"
    using cancel_expired_moves [OF assms(1)] bury_exhausted_moves [OF d1] by (rule rtranclp_trans)
  show ?thesis
  proof (cases "claim_candidate enabled media t3 locked types ?q2")
    case None
    then have "q' = ?q2" using assms(2) False clock by (auto simp: claim_job_uncontrolled_def split: if_splits)
    then show ?thesis using to2 by simp
  next
    case (Some r)
    note r = candidate_row [OF d2 Some]
    obtain kind where q': "q' = log_event \<lparr>ev_job = jr_id r, ev_kind = kind,
        ev_from = Some (jr_status r), ev_to = Running, ev_worker = Some w\<rparr>
        (update_row (jr_id r) (claim_row t3 w lease) ?q2)"
      using assms(2) False clock Some by (auto simp: claim_job_uncontrolled_def split: if_splits)
    have "queue_move ?q2 q'" unfolding q'
      using r row_change_claim [of t3 r] by (intro queue_move.change) (auto simp: claim_row_def)
    with to2 show ?thesis by simp
  qed
qed simp

lemma claim_moves:
  assumes "distinct_ids q"
    and "claim_job_for_types ce enabled media clock locked w lease types q = (res, q')"
  shows "queue_move\<^sup>*\<^sup>* q q'"
  using assms claim_uncontrolled_moves [OF assms(1)]
  by (auto simp: claim_job_for_types_def Let_def split: if_splits)

lemma queue_step_moves:
  assumes "queue_step q q'" "distinct_ids q"
  shows "queue_move\<^sup>*\<^sup>* q q'"
  using assms
  by (induction rule: queue_step.induct)
     (blast intro: submit_moves claim_moves heartbeat_moves complete_moves fail_moves
        dead_letter_moves cancel_moves)+

section \<open>Invariants\<close>

text \<open>
  \<open>replay i\<close> follows the events of job \<open>i\<close>: each event must start in the status the previous
  one ended in. \<open>None\<close> is a broken log; \<open>Some st\<close> the status reached (\<open>None\<close> before submission).
\<close>

fun replay :: "nat \<Rightarrow> job_status option \<Rightarrow> job_event list \<Rightarrow> job_status option option" where
  "replay i st [] = Some st"
| "replay i st (e # es) =
     (if ev_job e \<noteq> i then replay i st es
      else if ev_from e = st then replay i (Some (ev_to e)) es
      else None)"

lemma replay_snoc:
  "replay i st (es @ [e]) =
     (case replay i st es of
        None \<Rightarrow> None
      | Some s \<Rightarrow> if ev_job e \<noteq> i then Some s else if ev_from e = s then Some (Some (ev_to e)) else None)"
  by (induction i st es rule: replay.induct) auto

definition active_keys :: "job_queue \<Rightarrow> (string \<times> string) list" where
  "active_keys q =
     map (\<lambda>r. (jr_type r, jr_dedup_key r)) (filter (\<lambda>r. active (jr_status r)) (q_rows q))"

definition queue_inv :: "job_queue \<Rightarrow> bool" where
  "queue_inv q \<longleftrightarrow>
     distinct_ids q \<and> list_all row_ok (q_rows q) \<and> distinct (active_keys q) \<and>
     (\<forall>i. replay i None (q_events q) = Some (map_option jr_status (find_row i q)))"

lemma active_not_terminal: "active s \<longleftrightarrow> \<not> is_terminal s"
  by (cases s) (auto simp: active_def is_terminal_def)

lemma active_keys_change:
  assumes "distinct_ids q" "find_row i q = Some r" "same_job r (f r)" "active (jr_status r)"
  shows "active_keys (update_row i f q) =
    map (\<lambda>s. (jr_type s, jr_dedup_key s))
      (filter (\<lambda>s. active (jr_status s) \<and> (s = r \<longrightarrow> active (jr_status (f r)))) (q_rows q))"
proof -
  have "map (\<lambda>s. (jr_type s, jr_dedup_key s))
      (filter (\<lambda>s. active (jr_status s)) (map (\<lambda>s. if s = r then f r else s) rs)) =
    map (\<lambda>s. (jr_type s, jr_dedup_key s))
      (filter (\<lambda>s. active (jr_status s) \<and> (s = r \<longrightarrow> active (jr_status (f r)))) rs)" for rs
    using assms(3,4) by (induction rs) (auto simp: same_job_def)
  then show ?thesis unfolding active_keys_def update_row_only [OF assms(1,2)] .
qed

lemma distinct_map_filter_imp:
  "distinct (map g (filter P xs)) \<Longrightarrow> distinct (map g (filter (\<lambda>x. P x \<and> Q x) xs))"
  by (induction xs) (auto split: if_splits)

lemma update_ids_at:
  assumes "distinct_ids q" "find_row i q = Some r" "jr_id (f r) = jr_id r"
  shows "map jr_id (q_rows (update_row i f q)) = map jr_id (q_rows q)"
  unfolding update_row_only [OF assms(1,2)] using assms(3) by simp

lemma find_row_change:
  assumes "distinct_ids q" "find_row i q = Some r" "jr_id (f r) = jr_id r"
  shows "find_row j (update_row i f q) = (if j = i then Some (f r) else find_row j q)"
proof -
  have i: "jr_id r = i" using find_row_id [OF assms(2)] .
  have "find (\<lambda>s. jr_id s = j) (map (\<lambda>s. if s = r then f r else s) rs) =
      (if j = i then map_option (\<lambda>_. f r) (find (\<lambda>s. jr_id s = j) rs) else find (\<lambda>s. jr_id s = j) rs)"
    if "\<forall>s\<in>set rs. jr_id s = i \<longrightarrow> s = r" for rs
    using that
  proof (induction rs)
    case (Cons s rs)
    have IH: "find (\<lambda>s. jr_id s = j) (map (\<lambda>s. if s = r then f r else s) rs) =
        (if j = i then map_option (\<lambda>_. f r) (find (\<lambda>s. jr_id s = j) rs)
         else find (\<lambda>s. jr_id s = j) rs)"
      by (rule Cons.IH) (meson Cons.prems list.set_intros(2))
    have fwd: "s = r" if "jr_id s = i" using bspec [OF Cons.prems, of s] that by simp
    have fr: "jr_id (f r) = i" using i assms(3) by simp
    show ?case
    proof (cases "s = r")
      case True
      then show ?thesis using IH i fr by simp
    next
      case False
      then have "jr_id s \<noteq> i" using fwd by blast
      then show ?thesis using IH False by (cases "j = i") auto
    qed
  qed simp
  moreover have "\<forall>s\<in>set (q_rows q). jr_id s = i \<longrightarrow> s = r"
    by (metis assms(1,2) find_row_mem option.inject)
  ultimately show ?thesis
    using assms(2) by (simp add: find_row_def update_row_only [OF assms(1,2)])
qed

lemma find_snoc:
  "find P (xs @ [r]) = (case find P xs of None \<Rightarrow> if P r then Some r else None | Some x \<Rightarrow> Some x)"
  by (induction xs) auto

lemma find_row_insert:
  "find_row (jr_id r) q = None \<Longrightarrow>
   find_row j (q\<lparr>q_rows := q_rows q @ [r]\<rparr>) = (if j = jr_id r then Some r else find_row j q)"
  by (auto simp: find_row_def find_snoc split: option.split)

lemma queue_move_inv:
  assumes "queue_move q q'" "queue_inv q"
  shows "queue_inv q'"
  using assms
proof (induction rule: queue_move.induct)
  case (change i q r now f e)
  then have inv: "distinct_ids q" "list_all row_ok (q_rows q)" "distinct (active_keys q)"
      "\<And>j. replay j None (q_events q) = Some (map_option jr_status (find_row j q))"
    by (auto simp: queue_inv_def)
  from change have same: "same_job r (f r)" "active (jr_status r)" "row_ok r \<longrightarrow> row_ok (f r)"
    by (auto simp: row_change_def active_not_terminal)
  have id: "jr_id (f r) = jr_id r" using same(1) by (simp add: same_job_def)
  have mem: "r \<in> set (q_rows q)" using change(1) by (auto simp: find_row_def find_Some_iff)
  have "list_all row_ok (q_rows (update_row i f q))"
    using inv(2) mem same(3) unfolding update_row_only [OF inv(1) change(1)] by (auto simp: list_all_iff)
  moreover have "distinct (active_keys (update_row i f q))"
    using inv(3)
    unfolding active_keys_change [where f = f, OF inv(1) change(1) same(1,2)]
    unfolding active_keys_def by (rule distinct_map_filter_imp)
  moreover have "active_keys (log_event e q) = active_keys q" for q by (simp add: active_keys_def)
  moreover have "replay j None (q_events (update_row i f q) @ [e]) =
      Some (map_option jr_status (find_row j (update_row i f q)))" for j
    using inv(4) [of j] change(1,3-5)
    by (cases "j = i") (simp_all add: replay_snoc find_row_change [where f = f, OF inv(1) change(1) id])
  ultimately show ?case
    using inv(1) update_ids_at [where f = f, OF inv(1) change(1) id]
    by (simp add: queue_inv_def distinct_ids_def) (simp add: log_event_def)
next
  case (insert r q e)
  then have inv: "distinct_ids q" "list_all row_ok (q_rows q)" "distinct (active_keys q)"
      "\<And>j. replay j None (q_events q) = Some (map_option jr_status (find_row j q))"
    by (auto simp: queue_inv_def)
  have new: "jr_id r \<notin> jr_id ` set (q_rows q)"
    using insert(1) by (auto simp: find_row_def find_None_iff)
  have "(jr_type r, jr_dedup_key r) \<notin> set (active_keys q)"
    using insert(5) by (auto simp: active_keys_def find_None_iff)
  then have "distinct (active_keys (q\<lparr>q_rows := q_rows q @ [r]\<rparr>))"
    using inv(3) by (simp add: active_keys_def)
  moreover have "active_keys (log_event e q) = active_keys q" for q by (simp add: active_keys_def)
  moreover have "find_row j (q\<lparr>q_rows := q_rows q @ [r]\<rparr>) =
      (if j = jr_id r then Some r else find_row j q)" for j
    using insert(1) by (rule find_row_insert)
  moreover have "replay j None (q_events q @ [e]) =
      Some (map_option jr_status (if j = jr_id r then Some r else find_row j q))" for j
    using inv(4) [of j] insert(1,3,6-8) by (auto simp: replay_snoc)
  ultimately show ?case
    using inv insert(2) new by (simp add: queue_inv_def distinct_ids_def) (simp add: log_event_def)
qed

lemma queue_step_inv:
  assumes "queue_step q q'" "queue_inv q"
  shows "queue_inv q'"
proof -
  have "queue_move\<^sup>*\<^sup>* q q'"
    using queue_step_moves [OF assms(1)] assms(2) by (simp add: queue_inv_def)
  then show ?thesis using assms(2) by (induction rule: rtranclp_induct) (auto intro: queue_move_inv)
qed

definition empty_queue :: job_queue where
  "empty_queue = \<lparr>q_rows = [], q_events = []\<rparr>"

lemma queue_inv_empty: "queue_inv empty_queue"
  by (simp add: queue_inv_def empty_queue_def distinct_ids_def active_keys_def find_row_def)

lemma reachable_inv: "queue_step\<^sup>*\<^sup>* empty_queue q \<Longrightarrow> queue_inv q"
  by (induction rule: rtranclp_induct) (auto intro: queue_step_inv queue_inv_empty)

section \<open>What a claim grants\<close>

lemma cancel_expired_live:
  "find_row j (claim_cancel_expired now locked types q) = Some r \<Longrightarrow> \<not> is_terminal (jr_status r) \<Longrightarrow>
   find_row j q = Some r"
  by (auto simp: claim_cancel_expired_def find_row_update finish_row_def is_terminal_def
      split: option.splits if_splits)

lemma bury_exhausted_live:
  "find_row j (claim_bury_exhausted now locked types q) = Some r \<Longrightarrow> \<not> is_terminal (jr_status r) \<Longrightarrow>
   find_row j q = Some r"
  by (auto simp: claim_bury_exhausted_def Let_def find_row_update finish_row_def is_terminal_def
      split: option.splits if_splits)

lemma claim_grants:
  assumes "queue_inv q"
    and "claim_job_uncontrolled enabled media (t1, t2, t3) locked w lease types q = (Inr (Some c), q')"
  shows "\<exists>r. find_row (cj_id c) q = Some r \<and> (ready_row t3 r \<or> reclaim_row t3 r) \<and>
    claimable_row enabled media locked types r \<and>
    find_row (cj_id c) q' = Some (claim_row t3 w lease r) \<and> c = claimed_of (claim_row t3 w lease r) \<and>
    1 \<le> lease"
proof -
  let ?q1 = "claim_cancel_expired t1 locked types q"
  let ?q2 = "claim_bury_exhausted t2 locked types ?q1"
  from assms(2) obtain r where r: "claim_candidate enabled media t3 locked types ?q2 = Some r"
    and c: "c = claimed_of (claim_row t3 w lease r)" "1 \<le> lease"
    and q': "\<exists>e. q' = log_event e (update_row (jr_id r) (claim_row t3 w lease) ?q2)"
    by (auto simp: claim_job_uncontrolled_def Let_def split: if_splits option.splits)
  have id: "cj_id c = jr_id r" using c by (simp add: claimed_of_def claim_row_def)
  have "queue_move\<^sup>*\<^sup>* q ?q1" using cancel_expired_moves assms(1) by (simp add: queue_inv_def)
  then have inv1: "queue_inv ?q1" using assms(1)
    by (induction rule: rtranclp_induct) (auto intro: queue_move_inv)
  then have "queue_move\<^sup>*\<^sup>* ?q1 ?q2" using bury_exhausted_moves by (simp add: queue_inv_def)
  then have "queue_inv ?q2" using inv1
    by (induction rule: rtranclp_induct) (auto intro: queue_move_inv)
  then have cand: "find_row (jr_id r) ?q2 = Some r" "ready_row t3 r \<or> reclaim_row t3 r"
      "claimable_row enabled media locked types r"
    using candidate_row [OF _ r] by (auto simp: queue_inv_def)
  have "\<not> is_terminal (jr_status r)" using cand(2) by (auto simp: ready_row_def reclaim_row_def is_terminal_def)
  then have "find_row (jr_id r) q = Some r"
    using cancel_expired_live bury_exhausted_live cand(1) by blast
  moreover have "find_row (jr_id r) q' = Some (claim_row t3 w lease r)"
    using q' cand(1) by (auto simp: find_row_update claim_row_def)
  ultimately show ?thesis using cand c id by auto
qed

section \<open>The contract a worker relies on\<close>

text \<open>
  Settling a job is recording its outcome. The contract: it succeeds only under a live lease,
  afterwards nobody holds a lease of the job, and a refused settlement changes nothing.
\<close>

locale lease_store =
  fixes live :: "'q \<Rightarrow> int \<Rightarrow> nat \<Rightarrow> string \<Rightarrow> bool"
    and settle :: "int \<Rightarrow> nat \<Rightarrow> string \<Rightarrow> 's \<Rightarrow> 'q \<Rightarrow> (string + job_status) \<times> 'q"
  assumes settle_ok: "settle now i w s q = (Inr st, q') \<Longrightarrow> live q now i w \<and> st \<noteq> Running"
    and settled: "settle now i w s q = (Inr st, q') \<Longrightarrow> \<not> live q' now' i w'"
    and refused: "settle now i w s q = (Inl e, q') \<Longrightarrow> q' = q"
begin

fun settle_all :: "nat \<Rightarrow> (int \<times> string \<times> 's) list \<Rightarrow> 'q \<Rightarrow> (string + job_status) list" where
  "settle_all i [] q = []"
| "settle_all i ((now, w, s) # xs) q =
     (case settle now i w s q of (r, q') \<Rightarrow> r # settle_all i xs q')"

lemma none_after:
  "(\<And>now w. \<not> live q now i w) \<Longrightarrow> filter is_ok (settle_all i xs q) = []"
proof (induction xs arbitrary: q)
  case (Cons x xs)
  obtain now w s where x: "x = (now, w, s)" by (cases x)
  obtain r q' where r: "settle now i w s q = (r, q')" by (cases "settle now i w s q")
  obtain e where e: "r = Inl e" using settle_ok [of now i w s q _ q'] r Cons.prems by (cases r) auto
  then have "q' = q" using refused r by blast
  then show ?case using Cons r e x by simp
qed simp

lemma at_most_one: "length (filter is_ok (settle_all i xs q)) \<le> 1"
proof (induction xs arbitrary: q)
  case (Cons x xs)
  obtain now w s where x: "x = (now, w, s)" by (cases x)
  obtain r q' where r: "settle now i w s q = (r, q')" by (cases "settle now i w s q")
  show ?case
  proof (cases r)
    case (Inl e)
    then show ?thesis using Cons r x by simp
  next
    case (Inr st)
    then have "\<And>now w. \<not> live q' now i w" using settled r by blast
    then have "filter is_ok (settle_all i xs q') = []" by (rule none_after)
    then show ?thesis using r x Inr by simp
  qed
qed simp

end

datatype settlement = Complete string | Fail_with string int | Dead_letter string

definition live_lease :: "job_queue \<Rightarrow> int \<Rightarrow> nat \<Rightarrow> string \<Rightarrow> bool" where
  "live_lease q now i w = (case find_row i q of None \<Rightarrow> False | Some r \<Rightarrow> owns now w r)"

definition settle_job ::
    "(string \<Rightarrow> json option) \<Rightarrow> int \<Rightarrow> nat \<Rightarrow> string \<Rightarrow> settlement \<Rightarrow> job_queue \<Rightarrow>
     (string + job_status) \<times> job_queue" where
  "settle_job to_jsonb now i w s q =
     (case s of
        Complete result \<Rightarrow> complete_job to_jsonb now i w result q
      | Fail_with msg delay \<Rightarrow> (case fail_job now i w msg delay q of (r, q') \<Rightarrow> (mapR fst r, q'))
      | Dead_letter msg \<Rightarrow> (case dead_letter_job now i w msg q of (r, q') \<Rightarrow> (mapR fst r, q')))"

lemma settle_job_ok:
  assumes "settle_job to_jsonb now i w s q = (Inr st, q')"
  shows "live_lease q now i w \<and> st \<noteq> Running \<and>
    (\<forall>r. find_row i q' = Some r \<longrightarrow> jr_status r = st)"
proof (cases s)
  case (Complete result)
  with assms show ?thesis
    by (auto simp: settle_job_def complete_job_def live_lease_def Let_def finish_row_def
        find_row_update split: if_splits option.splits)
next
  case (Fail_with msg delay)
  with assms show ?thesis
    by (auto simp: settle_job_def fail_job_def live_lease_def Let_def finish_row_def
        find_row_update split: if_splits option.splits)
next
  case (Dead_letter msg)
  with assms show ?thesis
    by (auto simp: settle_job_def dead_letter_job_def live_lease_def Let_def finish_row_def
        find_row_update split: if_splits option.splits)
qed

lemma settle_job_refused: "settle_job to_jsonb now i w s q = (Inl e, q') \<Longrightarrow> q' = q"
  by (auto simp: settle_job_def complete_job_def fail_job_def dead_letter_job_def Let_def
      split: settlement.splits if_splits option.splits)

interpretation leases: lease_store live_lease "settle_job to_jsonb" for to_jsonb
proof unfold_locales
  fix now i w s q st q' now' w'
  assume s: "settle_job to_jsonb now i w s q = (Inr st, q')"
  from settle_job_ok [OF s] show "live_lease q now i w \<and> st \<noteq> Running" by blast
  from settle_job_ok [OF s] show "\<not> live_lease q' now' i w'"
    by (auto simp: live_lease_def owns_def split: option.split)
next
  fix now i w s q e q'
  assume "settle_job to_jsonb now i w s q = (Inl e, q')"
  then show "q' = q" by (rule settle_job_refused)
qed

section \<open>Properties\<close>

text \<open>A queue with one cancelled job.\<close>

definition demo_row :: job_row where
  "demo_row =
     \<lparr>jr_id = 3, jr_type = ''system.noop'', jr_version = 1, jr_payload = JObj [], jr_priority = 0,
      jr_status = Queued, jr_attempts = 0, jr_max_attempts = 3, jr_available_at = 9,
      jr_lease_owner = None, jr_lease_expires = None, jr_dedup_key = ''k'', jr_cancel = False,
      jr_claimable = True, jr_result = None, jr_error = None, jr_created_at = 9,
      jr_finished_at = None\<rparr>"

definition demo_queue :: job_queue where
  "demo_queue = \<lparr>q_rows = [demo_row],
     q_events = [\<lparr>ev_job = 3, ev_kind = ''submitted'', ev_from = None, ev_to = Queued, ev_worker = None\<rparr>]\<rparr>"

lemma demo_valid:
  "job_valid_ascii ''system.noop'' 128" "job_valid_ascii ''k'' 256" "job_valid_ascii ''w'' 128"
  "message_ok ''bye'' 1024"
  by (simp_all add: job_valid_ascii_def message_ok_def char_count_def is_cont_def btrim_def)

lemma demo_submit:
  "submit_job (\<lambda>t v. True) (\<lambda>s. Some (JObj [])) (\<lambda>t. 2024) 9 3
     ''system.noop'' 1 ''{}'' 0 3 None ''k'' empty_queue = (Inr (3, False), demo_queue)"
  by (simp add: submit_job_def demo_valid is_object_def empty_queue_def find_row_def log_event_def
      demo_queue_def demo_row_def)

lemma demo_reachable: "queue_step\<^sup>*\<^sup>* empty_queue demo_queue"
  using queue_step.submit [OF demo_submit] by blast

lemma demo_cancel:
  "\<exists>q. request_job_cancel (\<lambda>t v. True) 10 3 ''bye'' demo_queue = (Inr (Cancelled, False), q) \<and>
     find_row 3 q = Some (finish_row Cancelled None 10 demo_row)"
  by (simp add: request_job_cancel_def demo_valid demo_queue_def demo_row_def find_row_def
      log_event_def update_row_def)

text \<open>C2: in every reachable state of the queue each row has the shape its status demands (a
  lease exactly while running, a finish time exactly when terminal, a cancellation flag only
  while running), its attempts never exceed its limit, at most one active row exists per type
  and deduplication key, and the event log of every job replays to its current status.\<close>

theorem queue_invariant:
  assumes "queue_step\<^sup>*\<^sup>* empty_queue q"
  shows "distinct (map jr_id (q_rows q)) \<and> list_all row_ok (q_rows q) \<and> distinct (active_keys q) \<and>
    replay i None (q_events q) = Some (map_option jr_status (find_row i q))"
  using reachable_inv [OF assms] by (simp add: queue_inv_def distinct_ids_def)

theorem queue_invariant_witness:
  "replay 3 None (q_events (snd (submit_job (\<lambda>t v. True) (\<lambda>s. Some (JObj [])) (\<lambda>t. 2024) 9 3
     ''system.noop'' 1 ''{}'' 0 3 None ''k'' empty_queue))) = Some (Some Queued)"
  using queue_invariant [OF demo_reachable, of 3] demo_submit
  by (simp add: demo_queue_def demo_row_def find_row_def)

lemma move_terminal:
  assumes "queue_move\<^sup>*\<^sup>* q q'" "queue_inv q" "find_row i q = Some r" "is_terminal (jr_status r)"
  shows "find_row i q' = Some r"
  using assms
proof (induction rule: converse_rtranclp_induct)
  case (step q q1)
  have "find_row i q1 = Some r"
    using step.hyps(1) step.prems
  proof (cases rule: queue_move.cases)
    case (change j s now f e)
    then have "j \<noteq> i" "jr_id (f s) = jr_id s"
      using step.prems by (auto simp: row_change_def same_job_def)
    then show ?thesis
      using change step.prems find_row_change [of q j s f i] by (simp add: queue_inv_def)
  next
    case (insert s e)
    then show ?thesis
      using step.prems(2) find_row_insert [of s q i] by auto
  qed
  then show ?case using step queue_move_inv by blast
qed simp

text \<open>A terminal job is final: no operation of the queue, by anyone and with any arguments,
  changes a succeeded, dead-lettered or cancelled row in any way.\<close>

theorem terminal_rows_are_final:
  assumes "queue_step\<^sup>*\<^sup>* empty_queue q" "queue_step q q'"
    and "find_row i q = Some r" "is_terminal (jr_status r)"
  shows "find_row i q' = Some r"
proof -
  have inv: "queue_inv q" by (rule reachable_inv [OF assms(1)])
  then have "queue_move\<^sup>*\<^sup>* q q'" using queue_step_moves [OF assms(2)] by (simp add: queue_inv_def)
  then show ?thesis using move_terminal inv assms(3,4) by blast
qed

theorem terminal_rows_are_final_witness:
  "\<exists>q q'. queue_step q q' \<and> find_row 3 q' = Some (finish_row Cancelled None 10 demo_row)"
proof -
  obtain q where q: "request_job_cancel (\<lambda>t v. True) 10 3 ''bye'' demo_queue = (Inr (Cancelled, False), q)"
    "find_row 3 q = Some (finish_row Cancelled None 10 demo_row)" using demo_cancel by blast
  have reach: "queue_step\<^sup>*\<^sup>* empty_queue q"
    using demo_reachable queue_step.cancel [OF q(1)] by simp
  obtain r q' where "heartbeat_job 11 3 ''w'' 5 q = (r, q')" by fastforce
  then have step: "queue_step q q'" by (rule queue_step.heartbeat)
  have "find_row 3 q' = Some (finish_row Cancelled None 10 demo_row)"
    by (rule terminal_rows_are_final [OF reach step q(2)]) (simp add: finish_row_def is_terminal_def)
  with step show ?thesis by blast
qed



text \<open>Over any sequence of completions, failures and dead-letterings of a job by any workers
  at any times, with no claim in between, at most one is recorded; all others are refused.\<close>

theorem at_most_one_outcome:
  "length (filter is_ok (leases.settle_all to_jsonb i attempts q)) \<le> 1"
  by (rule leases.at_most_one)

end
