(* ===== verification/Job_Repository.thy ===== *)
theory Job_Repository
  imports Lease_Queue
begin

text \<open>
  The queue's client, \<open>src/crates/tmdb-jobs/src/repository.rs\<close>, over the queue of
  \<open>Lease_Queue\<close>. A database call may be delivered, fail without effect (with the SQLSTATE of a
  database error, or none for a lost connection), or take effect and lose its reply; which of
  these happens to the n-th call of an operation is part of the environment.
\<close>

section \<open>Database calls\<close>

datatype delivery = Delivered | Failed "string option" | Reply_lost

definition db_call ::
    "delivery \<Rightarrow> ('q \<Rightarrow> (string + 'a) \<times> 'q) \<Rightarrow> 'q \<Rightarrow> (string option + 'a) \<times> 'q" where
  "db_call d f q =
     (case d of
        Delivered \<Rightarrow> (case f q of (r, q') \<Rightarrow> (map_errR Some r, q'))
      | Failed e \<Rightarrow> (Inl e, q)
      | Reply_lost \<Rightarrow> (Inl None, snd (f q)))"

definition map_database_error :: "string option \<Rightarrow> job_error" where
  "map_database_error e =
     (if e = Some ''P0002'' then JobNotFound
      else if e = Some ''P0001'' then LeaseLost
      else if e = Some ''P0004'' then Capacity
      else if e = Some ''22023'' then Rejected
      else DatabaseError)"

text \<open>\<open>SELECT ... .fetch_one(..).await.map_err(map_database_error)\<close>.\<close>

definition db_query ::
    "delivery \<Rightarrow> ('q \<Rightarrow> (string + 'a) \<times> 'q) \<Rightarrow> 'q \<Rightarrow> (job_error + 'a) \<times> 'q" where
  "db_query d f q = (case db_call d f q of (r, q') \<Rightarrow> (map_errR map_database_error r, q'))"

record repo_env =
  registry :: "string \<Rightarrow> int \<Rightarrow> bool"
  claim_switch :: "string \<Rightarrow> bool"
  media_switch :: bool
  to_jsonb :: "string \<Rightarrow> json option"
  year_of :: "int \<Rightarrow> int"
  render_json :: "json \<Rightarrow> string option"
  row_locked :: "nat \<Rightarrow> bool"
  clock :: "nat \<Rightarrow> int"
  network :: "nat \<Rightarrow> delivery"
  fresh_id :: "nat \<Rightarrow> nat"

definition duration_microseconds :: "duration \<Rightarrow> nat \<Rightarrow> validation_error + int" where
  "duration_microseconds d maximum =
     (let us = as_micros d
      in if us = 0 \<or> us > maximum \<or> d mod 1000 \<noteq> 0 \<or> us > i64_max then Inl BadDuration
         else Inr (int us))"

lemma duration_microseconds_ok:
  "duration_microseconds d m = Inr us \<longleftrightarrow>
     0 < as_micros d \<and> as_micros d \<le> m \<and> as_micros d \<le> i64_max \<and> 1000 dvd d \<and> us = int (as_micros d)"
  by (auto simp: duration_microseconds_def Let_def dvd_eq_mod_eq_0)

lemma for_attempts_3:
  "for_attempts 3 k body final s =
     (case body k s of
        (Done r, s') \<Rightarrow> (r, s')
      | (Again, s') \<Rightarrow> for_attempts 2 (Suc k) body final s')"
  by (simp add: numeral_3_eq_3 numeral_2_eq_2 split: prod.split outcome.split)

section \<open>Submission\<close>

definition submit_once ::
    "repo_env \<Rightarrow> nat \<Rightarrow> string \<Rightarrow> new_job \<Rightarrow> nat \<Rightarrow> job_queue \<Rightarrow> (string + nat \<times> bool) \<times> job_queue" where
  "submit_once env i payload j k q =
     submit_job (registry env) (to_jsonb env) (year_of env) (clock env k) i (nj_type j)
       (nj_version j) payload (nj_priority j) (nj_max_attempts j) (nj_available_at j)
       (nj_dedup_key j) q"

definition submit_attempt ::
    "repo_env \<Rightarrow> nat \<Rightarrow> string \<Rightarrow> new_job \<Rightarrow> nat \<Rightarrow> job_queue \<Rightarrow>
     (job_error + submit_outcome) outcome \<times> job_queue" where
  "submit_attempt env i payload j k q =
     (case db_call (network env k) (submit_once env i payload j k) q of
        (Inr (job, dup), q') \<Rightarrow> (Done (Inr \<lparr>so_job_id = job, so_duplicate = dup\<rparr>), q')
      | (Inl e, q') \<Rightarrow>
          if e = Some ''40001'' \<and> k < 2 then (Again, q')
          else (Done (Inl (map_database_error e)), q'))"

definition repo_submit ::
    "repo_env \<Rightarrow> new_job \<Rightarrow> job_queue \<Rightarrow> (job_error + submit_outcome) \<times> job_queue" where
  "repo_submit env j q =
     (case render_json env (nj_payload j) of
        None \<Rightarrow> (Inl DatabaseError, q)
      | Some payload \<Rightarrow>
          for_attempts 3 0 (submit_attempt env (fresh_id env 0) payload j) (Inl DatabaseError) q)"

definition max_submit_batch_size :: nat where
  "max_submit_batch_size = 500"

definition prepare_submit_batch :: "repo_env \<Rightarrow> new_job list \<Rightarrow> job_error + string list \<times> int list" where
  "prepare_submit_batch env jobs =
     (if length jobs > max_submit_batch_size then Inl (Validation BadBatchSize)
      else
        bindR (collectR (map (\<lambda>j. ok_or DatabaseError (render_json env (nj_payload j))) jobs)) (\<lambda>payloads.
        bindR (collectR (map (\<lambda>n. if int n \<le> 2147483647 then Inr (int n) else Inl (Validation BadBatchSize))
          [0..<length jobs])) (\<lambda>positions. Inr (payloads, positions))))"

text \<open>
  The bulk statement calls \<open>submit_job\<close> for every requested row, in position order, within one
  transaction: an error undoes all of it.
\<close>

fun submit_rows ::
    "repo_env \<Rightarrow> nat \<Rightarrow> (int \<times> string \<times> new_job) list \<Rightarrow> job_queue \<Rightarrow>
     (string + (nat \<times> bool) list) \<times> job_queue" where
  "submit_rows env k [] q = (Inr [], q)"
| "submit_rows env k ((position, payload, j) # rows) q =
     (case submit_once env (fresh_id env (k * max_submit_batch_size + nat position)) payload j k q of
        (Inl e, q') \<Rightarrow> (Inl e, q')
      | (Inr r, q') \<Rightarrow>
          (case submit_rows env k rows q' of
             (Inl e, q'') \<Rightarrow> (Inl e, q'')
           | (Inr rs, q'') \<Rightarrow> (Inr (r # rs), q'')))"

definition execute_submit_many ::
    "repo_env \<Rightarrow> new_job list \<Rightarrow> string list \<Rightarrow> int list \<Rightarrow> nat \<Rightarrow> job_queue \<Rightarrow>
     (string + (nat \<times> bool) list) \<times> job_queue" where
  "execute_submit_many env jobs payloads positions k q =
     (case submit_rows env k (zip positions (zip payloads jobs)) q of
        (Inl e, _) \<Rightarrow> (Inl e, q)
      | (Inr rs, q') \<Rightarrow> (Inr rs, q'))"

definition submit_outcomes :: "(nat \<times> bool) list \<Rightarrow> submit_outcome list" where
  "submit_outcomes rows = map (\<lambda>(job, dup). \<lparr>so_job_id = job, so_duplicate = dup\<rparr>) rows"

definition submit_many_attempt ::
    "repo_env \<Rightarrow> new_job list \<Rightarrow> string list \<Rightarrow> int list \<Rightarrow> nat \<Rightarrow> job_queue \<Rightarrow>
     (job_error + submit_outcome list) outcome \<times> job_queue" where
  "submit_many_attempt env jobs payloads positions k q =
     (case db_call (network env k) (execute_submit_many env jobs payloads positions k) q of
        (Inr rows, q') \<Rightarrow>
          if length rows = length jobs then (Done (Inr (submit_outcomes rows)), q')
          else (Done (Inl DatabaseError), q')
      | (Inl e, q') \<Rightarrow>
          if e = Some ''40001'' \<and> k < 2 then (Again, q')
          else (Done (Inl (map_database_error e)), q'))"

text \<open>\<open>connected\<close>: whether the pool yields a connection.\<close>

definition repo_submit_many ::
    "repo_env \<Rightarrow> bool \<Rightarrow> new_job list \<Rightarrow> job_queue \<Rightarrow> (job_error + submit_outcome list) \<times> job_queue" where
  "repo_submit_many env connected jobs q =
     (case prepare_submit_batch env jobs of
        Inl e \<Rightarrow> (Inl e, q)
      | Inr (payloads, positions) \<Rightarrow>
          if jobs = [] then (Inr [], q)
          else if \<not> connected then (Inl DatabaseError, q)
          else for_attempts 3 0 (submit_many_attempt env jobs payloads positions) (Inl DatabaseError) q)"

definition repo_submit_many_in_transaction ::
    "repo_env \<Rightarrow> new_job list \<Rightarrow> job_queue \<Rightarrow> (job_error + submit_outcome list) \<times> job_queue" where
  "repo_submit_many_in_transaction env jobs q =
     (case prepare_submit_batch env jobs of
        Inl e \<Rightarrow> (Inl e, q)
      | Inr (payloads, positions) \<Rightarrow>
          if jobs = [] then (Inr [], q)
          else
            (case db_query (network env 0) (execute_submit_many env jobs payloads positions 0) q of
               (Inl e, q') \<Rightarrow> (Inl e, q')
             | (Inr rows, q') \<Rightarrow>
                 if length rows \<noteq> length jobs then (Inl DatabaseError, q')
                 else (Inr (submit_outcomes rows), q')))"

section \<open>Leases\<close>

definition repo_claim_for_types ::
    "repo_env \<Rightarrow> string \<Rightarrow> duration \<Rightarrow> string list option \<Rightarrow> job_queue \<Rightarrow>
     (job_error + claimed_job option) \<times> job_queue" where
  "repo_claim_for_types env w lease types q =
     (case duration_microseconds lease max_lease_micros of
        Inl e \<Rightarrow> (Inl (Validation e), q)
      | Inr us \<Rightarrow>
          let types' = (case types of None \<Rightarrow> None | Some ts \<Rightarrow> if ts = [] then None else Some ts)
          in db_query (network env 0)
               (claim_job_for_types (claim_switch env) (registry env) (media_switch env)
                  (clock env 0, clock env 1, clock env 2) (row_locked env) w us types') q)"

definition repo_claim ::
    "repo_env \<Rightarrow> string \<Rightarrow> duration \<Rightarrow> job_queue \<Rightarrow> (job_error + claimed_job option) \<times> job_queue" where
  "repo_claim env w lease q = repo_claim_for_types env w lease None q"

definition repo_heartbeat ::
    "repo_env \<Rightarrow> nat \<Rightarrow> string \<Rightarrow> duration \<Rightarrow> job_queue \<Rightarrow> (job_error + int) \<times> job_queue" where
  "repo_heartbeat env i w lease q =
     (case duration_microseconds lease max_lease_micros of
        Inl e \<Rightarrow> (Inl (Validation e), q)
      | Inr us \<Rightarrow> db_query (network env 0) (heartbeat_job (clock env 0) i w us) q)"

definition repo_cancellation_requested ::
    "repo_env \<Rightarrow> nat \<Rightarrow> string \<Rightarrow> job_queue \<Rightarrow> job_error + bool" where
  "repo_cancellation_requested env i w q =
     (case db_query (network env 1) (\<lambda>q. (Inr (job_cancellation_requested i w q), q)) q of
        (r, _) \<Rightarrow> bindR r (ok_or JobNotFound))"

text \<open>The text of a status in the table, and the row that \<open>get\<close> reads.\<close>

definition status_text :: "job_status \<Rightarrow> string" where
  "status_text s =
     (case s of Queued \<Rightarrow> ''queued'' | Running \<Rightarrow> ''running'' | RetryWait \<Rightarrow> ''retry_wait''
      | Succeeded \<Rightarrow> ''succeeded'' | DeadLetter \<Rightarrow> ''dead_letter'' | Cancelled \<Rightarrow> ''cancelled'')"

lemma job_status_parse_text [simp]: "job_status_parse (status_text s) = Inr s"
  by (cases s) (simp_all add: job_status_parse_def status_text_def)

definition job_row_into_model :: "job_row \<Rightarrow> job_error + job_view" where
  "job_row_into_model r =
     bindR (job_status_parse (status_text (jr_status r))) (\<lambda>s.
       Inr \<lparr>jv_id = jr_id r, jv_status = s, jv_attempts = jr_attempts r,
            jv_max_attempts = jr_max_attempts r, jv_available_at = Some (jr_available_at r),
            jv_cancellation_requested = jr_cancel r, jv_error_message = jr_error r,
            jv_created_at = jr_created_at r, jv_updated_at = jr_created_at r,
            jv_finished_at = jr_finished_at r\<rparr>)"

definition repo_get :: "repo_env \<Rightarrow> nat \<Rightarrow> nat \<Rightarrow> job_queue \<Rightarrow> job_error + job_view" where
  "repo_get env k i q =
     (case db_query (network env k) (\<lambda>q. (Inr (find_row i q), q)) q of
        (r, _) \<Rightarrow> bindR (bindR r (ok_or JobNotFound)) job_row_into_model)"

definition repo_complete ::
    "repo_env \<Rightarrow> nat \<Rightarrow> string \<Rightarrow> json \<Rightarrow> job_queue \<Rightarrow> (job_error + job_view) \<times> job_queue" where
  "repo_complete env i w result q =
     (case validate_json_object (render_json env) result of
        Inl e \<Rightarrow> (Inl (Validation e), q)
      | Inr _ \<Rightarrow>
          (case render_json env result of
             None \<Rightarrow> (Inl DatabaseError, q)
           | Some text \<Rightarrow>
               (case db_query (network env 0) (complete_job (to_jsonb env) (clock env 0) i w text) q of
                  (Inl e, q') \<Rightarrow> (Inl e, q')
                | (Inr _, q') \<Rightarrow> (repo_get env 1 i q', q'))))"

text \<open>The disposition column of \<open>fail_job\<close> and \<open>dead_letter_job\<close>.\<close>

definition disposition_text :: "job_status \<Rightarrow> string" where
  "disposition_text s =
     (if s = RetryWait then ''retry_scheduled''
      else if s = DeadLetter then ''dead_lettered'' else ''cancelled'')"

definition repo_fail ::
    "repo_env \<Rightarrow> nat \<Rightarrow> string \<Rightarrow> string \<Rightarrow> duration \<Rightarrow> job_queue \<Rightarrow>
     (job_error + failure_disposition) \<times> job_queue" where
  "repo_fail env i w failure delay q =
     (case validate_failure_code failure of
        Inl e \<Rightarrow> (Inl (Validation e), q)
      | Inr _ \<Rightarrow>
          (case duration_microseconds delay max_retry_micros of
             Inl e \<Rightarrow> (Inl (Validation e), q)
           | Inr us \<Rightarrow>
               (case db_query (network env 0) (fail_job (clock env 0) i w failure us) q of
                  (Inl e, q') \<Rightarrow> (Inl e, q')
                | (Inr (st, available), q') \<Rightarrow>
                    (let d = disposition_text st
                     in if d = ''retry_scheduled'' then Inr (RetryScheduled available)
                        else if d = ''dead_lettered'' then Inr DeadLettered
                        else if d = ''cancelled'' then Inr CancelledInstead
                        else Inl DatabaseError, q'))))"

definition repo_dead_letter ::
    "repo_env \<Rightarrow> nat \<Rightarrow> string \<Rightarrow> string \<Rightarrow> job_queue \<Rightarrow>
     (job_error + failure_disposition) \<times> job_queue" where
  "repo_dead_letter env i w failure q =
     (case validate_failure_code failure of
        Inl e \<Rightarrow> (Inl (Validation e), q)
      | Inr _ \<Rightarrow>
          (case db_query (network env 0) (dead_letter_job (clock env 0) i w failure) q of
             (Inl e, q') \<Rightarrow> (Inl e, q')
           | (Inr (st, available), q') \<Rightarrow>
               (let d = disposition_text st
                in if d = ''dead_lettered'' then Inr DeadLettered
                   else if d = ''cancelled'' then Inr CancelledInstead
                   else Inl DatabaseError, q')))"

definition repo_request_cancel ::
    "repo_env \<Rightarrow> nat \<Rightarrow> string \<Rightarrow> job_queue \<Rightarrow> (job_error + job_view) \<times> job_queue" where
  "repo_request_cancel env i message q =
     (case validate_message message max_cancel_message_chars of
        Inl e \<Rightarrow> (Inl (Validation e), q)
      | Inr _ \<Rightarrow>
          (case db_query (network env 0) (request_job_cancel (registry env) (clock env 0) i message) q of
             (Inl e, q') \<Rightarrow> (Inl e, q')
           | (Inr _, q') \<Rightarrow> (repo_get env 1 i q', q')))"

section \<open>Every repository call is a sequence of queue functions\<close>

lemma db_call_state: "db_call d f q = (r, q') \<Longrightarrow> q' = q \<or> q' = snd (f q)"
  by (auto simp: db_call_def split: delivery.splits prod.splits)

lemma db_query_state: "db_query d f q = (r, q') \<Longrightarrow> q' = q \<or> q' = snd (f q)"
  by (auto simp: db_query_def dest: db_call_state split: prod.splits)

lemma db_query_step:
  assumes "db_query d f q = (r, q')" "\<And>x q''. f q = (x, q'') \<Longrightarrow> queue_step q q''"
  shows "queue_step\<^sup>*\<^sup>* q q'"
  using db_query_state [OF assms(1)] assms(2) [of "fst (f q)" "snd (f q)"] by auto

lemma submit_once_step: "submit_once env i p j k q = (r, q') \<Longrightarrow> queue_step q q'"
  by (simp add: submit_once_def queue_step.submit)

lemma submit_attempt_steps:
  assumes "submit_attempt env i p j k q = (x, q')"
  shows "queue_step\<^sup>*\<^sup>* q q'"
proof -
  obtain r q1 where r: "db_call (network env k) (submit_once env i p j k) q = (r, q1)" by fastforce
  then have "q' = q1" using assms by (auto simp: submit_attempt_def split: sum.splits if_splits)
  then show ?thesis
    using db_call_state [OF r] submit_once_step [of env i p j k q] by (metis prod.collapse
      r_into_rtranclp rtranclp.rtrancl_refl)
qed

lemma for_attempts_steps:
  assumes "\<And>k s x s'. body k s = (x, s') \<Longrightarrow> queue_step\<^sup>*\<^sup>* s s'"
    and "for_attempts n k body final q = (r, q')"
  shows "queue_step\<^sup>*\<^sup>* q q'"
  by (rule for_attempts_post [where P = "queue_step\<^sup>*\<^sup>* q" and Q = "\<lambda>_. queue_step\<^sup>*\<^sup>* q", OF _ assms(2)])
     (auto dest: assms(1) intro: rtranclp_trans)

lemma submit_rows_steps: "submit_rows env k rows q = (r, q') \<Longrightarrow> queue_step\<^sup>*\<^sup>* q q'"
proof (induction env k rows q arbitrary: r q' rule: submit_rows.induct)
  case (2 env k position payload j rows q)
  then show ?case
    by (auto split: prod.splits sum.splits dest!: submit_once_step intro: converse_rtranclp_into_rtranclp)
qed simp

lemma execute_submit_many_steps:
  "execute_submit_many env jobs payloads positions k q = (r, q') \<Longrightarrow> queue_step\<^sup>*\<^sup>* q q'"
  by (auto simp: execute_submit_many_def split: prod.splits sum.splits dest: submit_rows_steps)

lemma submit_many_attempt_steps:
  assumes "submit_many_attempt env jobs payloads positions k q = (x, q')"
  shows "queue_step\<^sup>*\<^sup>* q q'"
proof -
  let ?f = "execute_submit_many env jobs payloads positions k"
  obtain r q1 where r: "db_call (network env k) ?f q = (r, q1)" by fastforce
  then have "q' = q1" using assms by (auto simp: submit_many_attempt_def split: sum.splits if_splits)
  then show ?thesis
    using db_call_state [OF r] execute_submit_many_steps [of env jobs payloads positions k q]
    by (metis prod.collapse rtranclp.rtrancl_refl)
qed

lemma repo_submit_steps: "repo_submit env j q = (r, q') \<Longrightarrow> queue_step\<^sup>*\<^sup>* q q'"
  by (auto simp: repo_submit_def split: option.splits
      elim!: for_attempts_steps [rotated] submit_attempt_steps)

lemma repo_submit_many_steps: "repo_submit_many env c jobs q = (r, q') \<Longrightarrow> queue_step\<^sup>*\<^sup>* q q'"
  by (auto simp: repo_submit_many_def split: sum.splits if_splits
      elim!: for_attempts_steps [rotated] submit_many_attempt_steps)

lemma repo_claim_steps: "repo_claim_for_types env w l ts q = (r, q') \<Longrightarrow> queue_step\<^sup>*\<^sup>* q q'"
  by (auto simp: repo_claim_for_types_def Let_def split: sum.splits
      elim!: db_query_step intro: queue_step.claim)

lemma repo_heartbeat_steps: "repo_heartbeat env i w l q = (r, q') \<Longrightarrow> queue_step\<^sup>*\<^sup>* q q'"
  by (auto simp: repo_heartbeat_def split: sum.splits elim!: db_query_step intro: queue_step.heartbeat)

lemma repo_complete_steps: "repo_complete env i w v q = (r, q') \<Longrightarrow> queue_step\<^sup>*\<^sup>* q q'"
  by (auto simp: repo_complete_def split: sum.splits option.splits prod.splits
      elim!: db_query_step intro: queue_step.complete)

lemma repo_fail_steps: "repo_fail env i w c d q = (r, q') \<Longrightarrow> queue_step\<^sup>*\<^sup>* q q'"
  by (auto simp: repo_fail_def split: sum.splits option.splits prod.splits
      elim!: db_query_step intro: queue_step.fail)

lemma repo_dead_letter_steps: "repo_dead_letter env i w c q = (r, q') \<Longrightarrow> queue_step\<^sup>*\<^sup>* q q'"
  by (auto simp: repo_dead_letter_def split: sum.splits option.splits prod.splits
      elim!: db_query_step intro: queue_step.dead_letter)

lemma repo_request_cancel_steps: "repo_request_cancel env i m q = (r, q') \<Longrightarrow> queue_step\<^sup>*\<^sup>* q q'"
  by (auto simp: repo_request_cancel_def split: sum.splits option.splits prod.splits
      elim!: db_query_step intro: queue_step.cancel)

lemmas repo_steps = repo_submit_steps repo_submit_many_steps repo_claim_steps repo_heartbeat_steps
  repo_complete_steps repo_fail_steps repo_dead_letter_steps repo_request_cancel_steps

section \<open>What one submission does\<close>

definition key_match :: "string \<Rightarrow> string \<Rightarrow> job_row \<Rightarrow> bool" where
  "key_match ty k r \<longleftrightarrow> jr_type r = ty \<and> jr_dedup_key r = k \<and> active (jr_status r)"

text \<open>A submission leaves the table as it is, or appends one row to a table that has none of its key.\<close>

definition submit_effect :: "string \<Rightarrow> string \<Rightarrow> job_queue \<Rightarrow> job_queue \<Rightarrow> bool" where
  "submit_effect ty k q q' \<longleftrightarrow>
     q_rows q' = q_rows q \<or>
     (\<exists>r. q_rows q' = q_rows q @ [r] \<and> key_match ty k r \<and> find (key_match ty k) (q_rows q) = None)"

definition submitted_as :: "string \<Rightarrow> string \<Rightarrow> nat \<Rightarrow> job_queue \<Rightarrow> bool" where
  "submitted_as ty k i q \<longleftrightarrow> map_option jr_id (find (key_match ty k) (q_rows q)) = Some i"

lemma submit_effect_refl [simp]: "submit_effect ty k q q"
  by (simp add: submit_effect_def)

lemma submit_effect_rows: "q_rows q' = q_rows q \<Longrightarrow> submit_effect ty k q q'"
  by (simp add: submit_effect_def)

lemma submit_effect_keeps:
  "submit_effect ty k q q' \<Longrightarrow> submitted_as ty k i q \<Longrightarrow> q_rows q' = q_rows q \<and> submitted_as ty k i q'"
  by (auto simp: submit_effect_def submitted_as_def find_snoc)

lemma submit_effect_trans:
  "submit_effect ty k p q \<Longrightarrow> submit_effect ty k q r \<Longrightarrow> submit_effect ty k p r"
  by (auto simp: submit_effect_def find_snoc split: option.splits)

lemma submit_once_effect:
  assumes "submit_once env i p j n q = (r, q')"
  shows "submit_effect (nj_type j) (nj_dedup_key j) q q' \<and>
    (\<forall>job dup. r = Inr (job, dup) \<longrightarrow> submitted_as (nj_type j) (nj_dedup_key j) job q') \<and>
    (\<forall>e. r = Inl e \<longrightarrow> q' = q)"
proof -
  have fold: "find (\<lambda>r. jr_type r = nj_type j \<and> jr_dedup_key r = nj_dedup_key j \<and> active (jr_status r)) =
      find (key_match (nj_type j) (nj_dedup_key j))"
    by (simp add: key_match_def [abs_def])
  show ?thesis
    using assms unfolding submit_once_def submit_job_def fold
    by (auto simp: submit_effect_def submitted_as_def find_snoc log_event_def key_match_def
        active_def split: if_splits option.splits)
qed

lemma submit_attempt_effect:
  assumes "submit_attempt env i p j n q = (x, q')"
  shows "submit_effect (nj_type j) (nj_dedup_key j) q q' \<and>
    (\<forall>out. x = Done (Inr out) \<longrightarrow> submitted_as (nj_type j) (nj_dedup_key j) (so_job_id out) q')"
proof -
  obtain r q1 where r: "submit_once env i p j n q = (r, q1)" by fastforce
  show ?thesis
    using assms submit_once_effect [OF r] r
    by (auto simp: submit_attempt_def db_call_def result_simps split: delivery.splits sum.splits if_splits)
qed

lemma repo_submit_effect:
  assumes "repo_submit env j q = (r, q')"
  shows "submit_effect (nj_type j) (nj_dedup_key j) q q' \<and>
    (\<forall>out. r = Inr out \<longrightarrow> submitted_as (nj_type j) (nj_dedup_key j) (so_job_id out) q')"
proof (cases "render_json env (nj_payload j)")
  case (Some p)
  let ?eff = "submit_effect (nj_type j) (nj_dedup_key j) q"
  show ?thesis
    by (rule for_attempts_post [where P = ?eff and body = "submit_attempt env (fresh_id env 0) p j" and
        Q = "\<lambda>r s. ?eff s \<and> (\<forall>out. r = Inr out \<longrightarrow>
          submitted_as (nj_type j) (nj_dedup_key j) (so_job_id out) s)"])
       (use assms Some in \<open>auto simp: repo_submit_def dest!: submit_attempt_effect
          intro: submit_effect_trans\<close>)
qed (use assms in \<open>auto simp: repo_submit_def\<close>)

text \<open>A client that keeps submitting a job, for as long as it likes and over any network.\<close>

fun submit_repeatedly ::
    "(repo_env \<times> new_job) list \<Rightarrow> job_queue \<Rightarrow> (job_error + submit_outcome) list \<times> job_queue" where
  "submit_repeatedly [] q = ([], q)"
| "submit_repeatedly ((env, j) # xs) q =
     (case repo_submit env j q of (r, q') \<Rightarrow>
        (case submit_repeatedly xs q' of (rs, q'') \<Rightarrow> (r # rs, q'')))"

lemma submit_repeatedly_effect:
  assumes "submit_repeatedly xs q = (rs, q')"
    and "list_all (\<lambda>(env, j). nj_type j = ty \<and> nj_dedup_key j = k) xs"
  shows "submit_effect ty k q q' \<and> (\<forall>out. Inr out \<in> set rs \<longrightarrow> submitted_as ty k (so_job_id out) q')"
  using assms
proof (induction xs arbitrary: q rs)
  case (Cons x xs)
  obtain env j where x: "x = (env, j)" by (cases x)
  obtain r q1 where r: "repo_submit env j q = (r, q1)" by fastforce
  obtain rs1 where rs: "submit_repeatedly xs q1 = (rs1, q')" "rs = r # rs1"
    using Cons.prems(1) r x by (auto split: prod.splits)
  have key: "nj_type j = ty" "nj_dedup_key j = k" using Cons.prems(2) x by auto
  have IH: "submit_effect ty k q1 q' \<and> (\<forall>out. Inr out \<in> set rs1 \<longrightarrow> submitted_as ty k (so_job_id out) q')"
    using Cons.IH [OF rs(1)] Cons.prems(2) by simp
  have one: "submit_effect ty k q q1"
      "\<And>out. r = Inr out \<Longrightarrow> submitted_as ty k (so_job_id out) q1"
    using repo_submit_effect [OF r] key by auto
  have "\<And>out. r = Inr out \<Longrightarrow> submitted_as ty k (so_job_id out) q'"
    using one(2) submit_effect_keeps IH by blast
  then show ?case using IH submit_effect_trans [OF one(1)] rs(2) by auto
qed simp

section \<open>Batches\<close>

lemma submit_effect_other:
  "submit_effect ty' k' q q' \<Longrightarrow> submitted_as ty k i q \<Longrightarrow> submitted_as ty k i q'"
  by (auto simp: submit_effect_def submitted_as_def find_snoc)

lemma submit_rows_keeps:
  "submit_rows env n rows q = (r, q') \<Longrightarrow> submitted_as ty k i q \<Longrightarrow> submitted_as ty k i q'"
proof (induction env n rows q arbitrary: r q' rule: submit_rows.induct)
  case (2 env n position payload j rows q)
  obtain x q1 where x: "submit_once env (fresh_id env (n * max_submit_batch_size + nat position))
      payload j n q = (x, q1)" by fastforce
  have "submitted_as ty k i q1"
    using submit_once_effect [OF x] submit_effect_other "2.prems"(2) by blast
  then show ?case
    using 2 x by (auto split: sum.splits prod.splits)
qed simp

lemma submit_rows_all:
  "submit_rows env n rows q = (Inr rs, q') \<Longrightarrow>
   list_all2 (\<lambda>(_, _, j) (job, _). submitted_as (nj_type j) (nj_dedup_key j) job q') rows rs"
proof (induction rows arbitrary: q rs)
  case (Cons row rows)
  obtain position payload j where row: "row = (position, payload, j)" by (cases row)
  obtain x q1 where x: "submit_once env (fresh_id env (n * max_submit_batch_size + nat position))
      payload j n q = (x, q1)" by fastforce
  with Cons.prems row obtain job dup rs1 where r: "x = Inr (job, dup)" "rs = (job, dup) # rs1"
      "submit_rows env n rows q1 = (Inr rs1, q')"
    by (auto split: sum.splits prod.splits)
  have "submitted_as (nj_type j) (nj_dedup_key j) job q1"
    using submit_once_effect [OF x] r(1) by simp
  with submit_rows_keeps [OF r(3)] have "submitted_as (nj_type j) (nj_dedup_key j) job q'" .
  then show ?case using r row Cons.IH by simp
qed simp

lemma prepare_submit_batch_ok:
  assumes "prepare_submit_batch env jobs = Inr (payloads, positions)"
  shows "length jobs \<le> 500 \<and> length payloads = length jobs \<and> length positions = length jobs"
proof -
  have "length jobs \<le> 500"
    using assms by (simp add: prepare_submit_batch_def max_submit_batch_size_def split: if_splits)
  moreover have "collectR (map (\<lambda>j. ok_or DatabaseError (render_json env (nj_payload j))) jobs) = Inr payloads"
    using assms by (simp add: prepare_submit_batch_def bindR_eq_Inr split: if_splits)
  moreover have "collectR (map (\<lambda>n. if int n \<le> 2147483647 then Inr (int n)
      else Inl (Validation BadBatchSize)) [0..<length jobs]) = Inr positions"
    using assms by (auto simp only: prepare_submit_batch_def bindR_eq_Inr prod.inject sum.inject sum.distinct
        split: if_splits)
  ultimately show ?thesis by (auto dest!: collectR_Inr_length)
qed

definition batch_recorded :: "new_job list \<Rightarrow> submit_outcome list \<Rightarrow> job_queue \<Rightarrow> bool" where
  "batch_recorded jobs outs q \<longleftrightarrow>
     list_all2 (\<lambda>j out. submitted_as (nj_type j) (nj_dedup_key j) (so_job_id out) q) jobs outs"

lemma execute_submit_many_ok:
  assumes "execute_submit_many env jobs payloads positions n q = (Inr rows, q')"
    and "length payloads = length jobs" "length positions = length jobs"
  shows "batch_recorded jobs (submit_outcomes rows) q' \<and> length rows = length jobs"
proof -
  have "submit_rows env n (zip positions (zip payloads jobs)) q = (Inr rows, q')"
    using assms(1) by (auto simp: execute_submit_many_def split: prod.splits sum.splits)
  from submit_rows_all [OF this] assms(2,3) show ?thesis
    by (auto simp: batch_recorded_def submit_outcomes_def list_all2_conv_all_nth split_beta)
qed

lemma execute_submit_many_error:
  "execute_submit_many env jobs payloads positions n q = (Inl e, q') \<Longrightarrow> q' = q"
  by (auto simp: execute_submit_many_def split: prod.splits sum.splits)

definition batch_post :: "repo_env \<Rightarrow> new_job list \<Rightarrow> job_queue \<Rightarrow>
    job_error + submit_outcome list \<Rightarrow> job_queue \<Rightarrow> bool" where
  "batch_post env jobs q r q' \<longleftrightarrow>
     (case r of Inr outs \<Rightarrow> batch_recorded jobs outs q'
      | Inl e \<Rightarrow> (\<forall>n. network env n \<noteq> Reply_lost) \<longrightarrow> q' = q)"

lemma submit_many_attempt_post:
  assumes "submit_many_attempt env jobs payloads positions n q1 = (x, q')"
    and "(\<forall>n. network env n \<noteq> Reply_lost) \<longrightarrow> q1 = q"
    and "length payloads = length jobs" "length positions = length jobs"
  shows "case x of Again \<Rightarrow> (\<forall>n. network env n \<noteq> Reply_lost) \<longrightarrow> q' = q
         | Done r \<Rightarrow> batch_post env jobs q r q'"
proof -
  obtain r q2 where r: "execute_submit_many env jobs payloads positions n q1 = (r, q2)" by fastforce
  have ok: "\<And>rows. r = Inr rows \<Longrightarrow> batch_recorded jobs (submit_outcomes rows) q2 \<and>
      length rows = length jobs"
    using execute_submit_many_ok [OF _ assms(3,4)] r by blast
  have err: "\<And>e. r = Inl e \<Longrightarrow> q2 = q1" using execute_submit_many_error r by blast
  show ?thesis
  proof (cases "network env n")
    case Delivered
    then show ?thesis using assms(1,2) r ok err
      by (cases r) (auto simp: submit_many_attempt_def db_call_def batch_post_def split: if_splits)
  next
    case (Failed e)
    then show ?thesis using assms(1,2)
      by (auto simp: submit_many_attempt_def db_call_def batch_post_def split: if_splits)
  next
    case Reply_lost
    then show ?thesis using assms(1)
      by (auto simp: submit_many_attempt_def db_call_def batch_post_def split: if_splits outcome.split)
  qed
qed

lemma repo_submit_many_post:
  assumes "repo_submit_many env connected jobs q = (r, q')"
  shows "batch_post env jobs q r q' \<and> (length jobs > 500 \<longrightarrow> r = Inl (Validation BadBatchSize))"
proof (cases "prepare_submit_batch env jobs")
  case (Inl e)
  then show ?thesis using assms
    by (auto simp: repo_submit_many_def batch_post_def prepare_submit_batch_def max_submit_batch_size_def
        split: if_splits)
next
  case (Inr p)
  obtain payloads positions where p: "p = (payloads, positions)" by (cases p)
  note ok = prepare_submit_batch_ok [OF Inr [unfolded p]]
  consider "jobs = []" | "jobs \<noteq> []" "\<not> connected" | "jobs \<noteq> []" "connected" by blast
  then have "batch_post env jobs q r q'"
  proof cases
    case 3
    then have loop: "for_attempts 3 0 (submit_many_attempt env jobs payloads positions)
        (Inl DatabaseError) q = (r, q')"
      using assms Inr p by (simp add: repo_submit_many_def)
    show ?thesis
      by (rule for_attempts_post [where P = "\<lambda>s. (\<forall>n. network env n \<noteq> Reply_lost) \<longrightarrow> s = q" and
            Q = "batch_post env jobs q", OF _ loop])
         (use ok in \<open>auto dest!: submit_many_attempt_post [where q = q] simp: batch_post_def\<close>)
  qed (use assms Inr p in \<open>auto simp: repo_submit_many_def batch_post_def batch_recorded_def\<close>)
  with ok show ?thesis by simp
qed

section \<open>Properties\<close>

definition demo_env :: "(nat \<Rightarrow> delivery) \<Rightarrow> repo_env" where
  "demo_env net =
     \<lparr>registry = (\<lambda>t v. True), claim_switch = (\<lambda>s. True), media_switch = True,
      to_jsonb = (\<lambda>s. if s = ''{}'' then Some (JObj []) else None), year_of = (\<lambda>t. 2024),
      render_json = (\<lambda>v. Some ''{}''), row_locked = (\<lambda>i. False), clock = (\<lambda>n. 9),
      network = net, fresh_id = (\<lambda>n. 3 + n)\<rparr>"

definition demo_job :: new_job where
  "demo_job = \<lparr>nj_type = ''system.noop'', nj_version = 1, nj_payload = JObj [], nj_priority = 0,
     nj_max_attempts = 3, nj_available_at = None, nj_dedup_key = ''k''\<rparr>"

lemma demo_submit_once:
  "submit_once (demo_env net) 3 ''{}'' demo_job n empty_queue = (Inr (3, False), demo_queue)"
  "submit_once (demo_env net) 3 ''{}'' demo_job n demo_queue = (Inr (3, True), demo_queue)"
  by (simp_all add: submit_once_def demo_env_def demo_job_def submit_job_def demo_valid
      is_object_def empty_queue_def find_row_def log_event_def demo_queue_def demo_row_def active_def)

text \<open>C3: submitting a job is idempotent over any network: however often a client submits jobs of
  one type and deduplication key, with calls that fail, are retried after a serialization failure
  or lose their reply, at most one row is added to the table, and every submission that succeeds
  returns the identifier of the one active row of that key.\<close>

theorem submission_exactly_once:
  assumes "submit_repeatedly xs q = (rs, q')"
    and "list_all (\<lambda>(env, j). nj_type j = ty \<and> nj_dedup_key j = k) xs"
  shows "(q_rows q' = q_rows q \<or> (\<exists>r. q_rows q' = q_rows q @ [r] \<and> key_match ty k r)) \<and>
    (\<forall>out. Inr out \<in> set rs \<longrightarrow>
       map_option jr_id (find (key_match ty k) (q_rows q')) = Some (so_job_id out))"
  using submit_repeatedly_effect [OF assms] by (auto simp: submit_effect_def submitted_as_def)

theorem submission_exactly_once_witness:
  "\<exists>rs q'. submit_repeatedly [(demo_env (\<lambda>n. Reply_lost), demo_job), (demo_env (\<lambda>n. Delivered), demo_job)]
     empty_queue = (rs, q') \<and> rs = [Inl DatabaseError, Inr \<lparr>so_job_id = 3, so_duplicate = True\<rparr>] \<and>
     map_option jr_id (find (key_match ''system.noop'' ''k'') (q_rows q')) = Some 3"
proof -
  let ?xs = "[(demo_env (\<lambda>n. Reply_lost), demo_job), (demo_env (\<lambda>n. Delivered), demo_job)]"
  have env: "render_json (demo_env net) v = Some ''{}''" "fresh_id (demo_env net) 0 = 3"
      "network (demo_env net) n = net n" for net v n
    by (simp_all add: demo_env_def)
  have run: "submit_repeatedly ?xs empty_queue =
      ([Inl DatabaseError, Inr \<lparr>so_job_id = 3, so_duplicate = True\<rparr>], demo_queue)"
    by (simp add: repo_submit_def env submit_attempt_def db_call_def demo_submit_once
        map_database_error_def for_attempts_3)
  from submission_exactly_once [OF run, of "''system.noop''" "''k''"] run show ?thesis
    by (simp add: demo_job_def)
qed

text \<open>A batch is all or nothing and keeps its order: a successful submission returns one outcome
  per job, in order, each the active row of that job's type and key; a failed one leaves the queue
  unchanged unless a reply was lost; and more than 500 jobs are refused.\<close>

theorem submit_batch_atomic:
  assumes "repo_submit_many env connected jobs q = (r, q')"
  shows "(\<forall>outs. r = Inr outs \<longrightarrow> length outs = length jobs \<and>
      (\<forall>n < length jobs. submitted_as (nj_type (jobs ! n)) (nj_dedup_key (jobs ! n))
         (so_job_id (outs ! n)) q')) \<and>
    (\<forall>e. r = Inl e \<longrightarrow> (\<forall>n. network env n \<noteq> Reply_lost) \<longrightarrow> q' = q) \<and>
    (length jobs > 500 \<longrightarrow> r = Inl (Validation BadBatchSize))"
  using repo_submit_many_post [OF assms]
  by (auto simp: batch_post_def batch_recorded_def list_all2_conv_all_nth)

theorem submit_batch_atomic_witness:
  "\<exists>outs. repo_submit_many (demo_env (\<lambda>n. Delivered)) True [demo_job] empty_queue = (Inr outs, demo_queue) \<and>
     length outs = 1 \<and> submitted_as ''system.noop'' ''k'' (so_job_id (outs ! 0)) demo_queue"
proof -
  have env: "render_json (demo_env net) v = Some ''{}''" "fresh_id (demo_env net) 0 = 3"
      "network (demo_env net) n = net n" for net v n
    by (simp_all add: demo_env_def)
  have run: "repo_submit_many (demo_env (\<lambda>n. Delivered)) True [demo_job] empty_queue =
      (Inr [\<lparr>so_job_id = 3, so_duplicate = False\<rparr>], demo_queue)"
    by (simp add: repo_submit_many_def prepare_submit_batch_def env submit_many_attempt_def
        db_call_def execute_submit_many_def demo_submit_once max_submit_batch_size_def
        submit_outcomes_def for_attempts_3)
  from submit_batch_atomic [OF run] run show ?thesis by (simp add: demo_job_def)
qed

end
