(* ===== verification/Worker.thy ===== *)
theory Worker
  imports Job_Repository
begin

text \<open>
  The polling worker of \<open>src/crates/tmdb-jobs/src/worker.rs\<close>: validated timings, the claim loop,
  the heartbeat beside an execution, and the recording of outcomes. A run is driven by turns,
  one per pass of the loop; a turn says what the select points observe (shutdown, heartbeat
  rounds, the end of the execution) and how the network and other clients behave at each call.
  The run ends in a shutdown after the last turn.
\<close>

section \<open>Configuration\<close>

definition max_lease_duration :: duration where
  "max_lease_duration = from_secs 3600"

record worker_config =
  wc_worker_id :: string
  wc_lease_duration :: duration
  wc_heartbeat_interval :: duration
  wc_idle_poll_interval :: duration

datatype worker_config_error = Timing

definition worker_config_try_new ::
    "string \<Rightarrow> duration \<Rightarrow> duration \<Rightarrow> duration \<Rightarrow> worker_config_error + worker_config" where
  "worker_config_try_new w lease beat idle =
     (if lease = 0 \<or> lease > max_lease_duration \<or> beat = 0 \<or> beat \<ge> lease \<or> idle = 0 \<or>
         lease mod 1000 \<noteq> 0 \<or> beat mod 1000 \<noteq> 0 \<or> idle mod 1000 \<noteq> 0
      then Inl Timing
      else Inr \<lparr>wc_worker_id = w, wc_lease_duration = lease, wc_heartbeat_interval = beat,
                wc_idle_poll_interval = idle\<rparr>)"

definition worker_config_new ::
    "string \<Rightarrow> duration \<Rightarrow> duration \<Rightarrow> duration \<Rightarrow> worker_config_error + worker_config" where
  "worker_config_new w lease beat idle = worker_config_try_new w lease beat idle"

section \<open>Outcomes\<close>

datatype worker_error = RepositoryError job_error

definition ignore_lost_lease :: "job_error \<Rightarrow> worker_error + unit" where
  "ignore_lost_lease e =
     (if e = LeaseLost \<or> e = JobNotFound then Inr () else Inl (RepositoryError e))"

definition record_repository_error :: "job_error \<Rightarrow> worker_error + unit" where
  "record_repository_error e =
     (if e = LeaseLost \<or> e = JobNotFound then Inr () else Inl (RepositoryError e))"

definition log_failure_code :: "string \<Rightarrow> string" where
  "log_failure_code c = (if c \<in> set canonical_failure_codes then c else ''custom_failure'')"

definition is_expected_backpressure :: "string \<Rightarrow> bool" where
  "is_expected_backpressure c \<longleftrightarrow>
     c \<in> {''export_queue_incomplete'', ''changes_queue_full'', ''missing_queue_full''}"

type_synonym execution_result = "job_execution_error + json"

definition record_success ::
    "repo_env \<Rightarrow> worker_config \<Rightarrow> claimed_job \<Rightarrow> json \<Rightarrow> job_queue \<Rightarrow> (worker_error + unit) \<times> job_queue" where
  "record_success env cfg job v q =
     (case repo_complete env (cj_id job) (wc_worker_id cfg) v q of
        (Inr _, q') \<Rightarrow> (Inr (), q')
      | (Inl e, q') \<Rightarrow> (record_repository_error e, q'))"

definition record_terminal_failure ::
    "repo_env \<Rightarrow> worker_config \<Rightarrow> claimed_job \<Rightarrow> job_execution_error \<Rightarrow> job_queue \<Rightarrow>
     (worker_error + unit) \<times> job_queue" where
  "record_terminal_failure env cfg job e q =
     (case repo_dead_letter env (cj_id job) (wc_worker_id cfg) (code e) q of
        (Inr DeadLettered, q') \<Rightarrow> (Inr (), q')
      | (Inr CancelledInstead, q') \<Rightarrow> (Inr (), q')
      | (Inr (RetryScheduled _), q') \<Rightarrow> (Inl (RepositoryError DatabaseError), q')
      | (Inl re, q') \<Rightarrow> (record_repository_error re, q'))"

definition record_retryable_failure ::
    "repo_env \<Rightarrow> worker_config \<Rightarrow> claimed_job \<Rightarrow> job_execution_error \<Rightarrow> job_queue \<Rightarrow>
     (worker_error + unit) \<times> job_queue" where
  "record_retryable_failure env cfg job e q =
     (case repo_fail env (cj_id job) (wc_worker_id cfg) (code e) (retry_delay e) q of
        (Inr _, q') \<Rightarrow> (Inr (), q')
      | (Inl re, q') \<Rightarrow> (record_repository_error re, q'))"

definition record_outcome ::
    "repo_env \<Rightarrow> worker_config \<Rightarrow> claimed_job \<Rightarrow> execution_result \<Rightarrow> job_queue \<Rightarrow>
     (worker_error + unit) \<times> job_queue" where
  "record_outcome env cfg job result q =
     (case result of
        Inr v \<Rightarrow> record_success env cfg job v q
      | Inl e \<Rightarrow> if terminal e then record_terminal_failure env cfg job e q
                 else record_retryable_failure env cfg job e q)"

section \<open>Heartbeats\<close>

text \<open>
  What the database does at one call: other clients act on the queue first, then the call is made
  in its environment.
\<close>

type_synonym exchange = "(job_queue \<Rightarrow> job_queue) \<times> repo_env"

datatype heartbeat_signal = Lease_lost_signal | Job_cancelled_signal

definition heartbeat_round ::
    "worker_config \<Rightarrow> nat \<Rightarrow> exchange \<Rightarrow> job_queue \<Rightarrow> heartbeat_signal option \<times> job_queue" where
  "heartbeat_round cfg i x q =
     (case x of (others, env) \<Rightarrow>
        (case repo_heartbeat env i (wc_worker_id cfg) (wc_lease_duration cfg) (others q) of
           (Inl _, q') \<Rightarrow> (Some Lease_lost_signal, q')
         | (Inr _, q') \<Rightarrow>
             (case repo_cancellation_requested env i (wc_worker_id cfg) q' of
                Inr True \<Rightarrow> (Some Job_cancelled_signal, q')
              | Inr False \<Rightarrow> (None, q')
              | Inl _ \<Rightarrow> (Some Lease_lost_signal, q'))))"

text \<open>The heartbeat task, for the rounds that take place before the execution ends.\<close>

fun heartbeat_task ::
    "worker_config \<Rightarrow> nat \<Rightarrow> exchange list \<Rightarrow> job_queue \<Rightarrow> heartbeat_signal option \<times> job_queue" where
  "heartbeat_task cfg i [] q = (None, q)"
| "heartbeat_task cfg i (x # xs) q =
     (case heartbeat_round cfg i x q of
        (Some s, q') \<Rightarrow> (Some s, q')
      | (None, q') \<Rightarrow> heartbeat_task cfg i xs q')"

section \<open>Executing a claimed job\<close>

text \<open>How the select of \<open>execute_claimed\<close> ends when no heartbeat signal comes first.\<close>

datatype ending = Shutdown | Panicked | Returned execution_result

definition complete_cancelled ::
    "repo_env \<Rightarrow> worker_config \<Rightarrow> claimed_job \<Rightarrow> job_queue \<Rightarrow> (worker_error + unit) \<times> job_queue" where
  "complete_cancelled env cfg job q =
     (case repo_complete env (cj_id job) (wc_worker_id cfg) (JObj []) q of
        (Inr _, q') \<Rightarrow> (Inr (), q')
      | (Inl e, q') \<Rightarrow> (ignore_lost_lease e, q'))"

definition execute_claimed ::
    "worker_config \<Rightarrow> claimed_job \<Rightarrow> exchange list \<Rightarrow> ending \<Rightarrow> exchange \<Rightarrow> job_queue \<Rightarrow>
     (worker_error + unit) \<times> job_queue" where
  "execute_claimed cfg job beats end_with rec q =
     (case rec of (others, env) \<Rightarrow>
        if cj_cancellation_requested job then complete_cancelled env cfg job (others q)
        else
          (case heartbeat_task cfg (cj_id job) beats q of
             (Some Lease_lost_signal, q') \<Rightarrow> (Inr (), q')
           | (Some Job_cancelled_signal, q') \<Rightarrow> complete_cancelled env cfg job (others q')
           | (None, q') \<Rightarrow>
               (case end_with of
                  Shutdown \<Rightarrow> (Inr (), q')
                | Panicked \<Rightarrow>
                    record_outcome env cfg job (Inl (job_retry ''execution_failed'' (from_secs 1))) (others q')
                | Returned result \<Rightarrow> record_outcome env cfg job result (others q'))))"

section \<open>The loop\<close>

record turn =
  stop_at_gate :: bool
  claim_exchange :: exchange
  stop_in_claim :: bool
  stop_in_pause :: bool
  beats :: "exchange list"
  end_with :: ending
  record_exchange :: exchange

text \<open>
  The loop continues (\<open>Again\<close>) or returns. A pause is the wait after a database failure or the
  idle wait; a shutdown during the claim drops its reply, whatever the call did.
\<close>

definition worker_turn ::
    "worker_config \<Rightarrow> string list option \<Rightarrow> turn \<Rightarrow> job_queue \<Rightarrow> (worker_error + unit) outcome \<times> job_queue" where
  "worker_turn cfg types t q =
     (if stop_at_gate t then (Done (Inr ()), q)
      else case claim_exchange t of (others, env) \<Rightarrow>
        (case repo_claim_for_types env (wc_worker_id cfg) (wc_lease_duration cfg) types (others q) of
           (claim, q1) \<Rightarrow>
             if stop_in_claim t then (Done (Inr ()), q1)
             else
               (case claim of
                  Inl e \<Rightarrow>
                    if e = DatabaseError then (if stop_in_pause t then Done (Inr ()) else Again, q1)
                    else (Done (Inl (RepositoryError e)), q1)
                | Inr None \<Rightarrow> (if stop_in_pause t then Done (Inr ()) else Again, q1)
                | Inr (Some job) \<Rightarrow>
                    (case execute_claimed cfg job (beats t) (end_with t) (record_exchange t) q1 of
                       (Inr _, q2) \<Rightarrow> (Again, q2)
                     | (Inl e, q2) \<Rightarrow>
                         if e = RepositoryError DatabaseError
                         then (if stop_in_pause t then Done (Inr ()) else Again, q2)
                         else (Done (Inl e), q2)))))"

fun worker_run ::
    "worker_config \<Rightarrow> string list option \<Rightarrow> turn list \<Rightarrow> job_queue \<Rightarrow> (worker_error + unit) \<times> job_queue" where
  "worker_run cfg types [] q = (Inr (), q)"
| "worker_run cfg types (t # ts) q =
     (case worker_turn cfg types t q of
        (Done r, q') \<Rightarrow> (r, q')
      | (Again, q') \<Rightarrow> worker_run cfg types ts q')"

section \<open>A run is a sequence of queue functions\<close>

lemma record_success_steps: "record_success env cfg job v q = (r, q') \<Longrightarrow> queue_step\<^sup>*\<^sup>* q q'"
  by (auto simp: record_success_def split: prod.splits sum.splits dest: repo_complete_steps)

lemma record_terminal_steps: "record_terminal_failure env cfg job e q = (r, q') \<Longrightarrow> queue_step\<^sup>*\<^sup>* q q'"
  by (auto simp: record_terminal_failure_def split: prod.splits sum.splits failure_disposition.splits
      dest: repo_dead_letter_steps)

lemma record_retryable_steps: "record_retryable_failure env cfg job e q = (r, q') \<Longrightarrow> queue_step\<^sup>*\<^sup>* q q'"
  by (auto simp: record_retryable_failure_def split: prod.splits sum.splits dest: repo_fail_steps)

lemma record_outcome_steps: "record_outcome env cfg job res q = (r, q') \<Longrightarrow> queue_step\<^sup>*\<^sup>* q q'"
  by (auto simp: record_outcome_def split: sum.splits if_splits
      dest: record_success_steps record_terminal_steps record_retryable_steps)

lemma complete_cancelled_steps: "complete_cancelled env cfg job q = (r, q') \<Longrightarrow> queue_step\<^sup>*\<^sup>* q q'"
  by (auto simp: complete_cancelled_def split: prod.splits sum.splits dest: repo_complete_steps)

text \<open>The other clients also act through the functions of the queue.\<close>

definition by_steps :: "exchange \<Rightarrow> bool" where
  "by_steps x \<longleftrightarrow> (\<forall>q. queue_step\<^sup>*\<^sup>* q (fst x q))"

definition steps_turn :: "turn \<Rightarrow> bool" where
  "steps_turn t \<longleftrightarrow> by_steps (claim_exchange t) \<and> by_steps (record_exchange t) \<and> list_all by_steps (beats t)"

lemma by_steps_then: "by_steps (others, env) \<Longrightarrow> queue_step\<^sup>*\<^sup>* (others q) q' \<Longrightarrow> queue_step\<^sup>*\<^sup>* q q'"
  by (metis by_steps_def fst_conv rtranclp_trans)

lemma heartbeat_round_steps:
  "heartbeat_round cfg i x q = (s, q') \<Longrightarrow> by_steps x \<Longrightarrow> queue_step\<^sup>*\<^sup>* q q'"
  by (auto simp: heartbeat_round_def split: prod.splits sum.splits bool.splits
      dest!: repo_heartbeat_steps intro: by_steps_then)

lemma heartbeat_task_steps:
  "heartbeat_task cfg i xs q = (s, q') \<Longrightarrow> list_all by_steps xs \<Longrightarrow> queue_step\<^sup>*\<^sup>* q q'"
proof (induction cfg i xs q arbitrary: s q' rule: heartbeat_task.induct)
  case (2 cfg i x xs q)
  obtain s1 q1 where r: "heartbeat_round cfg i x q = (s1, q1)" by fastforce
  have one: "queue_step\<^sup>*\<^sup>* q q1" using heartbeat_round_steps [OF r] "2.prems"(2) by simp
  show ?case
  proof (cases s1)
    case None
    then have "queue_step\<^sup>*\<^sup>* q1 q'" using "2.IH" [OF r [symmetric]] "2.prems" r by simp
    with one show ?thesis by simp
  next
    case (Some s2)
    then show ?thesis using one r "2.prems" by simp
  qed
qed simp

lemma execute_claimed_steps:
  assumes "execute_claimed cfg job bs ew rec q = (r, q')" "list_all by_steps bs" "by_steps rec"
  shows "queue_step\<^sup>*\<^sup>* q q'"
proof -
  obtain others env where rec: "rec = (others, env)" by (cases rec)
  obtain s q1 where h: "heartbeat_task cfg (cj_id job) bs q = (s, q1)" by fastforce
  have q1: "queue_step\<^sup>*\<^sup>* q q1" by (rule heartbeat_task_steps [OF h assms(2)])
  have "queue_step\<^sup>*\<^sup>* q q' \<or> queue_step\<^sup>*\<^sup>* q1 q'"
    using assms(1,3) rec h
    by (auto simp: execute_claimed_def split: if_splits option.splits heartbeat_signal.splits ending.splits
        dest!: complete_cancelled_steps record_outcome_steps intro: by_steps_then)
  then show ?thesis using q1 by (auto intro: rtranclp_trans)
qed

lemma worker_turn_steps:
  assumes "worker_turn cfg types t q = (r, q')" "steps_turn t"
  shows "queue_step\<^sup>*\<^sup>* q q'"
proof (cases "stop_at_gate t")
  case False
  obtain others env where x: "claim_exchange t = (others, env)" by (cases "claim_exchange t")
  obtain c q1 where c: "repo_claim_for_types env (wc_worker_id cfg) (wc_lease_duration cfg) types
      (others q) = (c, q1)" by fastforce
  have q1: "queue_step\<^sup>*\<^sup>* q q1"
    using repo_claim_steps [OF c] assms(2) x by (auto simp: steps_turn_def intro: by_steps_then)
  have "q' = q1 \<or> (\<exists>job r. execute_claimed cfg job (beats t) (end_with t) (record_exchange t) q1 = (r, q'))"
    using assms(1) False x c
    by (auto simp: worker_turn_def split: if_splits sum.splits option.splits prod.splits)
  moreover have "queue_step\<^sup>*\<^sup>* q1 q'"
    if "execute_claimed cfg job (beats t) (end_with t) (record_exchange t) q1 = (r, q')" for job r
    using execute_claimed_steps [OF that] assms(2) by (simp add: steps_turn_def)
  ultimately show ?thesis using q1 by (auto intro: rtranclp_trans)
qed (use assms in \<open>simp add: worker_turn_def\<close>)

lemma worker_run_steps:
  "worker_run cfg types ts q = (r, q') \<Longrightarrow> list_all steps_turn ts \<Longrightarrow> queue_step\<^sup>*\<^sup>* q q'"
proof (induction cfg types ts q arbitrary: r q' rule: worker_run.induct)
  case (2 cfg types t ts q)
  obtain x q1 where x: "worker_turn cfg types t q = (x, q1)" by fastforce
  have one: "queue_step\<^sup>*\<^sup>* q q1" using worker_turn_steps [OF x] "2.prems"(2) by simp
  show ?case
  proof (cases x)
    case Again
    then have "queue_step\<^sup>*\<^sup>* q1 q'" using "2.IH" [OF x [symmetric]] "2.prems" x by simp
    with one show ?thesis by simp
  qed (use one x "2.prems" in simp)
qed simp

section \<open>When a worker keeps running\<close>

definition expected :: "job_error \<Rightarrow> bool" where
  "expected e \<longleftrightarrow> e \<in> {DatabaseError, LeaseLost, JobNotFound}"

text \<open>No failure of the network looks like one of the errors the queue functions raise themselves.\<close>

definition plain_failures :: "repo_env \<Rightarrow> bool" where
  "plain_failures env \<longleftrightarrow>
     (\<forall>n e. network env n = Failed e \<longrightarrow> map_database_error e = DatabaseError)"

lemma db_query_error:
  assumes "db_query (network env n) f q = (Inl e, q')" "plain_failures env"
  shows "e = DatabaseError \<or> (\<exists>s. fst (f q) = Inl s \<and> e = map_database_error (Some s))"
  using assms by (auto simp: db_query_def db_call_def plain_failures_def map_database_error_def result_simps
      split: delivery.splits prod.splits)

text \<open>A failure code the repository accepts and the queue functions can store.\<close>

definition recordable_code :: "string \<Rightarrow> bool" where
  "recordable_code c \<longleftrightarrow> validate_failure_code c = Inr () \<and> message_ok c 2048"

definition wf_result :: "repo_env \<Rightarrow> execution_result \<Rightarrow> bool" where
  "wf_result env res \<longleftrightarrow>
     (case res of
        Inr v \<Rightarrow> is_object v \<and> (case render_json env v of None \<Rightarrow> False
                   | Some bytes \<Rightarrow> length bytes \<le> 65536 \<and> to_jsonb env bytes = Some v)
      | Inl e \<Rightarrow> recordable_code (code e) \<and>
          (terminal e \<or> is_ok (duration_microseconds (retry_delay e) max_retry_micros)))"

lemma canonical_message_ok:
  assumes "c \<in> set canonical_failure_codes"
  shows "message_ok c 2048"
  using assms unfolding canonical_failure_codes_def
  by (auto simp: message_ok_def char_count_def is_cont_def btrim_def)

lemma canonical_recordable: "c \<in> set canonical_failure_codes \<Longrightarrow> recordable_code c"
  by (simp add: recordable_code_def validate_failure_code_canonical canonical_message_ok)

lemma repo_get_expected:
  assumes "repo_get env n i q = Inl e" "plain_failures env"
  shows "expected e"
proof -
  obtain x q2 where x: "db_query (network env n) (\<lambda>q. (Inr (find_row i q) :: string + job_row option, q)) q
      = (x, q2)" by fastforce
  show ?thesis
  proof (cases x)
    case (Inl e1)
    then have "e1 = e" using assms(1) x by (simp add: repo_get_def)
    then show ?thesis using db_query_error [OF x [unfolded Inl] assms(2)] by (simp add: expected_def)
  next
    case (Inr ro)
    then show ?thesis using assms(1) x
      by (cases ro) (auto simp: repo_get_def expected_def job_row_into_model_def)
  qed
qed

lemma repo_complete_expected:
  assumes "repo_complete env i w v q = (Inl e, q')" "plain_failures env" "job_valid_ascii w 128"
    and "wf_result env (Inr v)"
  shows "expected e"
proof -
  obtain bytes where bytes: "is_object v" "render_json env v = Some bytes" "length bytes \<le> 65536"
      "to_jsonb env bytes = Some v"
    using assms(4) by (auto simp: wf_result_def split: option.splits)
  have valid: "validate_json_object (render_json env) v = Inr ()"
    using bytes by (simp add: validate_json_object_def max_json_bytes_def)
  obtain r q1 where r: "db_query (network env 0) (complete_job (to_jsonb env) (clock env 0) i w bytes) q = (r, q1)"
    by fastforce
  show ?thesis
  proof (cases r)
    case (Inl e1)
    then have "e1 = e" using assms(1) valid bytes r by (simp add: repo_complete_def)
    then show ?thesis
      using db_query_error [OF r [unfolded Inl] assms(2)] bytes assms(3)
      by (auto simp: expected_def complete_job_def map_database_error_def Let_def
          split: option.splits if_splits)
  next
    case (Inr st)
    then have "repo_get env 1 i q1 = Inl e" using assms(1) valid bytes r by (auto simp: repo_complete_def)
    then show ?thesis by (rule repo_get_expected [OF _ assms(2)])
  qed
qed

lemma repo_fail_expected:
  assumes "repo_fail env i w c d q = (Inl e, q')" "plain_failures env" "job_valid_ascii w 128"
    and "recordable_code c" "is_ok (duration_microseconds d max_retry_micros)"
  shows "expected e"
proof -
  obtain us where us: "duration_microseconds d max_retry_micros = Inr us"
    using assms(5) by (auto simp: is_ok_iff)
  then have range: "1 \<le> us" "us \<le> 604800000000"
    by (auto simp: duration_microseconds_ok max_retry_micros_def)
  obtain r q1 where r: "db_query (network env 0) (fail_job (clock env 0) i w c us) q = (r, q1)" by fastforce
  show ?thesis
  proof (cases r)
    case (Inl e1)
    then have "e1 = e" using assms(1) r us assms(4) [unfolded recordable_code_def] by (simp add: repo_fail_def)
    then show ?thesis
      using db_query_error [OF r [unfolded Inl] assms(2)] assms(3) range assms(4) [unfolded recordable_code_def]
      by (auto simp: expected_def fail_job_def map_database_error_def Let_def
          split: option.splits if_splits)
  next
    case (Inr st)
    then show ?thesis using assms(1) r us assms(4) [unfolded recordable_code_def]
      by (cases st) (auto simp: repo_fail_def expected_def Let_def split: if_splits)
  qed
qed

lemma repo_dead_letter_expected:
  assumes "repo_dead_letter env i w c q = (Inl e, q')" "plain_failures env" "job_valid_ascii w 128"
    and "recordable_code c"
  shows "expected e"
proof -
  obtain r q1 where r: "db_query (network env 0) (dead_letter_job (clock env 0) i w c) q = (r, q1)" by fastforce
  show ?thesis
  proof (cases r)
    case (Inl e1)
    then have "e1 = e" using assms(1) r assms(4) [unfolded recordable_code_def] by (simp add: repo_dead_letter_def)
    then show ?thesis
      using db_query_error [OF r [unfolded Inl] assms(2)] assms(3) assms(4) [unfolded recordable_code_def]
      by (auto simp: expected_def dead_letter_job_def map_database_error_def Let_def
          split: option.splits if_splits)
  next
    case (Inr st)
    then show ?thesis using assms(1) r assms(4) [unfolded recordable_code_def]
      by (cases st) (auto simp: repo_dead_letter_def expected_def Let_def split: if_splits)
  qed
qed

definition tolerable :: "worker_error + unit \<Rightarrow> bool" where
  "tolerable r \<longleftrightarrow> r = Inr () \<or> r = Inl (RepositoryError DatabaseError)"

lemma tolerable_ok [simp]: "tolerable (Inr u)" "tolerable (Inl (RepositoryError DatabaseError))"
  by (simp_all add: tolerable_def)

lemma record_expected: "expected e \<Longrightarrow> tolerable (record_repository_error e)"
  by (auto simp: expected_def record_repository_error_def tolerable_def)

lemma ignore_expected: "expected e \<Longrightarrow> tolerable (ignore_lost_lease e)"
  by (auto simp: expected_def ignore_lost_lease_def tolerable_def)

lemma record_outcome_tolerable:
  assumes "record_outcome env cfg job res q = (r, q')" "plain_failures env"
    and "job_valid_ascii (wc_worker_id cfg) 128" "wf_result env res"
  shows "tolerable r"
proof (cases res)
  case (Inr v)
  then show ?thesis
    using assms
    by (auto simp: record_outcome_def record_success_def split: prod.splits sum.splits
        intro: record_expected repo_complete_expected)
next
  case (Inl e)
  then have c: "recordable_code (code e)"
    "terminal e \<or> is_ok (duration_microseconds (retry_delay e) max_retry_micros)"
    using assms(4) by (auto simp: wf_result_def)
  show ?thesis
  proof (cases "terminal e")
    case True
    then show ?thesis
      using assms(1) Inl
      by (auto simp: record_outcome_def record_terminal_failure_def
          split: prod.splits sum.splits failure_disposition.splits
          intro: record_expected repo_dead_letter_expected [OF _ assms(2,3) c(1)])
  next
    case False
    then show ?thesis
      using assms(1) Inl c
      by (auto simp: record_outcome_def record_retryable_failure_def
          split: prod.splits sum.splits
          intro: record_expected repo_fail_expected [OF _ assms(2,3) c(1)])
  qed
qed

text \<open>
  The text form of the empty object parses back, network failures are not queue errors, and the
  executor returns an object that fits, or a recordable code with a storable delay.
\<close>

definition json_ok :: "repo_env \<Rightarrow> bool" where
  "json_ok env \<longleftrightarrow> render_json env (JObj []) = Some ''{}'' \<and> to_jsonb env ''{}'' = Some (JObj [])"

definition wf_turn :: "turn \<Rightarrow> bool" where
  "wf_turn t \<longleftrightarrow>
     plain_failures (snd (claim_exchange t)) \<and> plain_failures (snd (record_exchange t)) \<and>
     json_ok (snd (record_exchange t)) \<and>
     (case end_with t of Returned res \<Rightarrow> wf_result (snd (record_exchange t)) res | _ \<Rightarrow> True)"

definition types_ok :: "string list option \<Rightarrow> bool" where
  "types_ok types \<longleftrightarrow>
     (case types of None \<Rightarrow> True
      | Some ts \<Rightarrow> length ts \<le> 64 \<and> list_all (\<lambda>t. job_valid_ascii t 128) ts)"

lemma wf_result_empty: "json_ok env \<Longrightarrow> wf_result env (Inr (JObj []))"
  by (simp add: wf_result_def json_ok_def is_object_def)

lemma wf_result_panic: "wf_result env (Inl (job_retry ''execution_failed'' (from_secs 1)))"
  by (simp add: wf_result_def job_retry_def canonical_recordable canonical_failure_codes_def duration_microseconds_def
      as_micros_def from_secs_def max_retry_micros_def)

lemma complete_cancelled_tolerable:
  assumes "complete_cancelled env cfg job q = (r, q')" "plain_failures env"
    and "job_valid_ascii (wc_worker_id cfg) 128" "json_ok env"
  shows "tolerable r"
  using assms(1)
  by (auto simp: complete_cancelled_def split: prod.splits sum.splits
      intro: ignore_expected repo_complete_expected [OF _ assms(2,3) wf_result_empty [OF assms(4)]])

lemma execute_claimed_tolerable:
  assumes "execute_claimed cfg job bs ew rec q = (r, q')"
    and "plain_failures (snd rec)" "job_valid_ascii (wc_worker_id cfg) 128" "json_ok (snd rec)"
    and "case ew of Returned res \<Rightarrow> wf_result (snd rec) res | _ \<Rightarrow> True"
  shows "tolerable r"
proof -
  obtain others env where rec: "rec = (others, env)" by (cases rec)
  have res: "tolerable r1" if "record_outcome env cfg job res q1 = (r1, q2)" "wf_result env res" for res r1 q1 q2
    by (rule record_outcome_tolerable [OF that(1) _ assms(3) that(2)]) (use assms(2) rec in simp)
  have canc: "tolerable r1" if "complete_cancelled env cfg job q1 = (r1, q2)" for r1 q1 q2
    by (rule complete_cancelled_tolerable [OF that _ assms(3)]) (use assms(2,4) rec in simp_all)
  show ?thesis
    using assms(1,5) rec
    by (auto simp: execute_claimed_def split: if_splits prod.splits option.splits
        heartbeat_signal.splits ending.splits intro: res canc wf_result_panic [unfolded One_nat_def])
qed

lemma config_lease:
  assumes "worker_config_try_new w lease beat idle = Inr cfg"
  shows "\<exists>us. duration_microseconds (wc_lease_duration cfg) max_lease_micros = Inr us \<and> 1 \<le> us \<and> us \<le> 3600000000"
    and "wc_worker_id cfg = w"
proof -
  from assms have c: "0 < lease" "lease \<le> 3600000000000" "lease mod 1000 = 0" "cfg = \<lparr>wc_worker_id = w,
      wc_lease_duration = lease, wc_heartbeat_interval = beat, wc_idle_poll_interval = idle\<rparr>"
    by (auto simp: worker_config_try_new_def max_lease_duration_def from_secs_def split: if_splits)
  then have "0 < lease div 1000" "lease div 1000 \<le> 3600000000"
    by (auto simp: dvd_eq_mod_eq_0 [symmetric] elim!: dvdE)
  then show "\<exists>us. duration_microseconds (wc_lease_duration cfg) max_lease_micros = Inr us \<and> 1 \<le> us \<and>
      us \<le> 3600000000"
    using c by (simp add: duration_microseconds_def as_micros_def max_lease_micros_def)
  show "wc_worker_id cfg = w" using c by simp
qed

lemma btrim_trim:
  assumes "trim s = s"
  shows "btrim s = s"
proof (cases "s = []")
  case False
  have len: "length (trim_start s) \<le> length s" for s
    by (induction s rule: trim_start.induct) (subst trim_start.simps, auto)
  have len_rev: "length (trim_start_rev s) \<le> length s" for s
    by (induction s rule: trim_start_rev.induct) (subst trim_start_rev.simps, auto)
  have "length s \<le> length (trim_start s)"
    using assms len_rev [of "rev (trim_start s)"] by (metis length_rev trim_def trim_end_def)
  moreover have "length (trim_start s) < length s" if "0 < ws_prefix s"
  proof -
    have "trim_start s = trim_start (drop (ws_prefix s) s)" using that by (subst trim_start.simps) simp
    then show ?thesis
      using len [of "drop (ws_prefix s) s"] ws_prefix_shrinks [OF that] by (metis le_less_trans length_drop)
  qed
  ultimately have "ws_prefix s = 0" by fastforce
  then have start: "trim_start s = s" by (subst trim_start.simps) simp
  then have "trim_start_rev (rev s) = rev s" using assms by (simp add: trim_def trim_end_def rev_swap)
  moreover have "length (trim_start_rev (rev s)) < length s" if "0 < ws_suffix_rev (rev s)"
  proof -
    have "trim_start_rev (rev s) = trim_start_rev (drop (ws_suffix_rev (rev s)) (rev s))"
      using that by (subst trim_start_rev.simps) simp
    then show ?thesis
      using len_rev [of "drop (ws_suffix_rev (rev s)) (rev s)"] ws_suffix_shrinks [OF that]
      by (metis le_less_trans length_drop length_rev)
  qed
  ultimately have "ws_suffix_rev (rev s) = 0" by fastforce
  moreover have "hd t \<noteq> CHR '' ''" if "ws_suffix_rev t = 0" "t \<noteq> []" for t
    using that by (cases t) (auto simp: ws1_def split: if_splits)
  ultimately have "last s \<noteq> CHR '' ''" using False by (metis hd_rev rev_is_Nil_conv)
  moreover have "hd s \<noteq> CHR '' ''"
    using \<open>ws_prefix s = 0\<close> False by (cases s) (auto simp: ws1_def split: if_splits)
  ultimately have "dropWhile (\<lambda>c. c = CHR '' '') s = s" "dropWhile (\<lambda>c. c = CHR '' '') (rev s) = rev s"
    using False by (auto simp: dropWhile_eq_self_iff hd_rev)
  then show ?thesis
    by (simp add: btrim_def)
qed (simp add: btrim_def)

lemma worker_id_sql: "worker_id_new w = Inr w' \<Longrightarrow> w' = w \<and> job_valid_ascii w 128"
proof -
  assume "worker_id_new w = Inr w'"
  then have w: "w' = w" "is_ascii w" "trim w \<noteq> ''''" "char_count w \<le> 128" "\<not> has_control w" "w = trim w"
    by (auto simp: worker_id_new_def validate_text_def max_worker_id_chars_def split: if_splits)
  then have "btrim w = w" "w \<noteq> []" using btrim_trim [of w] by auto
  with w show ?thesis
    by (cases w) (auto simp: job_valid_ascii_def char_count_ascii)
qed

lemma repo_claim_expected:
  assumes "repo_claim_for_types env w lease types q = (Inl e, q')" "plain_failures env"
    and "job_valid_ascii w 128" "types_ok types"
    and "duration_microseconds lease max_lease_micros = Inr us" "1 \<le> us" "us \<le> 3600000000"
  shows "e = DatabaseError"
proof -
  define types' where "types' = (case types of None \<Rightarrow> None | Some ts \<Rightarrow> if ts = [] then None else Some ts)"
  let ?f = "claim_job_for_types (claim_switch env) (registry env) (media_switch env)
                  (clock env 0, clock env 1, clock env 2) (row_locked env) w us types'"
  have "\<not> (case types' of None \<Rightarrow> False | Some ts \<Rightarrow> \<not> (1 \<le> length ts \<and> length ts \<le> 64) \<or>
      list_ex (\<lambda>t. \<not> job_valid_ascii t 128) ts)"
    using assms(4) by (cases types) (auto simp: types_ok_def types'_def list_all_iff list_ex_iff Suc_le_eq)
  then have "fst (?f q) \<noteq> Inl s" for s
    using assms(3,6,7)
    by (auto simp: claim_job_for_types_def claim_job_uncontrolled_def Let_def split: if_splits option.split)
  moreover have "db_query (network env 0) ?f q = (Inl e, q')"
    using assms(1,5) by (simp add: repo_claim_for_types_def types'_def Let_def)
  ultimately show ?thesis using db_query_error [of env 0 ?f q e q'] assms(2) by blast
qed

lemma worker_turn_ok:
  assumes cfg: "worker_id_new w = Inr w" "worker_config_try_new w lease beat idle = Inr cfg"
    and "types_ok types" "wf_turn t"
    and "worker_turn cfg types t q = (Done r, q')"
  shows "r = Inr ()"
proof -
  note id = config_lease(2) [OF cfg(2)]
  obtain us where us: "duration_microseconds (wc_lease_duration cfg) max_lease_micros = Inr us" "1 \<le> us"
      "us \<le> 3600000000" using config_lease(1) [OF cfg(2)] by blast
  have valid: "job_valid_ascii (wc_worker_id cfg) 128" using worker_id_sql [OF cfg(1)] id by simp
  obtain others env where x: "claim_exchange t = (others, env)" by (cases "claim_exchange t")
  have plain: "plain_failures env" using assms(4) x by (simp add: wf_turn_def)
  have claim: "e = DatabaseError" if "repo_claim_for_types env (wc_worker_id cfg) (wc_lease_duration cfg)
      types q1 = (Inl e, q2)" for e q1 q2
    by (rule repo_claim_expected [OF that plain valid assms(3) us])
  have exec: "tolerable r1" if "execute_claimed cfg job (beats t) (end_with t) (record_exchange t) q1 = (r1, q2)"
    for job q1 r1 q2
    by (rule execute_claimed_tolerable [OF that]) (use assms(4) valid in \<open>auto simp: wf_turn_def\<close>)
  show ?thesis
    using assms(5) x
    by (auto simp: worker_turn_def tolerable_def split: if_splits sum.splits option.splits prod.splits
        dest!: claim exec)
qed

section \<open>Properties\<close>


definition demo_config :: worker_config where
  "demo_config = \<lparr>wc_worker_id = ''w'', wc_lease_duration = from_secs 60,
     wc_heartbeat_interval = from_secs 20, wc_idle_poll_interval = from_secs 1\<rparr>"

definition demo_turn :: "execution_result \<Rightarrow> turn" where
  "demo_turn res =
     \<lparr>stop_at_gate = False, claim_exchange = (\<lambda>q. q, demo_env (\<lambda>n. Delivered)), stop_in_claim = False,
      stop_in_pause = False, beats = [], end_with = Returned res,
      record_exchange = (\<lambda>q. q, demo_env (\<lambda>n. Delivered))\<rparr>"

lemma demo_turn_steps: "steps_turn (demo_turn res)"
  by (simp add: steps_turn_def demo_turn_def by_steps_def)


text \<open>C4: the worker stays in service: with a validated identity and configuration it never stops
  with an error, through lost leases, lost connections, panics, cancellations and failed outcome
  records, as long as the executor returns an object that fits the result column or a recordable
  failure code whose retry delay can be stored.\<close>

theorem worker_stays_in_service:
  assumes "worker_id_new w = Inr w" "worker_config_try_new w lease beat idle = Inr cfg"
    and "types_ok types" "list_all wf_turn ts"
  shows "fst (worker_run cfg types ts q) = Inr ()"
  using assms(4)
proof (induction ts arbitrary: q)
  case (Cons t ts)
  obtain x q1 where x: "worker_turn cfg types t q = (x, q1)" by fastforce
  show ?case
  proof (cases x)
    case (Done r)
    then show ?thesis
      using x worker_turn_ok [OF assms(1-3), of t q r q1] Cons.prems by simp
  next
    case Again
    then show ?thesis using x Cons by simp
  qed
qed simp

lemma demo_config_ok:
  "worker_id_new ''w'' = Inr ''w''"
  "worker_config_try_new ''w'' (from_secs 60) (from_secs 20) (from_secs 1) = Inr demo_config"
proof -
  show "worker_id_new ''w'' = Inr ''w''"
    by (simp add: worker_id_new_def validate_text_graphic graphic_def max_worker_id_chars_def)
  show "worker_config_try_new ''w'' (from_secs 60) (from_secs 20) (from_secs 1) = Inr demo_config"
    by (simp add: worker_config_try_new_def demo_config_def from_secs_def max_lease_duration_def)
qed

theorem worker_stays_in_service_witness:
  "fst (worker_run demo_config None [demo_turn (Inr (JObj [])), demo_turn (Inl (job_dead_letter ''invalid_payload''))]
     demo_queue) = Inr ()"
proof (rule worker_stays_in_service [OF demo_config_ok])
  show "types_ok None" by (simp add: types_ok_def)
  have "plain_failures (demo_env (\<lambda>n. Delivered))" by (simp add: plain_failures_def demo_env_def)
  then show "list_all wf_turn [demo_turn (Inr (JObj [])), demo_turn (Inl (job_dead_letter ''invalid_payload''))]"
    by (simp add: wf_turn_def demo_turn_def json_ok_def demo_env_def wf_result_def is_object_def
        job_dead_letter_def canonical_recordable canonical_failure_codes_def)
qed

text \<open>C39: the worker does stop with an error when the executor asks for a retry delay that the queue
  cannot store (zero, more than a week, or not whole microseconds): the outcome is not recorded,
  the job keeps its lease, and the loop returns the validation error.\<close>

theorem worker_stopped_by_bad_delay:
  assumes "repo_claim_for_types env (wc_worker_id cfg) (wc_lease_duration cfg) types q = (Inr (Some job), q1)"
    and "recordable_code c" "\<not> is_ok (duration_microseconds d max_retry_micros)"
    and "\<not> cj_cancellation_requested job" "\<not> stop_at_gate t" "\<not> stop_in_claim t"
    and "claim_exchange t = (\<lambda>q. q, env)" "beats t = []" "record_exchange t = (\<lambda>q. q, env')"
    and "end_with t = Returned (Inl (job_retry c d))"
  shows "worker_run cfg types (t # ts) q = (Inl (RepositoryError (Validation BadDuration)), q1)"
proof -
  have bad: "duration_microseconds d max_retry_micros = Inl BadDuration"
    using assms(3) by (auto simp: duration_microseconds_def Let_def split: if_splits)
  have "repo_fail env' i w c d q = (Inl (Validation BadDuration), q)" for i w q
    using bad assms(2) by (simp add: repo_fail_def recordable_code_def)
  then have "execute_claimed cfg job [] (end_with t) (\<lambda>q. q, env') q1 =
      (Inl (RepositoryError (Validation BadDuration)), q1)"
    using assms(4,10) by (simp add: execute_claimed_def record_outcome_def job_retry_def
        record_retryable_failure_def record_repository_error_def)
  then show ?thesis using assms by (simp add: worker_turn_def)
qed

theorem worker_stopped_by_bad_delay_witness:
  "fst (worker_run demo_config None [demo_turn (Inl (job_retry ''rate_limited'' 0))] demo_queue)
     = Inl (RepositoryError (Validation BadDuration))"
proof -
  obtain job q1 where claim: "repo_claim_for_types (demo_env (\<lambda>n. Delivered)) (wc_worker_id demo_config)
      (wc_lease_duration demo_config) None demo_queue = (Inr (Some job), q1)" "\<not> cj_cancellation_requested job"
    by (simp add: repo_claim_for_types_def demo_config_def duration_microseconds_def as_micros_def
        from_secs_def max_lease_micros_def db_query_def db_call_def demo_env_def
        claim_job_for_types_def claim_job_uncontrolled_def demo_valid demo_queue_def
        demo_row_def claim_cancel_expired_def claim_bury_exhausted_def claim_candidate_def
        claimable_row_def type_allowed_def ready_row_def reclaim_row_def claimed_of_def claim_row_def)
  have "worker_run demo_config None [demo_turn (Inl (job_retry ''rate_limited'' 0))] demo_queue =
      (Inl (RepositoryError (Validation BadDuration)), q1)"
    by (rule worker_stopped_by_bad_delay [OF claim(1) _ _ claim(2)])
       (simp_all add: demo_turn_def canonical_recordable canonical_failure_codes_def duration_microseconds_def as_micros_def)
  then show ?thesis by simp
qed

end
