(* ===== verification/Policy.thy ===== *)
theory Policy
  imports Prelude
begin

text \<open>
  Transport policies of the TMDB client, \<open>src/crates/tmdb-upstream/src/policy.rs\<close>: the
  validated rate-limit and retry policies, the exponential backoff, and the shared request
  gate. Durations and instants are nanoseconds; the gate's clock readings are arguments of
  \<open>gate_acquire\<close>, and a run of the gate is a sequence of \<open>gate_step\<close>s.
\<close>

section \<open>Policies\<close>

datatype policy_error =
    ZeroRate | ZeroConcurrency | RateAboveDocumentedLimit | ConcurrencyTooLarge
  | ZeroAttempts | AttemptsTooLarge | ZeroDuration | BackoffOrder | ResponseLimit
  | LimiterClosed

definition max_documented_requests_per_second :: nat where
  "max_documented_requests_per_second = 40"

record rate_limit_policy =
  requests_per_second :: nat
  max_concurrency :: nat

record retry_policy =
  max_attempts :: nat
  rate_limit :: rate_limit_policy
  request_timeout :: duration
  backoff_base :: duration
  backoff_max :: duration
  max_response_bytes :: nat

definition rate_limit_try_new :: "nat \<Rightarrow> nat \<Rightarrow> policy_error + rate_limit_policy" where
  "rate_limit_try_new rate conc =
     (if rate = 0 then Inl ZeroRate
      else if conc = 0 then Inl ZeroConcurrency
      else if rate > max_documented_requests_per_second then Inl RateAboveDocumentedLimit
      else if conc > 256 then Inl ConcurrencyTooLarge
      else Inr \<lparr>requests_per_second = rate, max_concurrency = conc\<rparr>)"

definition nonzero_or_min :: "nat \<Rightarrow> nat" where
  "nonzero_or_min n = (if n = 0 then 1 else n)"

definition rate_limit_default :: rate_limit_policy where
  "rate_limit_default =
     \<lparr>requests_per_second = nonzero_or_min 35, max_concurrency = nonzero_or_min 20\<rparr>"

definition retry_try_new ::
    "nat \<Rightarrow> rate_limit_policy \<Rightarrow> duration \<Rightarrow> duration \<Rightarrow> duration \<Rightarrow> nat \<Rightarrow> policy_error + retry_policy" where
  "retry_try_new attempts rate timeout base bmax bytes =
     (if attempts = 0 then Inl ZeroAttempts
      else if attempts > 8 then Inl AttemptsTooLarge
      else if timeout = 0 \<or> base = 0 \<or> bmax = 0 then Inl ZeroDuration
      else if base > bmax then Inl BackoffOrder
      else if bytes = 0 \<or> bytes > 64 * 1024 * 1024 then Inl ResponseLimit
      else Inr \<lparr>max_attempts = attempts, rate_limit = rate, request_timeout = timeout,
                backoff_base = base, backoff_max = bmax, max_response_bytes = bytes\<rparr>)"

definition retry_conservative :: retry_policy where
  "retry_conservative =
     \<lparr>max_attempts = nonzero_or_min 4, rate_limit = rate_limit_default,
      request_timeout = from_secs 30, backoff_base = from_millis 250,
      backoff_max = from_secs 15, max_response_bytes = 16 * 1024 * 1024\<rparr>"

definition backoff :: "retry_policy \<Rightarrow> nat \<Rightarrow> duration" where
  "backoff p attempt =
     (let exponent = min (attempt - 1) 7; multiplier = 2 ^ exponent
      in case checked_mul_duration (backoff_base p) multiplier of
           None \<Rightarrow> backoff_max p
         | Some delay \<Rightarrow> min delay (backoff_max p))"

text \<open>What the constructors promise of every policy a client can hold.\<close>

definition wf_rate_limit :: "rate_limit_policy \<Rightarrow> bool" where
  "wf_rate_limit r \<longleftrightarrow>
     0 < requests_per_second r \<and> requests_per_second r \<le> max_documented_requests_per_second \<and>
     0 < max_concurrency r \<and> max_concurrency r \<le> 256"

definition wf_retry :: "retry_policy \<Rightarrow> bool" where
  "wf_retry p \<longleftrightarrow>
     0 < max_attempts p \<and> max_attempts p \<le> 8 \<and> 0 < request_timeout p \<and>
     0 < backoff_base p \<and> backoff_base p \<le> backoff_max p \<and> backoff_max p \<le> duration_max \<and>
     0 < max_response_bytes p \<and> max_response_bytes p \<le> 67108864 \<and>
     wf_rate_limit (rate_limit p)"

lemma rate_limit_try_new_ok_iff:
  "rate_limit_try_new rate conc = Inr r \<longleftrightarrow>
     wf_rate_limit r \<and> r = \<lparr>requests_per_second = rate, max_concurrency = conc\<rparr>"
  by (auto simp: rate_limit_try_new_def wf_rate_limit_def)

lemma retry_try_new_ok_iff:
  assumes "wf_rate_limit rate" "bmax \<le> duration_max"
  shows "retry_try_new attempts rate timeout base bmax bytes = Inr p \<longleftrightarrow>
     wf_retry p \<and> p = \<lparr>max_attempts = attempts, rate_limit = rate, request_timeout = timeout,
                         backoff_base = base, backoff_max = bmax, max_response_bytes = bytes\<rparr>"
  using assms by (auto simp: retry_try_new_def wf_retry_def)

lemma wf_rate_limit_default: "wf_rate_limit rate_limit_default"
  by (simp add: wf_rate_limit_def rate_limit_default_def nonzero_or_min_def
      max_documented_requests_per_second_def)

lemma wf_retry_conservative: "wf_retry retry_conservative"
  by (simp add: wf_retry_def retry_conservative_def wf_rate_limit_default nonzero_or_min_def
      from_secs_def from_millis_def duration_max_def)

section \<open>Backoff\<close>

lemma checked_mul_mono:
  assumes "j \<le> k" "b \<le> duration_max"
  shows "(case checked_mul_duration d j of None \<Rightarrow> b | Some x \<Rightarrow> min x b)
         \<le> (case checked_mul_duration d k of None \<Rightarrow> b | Some x \<Rightarrow> min x b)"
proof -
  have "d * j \<le> d * k" using assms(1) by (rule mult_le_mono2)
  moreover have "(case (if x \<le> duration_max then Some x else None) of None \<Rightarrow> b | Some x \<Rightarrow> min x b)
      \<le> (case (if y \<le> duration_max then Some y else None) of None \<Rightarrow> b | Some y \<Rightarrow> min y b)"
    if "x \<le> y" for x y
    using that assms(2) by auto
  ultimately show ?thesis unfolding checked_mul_duration_def by blast
qed

lemma backoff_le_max: "backoff p n \<le> backoff_max p"
  by (simp add: backoff_def Let_def split: option.split)

lemma backoff_first: "wf_retry p \<Longrightarrow> backoff p 1 = backoff_base p"
  by (simp add: backoff_def checked_mul_duration_def wf_retry_def)

lemma backoff_mono: "wf_retry p \<Longrightarrow> m \<le> n \<Longrightarrow> backoff p m \<le> backoff p n"
  unfolding backoff_def Let_def
  by (intro checked_mul_mono power_increasing) (auto simp: wf_retry_def)

lemma backoff_ge_base: "wf_retry p \<Longrightarrow> backoff_base p \<le> backoff p n"
proof -
  assume wf: "wf_retry p"
  have "backoff p 0 = backoff p 1" by (simp add: backoff_def)
  then have "backoff p 1 \<le> backoff p n"
    using backoff_mono [OF wf] by (metis le0)
  with backoff_first [OF wf] show ?thesis by simp
qed

section \<open>The request gate\<close>

text \<open>\<open>Instant\<close> on the deployment target holds an \<open>i64\<close> of seconds and a nanosecond part.\<close>

definition instant_max :: nat where
  "instant_max = (2 ^ 63 - 1) * 1000000000 + 999999999"

record request_gate =
  next_slot :: nat
  slot_interval :: nat
  permits :: nat
  closed :: bool

definition gate_new :: "rate_limit_policy \<Rightarrow> nat \<Rightarrow> request_gate" where
  "gate_new r now =
     (let interval_nanos = 1000000000 div requests_per_second r
      in \<lparr>next_slot = now, slot_interval = max interval_nanos 1,
          permits = max_concurrency r, closed = False\<rparr>)"

datatype gate_result = Refused policy_error | Blocked | Admitted nat

text \<open>
  \<open>RequestGate::acquire\<close>: with no permit left the caller waits (\<open>Blocked\<close>, the state is
  unchanged); otherwise it takes a permit, reads the clock (\<open>now\<close>, and \<open>later\<close> for the
  second reading of the overflow branch), reserves the slot and is told how long to sleep.
\<close>

definition gate_acquire :: "nat \<Rightarrow> nat \<Rightarrow> request_gate \<Rightarrow> gate_result \<times> request_gate" where
  "gate_acquire now later g =
     (if closed g then (Refused LimiterClosed, g)
      else if permits g = 0 then (Blocked, g)
      else
        (let scheduled = max (next_slot g) now;
             next = scheduled + slot_interval g
         in (Admitted (scheduled - now),
             g\<lparr>permits := permits g - 1,
                next_slot := (if next \<le> instant_max then next else later)\<rparr>)))"

definition gate_release :: "request_gate \<Rightarrow> request_gate" where
  "gate_release g = g\<lparr>permits := permits g + 1\<rparr>"

text \<open>
  A run of the gate: the admitted start times (newest first) and the number of requests
  in flight. The clock need not be monotone between callers.
\<close>

inductive gate_run :: "rate_limit_policy \<Rightarrow> nat \<Rightarrow> nat list \<Rightarrow> nat \<Rightarrow> request_gate \<Rightarrow> bool"
  for r :: rate_limit_policy and t0 :: nat where
  start: "gate_run r t0 [] 0 (gate_new r t0)"
| admit: "gate_run r t0 starts n g \<Longrightarrow> gate_acquire now later g = (Admitted delay, g') \<Longrightarrow>
    max (next_slot g) now + slot_interval g \<le> instant_max \<Longrightarrow>
    gate_run r t0 ((now + delay) # starts) (Suc n) g'"
| wait: "gate_run r t0 starts n g \<Longrightarrow> gate_acquire now later g = (Blocked, g') \<Longrightarrow>
    gate_run r t0 starts n g'"
| finish: "gate_run r t0 starts (Suc n) g \<Longrightarrow> gate_run r t0 starts n (gate_release g)"

inductive_cases gate_run_ConsE: "gate_run r t0 (s # ss) n g"

fun spaced :: "nat \<Rightarrow> nat list \<Rightarrow> bool" where
  "spaced d [] = True"
| "spaced d [s] = True"
| "spaced d (s # t # ss) = (t + d \<le> s \<and> spaced d (t # ss))"

lemma gate_acquire_admitted:
  "gate_acquire now later g = (Admitted delay, g') \<longleftrightarrow>
     \<not> closed g \<and> 0 < permits g \<and> delay = max (next_slot g) now - now \<and>
     g' = g\<lparr>permits := permits g - 1,
            next_slot := (if max (next_slot g) now + slot_interval g \<le> instant_max
                          then max (next_slot g) now + slot_interval g else later)\<rparr>"
  by (auto simp: gate_acquire_def Let_def)

lemma gate_acquire_blocked:
  "gate_acquire now later g = (Blocked, g') \<Longrightarrow> g' = g \<and> permits g = 0"
  by (auto simp: gate_acquire_def Let_def split: if_splits)

text \<open>The invariant of every run: permits are conserved and starts are spaced.\<close>

definition gate_inv :: "rate_limit_policy \<Rightarrow> nat list \<Rightarrow> nat \<Rightarrow> request_gate \<Rightarrow> bool" where
  "gate_inv r starts n g \<longleftrightarrow>
     permits g + n = max_concurrency r \<and> \<not> closed g \<and>
     slot_interval g = max (1000000000 div requests_per_second r) 1 \<and>
     spaced (slot_interval g) starts \<and>
     (starts \<noteq> [] \<longrightarrow> hd starts + slot_interval g \<le> next_slot g)"

lemma spaced_Cons: "spaced d (s # ss) \<longleftrightarrow> (ss \<noteq> [] \<longrightarrow> hd ss + d \<le> s) \<and> spaced d ss"
  by (cases ss) auto

lemma gate_run_inv: "gate_run r t0 starts n g \<Longrightarrow> gate_inv r starts n g"
proof (induction rule: gate_run.induct)
  case start
  then show ?case by (simp add: gate_inv_def gate_new_def)
next
  case (admit starts n g now later delay g')
  then show ?case
    by (auto simp: gate_inv_def gate_acquire_admitted spaced_Cons)
next
  case (wait starts n g now later g')
  then show ?case using gate_acquire_blocked by blast
next
  case (finish starts n g)
  from finish.IH show ?case
    unfolding gate_inv_def gate_release_def by (elim conjE) (intro conjI, simp_all)
qed

lemma spaced_last_le: "spaced d ss \<Longrightarrow> ss \<noteq> [] \<Longrightarrow> last ss + d * (length ss - 1) \<le> hd ss"
proof (induction d ss rule: spaced.induct)
  case (3 d s t ss)
  then show ?case by (simp add: algebra_simps)
qed auto

lemma spaced_decreasing: "spaced d ss \<Longrightarrow> sorted_wrt (\<ge>) ss"
proof (induction ss)
  case (Cons s ss)
  then show ?case
    by (cases ss) (auto simp: spaced_Cons)
qed simp

lemma spaced_filter:
  "spaced d ss \<Longrightarrow> spaced d (filter P ss)"
proof (induction ss)
  case (Cons s ss)
  then have IH: "spaced d (filter P ss)" and hd: "ss \<noteq> [] \<Longrightarrow> hd ss + d \<le> s"
    and sp: "spaced d ss"
    by (auto simp: spaced_Cons)
  have "hd (filter P ss) + d \<le> s" if ne: "filter P ss \<noteq> []"
  proof -
    have "hd (filter P ss) \<in> set ss"
      using ne by (metis filter_is_subset hd_in_set subsetD)
    moreover have "\<forall>x\<in>set ss. x \<le> hd ss"
      using spaced_decreasing [OF sp] by (cases ss) auto
    moreover have "ss \<noteq> []" using ne by auto
    ultimately show ?thesis using hd by force
  qed
  with IH show ?case by (auto simp: spaced_Cons)
qed simp

text \<open>Spaced starts inside a window of length \<open>w\<close> number at most \<open>(w - 1) div d + 1\<close>.\<close>

lemma spaced_window_count:
  assumes "spaced d ss" "0 < d" "0 < w"
  shows "length (filter (\<lambda>s. t \<le> s \<and> s < t + w) ss) \<le> (w - 1) div d + 1"
proof -
  let ?f = "filter (\<lambda>s. t \<le> s \<and> s < t + w) ss"
  show ?thesis
  proof (cases "?f = []")
    case True
    then show ?thesis by simp
  next
    case False
    have "last ?f + d * (length ?f - 1) \<le> hd ?f"
      using spaced_last_le [OF spaced_filter [OF assms(1)] False] .
    moreover have "t \<le> last ?f" "hd ?f < t + w"
      using last_in_set [OF False] hd_in_set [OF False] by auto
    ultimately have "d * (length ?f - 1) \<le> w - 1" by linarith
    then have "length ?f - 1 \<le> (w - 1) div d"
      using assms(2) by (metis div_le_mono nonzero_mult_div_cancel_left not_gr_zero)
    then show ?thesis by linarith
  qed
qed

lemma interval_slots:
  assumes "0 < rate" "rate \<le> 40"
  shows "(1000000000 - 1) div max (1000000000 div rate) 1 \<le> (rate :: nat)"
proof -
  let ?i = "1000000000 div rate"
  have "1000000000 div 40 \<le> ?i" using assms by (intro div_le_mono2) auto
  then have i: "25000000 \<le> ?i" by simp
  have "1000000000 = rate * ?i + 1000000000 mod rate"
    by simp
  moreover have "1000000000 mod rate < rate" using assms by simp
  moreover have "(rate + 1) * ?i = rate * ?i + ?i" by simp
  ultimately have "1000000000 - 1 < (rate + 1) * ?i" using i assms by linarith
  then have "(1000000000 - 1) div ?i < rate + 1" using less_mult_imp_div_less by blast
  moreover have "max ?i 1 = ?i" using i by simp
  ultimately show ?thesis by simp
qed

text \<open>A burst of requests that each finish at once is admitted in consecutive slots.\<close>

lemma gate_burst:
  assumes "0 < max_concurrency r" "d = slot_interval (gate_new r t0)" "t0 + k * d \<le> instant_max"
  shows "gate_run r t0 (map (\<lambda>i. t0 + i * d) (rev [0..<k])) 0
     ((gate_new r t0)\<lparr>next_slot := t0 + k * d\<rparr>)"
  using assms(3)
proof (induction k)
  case 0
  have "(gate_new r t0)\<lparr>next_slot := t0\<rparr> = gate_new r t0" by (simp add: gate_new_def)
  with gate_run.start [of r t0] show ?case by simp
next
  case (Suc k)
  let ?g = "(gate_new r t0)\<lparr>next_slot := t0 + k * d\<rparr>"
  let ?g' = "?g\<lparr>permits := permits ?g - 1, next_slot := t0 + Suc k * d\<rparr>"
  have step: "gate_acquire t0 t0 ?g = (Admitted (k * d), ?g')"
    using Suc.prems assms(1,2) by (simp add: gate_acquire_admitted) (simp add: gate_new_def)
  have "gate_run r t0 ((t0 + k * d) # map (\<lambda>i. t0 + i * d) (rev [0..<k])) (Suc 0) ?g'"
    using Suc.prems assms(2) by (intro gate_run.admit [OF Suc.IH step]) auto
  from gate_run.finish [OF this]
  have "gate_run r t0 ((t0 + k * d) # map (\<lambda>i. t0 + i * d) (rev [0..<k])) 0 (gate_release ?g')" .
  moreover have "gate_release ?g' = (gate_new r t0)\<lparr>next_slot := t0 + Suc k * d\<rparr>"
    using assms(1) by (simp add: gate_release_def gate_new_def)
  ultimately show ?case by simp
qed

section \<open>Properties\<close>

text \<open>In every run of the request gate of a validated policy, whatever the clock readings,
  at most \<open>max_concurrency\<close> requests are in flight, permits are never lost or duplicated, and
  any one-second window holds at most one start more than \<open>requests_per_second\<close>.\<close>

theorem gate_bounds:
  assumes "wf_rate_limit r" "gate_run r t0 starts n g"
  shows "permits g + n = max_concurrency r \<and>
    length (filter (\<lambda>s. t \<le> s \<and> s < t + 1000000000) starts) \<le> requests_per_second r + 1"
proof -
  have inv: "gate_inv r starts n g" by (rule gate_run_inv [OF assms(2)])
  then have "length (filter (\<lambda>s. t \<le> s \<and> s < t + 1000000000) starts)
      \<le> (1000000000 - 1) div slot_interval g + 1"
    by (intro spaced_window_count) (auto simp: gate_inv_def)
  also have "\<dots> \<le> requests_per_second r + 1"
    using interval_slots [of "requests_per_second r"] inv assms(1)
    by (simp add: gate_inv_def wf_rate_limit_def max_documented_requests_per_second_def)
  finally show ?thesis using inv by (simp add: gate_inv_def)
qed

theorem gate_bounds_witness:
  "permits (gate_new rate_limit_default 5) + 0 = max_concurrency rate_limit_default \<and>
    length (filter (\<lambda>s. (5::nat) \<le> s \<and> s < 5 + 1000000000) []) \<le>
      requests_per_second rate_limit_default + 1"
  using gate_bounds [OF wf_rate_limit_default gate_run.start [of rate_limit_default 5], of 5]
  by simp

text \<open>The bound of the gate is exceeded by one in production: with the default policy of 35
  requests per second, a burst that is admitted at once starts 36 requests in one second,
  because the slot interval is rounded down to 28,571,428 nanoseconds.\<close>

theorem gate_default_burst_exceeds_rate:
  "\<exists>starts g. gate_run rate_limit_default 0 starts 0 g \<and>
     length (filter (\<lambda>s. s < 1000000000) starts) = requests_per_second rate_limit_default + 1"
proof (intro exI conjI)
  let ?d = "28571428 :: nat"
  show "gate_run rate_limit_default 0 (map (\<lambda>i. 0 + i * ?d) (rev [0..<36])) 0
      ((gate_new rate_limit_default 0)\<lparr>next_slot := 0 + 36 * ?d\<rparr>)"
    by (intro gate_burst)
       (simp_all add: gate_new_def rate_limit_default_def nonzero_or_min_def instant_max_def)
  show "length (filter (\<lambda>s. s < 1000000000) (map (\<lambda>i. 0 + i * ?d) (rev [0..<36]))) =
      requests_per_second rate_limit_default + 1"
    by (simp add: filter_map comp_def rate_limit_default_def nonzero_or_min_def upt_rec)
qed

text \<open>The backoff of a validated policy is the doubling sequence
  \<open>base * 2 ^ (attempt - 1)\<close>, with the exponent capped at 7 and the delay at
  \<open>backoff_max\<close>; it never overflows, is never below the base (so never zero) and never decreases.\<close>

theorem backoff_spec:
  assumes "wf_retry p"
  shows "backoff p n = min (backoff_base p * 2 ^ min (n - 1) 7) (backoff_max p) \<and>
    0 < backoff p n \<and> backoff p n \<le> backoff p (n + k)"
proof -
  have "backoff_max p \<le> duration_max" "0 < backoff_base p" using assms by (auto simp: wf_retry_def)
  then show ?thesis
    using backoff_mono [OF assms, of n "n + k"] backoff_ge_base [OF assms, of n]
    by (auto simp: backoff_def Let_def checked_mul_duration_def)
qed

theorem backoff_spec_witness:
  "backoff retry_conservative 3 = min (250000000 * 2 ^ min (3 - 1) 7) 15000000000 \<and>
    0 < backoff retry_conservative 3 \<and> backoff retry_conservative 3 \<le> backoff retry_conservative (3 + 2)"
  using backoff_spec [OF wf_retry_conservative, of 3 2]
  by (simp add: retry_conservative_def from_millis_def from_secs_def)

end
