(* ===== verification/Http_Client.thy ===== *)
theory Http_Client
  imports Policy Domain
begin

text \<open>
  The HTTP core of the TMDB client, \<open>src/crates/tmdb-upstream/src/client.rs\<close>: construction,
  the bounded request loop, response classification, the challenge detector and the path guard
  of \<open>fetch_json\<close>. The network, the clock and the request gate are the environment
  \<open>client_env\<close>, indexed by the attempt number; the URL parser, HTTP-date parser and JSON
  decoder are the library functions \<open>client_lib\<close>. What the client does is the trace of a
  \<open>client_world\<close>, which also holds the file system the daily export is published to.
\<close>

section \<open>Errors, classes and responses\<close>

datatype trawl_verdict = NotEligible | ChallengeDetected

datatype client_error =
    InvalidBaseUrl | InvalidPath | HttpClientBuild | PolicyFailure policy_error | Transport
  | ResponseTooLarge | ExportSizeLimit | InvalidExportDestination | ExportStorage
  | RateLimited "nat option" | Unauthorized | Forbidden trawl_verdict | NotFound | NotModified
  | UpstreamServer nat | PermanentHttp nat | MalformedJson string

datatype response_class =
    Success | ClassNotModified | ClassRateLimited "duration option" | TransientServer nat
  | ClassUnauthorized | ClassForbidden | ClassNotFound | PermanentClient nat

text \<open>A response: its status, its headers by lower-case name, and the chunks of its body; a
  \<open>broken\<close> body ends with a transport error after its chunks.\<close>

record response =
  status :: nat
  headers :: "(string \<times> string) list"
  chunks :: "string list"
  broken :: bool

record client =
  base_url :: url
  token :: string
  policy :: retry_policy

record client_lib =
  parse_url :: "string \<Rightarrow> url option"
  join_url :: "url \<Rightarrow> string \<Rightarrow> url option"
  encode_pairs :: "(string \<times> string) list \<Rightarrow> string"
  parse_http_date :: "string \<Rightarrow> nat option"
  http_build :: "duration \<Rightarrow> bool"
  sha256 :: "string \<Rightarrow> string"

record client_env =
  gate_error :: "nat \<Rightarrow> policy_error option"
  answer :: "nat \<Rightarrow> response option"
  system_now :: "nat \<Rightarrow> nat"
  pid :: nat
  create_ok :: "string \<Rightarrow> bool"
  write_ok :: "string \<Rightarrow> nat \<Rightarrow> bool"
  sync_ok :: "string \<Rightarrow> bool"
  rename_ok :: "string \<Rightarrow> bool"
  remove_ok :: "string \<Rightarrow> bool"

datatype client_event =
    Acquired | Requested url "string option" | Released | Slept duration

record client_world =
  trace :: "client_event list"
  files :: "string \<Rightarrow> string option"
  temp_counter :: nat

definition emit :: "client_event \<Rightarrow> client_world \<Rightarrow> client_world" where
  "emit e w = w\<lparr>trace := trace w @ [e]\<rparr>"

lemma emit_simps [simp]:
  "trace (emit e w) = trace w @ [e]" "files (emit e w) = files w"
  "temp_counter (emit e w) = temp_counter w"
  by (simp_all add: emit_def)

lemma emit_neq [simp]: "emit e w \<noteq> w" "w \<noteq> emit e w"
  using emit_simps(1) [of e w] by (metis append_self_conv list.distinct(1))+

lemma emit_eq_iff [simp]: "emit e w = emit f w \<longleftrightarrow> e = f"
  using emit_simps(1) [of e w] emit_simps(1) [of f w] by (metis last_snoc)

section \<open>Construction\<close>

definition usable_url :: "url \<Rightarrow> bool" where
  "usable_url u \<longleftrightarrow>
     \<not> ((url_scheme u \<noteq> ''http'' \<and> url_scheme u \<noteq> ''https'') \<or> url_host u = None \<or>
        url_username u \<noteq> '''' \<or> url_password u \<noteq> None \<or> url_query u \<noteq> None \<or>
        url_fragment u \<noteq> None)"

definition client_new ::
    "client_lib \<Rightarrow> string \<Rightarrow> string \<Rightarrow> retry_policy \<Rightarrow> client_error + client" where
  "client_new lib base tok p =
     bindR (ok_or InvalidBaseUrl (parse_url lib base)) (\<lambda>u.
       if \<not> usable_url u then Inl InvalidBaseUrl
       else
         let u' = (if \<not> ends_with (url_path u) ''/'' then u\<lparr>url_path := url_path u @ ''/''\<rparr> else u)
         in if http_build lib (request_timeout p)
            then Inr \<lparr>base_url = u', token = tok, policy = p\<rparr>
            else Inl HttpClientBuild)"

section \<open>Reading and classifying a response\<close>

fun read_bounded_from :: "nat \<Rightarrow> string \<Rightarrow> string list \<Rightarrow> bool \<Rightarrow> client_error + string" where
  "read_bounded_from max_bytes body [] brk = (if brk then Inl Transport else Inr body)"
| "read_bounded_from max_bytes body (c # cs) brk =
     (if min (length body + length c) u64_max > max_bytes then Inl ResponseTooLarge
      else read_bounded_from max_bytes (body @ c) cs brk)"

definition read_bounded :: "response \<Rightarrow> nat \<Rightarrow> client_error + string" where
  "read_bounded r max_bytes = read_bounded_from max_bytes [] (chunks r) (broken r)"

definition parse_retry_after ::
    "client_lib \<Rightarrow> nat \<Rightarrow> (string \<times> string) list \<Rightarrow> duration option" where
  "parse_retry_after lib now hs =
     (case Option.bind (map_of hs ''retry-after'') header_text of
        None \<Rightarrow> None
      | Some value \<Rightarrow>
          (case parse_uint u64_max value of
             Some seconds \<Rightarrow> Some (from_secs seconds)
           | None \<Rightarrow>
               (case parse_http_date lib value of
                  None \<Rightarrow> None
                | Some timestamp \<Rightarrow> Some (timestamp - now))))"

definition classify_response ::
    "client_lib \<Rightarrow> nat \<Rightarrow> nat \<Rightarrow> (string \<times> string) list \<Rightarrow> string \<Rightarrow> response_class" where
  "classify_response lib now st hs body =
     (if 200 \<le> st \<and> st \<le> 226 then Success
      else if st = 304 then ClassNotModified
      else if st = 429 then ClassRateLimited (parse_retry_after lib now hs)
      else if st = 401 then ClassUnauthorized
      else if st = 403 then ClassForbidden
      else if st = 404 then ClassNotFound
      else if 500 \<le> st \<and> st \<le> 599 then TransientServer st
      else PermanentClient st)"

text \<open>\<open>StatusCode::is_success\<close>.\<close>

definition is_success :: "nat \<Rightarrow> bool" where
  "is_success st \<longleftrightarrow> 200 \<le> st \<and> st < 300"

definition allowlisted_host :: "string option \<Rightarrow> bool" where
  "allowlisted_host h \<longleftrightarrow>
     (case h of
        None \<Rightarrow> False
      | Some s \<Rightarrow> s \<in> {''api.themoviedb.org'', ''files.tmdb.org'', ''image.tmdb.org'',
                        ''www.themoviedb.org''})"

definition challenge_signatures :: "string list" where
  "challenge_signatures =
     [''cf-chl-'', ''challenge-platform'', ''just a moment...'', ''captcha'',
      ''checking your browser'']"

text \<open>
  The signatures are ASCII, and replacing invalid UTF-8 never adds or removes an ASCII byte, so
  the lossy conversion of the source is the identity for this test.
\<close>

definition trawl_decision ::
    "url \<Rightarrow> nat \<Rightarrow> (string \<times> string) list \<Rightarrow> string \<Rightarrow> trawl_verdict" where
  "trawl_decision u st hs body =
     (if \<not> allowlisted_host (url_host u) \<or> st = 429 \<or> st = 401 \<or> st = 404 then NotEligible
      else
        let text = to_ascii_lowercase (take (min (length body) (16 * 1024)) body)
        in if list_ex (\<lambda>sig. contains text sig) challenge_signatures
           then ChallengeDetected else NotEligible)"

section \<open>The request loop\<close>

text \<open>The \<open>match classify_response(..)\<close> of both request loops, for attempt \<open>k\<close>.\<close>

definition dispatch_class ::
    "client_lib \<Rightarrow> client_env \<Rightarrow> retry_policy \<Rightarrow> url \<Rightarrow> nat \<Rightarrow> response \<Rightarrow> string \<Rightarrow>
     (client_error + 'r) \<Rightarrow> client_world \<Rightarrow> (client_error + 'r) outcome \<times> client_world" where
  "dispatch_class lib env p u k r body on_success w =
     (case classify_response lib (system_now env k) (status r) (headers r) body of
        Success \<Rightarrow> (Done on_success, w)
      | ClassNotModified \<Rightarrow> (Done (Inl NotModified), w)
      | ClassRateLimited retry_after \<Rightarrow>
          if k < max_attempts p then
            let retry_delay =
              min (case retry_after of Some d \<Rightarrow> d | None \<Rightarrow> backoff p k) (backoff_max p)
            in (Again, emit (Slept retry_delay) w)
          else (Done (Inl (RateLimited (map_option as_secs retry_after))), w)
      | TransientServer st \<Rightarrow>
          if k < max_attempts p then (Again, emit (Slept (backoff p k)) w)
          else (Done (Inl (UpstreamServer st)), w)
      | ClassUnauthorized \<Rightarrow> (Done (Inl Unauthorized), w)
      | ClassForbidden \<Rightarrow>
          (Done (Inl (Forbidden (trawl_decision u (status r) (headers r) body))), w)
      | ClassNotFound \<Rightarrow> (Done (Inl NotFound), w)
      | PermanentClient st \<Rightarrow> (Done (Inl (PermanentHttp st)), w))"

definition request_attempt ::
    "client_lib \<Rightarrow> client_env \<Rightarrow> client \<Rightarrow> url \<Rightarrow> bool \<Rightarrow> nat \<Rightarrow> client_world \<Rightarrow>
     (client_error + string) outcome \<times> client_world" where
  "request_attempt lib env c u with_bearer k w =
     (case gate_error env k of
        Some e \<Rightarrow> (Done (Inl (PolicyFailure e)), w)
      | None \<Rightarrow>
          let w1 = emit (Requested u (if with_bearer then Some (token c) else None))
                     (emit Acquired w)
          in case answer env k of
               None \<Rightarrow>
                 if k < max_attempts (policy c)
                 then (Again, emit (Slept (backoff (policy c) k)) (emit Released w1))
                 else (Done (Inl Transport), emit Released w1)
             | Some r \<Rightarrow>
                 (case read_bounded r (max_response_bytes (policy c)) of
                    Inl e \<Rightarrow> (Done (Inl e), emit Released w1)
                  | Inr body \<Rightarrow>
                      dispatch_class lib env (policy c) u k r body (Inr body) (emit Released w1)))"

definition request_bytes ::
    "client_lib \<Rightarrow> client_env \<Rightarrow> client \<Rightarrow> url \<Rightarrow> bool \<Rightarrow> client_world \<Rightarrow>
     (client_error + string) \<times> client_world" where
  "request_bytes lib env c u with_bearer w =
     for_attempts (max_attempts (policy c)) 1 (request_attempt lib env c u with_bearer)
       (Inl Transport) w"

section \<open>\<open>fetch_json\<close> and \<open>fetch_daily_export\<close>\<close>

definition bounded_endpoint :: "string \<Rightarrow> string" where
  "bounded_endpoint e = filter (\<lambda>c. byte c \<noteq> 10 \<and> byte c \<noteq> 13) (take_chars 128 e)"

definition request_path_ok :: "string \<Rightarrow> bool" where
  "request_path_ok path \<longleftrightarrow>
     \<not> (path = '''' \<or> starts_with path ''/'' \<or> starts_with path ''//'' \<or> contains path ''://'' \<or>
        contains path ''..'' \<or> contains path ''//'' \<or> contains_any path ''?#'' \<or>
        has_control path)"

definition fetch_json ::
    "client_lib \<Rightarrow> client_env \<Rightarrow> client \<Rightarrow> (string \<Rightarrow> 'v option) \<Rightarrow> string \<Rightarrow>
     (string \<times> string) list \<Rightarrow> bool \<Rightarrow> client_world \<Rightarrow> (client_error + 'v) \<times> client_world" where
  "fetch_json lib env c decode path query with_bearer w =
     (if \<not> request_path_ok path then (Inl InvalidPath, w)
      else case join_url lib (base_url c) path of
        None \<Rightarrow> (Inl InvalidPath, w)
      | Some u \<Rightarrow>
          let u' = u\<lparr>url_query := (if query = [] then None else Some (encode_pairs lib query))\<rparr>;
              (r, w') = request_bytes lib env c u' with_bearer w
          in (bindR r (\<lambda>bytes. ok_or (MalformedJson (bounded_endpoint path)) (decode bytes)), w'))"

definition fetch_daily_export ::
    "client_lib \<Rightarrow> client_env \<Rightarrow> client \<Rightarrow> string \<Rightarrow> client_world \<Rightarrow>
     (client_error + string) \<times> client_world" where
  "fetch_daily_export lib env c address w =
     (case parse_url lib address of
        None \<Rightarrow> (Inl InvalidBaseUrl, w)
      | Some u \<Rightarrow>
          if \<not> usable_url u then (Inl InvalidBaseUrl, w)
          else request_bytes lib env c u False w)"

section \<open>Reading is bounded concatenation\<close>

lemma read_bounded_from_ok:
  "max_bytes < u64_max \<Longrightarrow>
   read_bounded_from max_bytes body cs brk = Inr out \<longleftrightarrow>
     \<not> brk \<and> out = body @ concat cs \<and> (cs = [] \<or> length out \<le> max_bytes)"
proof (induction max_bytes body cs brk rule: read_bounded_from.induct)
  case (2 max_bytes body c cs brk)
  show ?case
  proof (cases "length body + length c \<le> max_bytes")
    case True
    then have "min (length body + length c) u64_max \<le> max_bytes" by simp
    with 2 True show ?thesis by (cases cs) (auto simp: min_def)
  next
    case False
    with \<open>max_bytes < u64_max\<close> show ?thesis by (auto simp: min_def)
  qed
qed auto

lemma read_bounded_ok:
  "max_bytes < u64_max \<Longrightarrow>
   read_bounded r max_bytes = Inr out \<longleftrightarrow>
     \<not> broken r \<and> out = concat (chunks r) \<and> length out \<le> max_bytes"
  by (auto simp: read_bounded_def read_bounded_from_ok)

lemma classify_success: "classify_response lib now st hs body = Success \<longleftrightarrow> 200 \<le> st \<and> st \<le> 226"
  by (auto simp: classify_response_def)

lemma classify_rate_limited:
  "classify_response lib now st hs body = ClassRateLimited d \<longleftrightarrow>
     st = 429 \<and> d = parse_retry_after lib now hs"
  by (auto simp: classify_response_def)

lemma classify_transient:
  "classify_response lib now st hs body = TransientServer n \<longleftrightarrow> n = st \<and> 500 \<le> st \<and> st \<le> 599"
  by (auto simp: classify_response_def)

section \<open>What a trace may contain\<close>

text \<open>
  \<open>permit_run n\<close> replays the permits held, from \<open>n\<close>: a request needs a permit, and no
  client sleeps while it holds one. \<open>None\<close> is a violation.
\<close>

fun permit_run :: "nat \<Rightarrow> client_event list \<Rightarrow> nat option" where
  "permit_run n [] = Some n"
| "permit_run n (Acquired # es) = permit_run (Suc n) es"
| "permit_run n (Requested u t # es) = (if n = 0 then None else permit_run n es)"
| "permit_run n (Released # es) = (if n = 0 then None else permit_run (n - 1) es)"
| "permit_run n (Slept d # es) = (if n = 0 then permit_run n es else None)"

fun requests :: "client_event list \<Rightarrow> (url \<times> string option) list" where
  "requests [] = []"
| "requests (Requested u t # es) = (u, t) # requests es"
| "requests (_ # es) = requests es"

fun sleeps :: "client_event list \<Rightarrow> duration list" where
  "sleeps [] = []"
| "sleeps (Slept d # es) = d # sleeps es"
| "sleeps (_ # es) = sleeps es"

lemma permit_run_append:
  "permit_run n (xs @ ys) = (case permit_run n xs of None \<Rightarrow> None | Some m \<Rightarrow> permit_run m ys)"
  by (induction n xs rule: permit_run.induct) auto

lemma requests_append [simp]: "requests (xs @ ys) = requests xs @ requests ys"
  by (induction xs rule: requests.induct) auto

lemma sleeps_append [simp]: "sleeps (xs @ ys) = sleeps xs @ sleeps ys"
  by (induction xs rule: sleeps.induct) auto

text \<open>
  A disciplined trace of one call: permits are balanced, every request goes to \<open>u\<close> with the
  authorization \<open>auth\<close>, and every sleep is at most the policy's \<open>backoff_max\<close>.
\<close>

definition disciplined :: "retry_policy \<Rightarrow> url \<Rightarrow> string option \<Rightarrow> client_event list \<Rightarrow> bool" where
  "disciplined p u auth t \<longleftrightarrow>
     permit_run 0 t = Some 0 \<and> set (requests t) \<subseteq> {(u, auth)} \<and>
     (\<forall>d\<in>set (sleeps t). d \<le> backoff_max p) \<and> length (sleeps t) \<le> length (requests t)"

lemma disciplined_Nil [simp]: "disciplined p u auth []"
  by (simp add: disciplined_def)

lemma disciplined_append:
  "disciplined p u auth s \<Longrightarrow> disciplined p u auth t \<Longrightarrow> disciplined p u auth (s @ t)"
  by (auto simp: disciplined_def permit_run_append)

lemma disciplined_total_sleep:
  assumes "disciplined p u auth t"
  shows "sum_list (sleeps t) \<le> length (requests t) * backoff_max p"
proof -
  have "sum_list (sleeps t) \<le> length (sleeps t) * backoff_max p"
    using assms sum_list_mono [of "sleeps t" "\<lambda>d. d" "\<lambda>_. backoff_max p"]
    by (simp add: disciplined_def sum_list_triv)
  also have "\<dots> \<le> length (requests t) * backoff_max p"
    using assms by (simp add: disciplined_def)
  finally show ?thesis .
qed

text \<open>The events of one attempt, after its permit is taken.\<close>

definition attempt_events ::
    "retry_policy \<Rightarrow> url \<Rightarrow> string option \<Rightarrow> client_event list \<Rightarrow> bool" where
  "attempt_events p u auth t \<longleftrightarrow>
     t = [] \<or> t = [Acquired, Released] \<or> t = [Acquired, Requested u auth, Released] \<or>
     (\<exists>d. t = [Acquired, Requested u auth, Released, Slept d] \<and> d \<le> backoff_max p)"

lemma attempt_disciplined: "attempt_events p u auth t \<Longrightarrow> disciplined p u auth t"
  by (auto simp: attempt_events_def disciplined_def)

lemma attempt_requests: "attempt_events p u auth t \<Longrightarrow> length (requests t) \<le> 1"
  by (auto simp: attempt_events_def)

lemma dispatch_class_world:
  assumes "dispatch_class lib env p u k r body ok w = (out, w')"
  shows "w' = w \<or> (\<exists>d. w' = emit (Slept d) w \<and> d \<le> backoff_max p)"
  using assms backoff_le_max [of p k]
  by (auto simp: dispatch_class_def Let_def split: response_class.splits if_splits)

lemma dispatch_class_done:
  "dispatch_class lib env p u k r body ok w = (Done (Inr x), w') \<Longrightarrow>
     ok = Inr x \<and> 200 \<le> status r \<and> status r \<le> 226"
  by (auto simp: dispatch_class_def Let_def classify_success split: response_class.splits if_splits)

lemma dispatch_class_again:
  "dispatch_class lib env p u k r body ok w = (Again, w') \<Longrightarrow>
     k < max_attempts p \<and> (status r = 429 \<or> (500 \<le> status r \<and> status r \<le> 599))"
  by (auto simp: dispatch_class_def Let_def classify_rate_limited classify_transient
      split: response_class.splits if_splits)

definition request_result_ok :: "client_env \<Rightarrow> client \<Rightarrow> client_error + string \<Rightarrow> bool" where
  "request_result_ok env c r \<longleftrightarrow>
     (\<forall>body. r = Inr body \<longrightarrow>
        length body \<le> max_response_bytes (policy c) \<and>
        (\<exists>k resp. answer env k = Some resp \<and> 200 \<le> status resp \<and> status resp \<le> 226 \<and>
                  \<not> broken resp \<and> body = concat (chunks resp)))"

definition request_inv :: "client \<Rightarrow> url \<Rightarrow> bool \<Rightarrow> client_world \<Rightarrow> client_world \<Rightarrow> bool" where
  "request_inv c u bearer w0 w \<longleftrightarrow>
     (\<exists>t. w = w0\<lparr>trace := trace w0 @ t\<rparr> \<and>
          disciplined (policy c) u (if bearer then Some (token c) else None) t)"

lemma request_attempt_world:
  assumes "request_attempt lib env c u bearer k w = (out, w')"
  shows "\<exists>t. w' = w\<lparr>trace := trace w @ t\<rparr> \<and>
    attempt_events (policy c) u (if bearer then Some (token c) else None) t"
proof -
  let ?a = "if bearer then Some (token c) else None"
  let ?w = "emit Released (emit (Requested u ?a) (emit Acquired w))"
  have "w' = w \<or> w' = ?w \<or> (\<exists>d. w' = emit (Slept d) ?w \<and> d \<le> backoff_max (policy c))"
  proof (cases "gate_error env k")
    case (Some e)
    with assms show ?thesis by (simp add: request_attempt_def)
  next
    case gate: None
    show ?thesis
    proof (cases "answer env k")
      case None
      with gate assms backoff_le_max [of "policy c" k] show ?thesis
        by (auto simp: request_attempt_def Let_def split: if_splits)
    next
      case (Some r)
      show ?thesis
      proof (cases "read_bounded r (max_response_bytes (policy c))")
        case (Inl e)
        with gate Some assms show ?thesis by (simp add: request_attempt_def)
      next
        case (Inr body)
        with gate Some assms
        have "dispatch_class lib env (policy c) u k r body (Inr body) ?w = (out, w')"
          by (simp add: request_attempt_def)
        from dispatch_class_world [OF this] show ?thesis by blast
      qed
    qed
  qed
  then show ?thesis
  proof (elim disjE exE conjE)
    assume "w' = w"
    then show ?thesis by (intro exI [of _ "[]"]) (simp add: attempt_events_def)
  next
    assume "w' = ?w"
    then show ?thesis
      by (intro exI [of _ "[Acquired, Requested u ?a, Released]"])
         (simp add: attempt_events_def emit_def)
  next
    fix d
    assume "w' = emit (Slept d) ?w" "d \<le> backoff_max (policy c)"
    then show ?thesis
      by (intro exI [of _ "[Acquired, Requested u ?a, Released, Slept d]"])
         (simp add: attempt_events_def emit_def)
  qed
qed

lemma request_attempt_again:
  assumes "request_attempt lib env c u bearer k w = (Again, w')"
  shows "k < max_attempts (policy c) \<and>
    (case answer env k of None \<Rightarrow> True
     | Some r \<Rightarrow> status r = 429 \<or> (500 \<le> status r \<and> status r \<le> 599))"
  using assms
  by (auto simp: request_attempt_def Let_def dest!: dispatch_class_again
      split: option.splits sum.splits if_splits)

lemma request_attempt_done:
  assumes "request_attempt lib env c u bearer k w = (Done r, w')"
    and bytes: "max_response_bytes (policy c) < u64_max"
  shows "request_result_ok env c r"
  unfolding request_result_ok_def
proof (intro allI impI)
  fix body
  assume r: "r = Inr body"
  from assms(1) r obtain resp where resp: "gate_error env k = None" "answer env k = Some resp"
    by (auto simp: request_attempt_def Let_def split: option.splits if_splits)
  obtain out where out: "read_bounded resp (max_response_bytes (policy c)) = Inr out"
    using assms(1) r resp
    by (cases "read_bounded resp (max_response_bytes (policy c))")
       (auto simp: request_attempt_def Let_def)
  from assms(1) r resp out have "out = body" "200 \<le> status resp" "status resp \<le> 226"
    by (auto simp: request_attempt_def Let_def dest!: dispatch_class_done)
  then show "length body \<le> max_response_bytes (policy c) \<and>
      (\<exists>k resp. answer env k = Some resp \<and> 200 \<le> status resp \<and> status resp \<le> 226 \<and>
                \<not> broken resp \<and> body = concat (chunks resp))"
    using out resp(2) bytes by (auto simp: read_bounded_ok)
qed

lemma request_inv_step:
  assumes "request_inv c u bearer w0 w" "request_attempt lib env c u bearer k w = (out, w')"
  shows "request_inv c u bearer w0 w' \<and>
    length (requests (trace w')) \<le> Suc (length (requests (trace w)))"
proof -
  from assms(1) obtain t where t: "w = w0\<lparr>trace := trace w0 @ t\<rparr>"
    "disciplined (policy c) u (if bearer then Some (token c) else None) t"
    by (auto simp: request_inv_def)
  from request_attempt_world [OF assms(2)] obtain s where s: "w' = w\<lparr>trace := trace w @ s\<rparr>"
    "attempt_events (policy c) u (if bearer then Some (token c) else None) s" by blast
  have "w' = w0\<lparr>trace := trace w0 @ (t @ s)\<rparr>" using s t by simp
  then have "request_inv c u bearer w0 w'"
    using disciplined_append [OF t(2) attempt_disciplined [OF s(2)]]
    by (auto simp: request_inv_def)
  then show ?thesis using attempt_requests [OF s(2)] s(1) by simp
qed

interpretation request: bounded_attempts
    "request_attempt lib env c u bearer" "max_attempts (policy c)"
    "\<lambda>w. request_inv c u bearer w0 w \<and> max_response_bytes (policy c) < u64_max"
    "\<lambda>w. length (requests (trace w))"
    "\<lambda>r w. request_result_ok env c r \<and> request_inv c u bearer w0 w"
  for lib env c u bearer w0
proof unfold_locales
  fix w k w'
  assume inv: "request_inv c u bearer w0 w \<and> max_response_bytes (policy c) < u64_max"
    and step: "request_attempt lib env c u bearer k w = (Again, w')"
  with request_inv_step [OF _ step] show
    "(request_inv c u bearer w0 w' \<and> max_response_bytes (policy c) < u64_max) \<and>
      length (requests (trace w')) \<le> Suc (length (requests (trace w)))"
    by blast
next
  fix w k r w'
  assume inv: "request_inv c u bearer w0 w \<and> max_response_bytes (policy c) < u64_max"
    and step: "request_attempt lib env c u bearer k w = (Done r, w')"
  with request_inv_step [OF _ step] request_attempt_done [OF step] show
    "(request_result_ok env c r \<and> request_inv c u bearer w0 w') \<and>
      length (requests (trace w')) \<le> Suc (length (requests (trace w)))"
    by blast
next
  fix w
  show "fst (request_attempt lib env c u bearer (max_attempts (policy c)) w) \<noteq> Again"
    using request_attempt_again [of lib env c u bearer "max_attempts (policy c)" w]
    by (cases "request_attempt lib env c u bearer (max_attempts (policy c)) w") auto
qed

section \<open>Properties\<close>


text \<open>A concrete client, its libraries and a network that answers 503, then 200.\<close>

definition demo_url :: url where
  "demo_url = \<lparr>url_scheme = ''https'', url_host = Some ''api.themoviedb.org'', url_username = '''',
     url_password = None, url_path = ''/3/'', url_query = None, url_fragment = None\<rparr>"

definition demo_client :: client where
  "demo_client = \<lparr>base_url = demo_url, token = ''secret'', policy = retry_conservative\<rparr>"

definition demo_lib :: client_lib where
  "demo_lib = \<lparr>parse_url = (\<lambda>s. if s = ''u'' then Some demo_url else None),
     join_url = (\<lambda>u p. Some (u\<lparr>url_path := url_path u @ p\<rparr>)), encode_pairs = (\<lambda>ps. ''q''),
     parse_http_date = (\<lambda>s. None), http_build = (\<lambda>t. True), sha256 = (\<lambda>s. s)\<rparr>"

definition demo_env :: client_env where
  "demo_env = \<lparr>gate_error = (\<lambda>k. None),
     answer = (\<lambda>k. if k = 1 then Some \<lparr>status = 503, headers = [], chunks = [], broken = False\<rparr>
                else Some \<lparr>status = 200, headers = [], chunks = [''ab'', ''c''], broken = False\<rparr>),
     system_now = (\<lambda>k. 0), pid = 7, create_ok = (\<lambda>p. True), write_ok = (\<lambda>p i. True),
     sync_ok = (\<lambda>p. True), rename_ok = (\<lambda>p. True), remove_ok = (\<lambda>p. True)\<rparr>"

definition demo_world :: client_world where
  "demo_world = \<lparr>trace = [], files = (\<lambda>p. None), temp_counter = 0\<rparr>"

lemmas demo_defs = demo_url_def demo_client_def demo_lib_def demo_env_def demo_world_def
  retry_conservative_def nonzero_or_min_def rate_limit_default_def


text \<open>An attempt is repeated only before the last one and only after a transport failure,
  a 429 or a 5xx answer; every other answer, and every failure while the body is read, ends the
  call at once.\<close>

theorem request_retries_only_transient:
  assumes "fst (request_attempt lib env c u bearer k w) = Again"
  shows "k < max_attempts (policy c) \<and> gate_error env k = None \<and>
    (answer env k = None \<or> (\<exists>r. answer env k = Some r \<and>
       (status r = 429 \<or> (500 \<le> status r \<and> status r \<le> 599)) \<and>
       (\<exists>body. read_bounded r (max_response_bytes (policy c)) = Inr body)))"
proof -
  obtain w' where w: "request_attempt lib env c u bearer k w = (Again, w')"
    using assms by (cases "request_attempt lib env c u bearer k w") auto
  then have "gate_error env k = None"
    by (auto simp: request_attempt_def split: option.splits)
  moreover have "answer env k = Some r \<Longrightarrow>
      \<exists>body. read_bounded r (max_response_bytes (policy c)) = Inr body" for r
    using w by (auto simp: request_attempt_def Let_def split: option.splits sum.splits)
  ultimately show ?thesis
    using request_attempt_again [OF w] by (cases "answer env k") auto
qed

theorem request_retries_only_transient_witness:
  "(1::nat) < max_attempts (policy demo_client) \<and> gate_error demo_env 1 = None"
  using request_retries_only_transient [of demo_lib demo_env demo_client demo_url True 1 demo_world]
  by (simp add: request_attempt_def demo_defs dispatch_class_def classify_response_def
      read_bounded_def)

text \<open>A response is reported as a challenge only on an allowlisted TMDB host, never for the
  statuses 429, 401 and 404, and only if one of the five signatures occurs, in any case, within
  its first 16 KiB.\<close>

theorem challenge_only_allowlisted:
  "trawl_decision u st hs body = ChallengeDetected \<longleftrightarrow>
     allowlisted_host (url_host u) \<and> st \<notin> {429, 401, 404} \<and>
     (\<exists>sig\<in>set challenge_signatures. contains (to_ascii_lowercase (take 16384 body)) sig)"
proof -
  have "take (min (length body) 16384) body = take 16384 body" by (simp add: min_def)
  then show ?thesis by (auto simp: trawl_decision_def Let_def list_ex_iff)
qed

end
