(* ===== verification/Http_Endpoints.thy ===== *)
theory Http_Endpoints
  imports Http_Client
begin

text \<open>
  The typed endpoint helpers of \<open>src/crates/tmdb-upstream/src/client.rs\<close>. Each takes
  \<open>fetch\<close>, which is \<open>self.fetch_json(path, query, true)\<close> as a state transformer, and the
  typed decoder \<open>typed\<close> (\<open>serde_json::from_value\<close>); identifiers are unsigned integers. Dates
  are day numbers, and \<open>fmt_date\<close> renders \<open>%Y-%m-%d\<close>.
\<close>

section \<open>Shared steps\<close>

type_synonym ('v, 'w) fetcher =
  "string \<Rightarrow> (string \<times> string) list \<Rightarrow> 'w \<Rightarrow> (client_error + 'v) \<times> 'w"

text \<open>\<open>serde_json::from_value(raw.clone()).map_err(MalformedJson)\<close> after the request.\<close>

definition with_typed ::
    "('v \<Rightarrow> 'm option) \<Rightarrow> string \<Rightarrow> (client_error + 'v) \<times> 'w \<Rightarrow> (client_error + 'v \<times> 'm) \<times> 'w" where
  "with_typed typed path rw =
     (bindR (fst rw) (\<lambda>raw.
        bindR (ok_or (MalformedJson (bounded_endpoint path)) (typed raw)) (\<lambda>m. Inr (raw, m))),
      snd rw)"

definition without_raw :: "(client_error + 'v \<times> 'm) \<times> 'w \<Rightarrow> (client_error + 'm) \<times> 'w" where
  "without_raw rw = (mapR snd (fst rw), snd rw)"

section \<open>Query strings\<close>

definition movie_append :: string where
  "movie_append =
     ''keywords,credits,translations,alternative_titles,external_ids,videos,release_dates,images''"

definition tv_append :: string where
  "tv_append =
     ''keywords,credits,translations,alternative_titles,external_ids,videos,content_ratings,images''"

definition season_append :: string where
  "season_append =
     ''account_states,aggregate_credits,credits,external_ids,translations,videos,watch/providers,images''"

definition episode_append :: string where
  "episode_append = ''account_states,credits,external_ids,translations,videos,images''"

definition detail_query :: "string \<Rightarrow> (string \<times> string) list" where
  "detail_query extra =
     [(''append_to_response'', extra), (''language'', ''en-US''),
      (''include_image_language'', ''en,null''), (''include_video_language'', ''en,null'')]"

definition movie_detail_query_string :: string where
  "movie_detail_query_string =
     ''append_to_response=keywords,credits,translations,alternative_titles,external_ids,videos,release_dates,images&language=en-US&include_image_language=en,null&include_video_language=en,null''"

definition tv_detail_query_string :: string where
  "tv_detail_query_string =
     ''append_to_response=keywords,credits,translations,alternative_titles,external_ids,videos,content_ratings,images&language=en-US&include_image_language=en,null&include_video_language=en,null''"

definition season_detail_query_string :: string where
  "season_detail_query_string =
     ''append_to_response=account_states,aggregate_credits,credits,external_ids,translations,videos,watch/providers,images&language=en-US&include_image_language=en,null&include_video_language=en,null''"

definition episode_detail_query_string :: string where
  "episode_detail_query_string =
     ''append_to_response=account_states,credits,external_ids,translations,videos,images&language=en-US&include_image_language=en,null&include_video_language=en,null''"

definition image_gallery_query :: "(string \<times> string) list" where
  "image_gallery_query = [(''language'', ''en-US''), (''include_image_language'', ''en,null'')]"

definition video_gallery_query :: "(string \<times> string) list" where
  "video_gallery_query = [(''language'', ''en-US''), (''include_video_language'', ''en,null'')]"

definition image_gallery_query_string :: string where
  "image_gallery_query_string = ''language=en-US&include_image_language=en,null''"

definition video_gallery_query_string :: string where
  "video_gallery_query_string = ''language=en-US&include_video_language=en,null''"

text \<open>The query string that \<open>fetch_document\<close> returns for a query.\<close>

definition document_query_string :: "(string \<times> string) list \<Rightarrow> string" where
  "document_query_string query = join_with ''&'' (map (\<lambda>(name, val). name @ ''='' @ val) query)"

definition fetch_configuration :: "('v, 'w) fetcher \<Rightarrow> 'w \<Rightarrow> (client_error + 'v) \<times> 'w" where
  "fetch_configuration fetch w = fetch ''configuration'' [] w"

definition fetch_document ::
    "('v, 'w) fetcher \<Rightarrow> string \<Rightarrow> (string \<times> string) list \<Rightarrow> 'w \<Rightarrow>
     (client_error + 'v \<times> string) \<times> 'w" where
  "fetch_document fetch path query w =
     (let (r, w') = fetch path query w
      in (bindR r (\<lambda>response. Inr (response, document_query_string query)), w'))"

section \<open>Details\<close>

definition movie_path :: "nat \<Rightarrow> string" where
  "movie_path i = ''movie/'' @ dec i"

definition fetch_movie_with_raw ::
    "('v, 'w) fetcher \<Rightarrow> ('v \<Rightarrow> 'm option) \<Rightarrow> nat \<Rightarrow> 'w \<Rightarrow>
     (client_error + 'v \<times> 'm) \<times> 'w" where
  "fetch_movie_with_raw fetch typed i w =
     (if i = 0 then (Inl InvalidPath, w)
      else with_typed typed (movie_path i) (fetch (movie_path i) (detail_query movie_append) w))"

definition fetch_movie ::
    "('v, 'w) fetcher \<Rightarrow> ('v \<Rightarrow> 'm option) \<Rightarrow> nat \<Rightarrow> 'w \<Rightarrow>
     (client_error + 'm) \<times> 'w" where
  "fetch_movie fetch typed i w =
     without_raw (fetch_movie_with_raw fetch typed i w)"

definition tv_path :: "nat \<Rightarrow> string" where
  "tv_path i = ''tv/'' @ dec i"

definition fetch_tv_with_raw ::
    "('v, 'w) fetcher \<Rightarrow> ('v \<Rightarrow> 'm option) \<Rightarrow> nat \<Rightarrow> 'w \<Rightarrow>
     (client_error + 'v \<times> 'm) \<times> 'w" where
  "fetch_tv_with_raw fetch typed i w =
     (if i = 0 then (Inl InvalidPath, w)
      else with_typed typed (tv_path i) (fetch (tv_path i) (detail_query tv_append) w))"

definition fetch_tv ::
    "('v, 'w) fetcher \<Rightarrow> ('v \<Rightarrow> 'm option) \<Rightarrow> nat \<Rightarrow> 'w \<Rightarrow>
     (client_error + 'm) \<times> 'w" where
  "fetch_tv fetch typed i w =
     without_raw (fetch_tv_with_raw fetch typed i w)"

definition season_path :: "nat \<Rightarrow> nat \<Rightarrow> string" where
  "season_path i s = ''tv/'' @ dec i @ ''/season/'' @ dec s"

definition fetch_season_with_raw ::
    "('v, 'w) fetcher \<Rightarrow> ('v \<Rightarrow> 'm option) \<Rightarrow> nat \<Rightarrow> nat \<Rightarrow> 'w \<Rightarrow>
     (client_error + 'v \<times> 'm) \<times> 'w" where
  "fetch_season_with_raw fetch typed i s w =
     (if i = 0 then (Inl InvalidPath, w)
      else with_typed typed (season_path i s) (fetch (season_path i s) (detail_query season_append) w))"

definition fetch_season ::
    "('v, 'w) fetcher \<Rightarrow> ('v \<Rightarrow> 'm option) \<Rightarrow> nat \<Rightarrow> nat \<Rightarrow> 'w \<Rightarrow>
     (client_error + 'm) \<times> 'w" where
  "fetch_season fetch typed i s w =
     without_raw (fetch_season_with_raw fetch typed i s w)"

definition episode_path :: "nat \<Rightarrow> nat \<Rightarrow> nat \<Rightarrow> string" where
  "episode_path i s e = ''tv/'' @ dec i @ ''/season/'' @ dec s @ ''/episode/'' @ dec e"

definition fetch_episode_with_raw ::
    "('v, 'w) fetcher \<Rightarrow> ('v \<Rightarrow> 'm option) \<Rightarrow> nat \<Rightarrow> nat \<Rightarrow> nat \<Rightarrow> 'w \<Rightarrow>
     (client_error + 'v \<times> 'm) \<times> 'w" where
  "fetch_episode_with_raw fetch typed i s e w =
     (if i = 0 \<or> e = 0 then (Inl InvalidPath, w)
      else with_typed typed (episode_path i s e) (fetch (episode_path i s e) (detail_query episode_append) w))"

definition fetch_episode ::
    "('v, 'w) fetcher \<Rightarrow> ('v \<Rightarrow> 'm option) \<Rightarrow> nat \<Rightarrow> nat \<Rightarrow> nat \<Rightarrow> 'w \<Rightarrow>
     (client_error + 'm) \<times> 'w" where
  "fetch_episode fetch typed i s e w =
     without_raw (fetch_episode_with_raw fetch typed i s e w)"

section \<open>Galleries\<close>

definition fetch_images_with_raw ::
    "('v, 'w) fetcher \<Rightarrow> ('v \<Rightarrow> 'm option) \<Rightarrow> string \<Rightarrow> bool \<Rightarrow> 'w \<Rightarrow>
     (client_error + 'v \<times> 'm) \<times> 'w" where
  "fetch_images_with_raw fetch typed path valid_id w =
     (if \<not> valid_id then (Inl InvalidPath, w)
      else with_typed typed path (fetch path image_gallery_query w))"

definition fetch_videos_with_raw ::
    "('v, 'w) fetcher \<Rightarrow> ('v \<Rightarrow> 'm option) \<Rightarrow> string \<Rightarrow> bool \<Rightarrow> 'w \<Rightarrow>
     (client_error + 'v \<times> 'm) \<times> 'w" where
  "fetch_videos_with_raw fetch typed path valid_id w =
     (if \<not> valid_id then (Inl InvalidPath, w)
      else with_typed typed path (fetch path video_gallery_query w))"

definition fetch_movie_images_with_raw ::
    "('v, 'w) fetcher \<Rightarrow> ('v \<Rightarrow> 'm option) \<Rightarrow> nat \<Rightarrow> 'w \<Rightarrow>
     (client_error + 'v \<times> 'm) \<times> 'w" where
  "fetch_movie_images_with_raw fetch typed i w =
     fetch_images_with_raw fetch typed (''movie/'' @ dec i @ ''/images'') (i \<noteq> 0) w"

definition fetch_movie_images ::
    "('v, 'w) fetcher \<Rightarrow> ('v \<Rightarrow> 'm option) \<Rightarrow> nat \<Rightarrow> 'w \<Rightarrow>
     (client_error + 'm) \<times> 'w" where
  "fetch_movie_images fetch typed i w =
     without_raw (fetch_movie_images_with_raw fetch typed i w)"

definition fetch_tv_images_with_raw ::
    "('v, 'w) fetcher \<Rightarrow> ('v \<Rightarrow> 'm option) \<Rightarrow> nat \<Rightarrow> 'w \<Rightarrow>
     (client_error + 'v \<times> 'm) \<times> 'w" where
  "fetch_tv_images_with_raw fetch typed i w =
     fetch_images_with_raw fetch typed (''tv/'' @ dec i @ ''/images'') (i \<noteq> 0) w"

definition fetch_tv_images ::
    "('v, 'w) fetcher \<Rightarrow> ('v \<Rightarrow> 'm option) \<Rightarrow> nat \<Rightarrow> 'w \<Rightarrow>
     (client_error + 'm) \<times> 'w" where
  "fetch_tv_images fetch typed i w =
     without_raw (fetch_tv_images_with_raw fetch typed i w)"

definition fetch_season_images_with_raw ::
    "('v, 'w) fetcher \<Rightarrow> ('v \<Rightarrow> 'm option) \<Rightarrow> nat \<Rightarrow> nat \<Rightarrow> 'w \<Rightarrow>
     (client_error + 'v \<times> 'm) \<times> 'w" where
  "fetch_season_images_with_raw fetch typed i s w =
     (if i = 0 then (Inl InvalidPath, w)
      else fetch_images_with_raw fetch typed (''tv/'' @ dec i @ ''/season/'' @ dec s @ ''/images'') True w)"

definition fetch_season_images ::
    "('v, 'w) fetcher \<Rightarrow> ('v \<Rightarrow> 'm option) \<Rightarrow> nat \<Rightarrow> nat \<Rightarrow> 'w \<Rightarrow>
     (client_error + 'm) \<times> 'w" where
  "fetch_season_images fetch typed i s w =
     (if i = 0 then (Inl InvalidPath, w)
      else without_raw (fetch_season_images_with_raw fetch typed i s w))"

definition fetch_episode_images_with_raw ::
    "('v, 'w) fetcher \<Rightarrow> ('v \<Rightarrow> 'm option) \<Rightarrow> nat \<Rightarrow> nat \<Rightarrow> nat \<Rightarrow> 'w \<Rightarrow>
     (client_error + 'v \<times> 'm) \<times> 'w" where
  "fetch_episode_images_with_raw fetch typed i s e w =
     (if i = 0 \<or> e = 0 then (Inl InvalidPath, w)
      else fetch_images_with_raw fetch typed (''tv/'' @ dec i @ ''/season/'' @ dec s @ ''/episode/'' @ dec e @ ''/images'') True w)"

definition fetch_episode_images ::
    "('v, 'w) fetcher \<Rightarrow> ('v \<Rightarrow> 'm option) \<Rightarrow> nat \<Rightarrow> nat \<Rightarrow> nat \<Rightarrow> 'w \<Rightarrow>
     (client_error + 'm) \<times> 'w" where
  "fetch_episode_images fetch typed i s e w =
     (if i = 0 \<or> e = 0 then (Inl InvalidPath, w)
      else without_raw (fetch_episode_images_with_raw fetch typed i s e w))"

definition fetch_person_images_with_raw ::
    "('v, 'w) fetcher \<Rightarrow> ('v \<Rightarrow> 'm option) \<Rightarrow> nat \<Rightarrow> 'w \<Rightarrow>
     (client_error + 'v \<times> 'm) \<times> 'w" where
  "fetch_person_images_with_raw fetch typed i w =
     fetch_images_with_raw fetch typed (''person/'' @ dec i @ ''/images'') (i \<noteq> 0) w"

definition fetch_person_images ::
    "('v, 'w) fetcher \<Rightarrow> ('v \<Rightarrow> 'm option) \<Rightarrow> nat \<Rightarrow> 'w \<Rightarrow>
     (client_error + 'm) \<times> 'w" where
  "fetch_person_images fetch typed i w =
     without_raw (fetch_person_images_with_raw fetch typed i w)"

definition fetch_company_images_with_raw ::
    "('v, 'w) fetcher \<Rightarrow> ('v \<Rightarrow> 'm option) \<Rightarrow> nat \<Rightarrow> 'w \<Rightarrow>
     (client_error + 'v \<times> 'm) \<times> 'w" where
  "fetch_company_images_with_raw fetch typed i w =
     fetch_images_with_raw fetch typed (''company/'' @ dec i @ ''/images'') (i \<noteq> 0) w"

definition fetch_company_images ::
    "('v, 'w) fetcher \<Rightarrow> ('v \<Rightarrow> 'm option) \<Rightarrow> nat \<Rightarrow> 'w \<Rightarrow>
     (client_error + 'm) \<times> 'w" where
  "fetch_company_images fetch typed i w =
     without_raw (fetch_company_images_with_raw fetch typed i w)"

definition fetch_network_images_with_raw ::
    "('v, 'w) fetcher \<Rightarrow> ('v \<Rightarrow> 'm option) \<Rightarrow> nat \<Rightarrow> 'w \<Rightarrow>
     (client_error + 'v \<times> 'm) \<times> 'w" where
  "fetch_network_images_with_raw fetch typed i w =
     fetch_images_with_raw fetch typed (''network/'' @ dec i @ ''/images'') (i \<noteq> 0) w"

definition fetch_network_images ::
    "('v, 'w) fetcher \<Rightarrow> ('v \<Rightarrow> 'm option) \<Rightarrow> nat \<Rightarrow> 'w \<Rightarrow>
     (client_error + 'm) \<times> 'w" where
  "fetch_network_images fetch typed i w =
     without_raw (fetch_network_images_with_raw fetch typed i w)"

definition fetch_collection_images_with_raw ::
    "('v, 'w) fetcher \<Rightarrow> ('v \<Rightarrow> 'm option) \<Rightarrow> nat \<Rightarrow> 'w \<Rightarrow>
     (client_error + 'v \<times> 'm) \<times> 'w" where
  "fetch_collection_images_with_raw fetch typed i w =
     fetch_images_with_raw fetch typed (''collection/'' @ dec i @ ''/images'') (i \<noteq> 0) w"

definition fetch_collection_images ::
    "('v, 'w) fetcher \<Rightarrow> ('v \<Rightarrow> 'm option) \<Rightarrow> nat \<Rightarrow> 'w \<Rightarrow>
     (client_error + 'm) \<times> 'w" where
  "fetch_collection_images fetch typed i w =
     without_raw (fetch_collection_images_with_raw fetch typed i w)"

definition fetch_movie_videos_with_raw ::
    "('v, 'w) fetcher \<Rightarrow> ('v \<Rightarrow> 'm option) \<Rightarrow> nat \<Rightarrow> 'w \<Rightarrow>
     (client_error + 'v \<times> 'm) \<times> 'w" where
  "fetch_movie_videos_with_raw fetch typed i w =
     fetch_videos_with_raw fetch typed (''movie/'' @ dec i @ ''/videos'') (i \<noteq> 0) w"

definition fetch_movie_videos ::
    "('v, 'w) fetcher \<Rightarrow> ('v \<Rightarrow> 'm option) \<Rightarrow> nat \<Rightarrow> 'w \<Rightarrow>
     (client_error + 'm) \<times> 'w" where
  "fetch_movie_videos fetch typed i w =
     without_raw (fetch_movie_videos_with_raw fetch typed i w)"

definition fetch_tv_videos_with_raw ::
    "('v, 'w) fetcher \<Rightarrow> ('v \<Rightarrow> 'm option) \<Rightarrow> nat \<Rightarrow> 'w \<Rightarrow>
     (client_error + 'v \<times> 'm) \<times> 'w" where
  "fetch_tv_videos_with_raw fetch typed i w =
     fetch_videos_with_raw fetch typed (''tv/'' @ dec i @ ''/videos'') (i \<noteq> 0) w"

definition fetch_tv_videos ::
    "('v, 'w) fetcher \<Rightarrow> ('v \<Rightarrow> 'm option) \<Rightarrow> nat \<Rightarrow> 'w \<Rightarrow>
     (client_error + 'm) \<times> 'w" where
  "fetch_tv_videos fetch typed i w =
     without_raw (fetch_tv_videos_with_raw fetch typed i w)"

section \<open>Feeds\<close>

definition changes_query :: "(int \<Rightarrow> string) \<Rightarrow> nat \<Rightarrow> (int \<times> int) option \<Rightarrow> (string \<times> string) list" where
  "changes_query fmt_date page window =
     (''page'', dec page) #
     (case window of None \<Rightarrow> []
      | Some (start, end_date) \<Rightarrow>
          [(''start_date'', fmt_date start), (''end_date'', fmt_date end_date)])"

text \<open>\<open>Option::zip\<close>.\<close>

definition zip_option :: "'a option \<Rightarrow> 'b option \<Rightarrow> ('a \<times> 'b) option" where
  "zip_option x y = (case (x, y) of (Some a, Some b) \<Rightarrow> Some (a, b) | _ \<Rightarrow> None)"

definition changes_path :: "media_type \<Rightarrow> string" where
  "changes_path m = media_type_as_str m @ ''/changes''"

definition fetch_changes_window_with_raw ::
    "('v, 'w) fetcher \<Rightarrow> ('v \<Rightarrow> 'm option) \<Rightarrow> (int \<Rightarrow> string) \<Rightarrow> media_type \<Rightarrow> nat \<Rightarrow>
     int option \<Rightarrow> int option \<Rightarrow> 'w \<Rightarrow> (client_error + 'v \<times> 'm) \<times> 'w" where
  "fetch_changes_window_with_raw fetch typed fmt_date m page start_date end_date w =
     (if page = 0 then (Inl InvalidPath, w)
      else if (start_date \<noteq> None) \<noteq> (end_date \<noteq> None) \<or>
              (case zip_option start_date end_date of None \<Rightarrow> False
               | Some (start, end') \<Rightarrow> start > end' \<or> end' - start > 13)
      then (Inl InvalidPath, w)
      else with_typed typed (changes_path m)
             (fetch (changes_path m) (changes_query fmt_date page (zip_option start_date end_date)) w))"

definition fetch_changes_with_raw ::
    "('v, 'w) fetcher \<Rightarrow> ('v \<Rightarrow> 'm option) \<Rightarrow> (int \<Rightarrow> string) \<Rightarrow> media_type \<Rightarrow> nat \<Rightarrow> 'w \<Rightarrow>
     (client_error + 'v \<times> 'm) \<times> 'w" where
  "fetch_changes_with_raw fetch typed fmt_date m page w =
     fetch_changes_window_with_raw fetch typed fmt_date m page None None w"

definition fetch_changes ::
    "('v, 'w) fetcher \<Rightarrow> ('v \<Rightarrow> 'm option) \<Rightarrow> (int \<Rightarrow> string) \<Rightarrow> media_type \<Rightarrow> nat \<Rightarrow> 'w \<Rightarrow>
     (client_error + 'm) \<times> 'w" where
  "fetch_changes fetch typed fmt_date m page w =
     without_raw (fetch_changes_with_raw fetch typed fmt_date m page w)"

definition trending_path :: "media_type \<Rightarrow> string \<Rightarrow> string" where
  "trending_path m window = ''trending/'' @ media_type_as_str m @ ''/'' @ window"

definition fetch_trending_with_raw ::
    "('v, 'w) fetcher \<Rightarrow> ('v \<Rightarrow> 'm option) \<Rightarrow> media_type \<Rightarrow> string \<Rightarrow> 'w \<Rightarrow>
     (client_error + 'v \<times> 'm) \<times> 'w" where
  "fetch_trending_with_raw fetch typed m window w =
     (if window \<noteq> ''day'' \<and> window \<noteq> ''week'' then (Inl InvalidPath, w)
      else with_typed typed (trending_path m window) (fetch (trending_path m window) [] w))"

definition fetch_trending ::
    "('v, 'w) fetcher \<Rightarrow> ('v \<Rightarrow> 'm option) \<Rightarrow> media_type \<Rightarrow> string \<Rightarrow> 'w \<Rightarrow> (client_error + 'm) \<times> 'w" where
  "fetch_trending fetch typed m window w =
     without_raw (fetch_trending_with_raw fetch typed m window w)"

definition entity_changes_path :: "media_type \<Rightarrow> nat \<Rightarrow> string" where
  "entity_changes_path m i = media_type_as_str m @ ''/'' @ dec i @ ''/changes''"

definition fetch_entity_changes ::
    "('v, 'w) fetcher \<Rightarrow> media_type \<Rightarrow> nat \<Rightarrow> nat \<Rightarrow> 'w \<Rightarrow> (client_error + 'v) \<times> 'w" where
  "fetch_entity_changes fetch m i page w =
     (if i = 0 \<or> page = 0 then (Inl InvalidPath, w)
      else fetch (entity_changes_path m i) [(''page'', dec page)] w)"

section \<open>Paths\<close>

text \<open>Paths built from non-empty lower-case or digit segments pass the guard of \<open>fetch_json\<close>.\<close>

definition seg_ok :: "string \<Rightarrow> bool" where
  "seg_ok s \<longleftrightarrow> s \<noteq> [] \<and> list_all (\<lambda>c. is_lower c \<or> is_digit c) s"

lemma seg_ok_dec [simp]: "seg_ok (dec n)"
  using dec_digits [of n] by (auto simp: seg_ok_def list_all_iff)

lemma seg_ok_media [simp]: "seg_ok (media_type_as_str m)"
  by (cases m) (simp_all add: seg_ok_def media_type_as_str_def is_lower_def)

lemma join_chars:
  "list_all seg_ok ss \<Longrightarrow> c \<in> set (join_with ''/'' ss) \<Longrightarrow> is_lower c \<or> is_digit c \<or> c = CHR ''/''"
  by (induction "''/''" ss rule: join_with.induct) (auto simp: seg_ok_def list_all_iff)

lemma no_double_seg:
  "list_all (\<lambda>c. is_lower c \<or> is_digit c) s \<Longrightarrow> \<not> contains t ''//'' \<Longrightarrow>
   (t \<noteq> [] \<longrightarrow> hd t \<noteq> CHR ''/'') \<Longrightarrow> \<not> contains (s @ CHR ''/'' # t) ''//''"
proof (induction s)
  case Nil
  then show ?case by (cases t) (auto simp: sublist_Cons_right)
next
  case (Cons c s)
  then have "c \<noteq> CHR ''/''" by (auto simp: is_lower_def is_digit_def)
  with Cons show ?case by (auto simp: sublist_Cons_right)
qed

lemma seg_no_slash: "list_all (\<lambda>c. is_lower c \<or> is_digit c) s \<Longrightarrow> \<not> contains s ''//''"
  by (induction s) (auto simp: sublist_Cons_right is_lower_def is_digit_def)

lemma seg_hd: "seg_ok x \<Longrightarrow> x \<noteq> [] \<and> hd x \<noteq> CHR ''/''"
  by (cases x) (auto simp: seg_ok_def is_lower_def is_digit_def)

lemma join_hd: "ss \<noteq> [] \<Longrightarrow> list_all seg_ok ss \<Longrightarrow>
    join_with ''/'' ss \<noteq> [] \<and> hd (join_with ''/'' ss) \<noteq> CHR ''/''"
  using seg_hd by (cases ss rule: remdups_adj.cases) auto

lemma join_no_double: "list_all seg_ok ss \<Longrightarrow> \<not> contains (join_with ''/'' ss) ''//''"
proof (induction "''/''" ss rule: join_with.induct)
  case (2 x)
  then show ?case by (simp add: seg_ok_def seg_no_slash)
next
  case (3 x y zs)
  then show ?case
    using join_hd [of "y # zs"] no_double_seg [of x "join_with ''/'' (y # zs)"]
    by (simp add: seg_ok_def)
qed simp

lemma contains_set: "contains s p \<Longrightarrow> set p \<subseteq> set s"
  by (rule set_mono_sublist)

lemma has_control_ascii: "\<forall>c\<in>set s. 32 \<le> byte c \<and> byte c < 127 \<Longrightarrow> \<not> has_control s"
  by (induction s) auto

lemma request_path_ok_join:
  assumes "ss \<noteq> []" "list_all seg_ok ss"
  shows "request_path_ok (join_with ''/'' ss)"
proof -
  let ?p = "join_with ''/'' ss"
  have chars: "is_lower c \<or> is_digit c \<or> c = CHR ''/''" if "c \<in> set ?p" for c
    using join_chars [OF assms(2) that] .
  have "\<not> starts_with ?p ''/''" "\<not> starts_with ?p ''//''" "?p \<noteq> []"
    using join_hd [OF assms] by (auto simp: prefix_def)
  moreover have "\<not> contains ?p ''://''" "\<not> contains ?p ''..''"
    using chars [of "CHR '':''"] chars [of "CHR ''.''"]
    by (auto dest!: contains_set simp: is_lower_def is_digit_def)
  moreover have "\<not> contains_any ?p ''?#''"
    using chars [of "CHR ''?''"] chars [of "CHR ''#''"] by (auto simp: contains_any_def list_ex_iff is_lower_def is_digit_def)
  moreover have "\<not> has_control ?p"
    using chars by (intro has_control_ascii) (force simp: is_lower_def is_digit_def)
  ultimately show ?thesis
    using join_no_double [OF assms(2)] by (simp add: request_path_ok_def)
qed

lemma seg_ok_words [simp]:
  "seg_ok ''movie''"
  "seg_ok ''tv''"
  "seg_ok ''season''"
  "seg_ok ''episode''"
  "seg_ok ''images''"
  "seg_ok ''videos''"
  "seg_ok ''changes''"
  "seg_ok ''person''"
  "seg_ok ''company''"
  "seg_ok ''network''"
  "seg_ok ''collection''"
  "seg_ok ''trending''"
  "seg_ok ''day''"
  "seg_ok ''week''"
  by (simp_all add: seg_ok_def is_lower_def)

lemma endpoint_paths_ok:
  "request_path_ok (''movie'' @ ''/'' @ dec i)"
  "request_path_ok (''movie'' @ ''/'' @ dec i @ ''/'' @ ''images'')"
  "request_path_ok (''movie'' @ ''/'' @ dec i @ ''/'' @ ''videos'')"
  "request_path_ok (''tv'' @ ''/'' @ dec i)"
  "request_path_ok (''tv'' @ ''/'' @ dec i @ ''/'' @ ''images'')"
  "request_path_ok (''tv'' @ ''/'' @ dec i @ ''/'' @ ''videos'')"
  "request_path_ok (''person'' @ ''/'' @ dec i @ ''/'' @ ''images'')"
  "request_path_ok (''company'' @ ''/'' @ dec i @ ''/'' @ ''images'')"
  "request_path_ok (''network'' @ ''/'' @ dec i @ ''/'' @ ''images'')"
  "request_path_ok (''collection'' @ ''/'' @ dec i @ ''/'' @ ''images'')"
  "request_path_ok (''tv'' @ ''/'' @ dec i @ ''/'' @ ''season'' @ ''/'' @ dec s)"
  "request_path_ok (''tv'' @ ''/'' @ dec i @ ''/'' @ ''season'' @ ''/'' @ dec s @ ''/'' @ ''images'')"
  "request_path_ok (''tv'' @ ''/'' @ dec i @ ''/'' @ ''season'' @ ''/'' @ dec s @ ''/'' @ ''episode'' @ ''/'' @ dec e)"
  "request_path_ok (''tv'' @ ''/'' @ dec i @ ''/'' @ ''season'' @ ''/'' @ dec s @ ''/'' @ ''episode'' @ ''/'' @ dec e @ ''/'' @ ''images'')"
  using request_path_ok_join [of "[''movie'', dec i]"]
        request_path_ok_join [of "[''movie'', dec i, ''images'']"]
        request_path_ok_join [of "[''movie'', dec i, ''videos'']"]
        request_path_ok_join [of "[''tv'', dec i]"]
        request_path_ok_join [of "[''tv'', dec i, ''images'']"]
        request_path_ok_join [of "[''tv'', dec i, ''videos'']"]
        request_path_ok_join [of "[''person'', dec i, ''images'']"]
        request_path_ok_join [of "[''company'', dec i, ''images'']"]
        request_path_ok_join [of "[''network'', dec i, ''images'']"]
        request_path_ok_join [of "[''collection'', dec i, ''images'']"]
        request_path_ok_join [of "[''tv'', dec i, ''season'', dec s]"]
        request_path_ok_join [of "[''tv'', dec i, ''season'', dec s, ''images'']"]
        request_path_ok_join [of "[''tv'', dec i, ''season'', dec s, ''episode'', dec e]"]
        request_path_ok_join [of "[''tv'', dec i, ''season'', dec s, ''episode'', dec e, ''images'']"]
  by simp_all

section \<open>Properties\<close>

text \<open>A \<open>fetch\<close> that answers \<open>r\<close> and records the calls, and the calls of every endpoint.\<close>

definition log_fetch ::
    "(client_error + 'v) \<Rightarrow> ('v, (string \<times> (string \<times> string) list) list) fetcher" where
  "log_fetch r path query w = (r, w @ [(path, query)])"

definition endpoint_calls ::
    "(client_error + 'v) \<Rightarrow> ('v \<Rightarrow> 'm option) \<Rightarrow> nat \<Rightarrow> nat \<Rightarrow> nat \<Rightarrow>
     (string \<times> (string \<times> string) list) list" where
  "endpoint_calls r typed i s e =
     concat
       [snd (fetch_movie (log_fetch r) typed i []),
        snd (fetch_tv (log_fetch r) typed i []),
        snd (fetch_movie_images (log_fetch r) typed i []),
        snd (fetch_tv_images (log_fetch r) typed i []),
        snd (fetch_person_images (log_fetch r) typed i []),
        snd (fetch_company_images (log_fetch r) typed i []),
        snd (fetch_network_images (log_fetch r) typed i []),
        snd (fetch_collection_images (log_fetch r) typed i []),
        snd (fetch_movie_videos (log_fetch r) typed i []),
        snd (fetch_tv_videos (log_fetch r) typed i []),
        snd (fetch_season (log_fetch r) typed i s []),
        snd (fetch_season_images (log_fetch r) typed i s []),
        snd (fetch_episode (log_fetch r) typed i s e []),
        snd (fetch_episode_images (log_fetch r) typed i s e [])]"

text \<open>Every detail, gallery and video endpoint sends at most one request, none for a zero
  title identifier and none for episode number zero, and every path it requests passes the path
  guard of \<open>fetch_json\<close>, so no identifier turns into \<open>InvalidPath\<close> behind the caller's back.\<close>

theorem endpoints_guarded:
  "list_all (\<lambda>call. request_path_ok (fst call)) (endpoint_calls r typed i s e) \<and>
   length (endpoint_calls r typed i s e) = (if i = 0 then 0 else if e = 0 then 12 else 14)"
proof -
  note fetch_defs =
    fetch_movie_def fetch_movie_with_raw_def fetch_tv_def fetch_tv_with_raw_def
    fetch_season_def fetch_season_with_raw_def fetch_episode_def fetch_episode_with_raw_def
    fetch_images_with_raw_def fetch_videos_with_raw_def
    fetch_movie_images_def fetch_movie_images_with_raw_def
    fetch_tv_images_def fetch_tv_images_with_raw_def
    fetch_season_images_def fetch_season_images_with_raw_def
    fetch_episode_images_def fetch_episode_images_with_raw_def
    fetch_person_images_def fetch_person_images_with_raw_def
    fetch_company_images_def fetch_company_images_with_raw_def
    fetch_network_images_def fetch_network_images_with_raw_def
    fetch_collection_images_def fetch_collection_images_with_raw_def
    fetch_movie_videos_def fetch_movie_videos_with_raw_def
    fetch_tv_videos_def fetch_tv_videos_with_raw_def
    movie_path_def tv_path_def season_path_def episode_path_def
  show ?thesis
    using endpoint_paths_ok
    by (simp add: endpoint_calls_def fetch_defs log_fetch_def with_typed_def without_raw_def)
qed

text \<open>The query strings that the document store uses as keys are exactly the queries the
  client sends for details, image galleries and video galleries.\<close>

theorem stored_query_strings_match_requests:
  "document_query_string (detail_query movie_append) = movie_detail_query_string \<and>
   document_query_string (detail_query tv_append) = tv_detail_query_string \<and>
   document_query_string (detail_query season_append) = season_detail_query_string \<and>
   document_query_string (detail_query episode_append) = episode_detail_query_string \<and>
   document_query_string image_gallery_query = image_gallery_query_string \<and>
   document_query_string video_gallery_query = video_gallery_query_string"
  by (simp add: document_query_string_def detail_query_def movie_append_def tv_append_def
      season_append_def episode_append_def movie_detail_query_string_def
      tv_detail_query_string_def season_detail_query_string_def episode_detail_query_string_def
      image_gallery_query_def image_gallery_query_string_def video_gallery_query_def
      video_gallery_query_string_def)

text \<open>A change-feed request is sent exactly for a page from 1 and either no window or a
  window of both dates, in order, that covers at most fourteen calendar days; it is then one
  request with the page and the window as its query, and otherwise none.\<close>

lemma changes_window_requests:
  "snd (fetch_changes_window_with_raw (log_fetch r) typed fmt_date m page start_date end_date []) =
     (if page \<noteq> 0 \<and>
         (case (start_date, end_date) of
            (None, None) \<Rightarrow> True
          | (Some a, Some b) \<Rightarrow> a \<le> b \<and> b - a + 1 \<le> 14
          | _ \<Rightarrow> False)
      then [(changes_path m, changes_query fmt_date page (zip_option start_date end_date))]
      else [])"
  by (cases start_date; cases end_date)
     (auto simp: fetch_changes_window_with_raw_def log_fetch_def with_typed_def zip_option_def)

end
