(* ===== verification/Ingest_Payload.thy ===== *)
theory Ingest_Payload
  imports Job_Model
begin

text \<open>
  The durable payloads of the ingestion worker, first part of
  \<open>src/apps/tmdb-ingest/src/jobs.rs\<close>: \<open>parse_job\<close>, the deduplication keys, and the functions that
  build the jobs the worker itself submits. A date is a day number; URL parsing, SHA-256 and the
  rendering of dates and JSON are fields of \<open>ingest_lib\<close>.
\<close>

section \<open>Job names\<close>

definition refresh_movie_job :: string where "refresh_movie_job = ''ingest.refresh_movie''"
definition refresh_tv_job :: string where "refresh_tv_job = ''ingest.refresh_tv''"
definition enrich_movie_job :: string where "enrich_movie_job = ''ingest.enrich_movie''"
definition enrich_tv_job :: string where "enrich_tv_job = ''ingest.enrich_tv''"
definition refresh_season_job :: string where "refresh_season_job = ''ingest.refresh_season''"
definition changes_sync_job :: string where "changes_sync_job = ''ingest.changes_sync''"
definition daily_export_job :: string where "daily_export_job = ''ingest.daily_export''"
definition configuration_job :: string where "configuration_job = ''ingest.configuration''"
definition trending_refresh_job :: string where "trending_refresh_job = ''ingest.trending''"
definition admin_scan_type :: string where "admin_scan_type = ''admin.scan''"
definition admin_analyze_job :: string where "admin_analyze_job = ''admin.analyze''"
definition ingest_payload_version :: int where "ingest_payload_version = 1"

lemmas job_names = refresh_movie_job_def refresh_tv_job_def enrich_movie_job_def enrich_tv_job_def
  refresh_season_job_def changes_sync_job_def daily_export_job_def configuration_job_def
  trending_refresh_job_def admin_scan_type_def admin_analyze_job_def

definition ingest_job_types :: "string list" where
  "ingest_job_types =
     [refresh_movie_job, refresh_tv_job, enrich_movie_job, enrich_tv_job, refresh_season_job,
      changes_sync_job, daily_export_job, configuration_job, trending_refresh_job,
      admin_scan_type, admin_analyze_job]"

definition title_refresh_priority :: int where "title_refresh_priority = 200"
definition enrichment_priority :: int where "enrichment_priority = 50"
definition catalog_phase_coordinator_priority :: int where "catalog_phase_coordinator_priority = 150"
definition daily_export_coordinator_priority :: int where "daily_export_coordinator_priority = 300"
definition catalog_phase_poll_seconds :: int where "catalog_phase_poll_seconds = 2"

section \<open>Payload types\<close>

datatype refresh_scope = Full | CatalogOnly

datatype admin_scan_mode = FullSweep | MissingOnly | Recovery | PruneCleanup | DailySync | Reconcile

datatype admin_scan_phase = Start | Enrichment | Seasons | Completion

text \<open>The serde names (\<open>snake_case\<close>) and the names \<open>{:?}\<close> prints.\<close>

definition scope_text :: "refresh_scope \<Rightarrow> string" where
  "scope_text s = (case s of Full \<Rightarrow> ''full'' | CatalogOnly \<Rightarrow> ''catalog_only'')"

definition scan_mode_name :: "admin_scan_mode \<Rightarrow> string" where
  "scan_mode_name m =
     (case m of FullSweep \<Rightarrow> ''full_sweep'' | MissingOnly \<Rightarrow> ''missing_only'' | Recovery \<Rightarrow> ''recovery''
      | PruneCleanup \<Rightarrow> ''prune_cleanup'' | DailySync \<Rightarrow> ''daily_sync'' | Reconcile \<Rightarrow> ''reconcile'')"

definition phase_text :: "admin_scan_phase \<Rightarrow> string" where
  "phase_text p =
     (case p of Start \<Rightarrow> ''start'' | Enrichment \<Rightarrow> ''enrichment'' | Seasons \<Rightarrow> ''seasons''
      | Completion \<Rightarrow> ''completion'')"

definition mode_debug :: "admin_scan_mode \<Rightarrow> string" where
  "mode_debug m =
     (case m of FullSweep \<Rightarrow> ''FullSweep'' | MissingOnly \<Rightarrow> ''MissingOnly'' | Recovery \<Rightarrow> ''Recovery''
      | PruneCleanup \<Rightarrow> ''PruneCleanup'' | DailySync \<Rightarrow> ''DailySync'' | Reconcile \<Rightarrow> ''Reconcile'')"

definition phase_debug :: "admin_scan_phase \<Rightarrow> string" where
  "phase_debug p =
     (case p of Start \<Rightarrow> ''Start'' | Enrichment \<Rightarrow> ''Enrichment'' | Seasons \<Rightarrow> ''Seasons''
      | Completion \<Rightarrow> ''Completion'')"

definition media_debug :: "media_type list \<Rightarrow> string" where
  "media_debug ms =
     ''['' @ join_with '', '' (map (\<lambda>m. case m of Movie \<Rightarrow> ''Movie'' | Tv \<Rightarrow> ''Tv'') ms) @ '']''"

definition scope_of :: "string \<Rightarrow> refresh_scope option" where
  "scope_of s = find (\<lambda>x. scope_text x = s) [Full, CatalogOnly]"

definition mode_of :: "string \<Rightarrow> admin_scan_mode option" where
  "mode_of s = find (\<lambda>x. scan_mode_name x = s)
     [FullSweep, MissingOnly, Recovery, PruneCleanup, DailySync, Reconcile]"

definition phase_of :: "string \<Rightarrow> admin_scan_phase option" where
  "phase_of s = find (\<lambda>x. phase_text x = s) [Start, Enrichment, Seasons, Completion]"

lemma enum_round_trips [simp]:
  "scope_of (scope_text s) = Some s" "mode_of (scan_mode_name m) = Some m" "phase_of (phase_text p) = Some p"
  subgoal by (cases s) (simp_all add: scope_of_def scope_text_def)
  subgoal by (cases m) (simp_all add: mode_of_def scan_mode_name_def)
  subgoal by (cases p) (simp_all add: phase_of_def phase_text_def)
  done

datatype ingest_job =
    RefreshMovie nat refresh_scope
  | RefreshTv nat refresh_scope
  | EnrichMovie nat refresh_scope
  | EnrichTv nat refresh_scope
  | RefreshSeason nat nat
  | ChangesSync media_type nat "int option" "int option"
  | DailyExport media_type string nat bool
  | Configuration
  | Trending media_type string
  | AdminScan admin_scan_mode "media_type list" admin_scan_phase nat nat "int option" "int option"
  | AdminAnalyze

datatype job_payload_error = UnknownJobType | UnsupportedVersion | InvalidPayload | InvalidValue

record ingest_lib =
  parse_url :: "string \<Rightarrow> url option"
  sha256_hex :: "string \<Rightarrow> string"
  parse_date :: "string \<Rightarrow> int option"
  iso_date :: "int \<Rightarrow> string"
  mdy_date :: "int \<Rightarrow> string"
  json_text :: "json \<Rightarrow> string option"
  calendar_year :: "int \<Rightarrow> int"

section \<open>Deserialization\<close>

text \<open>A unit variant is its name, or an object with that one key and the value \<open>null\<close>.\<close>

fun variant_name :: "json \<Rightarrow> string option" where
  "variant_name (JStr s) = Some s"
| "variant_name (JObj [(k, JNull)]) = Some k"
| "variant_name _ = None"

definition de_variant :: "(string \<Rightarrow> 'a option) \<Rightarrow> json \<Rightarrow> 'a option" where
  "de_variant of_text v = Option.bind (variant_name v) of_text"

definition de_u32 :: "json \<Rightarrow> nat option" where
  "de_u32 v = (case as_u64 v of None \<Rightarrow> None | Some n \<Rightarrow> if n \<le> u32_max then Some n else None)"

fun de_bool :: "json \<Rightarrow> bool option" where
  "de_bool (JBool b) = Some b"
| "de_bool _ = None"

fun de_list :: "(json \<Rightarrow> 'a option) \<Rightarrow> json list \<Rightarrow> 'a list option" where
  "de_list d [] = Some []"
| "de_list d (x # xs) =
     (case d x of None \<Rightarrow> None | Some y \<Rightarrow> map_option (\<lambda>ys. y # ys) (de_list d xs))"

definition de_array :: "(json \<Rightarrow> 'a option) \<Rightarrow> json \<Rightarrow> 'a list option" where
  "de_array d v = Option.bind (as_array v) (de_list d)"

definition de_option :: "(json \<Rightarrow> 'a option) \<Rightarrow> json \<Rightarrow> 'a option option" where
  "de_option d v = (if v = JNull then Some None else map_option Some (d v))"

definition de_date :: "ingest_lib \<Rightarrow> json \<Rightarrow> int option" where
  "de_date lib v = Option.bind (as_str v) (parse_date lib)"

text \<open>A field of a struct; \<open>#[serde(default)]\<close> gives its value when it is absent.\<close>

definition req_field :: "json \<Rightarrow> string \<Rightarrow> (json \<Rightarrow> 'a option) \<Rightarrow> job_payload_error + 'a" where
  "req_field v k d = ok_or InvalidPayload (Option.bind (json_get v k) d)"

definition default_field :: "json \<Rightarrow> string \<Rightarrow> (json \<Rightarrow> 'a option) \<Rightarrow> 'a \<Rightarrow> job_payload_error + 'a" where
  "default_field v k d dflt =
     (case json_get v k of None \<Rightarrow> Inr dflt | Some x \<Rightarrow> ok_or InvalidPayload (d x))"

text \<open>\<open>parse_payload\<close> for a struct with these fields (\<open>deny_unknown_fields\<close>).\<close>

definition known_fields :: "string list \<Rightarrow> json \<Rightarrow> bool" where
  "known_fields ks v = (case v of JObj kvs \<Rightarrow> list_all (\<lambda>(k, _). k \<in> set ks) kvs | _ \<Rightarrow> False)"

definition parse_payload ::
    "string list \<Rightarrow> (json \<Rightarrow> job_payload_error + 'a) \<Rightarrow> json \<Rightarrow> job_payload_error + 'a" where
  "parse_payload ks build v =
     (if \<not> is_object v then Inl InvalidPayload
      else if \<not> known_fields ks v then Inl InvalidPayload
      else build v)"

definition de_refresh_payload :: "json \<Rightarrow> job_payload_error + nat \<times> refresh_scope" where
  "de_refresh_payload v =
     bindR (req_field v ''tmdb_id'' de_u32) (\<lambda>i.
     bindR (default_field v ''scope'' (de_variant scope_of) Full) (\<lambda>s. Inr (i, s)))"

definition de_season_payload :: "json \<Rightarrow> job_payload_error + nat \<times> nat" where
  "de_season_payload v =
     bindR (req_field v ''tv_id'' de_u32) (\<lambda>i.
     bindR (req_field v ''season_number'' de_u32) (\<lambda>n. Inr (i, n)))"

record changes_payload =
  ch_media :: media_type
  ch_page :: nat
  ch_start :: "int option"
  ch_end :: "int option"

definition de_changes_payload :: "ingest_lib \<Rightarrow> json \<Rightarrow> job_payload_error + changes_payload" where
  "de_changes_payload lib v =
     bindR (req_field v ''media_type'' (de_variant media_type_from_str)) (\<lambda>m.
     bindR (req_field v ''page'' de_u32) (\<lambda>p.
     bindR (default_field v ''start_date'' (de_option (de_date lib)) None) (\<lambda>a.
     bindR (default_field v ''end_date'' (de_option (de_date lib)) None) (\<lambda>b.
     Inr \<lparr>ch_media = m, ch_page = p, ch_start = a, ch_end = b\<rparr>))))"

record export_payload =
  ex_media :: media_type
  ex_url :: string
  ex_offset :: nat
  ex_refresh_all :: bool

definition de_export_payload :: "json \<Rightarrow> job_payload_error + export_payload" where
  "de_export_payload v =
     bindR (req_field v ''media_type'' (de_variant media_type_from_str)) (\<lambda>m.
     bindR (req_field v ''url'' as_str) (\<lambda>u.
     bindR (default_field v ''offset'' as_u64 0) (\<lambda>off.
     bindR (default_field v ''refresh_all'' de_bool False) (\<lambda>r.
     Inr \<lparr>ex_media = m, ex_url = u, ex_offset = off, ex_refresh_all = r\<rparr>))))"

definition de_trending_payload :: "json \<Rightarrow> job_payload_error + media_type \<times> string" where
  "de_trending_payload v =
     bindR (req_field v ''media_type'' (de_variant media_type_from_str)) (\<lambda>m.
     bindR (req_field v ''trend_window'' as_str) (\<lambda>w. Inr (m, w)))"

record scan_payload =
  sp_mode :: admin_scan_mode
  sp_media :: "media_type list"
  sp_phase :: admin_scan_phase
  sp_cursor :: nat
  sp_poll :: nat
  sp_start :: "int option"
  sp_end :: "int option"

definition de_scan_payload :: "ingest_lib \<Rightarrow> json \<Rightarrow> job_payload_error + scan_payload" where
  "de_scan_payload lib v =
     bindR (req_field v ''mode'' (de_variant mode_of)) (\<lambda>m.
     bindR (req_field v ''mediaTypes'' (de_array (de_variant media_type_from_str))) (\<lambda>ms.
     bindR (default_field v ''phase'' (de_variant phase_of) Start) (\<lambda>p.
     bindR (default_field v ''cursor'' as_u64 0) (\<lambda>c.
     bindR (default_field v ''poll'' de_u32 0) (\<lambda>n.
     bindR (default_field v ''windowStart'' (de_option (de_date lib)) None) (\<lambda>a.
     bindR (default_field v ''windowEnd'' (de_option (de_date lib)) None) (\<lambda>b.
     Inr \<lparr>sp_mode = m, sp_media = ms, sp_phase = p, sp_cursor = c, sp_poll = n, sp_start = a,
          sp_end = b\<rparr>)))))))"

section \<open>Validation of values\<close>

definition validate_tmdb_id :: "nat \<Rightarrow> job_payload_error + unit" where
  "validate_tmdb_id i = guardR (0 < i) InvalidValue"

definition validate_export_url :: "ingest_lib \<Rightarrow> string \<Rightarrow> job_payload_error + unit" where
  "validate_export_url lib s =
     (case parse_url lib s of
        None \<Rightarrow> Inl InvalidValue
      | Some u \<Rightarrow>
          if url_scheme u \<notin> {''http'', ''https''} \<or> url_host u = None \<or> url_username u \<noteq> '''' \<or>
             url_password u \<noteq> None \<or> url_query u \<noteq> None \<or> url_fragment u \<noteq> None \<or>
             url_host u \<noteq> Some ''files.tmdb.org''
          then Inl InvalidValue else Inr ())"

text \<open>A window is absent, or an ordered pair of dates at most 13 days apart.\<close>

definition window_rejected :: "int option \<Rightarrow> int option \<Rightarrow> bool" where
  "window_rejected a b \<longleftrightarrow>
     ((a \<noteq> None) \<noteq> (b \<noteq> None)) \<or>
     (case (a, b) of (Some s, Some e) \<Rightarrow> s > e \<or> e - s > 13 | _ \<Rightarrow> False)"

fun has_equal_neighbours :: "'a list \<Rightarrow> bool" where
  "has_equal_neighbours (x # y # zs) \<longleftrightarrow> x = y \<or> has_equal_neighbours (y # zs)"
| "has_equal_neighbours _ \<longleftrightarrow> False"

definition scan_rejected :: "scan_payload \<Rightarrow> bool" where
  "scan_rejected p \<longleftrightarrow>
     sp_media p = [] \<or> length (sp_media p) > 2 \<or> sp_cursor p > i64_max \<or>
     (sp_phase p \<in> {Enrichment, Seasons} \<and> sp_mode p \<notin> {FullSweep, Recovery, Reconcile, MissingOnly}) \<or>
     (sp_phase p \<in> {Enrichment, Seasons} \<and> length (sp_media p) \<noteq> 1) \<or>
     (sp_phase p = Completion \<and>
        sp_mode p \<notin> {FullSweep, Recovery, Reconcile, DailySync, MissingOnly}) \<or>
     (sp_phase p = Start \<and> sp_poll p \<noteq> 0) \<or>
     (sp_phase p = Start \<and> sp_mode p \<noteq> MissingOnly \<and> sp_cursor p \<noteq> 0) \<or>
     (sp_mode p \<noteq> DailySync \<and> (sp_start p \<noteq> None \<or> sp_end p \<noteq> None)) \<or>
     window_rejected (sp_start p) (sp_end p) \<or>
     has_equal_neighbours (sp_media p)"

section \<open>Parsing a job\<close>

definition parse_refresh ::
    "(nat \<Rightarrow> refresh_scope \<Rightarrow> ingest_job) \<Rightarrow> json \<Rightarrow> job_payload_error + ingest_job" where
  "parse_refresh con v =
     bindR (parse_payload [''tmdb_id'', ''scope''] de_refresh_payload v) (\<lambda>(i, s).
     bindR (validate_tmdb_id i) (\<lambda>_. Inr (con i s)))"

definition parse_job :: "ingest_lib \<Rightarrow> string \<Rightarrow> int \<Rightarrow> json \<Rightarrow> job_payload_error + ingest_job" where
  "parse_job lib ty version v =
     (if version \<noteq> ingest_payload_version then Inl UnsupportedVersion
      else if ty = refresh_movie_job then parse_refresh RefreshMovie v
      else if ty = refresh_tv_job then parse_refresh RefreshTv v
      else if ty = enrich_movie_job then parse_refresh EnrichMovie v
      else if ty = enrich_tv_job then parse_refresh EnrichTv v
      else if ty = refresh_season_job then
        bindR (parse_payload [''tv_id'', ''season_number''] de_season_payload v) (\<lambda>(i, n).
        bindR (validate_tmdb_id i) (\<lambda>_. Inr (RefreshSeason i n)))
      else if ty = changes_sync_job then
        bindR (parse_payload [''media_type'', ''page'', ''start_date'', ''end_date'']
          (de_changes_payload lib) v) (\<lambda>p.
        if ch_page p = 0 \<or> window_rejected (ch_start p) (ch_end p) then Inl InvalidValue
        else Inr (ChangesSync (ch_media p) (ch_page p) (ch_start p) (ch_end p)))
      else if ty = daily_export_job then
        bindR (parse_payload [''media_type'', ''url'', ''offset'', ''refresh_all''] de_export_payload v) (\<lambda>p.
        bindR (validate_export_url lib (ex_url p)) (\<lambda>_.
        Inr (DailyExport (ex_media p) (ex_url p) (ex_offset p) (ex_refresh_all p))))
      else if ty = configuration_job \<and> v = JObj [] then Inr Configuration
      else if ty = trending_refresh_job then
        bindR (parse_payload [''media_type'', ''trend_window''] de_trending_payload v) (\<lambda>(m, w).
        if w \<notin> {''day'', ''week''} then Inl InvalidValue else Inr (Trending m w))
      else if ty = admin_scan_type then
        bindR (parse_payload [''mode'', ''mediaTypes'', ''phase'', ''cursor'', ''poll'', ''windowStart'',
          ''windowEnd''] (de_scan_payload lib) v) (\<lambda>p.
        if scan_rejected p then Inl InvalidValue
        else Inr (AdminScan (sp_mode p) (sp_media p) (sp_phase p) (sp_cursor p) (sp_poll p)
               (sp_start p) (sp_end p)))
      else if ty = admin_analyze_job \<and> v = JObj [] then Inr AdminAnalyze
      else if ty \<in> {configuration_job, admin_analyze_job} then Inl InvalidPayload
      else Inl UnknownJobType)"

section \<open>Deduplication keys\<close>

definition date_debug :: "ingest_lib \<Rightarrow> int option \<Rightarrow> string" where
  "date_debug lib d = (case d of None \<Rightarrow> ''None'' | Some x \<Rightarrow> ''Some('' @ iso_date lib x @ '')'')"

abbreviation colon :: char where "colon \<equiv> CHR '':''"

definition dedup_key :: "ingest_lib \<Rightarrow> ingest_job \<Rightarrow> string" where
  "dedup_key lib job =
     (case job of
        RefreshMovie i _ \<Rightarrow> refresh_movie_job @ '':'' @ dec i
      | RefreshTv i _ \<Rightarrow> refresh_tv_job @ '':'' @ dec i
      | EnrichMovie i _ \<Rightarrow> enrich_movie_job @ '':'' @ dec i
      | EnrichTv i _ \<Rightarrow> enrich_tv_job @ '':'' @ dec i
      | RefreshSeason i n \<Rightarrow> refresh_season_job @ '':'' @ dec i @ '':'' @ dec n
      | ChangesSync m p a b \<Rightarrow>
          changes_sync_job @ '':'' @ media_type_as_str m @ '':'' @ date_debug lib a @ '':'' @
          date_debug lib b @ '':'' @ dec p
      | DailyExport m u off _ \<Rightarrow>
          daily_export_job @ '':'' @ media_type_as_str m @ '':'' @ sha256_hex lib u @ '':'' @ dec off
      | Configuration \<Rightarrow> configuration_job
      | Trending m w \<Rightarrow> trending_refresh_job @ '':'' @ media_type_as_str m @ '':'' @ w
      | AdminScan m ms p c n a b \<Rightarrow>
          admin_scan_type @ '':'' @ mode_debug m @ '':'' @ media_debug ms @ '':'' @ phase_debug p @ '':'' @
          dec c @ '':'' @ dec n @ '':'' @ date_debug lib a @ '':'' @ date_debug lib b
      | AdminAnalyze \<Rightarrow> admin_analyze_job)"

definition export_dedup_key :: "ingest_lib \<Rightarrow> media_type \<Rightarrow> string \<Rightarrow> nat \<Rightarrow> bool \<Rightarrow> string" where
  "export_dedup_key lib m u off refresh_all =
     (if refresh_all
      then daily_export_job @ '':'' @ media_type_as_str m @ '':'' @ sha256_hex lib u @ '':'' @ dec off
      else daily_export_job @ '':recovery:'' @ media_type_as_str m @ '':'' @ sha256_hex lib u @ '':'' @ dec off)"

section \<open>Jobs the worker submits\<close>

abbreviation invalid_payload :: job_execution_error where
  "invalid_payload \<equiv> job_dead_letter ''invalid_payload''"

definition validate_refresh_tmdb_id :: "nat \<Rightarrow> job_execution_error + nat" where
  "validate_refresh_tmdb_id i = (if i \<le> u32_max \<and> 0 < i then Inr i else Inl invalid_payload)"

text \<open>\<open>NewJob::new(..).and_then(..).map_err(|_| dead_letter("invalid_payload"))\<close>.\<close>

definition build_job ::
    "ingest_lib \<Rightarrow> string \<Rightarrow> json \<Rightarrow> string \<Rightarrow> (new_job \<Rightarrow> validation_error + new_job) \<Rightarrow>
     job_execution_error + new_job" where
  "build_job lib ty payload key finish =
     map_errR (\<lambda>_. invalid_payload)
       (bindR (new_job_new (json_text lib) ty ingest_payload_version payload key) finish)"

definition refresh_job_type :: "media_type \<Rightarrow> string" where
  "refresh_job_type m = (case m of Movie \<Rightarrow> refresh_movie_job | Tv \<Rightarrow> refresh_tv_job)"

definition refresh_job ::
    "ingest_lib \<Rightarrow> media_type \<Rightarrow> nat \<Rightarrow> int \<Rightarrow> refresh_scope \<Rightarrow> job_execution_error + new_job" where
  "refresh_job lib m i priority scope =
     bindR (validate_refresh_tmdb_id i) (\<lambda>i.
       let ty = refresh_job_type m
       in build_job lib ty (JObj [(''tmdb_id'', JInt (int i)), (''scope'', JStr (scope_text scope))])
            (ty @ '':'' @ dec i) (\<lambda>j. with_priority j priority))"

definition export_job ::
    "ingest_lib \<Rightarrow> media_type \<Rightarrow> int \<Rightarrow> bool \<Rightarrow> job_execution_error + new_job" where
  "export_job lib m d refresh_all =
     (let file_prefix = (case m of Movie \<Rightarrow> ''movie_ids'' | Tv \<Rightarrow> ''tv_series_ids'');
          date_text = mdy_date lib d;
          key = (if refresh_all
                 then daily_export_job @ '':'' @ media_type_as_str m @ '':'' @ date_text @ '':0''
                 else daily_export_job @ '':recovery:'' @ media_type_as_str m @ '':'' @ date_text @ '':0'')
      in build_job lib daily_export_job
           (JObj [(''media_type'', JStr (media_type_as_str m)),
                  (''url'', JStr (''https://files.tmdb.org/p/exports/'' @ file_prefix @ ''_'' @ date_text @ ''.json.gz'')),
                  (''offset'', JInt 0), (''refresh_all'', JBool refresh_all)])
           key
           (\<lambda>j. bindR (with_max_attempts j 100) (\<lambda>j. with_priority j daily_export_coordinator_priority)))"

definition export_continuation ::
    "ingest_lib \<Rightarrow> int \<Rightarrow> media_type \<Rightarrow> string \<Rightarrow> nat \<Rightarrow> bool \<Rightarrow> job_execution_error + new_job" where
  "export_continuation lib now m u off refresh_all =
     build_job lib daily_export_job
       (JObj [(''media_type'', JStr (media_type_as_str m)), (''url'', JStr u), (''offset'', JInt (int off)),
              (''refresh_all'', JBool refresh_all)])
       (export_dedup_key lib m u off refresh_all)
       (\<lambda>j. bindR (with_max_attempts j 100) (\<lambda>j.
            bindR (with_priority j daily_export_coordinator_priority) (\<lambda>j.
            with_available_at (calendar_year lib) j (now + 1000000))))"

definition date_json :: "ingest_lib \<Rightarrow> int option \<Rightarrow> json" where
  "date_json lib d = (case d of None \<Rightarrow> JNull | Some x \<Rightarrow> JStr (iso_date lib x))"

definition admin_scan_job_with_window ::
    "ingest_lib \<Rightarrow> int \<Rightarrow> admin_scan_mode \<Rightarrow> media_type list \<Rightarrow> admin_scan_phase \<Rightarrow> nat \<Rightarrow> nat \<Rightarrow>
     int option \<Rightarrow> int option \<Rightarrow> job_execution_error + new_job" where
  "admin_scan_job_with_window lib now mode ms phase cursor poll a b =
     build_job lib admin_scan_type
       (JObj [(''mode'', JStr (scan_mode_name mode)),
              (''mediaTypes'', JArr (map (\<lambda>m. JStr (media_type_as_str m)) ms)),
              (''phase'', JStr (phase_text phase)), (''cursor'', JInt (int cursor)),
              (''poll'', JInt (int poll)), (''windowStart'', date_json lib a),
              (''windowEnd'', date_json lib b)])
       (dedup_key lib (AdminScan mode ms phase cursor poll a b))
       (\<lambda>j. bindR (with_max_attempts j 100) (\<lambda>j.
            bindR (with_priority j catalog_phase_coordinator_priority) (\<lambda>j.
            with_available_at (calendar_year lib) j (now + catalog_phase_poll_seconds * 1000000))))"

definition admin_scan_job ::
    "ingest_lib \<Rightarrow> int \<Rightarrow> admin_scan_mode \<Rightarrow> media_type list \<Rightarrow> admin_scan_phase \<Rightarrow> nat \<Rightarrow> nat \<Rightarrow>
     job_execution_error + new_job" where
  "admin_scan_job lib now mode ms phase cursor poll =
     admin_scan_job_with_window lib now mode ms phase cursor poll None None"

definition configuration_refresh_job :: "ingest_lib \<Rightarrow> job_execution_error + new_job" where
  "configuration_refresh_job lib = build_job lib configuration_job (JObj []) configuration_job Inr"

definition trending_job :: "ingest_lib \<Rightarrow> media_type \<Rightarrow> string \<Rightarrow> job_execution_error + new_job" where
  "trending_job lib m window =
     build_job lib trending_refresh_job
       (JObj [(''media_type'', JStr (media_type_as_str m)), (''trend_window'', JStr window)])
       (trending_refresh_job @ '':'' @ media_type_as_str m @ '':'' @ window) Inr"

text \<open>The first page of a changes window; its key prints the dates plainly, unlike \<open>dedup_key\<close>.\<close>

definition changes_start_job :: "ingest_lib \<Rightarrow> media_type \<Rightarrow> int \<Rightarrow> int \<Rightarrow> job_execution_error + new_job" where
  "changes_start_job lib m a b =
     build_job lib changes_sync_job
       (JObj [(''media_type'', JStr (media_type_as_str m)), (''page'', JInt 1),
              (''start_date'', date_json lib (Some a)), (''end_date'', date_json lib (Some b))])
       (changes_sync_job @ '':'' @ media_type_as_str m @ '':'' @ iso_date lib a @ '':'' @ iso_date lib b @ '':1'') Inr"

definition changes_next_job ::
    "ingest_lib \<Rightarrow> media_type \<Rightarrow> nat \<Rightarrow> int option \<Rightarrow> int option \<Rightarrow> job_execution_error + new_job" where
  "changes_next_job lib m page a b =
     build_job lib changes_sync_job
       (JObj [(''media_type'', JStr (media_type_as_str m)), (''page'', JInt (int page)),
              (''start_date'', date_json lib a), (''end_date'', date_json lib b)])
       (changes_sync_job @ '':'' @ media_type_as_str m @ '':'' @ date_debug lib a @ '':'' @ date_debug lib b @
        '':'' @ dec page)
       (\<lambda>j. with_max_attempts j 100)"

text \<open>The jobs of the catalog batches, from the signed columns of a row.\<close>

definition row_u32 :: "int \<Rightarrow> job_execution_error + nat" where
  "row_u32 i = (if 0 \<le> i \<and> i \<le> int u32_max then Inr (nat i) else Inl invalid_payload)"

definition enrichment_job :: "ingest_lib \<Rightarrow> media_type \<Rightarrow> int \<Rightarrow> job_execution_error + new_job" where
  "enrichment_job lib m tmdb_id =
     bindR (row_u32 tmdb_id) (\<lambda>i.
       let ty = (case m of Movie \<Rightarrow> enrich_movie_job | Tv \<Rightarrow> enrich_tv_job)
       in build_job lib ty
            (JObj [(''tmdb_id'', JInt (int i)), (''scope'', JStr (scope_text CatalogOnly))])
            (ty @ '':'' @ dec i)
            (\<lambda>j. bindR (with_priority j enrichment_priority) (\<lambda>j. with_max_attempts j 8)))"

definition missing_refresh_job :: "ingest_lib \<Rightarrow> string \<Rightarrow> int \<Rightarrow> job_execution_error + new_job" where
  "missing_refresh_job lib media tmdb_id =
     bindR (row_u32 tmdb_id) (\<lambda>i.
       case media_type_from_str media of
         None \<Rightarrow> Inl invalid_payload
       | Some m \<Rightarrow>
           build_job lib (refresh_job_type m) (JObj [(''tmdb_id'', JInt (int i))])
             (refresh_job_type m @ '':'' @ dec i) Inr)"

definition season_job :: "ingest_lib \<Rightarrow> int \<Rightarrow> int \<Rightarrow> job_execution_error + new_job" where
  "season_job lib tmdb_id season =
     bindR (row_u32 tmdb_id) (\<lambda>i.
     bindR (row_u32 season) (\<lambda>n.
       build_job lib refresh_season_job
         (JObj [(''tv_id'', JInt (int i)), (''season_number'', JInt (int n)),
                (''scope'', JStr (scope_text CatalogOnly))])
         (refresh_season_job @ '':'' @ dec i @ '':'' @ dec n) Inr))"

lemma build_job_payload:
  assumes "build_job lib ty payload key finish = Inr j"
    and "\<And>j j'. finish j = Inr j' \<Longrightarrow> nj_type j' = nj_type j \<and> nj_version j' = nj_version j \<and>
      nj_payload j' = nj_payload j \<and> nj_dedup_key j' = nj_dedup_key j"
  shows "nj_type j = ty \<and> nj_version j = ingest_payload_version \<and> nj_payload j = payload \<and>
    nj_dedup_key j = key"
  using assms(1) by (auto simp: build_job_def new_job_new_def result_simps dest!: assms(2) split: if_splits)

lemma with_fields:
  "with_priority j p = Inr j' \<Longrightarrow> nj_type j' = nj_type j \<and> nj_version j' = nj_version j \<and>
     nj_payload j' = nj_payload j \<and> nj_dedup_key j' = nj_dedup_key j"
  "with_max_attempts j n = Inr j' \<Longrightarrow> nj_type j' = nj_type j \<and> nj_version j' = nj_version j \<and>
     nj_payload j' = nj_payload j \<and> nj_dedup_key j' = nj_dedup_key j"
  "with_available_at y j t = Inr j' \<Longrightarrow> nj_type j' = nj_type j \<and> nj_version j' = nj_version j \<and>
     nj_payload j' = nj_payload j \<and> nj_dedup_key j' = nj_dedup_key j"
  by (auto simp: with_priority_def with_max_attempts_def with_available_at_def split: if_splits)

section \<open>What an accepted payload guarantees\<close>

definition window_ok :: "int option \<Rightarrow> int option \<Rightarrow> bool" where
  "window_ok a b \<longleftrightarrow> (case (a, b) of (None, None) \<Rightarrow> True | (Some s, Some e) \<Rightarrow> s \<le> e \<and> e \<le> s + 13 | _ \<Rightarrow> False)"

lemma window_rejected_iff: "window_rejected a b \<longleftrightarrow> \<not> window_ok a b"
  by (auto simp: window_rejected_def window_ok_def split: option.splits)

definition export_url_ok :: "ingest_lib \<Rightarrow> string \<Rightarrow> bool" where
  "export_url_ok lib s \<longleftrightarrow>
     (case parse_url lib s of None \<Rightarrow> False
      | Some u \<Rightarrow> url_scheme u \<in> {''http'', ''https''} \<and> url_host u = Some ''files.tmdb.org'' \<and>
          url_username u = '''' \<and> url_password u = None \<and> url_query u = None \<and> url_fragment u = None)"

lemma validate_export_url_ok: "validate_export_url lib s = Inr u \<longleftrightarrow> export_url_ok lib s"
  by (auto simp: validate_export_url_def export_url_ok_def split: option.splits if_splits)

definition phases_of :: "admin_scan_mode \<Rightarrow> admin_scan_phase set" where
  "phases_of m =
     (case m of PruneCleanup \<Rightarrow> {Start} | DailySync \<Rightarrow> {Start, Completion}
      | _ \<Rightarrow> {Start, Enrichment, Seasons, Completion})"

fun wf_ingest :: "ingest_lib \<Rightarrow> ingest_job \<Rightarrow> bool" where
  "wf_ingest lib (RefreshMovie i s) \<longleftrightarrow> 0 < i \<and> i \<le> u32_max"
| "wf_ingest lib (RefreshTv i s) \<longleftrightarrow> 0 < i \<and> i \<le> u32_max"
| "wf_ingest lib (EnrichMovie i s) \<longleftrightarrow> 0 < i \<and> i \<le> u32_max"
| "wf_ingest lib (EnrichTv i s) \<longleftrightarrow> 0 < i \<and> i \<le> u32_max"
| "wf_ingest lib (RefreshSeason i n) \<longleftrightarrow> 0 < i \<and> i \<le> u32_max \<and> n \<le> u32_max"
| "wf_ingest lib (ChangesSync m p a b) \<longleftrightarrow> 0 < p \<and> p \<le> u32_max \<and> window_ok a b"
| "wf_ingest lib (DailyExport m u off r) \<longleftrightarrow> export_url_ok lib u \<and> off \<le> u64_max"
| "wf_ingest lib Configuration \<longleftrightarrow> True"
| "wf_ingest lib (Trending m w) \<longleftrightarrow> w = ''day'' \<or> w = ''week''"
| "wf_ingest lib (AdminScan m ms p c n a b) \<longleftrightarrow>
     ms \<in> {[Movie], [Tv], [Movie, Tv], [Tv, Movie]} \<and> c \<le> i64_max \<and> n \<le> u32_max \<and>
     p \<in> phases_of m \<and> (p \<in> {Enrichment, Seasons} \<longrightarrow> length ms = 1) \<and>
     (p = Start \<longrightarrow> n = 0 \<and> (m = MissingOnly \<or> c = 0)) \<and>
     window_ok a b \<and> (m \<noteq> DailySync \<longrightarrow> a = None)"
| "wf_ingest lib AdminAnalyze \<longleftrightarrow> True"

lemma de_u32_bound: "de_u32 v = Some n \<Longrightarrow> n \<le> u32_max"
  by (auto simp: de_u32_def split: option.splits if_splits)

lemma req_field_Inr: "req_field v k d = Inr x \<longleftrightarrow> Option.bind (json_get v k) d = Some x"
  by (simp add: req_field_def result_simps)

lemma as_u64_bound: "as_u64 v = Some n \<Longrightarrow> n \<le> u64_max"
  by (cases v) (auto split: if_splits)

lemma default_field_bound:
  "default_field v k d x = Inr y \<Longrightarrow> P x \<Longrightarrow> (\<And>v y. d v = Some y \<Longrightarrow> P y) \<Longrightarrow> P y"
  by (auto simp: default_field_def result_simps split: option.splits)

lemma req_field_bound:
  "req_field v k d = Inr y \<Longrightarrow> (\<And>v y. d v = Some y \<Longrightarrow> P y) \<Longrightarrow> P y"
  by (auto simp: req_field_Inr bind_eq_Some_conv)

lemma req_field_u32: "req_field v k de_u32 = Inr y \<Longrightarrow> y \<le> u32_max"
  by (rule req_field_bound) (auto dest: de_u32_bound)

lemma default_field_u32: "default_field v k de_u32 0 = Inr y \<Longrightarrow> y \<le> u32_max"
  by (erule default_field_bound) (auto dest: de_u32_bound)

lemma parse_payload_Inr: "parse_payload ks b v = Inr x \<longleftrightarrow> is_object v \<and> known_fields ks v \<and> b v = Inr x"
  by (simp add: parse_payload_def)

lemma media_lists:
  assumes "ms \<noteq> []" "length ms \<le> 2" "\<not> has_equal_neighbours ms"
  shows "ms \<in> {[Movie], [Tv], [Movie, Tv], [Tv, Movie]}"
proof -
  obtain x xs where x: "ms = x # xs" using assms(1) by (cases ms) auto
  then show ?thesis
    using assms(2,3) by (cases xs; cases x) (auto, (metis media_type.exhaust)+)
qed

lemma scan_accepted_wf:
  assumes "\<not> scan_rejected p" "sp_poll p \<le> u32_max"
  shows "wf_ingest lib (AdminScan (sp_mode p) (sp_media p) (sp_phase p) (sp_cursor p) (sp_poll p)
     (sp_start p) (sp_end p))"
proof -
  have "sp_media p \<in> {[Movie], [Tv], [Movie, Tv], [Tv, Movie]}"
    using assms(1) by (intro media_lists) (auto simp: scan_rejected_def)
  moreover have "sp_phase p \<in> phases_of (sp_mode p)"
    using assms(1) by (cases "sp_mode p"; cases "sp_phase p") (simp_all add: scan_rejected_def phases_of_def)
  ultimately show ?thesis
    using assms by (simp add: scan_rejected_def window_rejected_iff) fastforce
qed

lemma parse_refresh_wf:
  assumes "parse_refresh con v = Inr job"
  shows "\<exists>i s. job = con i s \<and> 0 < i \<and> i \<le> u32_max"
proof -
  obtain i s where p: "req_field v ''tmdb_id'' de_u32 = Inr i" "0 < i" "job = con i s"
    using assms by (auto simp: parse_refresh_def de_refresh_payload_def parse_payload_Inr
        validate_tmdb_id_def result_simps split: prod.splits)
  from req_field_u32 [OF p(1)] p(2,3) show ?thesis by blast
qed

lemma parse_scan_wf:
  assumes "de_scan_payload lib v = Inr p"
  shows "sp_poll p \<le> u32_max"
  using assms by (auto simp: de_scan_payload_def result_simps dest!: default_field_u32)

lemma parse_changes_wf:
  assumes "de_changes_payload lib v = Inr p"
  shows "ch_page p \<le> u32_max"
  using assms by (auto simp: de_changes_payload_def result_simps dest!: req_field_u32)

lemma parse_export_wf:
  assumes "de_export_payload v = Inr p"
  shows "ex_offset p \<le> u64_max"
proof -
  have "default_field v ''offset'' as_u64 0 = Inr (ex_offset p)"
    using assms by (auto simp: de_export_payload_def result_simps)
  then show ?thesis by (rule default_field_bound) (auto dest: as_u64_bound)
qed

lemma parse_season_wf:
  assumes "de_season_payload v = Inr (i, n)"
  shows "i \<le> u32_max \<and> n \<le> u32_max"
  using assms by (auto simp: de_season_payload_def result_simps dest!: req_field_u32)

text \<open>The type names are pairwise different, so the type of a job decides how it is parsed.\<close>

definition job_type_of :: "ingest_job \<Rightarrow> string" where
  "job_type_of job =
     (case job of RefreshMovie _ _ \<Rightarrow> refresh_movie_job | RefreshTv _ _ \<Rightarrow> refresh_tv_job
      | EnrichMovie _ _ \<Rightarrow> enrich_movie_job | EnrichTv _ _ \<Rightarrow> enrich_tv_job
      | RefreshSeason _ _ \<Rightarrow> refresh_season_job | ChangesSync _ _ _ _ \<Rightarrow> changes_sync_job
      | DailyExport _ _ _ _ \<Rightarrow> daily_export_job | Configuration \<Rightarrow> configuration_job
      | Trending _ _ \<Rightarrow> trending_refresh_job | AdminScan _ _ _ _ _ _ _ \<Rightarrow> admin_scan_type
      | AdminAnalyze \<Rightarrow> admin_analyze_job)"

lemma parse_job_cases:
  assumes "parse_job lib ty version v = Inr job"
  shows "version = 1 \<and> ty = job_type_of job \<and> wf_ingest lib job"
proof (cases "ty \<in> {refresh_movie_job, refresh_tv_job, enrich_movie_job, enrich_tv_job}")
  case True
  then show ?thesis
    using assms
    by (auto simp: parse_job_def ingest_payload_version_def job_type_of_def dest!: parse_refresh_wf split: if_splits)
next
  case False
  then show ?thesis
    using assms
    by (auto simp: parse_job_def ingest_payload_version_def job_type_of_def parse_payload_Inr
        validate_tmdb_id_def validate_export_url_ok window_rejected_iff result_simps
        simp del: wf_ingest.simps(10)
        dest: parse_season_wf parse_changes_wf parse_export_wf
        intro: scan_accepted_wf parse_scan_wf split: if_splits prod.splits)
qed

section \<open>Children parse back\<close>

text \<open>The jobs the worker submits to itself, and the work each stands for.\<close>

datatype child =
    Child_refresh media_type nat int refresh_scope
  | Child_missing string int
  | Child_enrichment media_type int
  | Child_export media_type int bool
  | Child_continuation media_type string nat bool
  | Child_scan admin_scan_mode "media_type list" admin_scan_phase nat nat "int option" "int option"
  | Child_configuration
  | Child_trending media_type string
  | Child_changes media_type int int
  | Child_next_changes media_type nat "int option" "int option"

definition child_job :: "ingest_lib \<Rightarrow> int \<Rightarrow> child \<Rightarrow> job_execution_error + new_job" where
  "child_job lib now c =
     (case c of
        Child_refresh m i p s \<Rightarrow> refresh_job lib m i p s
      | Child_missing m i \<Rightarrow> missing_refresh_job lib m i
      | Child_enrichment m i \<Rightarrow> enrichment_job lib m i
      | Child_export m d r \<Rightarrow> export_job lib m d r
      | Child_continuation m u off r \<Rightarrow> export_continuation lib now m u off r
      | Child_scan m ms p c n a b \<Rightarrow> admin_scan_job_with_window lib now m ms p c n a b
      | Child_configuration \<Rightarrow> configuration_refresh_job lib
      | Child_trending m w \<Rightarrow> trending_job lib m w
      | Child_changes m a b \<Rightarrow> changes_start_job lib m a b
      | Child_next_changes m p a b \<Rightarrow> changes_next_job lib m p a b)"

definition export_url :: "ingest_lib \<Rightarrow> media_type \<Rightarrow> int \<Rightarrow> string" where
  "export_url lib m d = ''https://files.tmdb.org/p/exports/'' @
     (case m of Movie \<Rightarrow> ''movie_ids'' | Tv \<Rightarrow> ''tv_series_ids'') @ ''_'' @ mdy_date lib d @ ''.json.gz''"

definition child_meaning :: "ingest_lib \<Rightarrow> child \<Rightarrow> ingest_job" where
  "child_meaning lib c =
     (case c of
        Child_refresh m i p s \<Rightarrow> (case m of Movie \<Rightarrow> RefreshMovie i s | Tv \<Rightarrow> RefreshTv i s)
      | Child_missing m i \<Rightarrow>
          (if m = ''movie'' then RefreshMovie (nat i) Full else RefreshTv (nat i) Full)
      | Child_enrichment m i \<Rightarrow>
          (case m of Movie \<Rightarrow> EnrichMovie (nat i) CatalogOnly | Tv \<Rightarrow> EnrichTv (nat i) CatalogOnly)
      | Child_export m d r \<Rightarrow> DailyExport m (export_url lib m d) 0 r
      | Child_continuation m u off r \<Rightarrow> DailyExport m u off r
      | Child_scan m ms p c n a b \<Rightarrow> AdminScan m ms p c n a b
      | Child_configuration \<Rightarrow> Configuration
      | Child_trending m w \<Rightarrow> Trending m w
      | Child_changes m a b \<Rightarrow> ChangesSync m 1 (Some a) (Some b)
      | Child_next_changes m p a b \<Rightarrow> ChangesSync m p a b)"

definition dates_round_trip :: "ingest_lib \<Rightarrow> bool" where
  "dates_round_trip lib \<longleftrightarrow> (\<forall>d. parse_date lib (iso_date lib d) = Some d)"

lemma json_get_Cons [simp]: "json_get (JObj ((k, v) # kvs)) k' = (if k' = k then Some v else json_get (JObj kvs) k')"
  by simp

lemma de_u32_int: "n \<le> u32_max \<Longrightarrow> de_u32 (JInt (int n)) = Some n"
  by (simp add: de_u32_def)

lemma de_date_json:
  "dates_round_trip lib \<Longrightarrow> de_option (de_date lib) (date_json lib d) = Some d"
  by (cases d) (simp_all add: de_option_def date_json_def de_date_def dates_round_trip_def)

lemma de_media_list:
  "de_list (de_variant media_type_from_str) (map (\<lambda>m. JStr (media_type_as_str m)) ms) = Some ms"
  by (induction ms) (simp_all add: de_variant_def media_type_round_trip)

lemma build_job_parse:
  assumes "build_job lib ty payload key finish = Inr j"
    and "\<And>j j'. finish j = Inr j' \<Longrightarrow> nj_type j' = nj_type j \<and> nj_version j' = nj_version j \<and>
      nj_payload j' = nj_payload j \<and> nj_dedup_key j' = nj_dedup_key j"
    and "parse_job lib ty 1 payload = Inr job"
  shows "parse_job lib (nj_type j) (nj_version j) (nj_payload j) = Inr job \<and> nj_dedup_key j = key"
  using build_job_payload [OF assms(1,2)] assms(3) by (simp add: ingest_payload_version_def)

lemmas payload_simps = parse_job_def parse_refresh_def parse_payload_def is_object_def known_fields_def
  req_field_def default_field_def de_variant_def de_u32_int ingest_payload_version_def job_names

lemma parse_refresh_json:
  assumes "0 < i" "i \<le> u32_max"
  shows "parse_refresh con (JObj [(''tmdb_id'', JInt (int i)), (''scope'', JStr (scope_text s))]) = Inr (con i s)"
    and "parse_refresh con (JObj [(''tmdb_id'', JInt (int i))]) = Inr (con i Full)"
  using assms by (simp_all add: payload_simps de_refresh_payload_def validate_tmdb_id_def)

lemma parse_refresh_types:
  "parse_job lib (refresh_job_type m) 1 v = parse_refresh (case m of Movie \<Rightarrow> RefreshMovie | Tv \<Rightarrow> RefreshTv) v"
  "parse_job lib (case m of Movie \<Rightarrow> enrich_movie_job | Tv \<Rightarrow> enrich_tv_job) 1 v =
     parse_refresh (case m of Movie \<Rightarrow> EnrichMovie | Tv \<Rightarrow> EnrichTv) v"
  by (cases m; simp add: parse_job_def ingest_payload_version_def refresh_job_type_def job_names)+

lemma row_u32_ok: "row_u32 i = Inr n \<longleftrightarrow> 0 \<le> i \<and> i \<le> int u32_max \<and> n = nat i"
  by (auto simp: row_u32_def)

lemma refresh_job_parse:
  assumes "refresh_job lib m i p s = Inr j"
  shows "parse_job lib (nj_type j) (nj_version j) (nj_payload j)
     = Inr (case m of Movie \<Rightarrow> RefreshMovie i s | Tv \<Rightarrow> RefreshTv i s) \<and>
    nj_dedup_key j = dedup_key lib (case m of Movie \<Rightarrow> RefreshMovie i s | Tv \<Rightarrow> RefreshTv i s)"
proof -
  have i: "0 < i" "i \<le> u32_max" and b: "build_job lib (refresh_job_type m)
      (JObj [(''tmdb_id'', JInt (int i)), (''scope'', JStr (scope_text s))])
      (refresh_job_type m @ '':'' @ dec i) (\<lambda>j. with_priority j p) = Inr j"
    using assms by (auto simp: refresh_job_def validate_refresh_tmdb_id_def result_simps Let_def split: if_splits)
  have "parse_job lib (refresh_job_type m) 1
      (JObj [(''tmdb_id'', JInt (int i)), (''scope'', JStr (scope_text s))]) =
      Inr ((case m of Movie \<Rightarrow> RefreshMovie | Tv \<Rightarrow> RefreshTv) i s)"
    unfolding parse_refresh_types by (rule parse_refresh_json(1) [OF i])
  from build_job_parse [OF b with_fields(1) this] show ?thesis
    by (cases m) (simp_all add: dedup_key_def refresh_job_type_def)
qed

lemma missing_job_parse:
  assumes "missing_refresh_job lib m i = Inr j" "0 < i"
  shows "parse_job lib (nj_type j) (nj_version j) (nj_payload j)
     = Inr (if m = ''movie'' then RefreshMovie (nat i) Full else RefreshTv (nat i) Full) \<and>
    nj_dedup_key j = dedup_key lib (if m = ''movie'' then RefreshMovie (nat i) Full else RefreshTv (nat i) Full)"
proof -
  define n where "n = nat i"
  obtain mt where m: "media_type_from_str m = Some mt" and n: "0 < n" "n \<le> u32_max" and b: "build_job lib
      (refresh_job_type mt) (JObj [(''tmdb_id'', JInt (int n))]) (refresh_job_type mt @ '':'' @ dec n) Inr = Inr j"
    using assms unfolding n_def
    by (auto simp: missing_refresh_job_def result_simps row_u32_ok simp del: int_nat_eq split: option.splits)
  have "m = media_type_as_str mt" using m by (auto simp: media_type_from_str_def media_type_as_str_def split: if_splits)
  moreover have "parse_job lib (refresh_job_type mt) 1 (JObj [(''tmdb_id'', JInt (int n))]) =
      Inr ((case mt of Movie \<Rightarrow> RefreshMovie | Tv \<Rightarrow> RefreshTv) n Full)"
    unfolding parse_refresh_types by (rule parse_refresh_json(2) [OF n])
  note build_job_parse [OF b _ this]
  ultimately show ?thesis unfolding n_def [symmetric]
    by (cases mt) (simp_all add: dedup_key_def refresh_job_type_def media_type_as_str_def)
qed

lemma enrichment_job_parse:
  assumes "enrichment_job lib m i = Inr j" "0 < i"
  shows "parse_job lib (nj_type j) (nj_version j) (nj_payload j)
     = Inr (case m of Movie \<Rightarrow> EnrichMovie (nat i) CatalogOnly | Tv \<Rightarrow> EnrichTv (nat i) CatalogOnly) \<and>
    nj_dedup_key j
     = dedup_key lib (case m of Movie \<Rightarrow> EnrichMovie (nat i) CatalogOnly | Tv \<Rightarrow> EnrichTv (nat i) CatalogOnly)"
proof -
  let ?ty = "case m of Movie \<Rightarrow> enrich_movie_job | Tv \<Rightarrow> enrich_tv_job"
  define n where "n = nat i"
  have n: "0 < n" "n \<le> u32_max" and b: "build_job lib ?ty
      (JObj [(''tmdb_id'', JInt (int n)), (''scope'', JStr (scope_text CatalogOnly))])
      (?ty @ '':'' @ dec n) (\<lambda>j. bindR (with_priority j enrichment_priority) (\<lambda>j. with_max_attempts j 8)) = Inr j"
    using assms unfolding n_def
    by (auto simp: enrichment_job_def result_simps row_u32_ok Let_def simp del: int_nat_eq)
  have fin: "nj_type j' = nj_type j \<and> nj_version j' = nj_version j \<and> nj_payload j' = nj_payload j \<and>
      nj_dedup_key j' = nj_dedup_key j"
    if "bindR (with_priority j enrichment_priority) (\<lambda>j. with_max_attempts j 8) = Inr j'" for j j'
    using that by (auto simp: result_simps dest!: with_fields)
  have "parse_job lib ?ty 1 (JObj [(''tmdb_id'', JInt (int n)), (''scope'', JStr (scope_text CatalogOnly))]) =
      Inr ((case m of Movie \<Rightarrow> EnrichMovie | Tv \<Rightarrow> EnrichTv) n CatalogOnly)"
    unfolding parse_refresh_types by (rule parse_refresh_json(1) [OF n])
  from build_job_parse [OF b fin this] show ?thesis unfolding n_def [symmetric]
    by (cases m) (simp_all add: dedup_key_def)
qed

lemma coordinator_fields:
  "bindR (with_max_attempts j n) (\<lambda>j. with_priority j p) = Inr j' \<Longrightarrow>
     nj_type j' = nj_type j \<and> nj_version j' = nj_version j \<and> nj_payload j' = nj_payload j \<and>
     nj_dedup_key j' = nj_dedup_key j"
  "bindR (with_max_attempts j n) (\<lambda>j. bindR (with_priority j p) (\<lambda>j. with_available_at y j t)) = Inr j' \<Longrightarrow>
     nj_type j' = nj_type j \<and> nj_version j' = nj_version j \<and> nj_payload j' = nj_payload j \<and>
     nj_dedup_key j' = nj_dedup_key j"
  by (auto simp: result_simps dest!: with_fields)

lemma parse_export_json:
  assumes "export_url_ok lib u" "off \<le> u64_max"
  shows "parse_job lib daily_export_job 1 (JObj [(''media_type'', JStr (media_type_as_str m)),
     (''url'', JStr u), (''offset'', JInt (int off)), (''refresh_all'', JBool r)]) = Inr (DailyExport m u off r)"
proof -
  have "validate_export_url lib u = Inr ()" using assms(1) validate_export_url_ok by blast
  then show ?thesis
    using assms(2) by (simp add: payload_simps de_export_payload_def media_type_round_trip)
qed

lemma parse_scan_json:
  assumes "wf_ingest lib (AdminScan mode ms p c n a b)" "dates_round_trip lib"
  shows "parse_job lib admin_scan_type 1
    (JObj [(''mode'', JStr (scan_mode_name mode)), (''mediaTypes'', JArr (map (\<lambda>m. JStr (media_type_as_str m)) ms)),
       (''phase'', JStr (phase_text p)), (''cursor'', JInt (int c)), (''poll'', JInt (int n)),
       (''windowStart'', date_json lib a), (''windowEnd'', date_json lib b)]) = Inr (AdminScan mode ms p c n a b)"
proof -
  let ?p = "\<lparr>sp_mode = mode, sp_media = ms, sp_phase = p, sp_cursor = c, sp_poll = n, sp_start = a, sp_end = b\<rparr>"
  have wf: "ms \<in> {[Movie], [Tv], [Movie, Tv], [Tv, Movie]}" "c \<le> i64_max" "n \<le> u32_max" "p \<in> phases_of mode"
      "p \<in> {Enrichment, Seasons} \<longrightarrow> length ms = 1" "p = Start \<longrightarrow> n = 0 \<and> (mode = MissingOnly \<or> c = 0)"
      "window_ok a b" "mode \<noteq> DailySync \<longrightarrow> a = None"
    using assms(1) unfolding wf_ingest.simps by blast+
  have b: "a = None \<Longrightarrow> b = None" using wf(7) by (auto simp: window_ok_def split: option.splits)
  have ms: "ms \<noteq> []" "\<not> 2 < length ms" "\<not> has_equal_neighbours ms" using wf(1) by auto
  have "\<not> scan_rejected ?p"
    using wf(2,4-8) ms b unfolding scan_rejected_def window_rejected_iff
    by (cases mode; cases p) (simp_all add: phases_of_def)
  moreover have "c \<le> u64_max" "n \<le> u32_max" using wf(2,3) by simp_all
  ultimately show ?thesis
    by (simp add: payload_simps de_scan_payload_def de_array_def de_media_list de_date_json [OF assms(2)])
qed

lemma parse_trending_json:
  assumes "w = ''day'' \<or> w = ''week''"
  shows "parse_job lib trending_refresh_job 1
    (JObj [(''media_type'', JStr (media_type_as_str m)), (''trend_window'', JStr w)]) = Inr (Trending m w)"
  using assms by (auto simp: payload_simps de_trending_payload_def media_type_round_trip)

lemma parse_changes_json:
  assumes "0 < p" "p \<le> u32_max" "window_ok a b" "dates_round_trip lib"
  shows "parse_job lib changes_sync_job 1
    (JObj [(''media_type'', JStr (media_type_as_str m)), (''page'', JInt (int p)),
       (''start_date'', date_json lib a), (''end_date'', date_json lib b)]) = Inr (ChangesSync m p a b)"
  using assms(1-3)
  by (simp add: payload_simps de_changes_payload_def media_type_round_trip de_date_json [OF assms(4)] window_rejected_iff)

definition child_ok :: "ingest_lib \<Rightarrow> child \<Rightarrow> bool" where
  "child_ok lib c \<longleftrightarrow>
     (case c of
        Child_missing _ i \<Rightarrow> 0 < i
      | Child_enrichment _ i \<Rightarrow> 0 < i
      | _ \<Rightarrow> wf_ingest lib (child_meaning lib c))"

lemma child_ok_refresh: "child_job lib now (Child_refresh m i p s) = Inr j \<Longrightarrow> child_ok lib (Child_refresh m i p s)"
  by (cases m) (auto simp: child_job_def child_ok_def child_meaning_def refresh_job_def
      validate_refresh_tmdb_id_def result_simps split: if_splits)

lemma child_job_parse:
  assumes "child_job lib now c = Inr j" "child_ok lib c" "dates_round_trip lib"
  shows "parse_job lib (nj_type j) (nj_version j) (nj_payload j) = Inr (child_meaning lib c)"
proof (cases c)
  case (Child_refresh m i p s)
  then show ?thesis using assms(1) refresh_job_parse by (simp add: child_job_def child_meaning_def)
next
  case (Child_missing m i)
  then show ?thesis using assms(1,2) missing_job_parse
    by (simp add: child_job_def child_meaning_def child_ok_def)
next
  case (Child_enrichment m i)
  then show ?thesis using assms(1,2) enrichment_job_parse
    by (simp add: child_job_def child_meaning_def child_ok_def)
next
  case (Child_export m d r)
  then have ok: "export_url_ok lib (export_url lib m d)"
    using assms(2) by (simp add: child_ok_def child_meaning_def)
  obtain key where b: "build_job lib daily_export_job
      (JObj [(''media_type'', JStr (media_type_as_str m)), (''url'', JStr (export_url lib m d)),
        (''offset'', JInt (int 0)), (''refresh_all'', JBool r)]) key
      (\<lambda>j. bindR (with_max_attempts j 100) (\<lambda>j. with_priority j daily_export_coordinator_priority)) = Inr j"
    using assms(1) Child_export by (auto simp: child_job_def export_job_def Let_def export_url_def)
  from build_job_parse [OF b coordinator_fields(1) parse_export_json [OF ok]] show ?thesis
    using Child_export by (simp add: child_meaning_def)
next
  case (Child_continuation m u off r)
  then have ok: "export_url_ok lib u" "off \<le> u64_max"
    using assms(2) by (auto simp: child_ok_def child_meaning_def)
  note b = assms(1) [unfolded child_job_def Child_continuation child.case export_continuation_def]
  from build_job_parse [OF b coordinator_fields(2) parse_export_json [OF ok]] show ?thesis
    using Child_continuation by (simp add: child_meaning_def)
next
  case (Child_scan mode ms p cu n a b)
  then have ok: "wf_ingest lib (AdminScan mode ms p cu n a b)"
    using assms(2) by (simp only: child_ok_def child_meaning_def child.case)
  note b = assms(1) [unfolded child_job_def Child_scan child.case admin_scan_job_with_window_def]
  from build_job_parse [OF b coordinator_fields(2) parse_scan_json [OF ok assms(3)]] show ?thesis
    using Child_scan by (simp add: child_meaning_def)
next
  case Child_configuration
  note b = assms(1) [unfolded child_job_def Child_configuration child.case configuration_refresh_job_def]
  have "parse_job lib configuration_job 1 (JObj []) = Inr Configuration"
    by (simp add: parse_job_def ingest_payload_version_def job_names)
  from build_job_parse [OF b _ this] show ?thesis using Child_configuration by (simp add: child_meaning_def)
next
  case (Child_trending m w)
  then have w: "w = ''day'' \<or> w = ''week''" using assms(2) by (simp add: child_ok_def child_meaning_def)
  note b = assms(1) [unfolded child_job_def Child_trending child.case trending_job_def]
  from build_job_parse [OF b _ parse_trending_json [OF w]] show ?thesis
    using Child_trending by (simp add: child_meaning_def)
next
  case (Child_changes m a b)
  then have w: "window_ok (Some a) (Some b)" using assms(2) by (simp add: child_ok_def child_meaning_def)
  note b = assms(1) [unfolded child_job_def Child_changes child.case changes_start_job_def]
  from build_job_parse [OF b _ parse_changes_json [of 1, simplified, OF w assms(3)]] show ?thesis
    using Child_changes by (simp add: child_meaning_def)
next
  case (Child_next_changes m p a b)
  then have w: "0 < p" "p \<le> u32_max" "window_ok a b" using assms(2) by (simp_all add: child_ok_def child_meaning_def)
  note b = assms(1) [unfolded child_job_def Child_next_changes child.case changes_next_job_def]
  from build_job_parse [OF b with_fields(2) parse_changes_json [OF w assms(3)]] show ?thesis
    using Child_next_changes by (simp add: child_meaning_def)
qed

section \<open>Deduplication keys name the work\<close>

text \<open>The work a job stands for: without the scope, the URL only through its digest.\<close>

definition job_identity :: "ingest_lib \<Rightarrow> ingest_job \<Rightarrow> ingest_job" where
  "job_identity lib job =
     (case job of
        RefreshMovie i _ \<Rightarrow> RefreshMovie i Full | RefreshTv i _ \<Rightarrow> RefreshTv i Full
      | EnrichMovie i _ \<Rightarrow> EnrichMovie i Full | EnrichTv i _ \<Rightarrow> EnrichTv i Full
      | DailyExport m u off _ \<Rightarrow> DailyExport m (sha256_hex lib u) off False
      | _ \<Rightarrow> job)"

definition key_words :: "ingest_lib \<Rightarrow> ingest_job \<Rightarrow> string list" where
  "key_words lib job =
     job_type_of job #
     (case job of
        RefreshMovie i _ \<Rightarrow> [dec i] | RefreshTv i _ \<Rightarrow> [dec i]
      | EnrichMovie i _ \<Rightarrow> [dec i] | EnrichTv i _ \<Rightarrow> [dec i]
      | RefreshSeason i n \<Rightarrow> [dec i, dec n]
      | ChangesSync m p a b \<Rightarrow> [media_type_as_str m, date_debug lib a, date_debug lib b, dec p]
      | DailyExport m u off _ \<Rightarrow> [media_type_as_str m, sha256_hex lib u, dec off]
      | Configuration \<Rightarrow> []
      | Trending m w \<Rightarrow> [media_type_as_str m, w]
      | AdminScan m ms p c n a b \<Rightarrow>
          [mode_debug m, media_debug ms, phase_debug p, dec c, dec n, date_debug lib a, date_debug lib b]
      | AdminAnalyze \<Rightarrow> [])"

lemma dedup_key_join: "dedup_key lib job = join_with '':'' (key_words lib job)"
  by (cases job) (simp_all add: dedup_key_def key_words_def job_type_of_def)

definition plain_texts :: "ingest_lib \<Rightarrow> bool" where
  "plain_texts lib \<longleftrightarrow> (\<forall>d. colon \<notin> set (iso_date lib d)) \<and> (\<forall>u. list_all is_hexdigit (sha256_hex lib u))"

lemma dec_no_colon: "colon \<notin> set (dec n)"
  using dec_digits [of n] by (auto simp: list_all_iff is_digit_def)

lemma date_debug_no_colon: "plain_texts lib \<Longrightarrow> colon \<notin> set (date_debug lib d)"
  by (cases d) (auto simp: date_debug_def plain_texts_def)

lemma sha_no_colon: "plain_texts lib \<Longrightarrow> colon \<notin> set (sha256_hex lib u)"
  by (fastforce simp: plain_texts_def list_all_iff is_hexdigit_def is_digit_def)

lemma media_debug_no_colon:
  "ms \<in> {[Movie], [Tv], [Movie, Tv], [Tv, Movie]} \<Longrightarrow> colon \<notin> set (media_debug ms)"
  by (auto simp: media_debug_def)

lemma enum_no_colon:
  "colon \<notin> set (job_type_of job)" "colon \<notin> set (media_type_as_str m)" "colon \<notin> set (mode_debug mo)"
  "colon \<notin> set (phase_debug ph)"
  subgoal by (cases job) (simp_all add: job_type_of_def job_names)
  subgoal by (cases m) (simp_all add: media_type_as_str_def)
  subgoal by (cases mo) (simp_all add: mode_debug_def)
  subgoal by (cases ph) (simp_all add: phase_debug_def)
  done

lemma key_words_plain:
  assumes "plain_texts lib" "wf_ingest lib job"
  shows "list_all (\<lambda>w. colon \<notin> set w) (key_words lib job)"
proof (cases job)
  case (AdminScan m ms p c n a b)
  then have "colon \<notin> set (media_debug ms)" using assms(2) by (intro media_debug_no_colon) simp
  then show ?thesis
    using AdminScan enum_no_colon date_debug_no_colon [OF assms(1)] dec_no_colon by (simp add: key_words_def)
qed (use assms enum_no_colon date_debug_no_colon [OF assms(1)] sha_no_colon [OF assms(1)] dec_no_colon
  in \<open>auto simp: key_words_def\<close>)

lemma dedup_key_split:
  assumes "plain_texts lib" "wf_ingest lib job"
  shows "split_on colon (dedup_key lib job) = key_words lib job"
  unfolding dedup_key_join by (rule split_on_join [OF _ key_words_plain [OF assms]]) (simp add: key_words_def)

lemma enum_debug_inj:
  "mode_debug a = mode_debug b \<longleftrightarrow> a = b" "phase_debug p = phase_debug q \<longleftrightarrow> p = q"
  "media_type_as_str m = media_type_as_str n \<longleftrightarrow> m = n"
  subgoal by (cases a; cases b) (simp_all add: mode_debug_def)
  subgoal by (cases p; cases q) (simp_all add: phase_debug_def)
  subgoal by (cases m; cases n) (simp_all add: media_type_as_str_def)
  done

lemma date_debug_inj: "dates_round_trip lib \<Longrightarrow> date_debug lib a = date_debug lib b \<longleftrightarrow> a = b"
proof -
  assume "dates_round_trip lib"
  then have "iso_date lib x = iso_date lib y \<longleftrightarrow> x = y" for x y
    by (metis dates_round_trip_def option.inject)
  then show ?thesis by (cases a; cases b) (simp_all add: date_debug_def)
qed

lemma media_debug_inj:
  assumes "ms \<in> {[Movie], [Tv], [Movie, Tv], [Tv, Movie]}" "ns \<in> {[Movie], [Tv], [Movie, Tv], [Tv, Movie]}"
  shows "media_debug ms = media_debug ns \<longleftrightarrow> ms = ns"
  using assms by (auto simp: media_debug_def)

text \<open>Different kinds of work have different types.\<close>

lemma job_type_distinct: "distinct ingest_job_types"
  by (simp add: ingest_job_types_def job_names)

lemma same_type_same_kind:
  "job_type_of a = job_type_of b \<Longrightarrow>
   (case (a, b) of
      (RefreshMovie _ _, RefreshMovie _ _) \<Rightarrow> True | (RefreshTv _ _, RefreshTv _ _) \<Rightarrow> True
    | (EnrichMovie _ _, EnrichMovie _ _) \<Rightarrow> True | (EnrichTv _ _, EnrichTv _ _) \<Rightarrow> True
    | (RefreshSeason _ _, RefreshSeason _ _) \<Rightarrow> True | (ChangesSync _ _ _ _, ChangesSync _ _ _ _) \<Rightarrow> True
    | (DailyExport _ _ _ _, DailyExport _ _ _ _) \<Rightarrow> True | (Configuration, Configuration) \<Rightarrow> True
    | (Trending _ _, Trending _ _) \<Rightarrow> True
    | (AdminScan _ _ _ _ _ _ _, AdminScan _ _ _ _ _ _ _) \<Rightarrow> True
    | (AdminAnalyze, AdminAnalyze) \<Rightarrow> True | _ \<Rightarrow> False)"
  by (cases a; cases b; simp only: job_type_of_def ingest_job.case prod.case simp_thms; simp add: job_names)

lemma identity_type: "job_type_of (job_identity lib a) = job_type_of a"
  by (cases a) (simp_all add: job_identity_def job_type_of_def)

lemma key_words_identity:
  assumes "wf_ingest lib a" "wf_ingest lib b" "dates_round_trip lib"
  shows "key_words lib a = key_words lib b \<longleftrightarrow> job_identity lib a = job_identity lib b"
proof (cases "job_type_of a = job_type_of b")
  case True
  note kind = same_type_same_kind [OF True] and inj = enum_debug_inj date_debug_inj [OF assms(3)]
  show ?thesis
  proof (cases a)
    case (AdminScan m ms p c n x y)
    then obtain m' ms' p' c' n' x' y' where b: "b = AdminScan m' ms' p' c' n' x' y'"
      using kind by (cases b) simp_all
    have "media_debug ms = media_debug ms' \<longleftrightarrow> ms = ms'"
      using assms(1,2) AdminScan b by (intro media_debug_inj) simp_all
    then show ?thesis
      using AdminScan b inj by (simp add: key_words_def job_identity_def job_type_of_def)
  qed (use kind inj in \<open>cases b; simp add: key_words_def job_identity_def job_type_of_def; blast\<close>)+
next
  case False
  then show ?thesis using identity_type [of lib a] identity_type [of lib b]
    by (auto simp: key_words_def)
qed

section \<open>Properties\<close>

text \<open>A library in which a date is written with one letter per day.\<close>

definition demo_ingest_lib :: ingest_lib where
  "demo_ingest_lib =
     \<lparr>parse_url = (\<lambda>s. Some \<lparr>url_scheme = ''https'', url_host = Some ''files.tmdb.org'', url_username = '''',
        url_password = None, url_path = s, url_query = None, url_fragment = None\<rparr>),
      sha256_hex = (\<lambda>s. ''0a''),
      parse_date = (\<lambda>s. Some (if prefix ''p'' s then int (length s) else - int (length s))),
      iso_date = (\<lambda>d. if 0 < d then replicate (nat d) (CHR ''p'') else replicate (nat (- d)) (CHR ''n'')),
      mdy_date = (\<lambda>d. ''01_02_2024''), json_text = (\<lambda>v. Some ''{}''), calendar_year = (\<lambda>t. 2024)\<rparr>"

lemma demo_lib_dates: "dates_round_trip demo_ingest_lib"
proof -
  have "prefix ''p'' (replicate n (CHR ''p''))" if "0 < n" for n using that by (cases n) auto
  moreover have "\<not> prefix ''p'' (replicate n (CHR ''n''))" for n by (cases n) auto
  ultimately show ?thesis by (auto simp: dates_round_trip_def demo_ingest_lib_def)
qed

lemma demo_lib_plain: "plain_texts demo_ingest_lib"
  by (auto simp: plain_texts_def demo_ingest_lib_def is_hexdigit_def is_digit_def)

lemma demo_export_url: "export_url_ok demo_ingest_lib u"
  by (simp add: export_url_ok_def demo_ingest_lib_def)

text \<open>C10: every job the worker submits to itself (a title refresh, a catalog refresh, an enrichment,
  a daily export or its continuation, a scan phase, the configuration, a trending list, the pages of a
  changes window) parses back to exactly the
  work it was built for, so no child is dead-lettered for its payload.\<close>

theorem submitted_children_parse:
  assumes "child_job lib now c = Inr j" "child_ok lib c" "dates_round_trip lib"
  shows "parse_job lib (nj_type j) (nj_version j) (nj_payload j) = Inr (child_meaning lib c)"
  by (rule child_job_parse [OF assms])

lemma demo_scan_job:
  "\<exists>j. child_job demo_ingest_lib 0 (Child_scan FullSweep [Movie] Enrichment 7 0 None None) = Inr j"
  by (simp add: child_job_def admin_scan_job_with_window_def build_job_def new_job_new_def
      validate_text_graphic graphic_def admin_scan_type_def max_job_type_chars_def validate_json_object_def
      is_object_def demo_ingest_lib_def max_json_bytes_def dedup_key_def mode_debug_def media_debug_def
      phase_debug_def date_debug_def max_dedup_key_chars_def dec.simps digit_char_def with_max_attempts_def
      with_priority_def with_available_at_def catalog_phase_coordinator_priority_def ingest_payload_version_def)

theorem submitted_children_parse_witness:
  "\<exists>j. child_job demo_ingest_lib 0 (Child_scan FullSweep [Movie] Enrichment 7 0 None None) = Inr j \<and>
     parse_job demo_ingest_lib (nj_type j) (nj_version j) (nj_payload j) =
       Inr (AdminScan FullSweep [Movie] Enrichment 7 0 None None)"
proof -
  obtain j where j: "child_job demo_ingest_lib 0 (Child_scan FullSweep [Movie] Enrichment 7 0 None None) = Inr j"
    using demo_scan_job by blast
  have ok: "child_ok demo_ingest_lib (Child_scan FullSweep [Movie] Enrichment 7 0 None None)"
    by (simp add: child_ok_def child_meaning_def phases_of_def window_ok_def)
  from submitted_children_parse [OF j ok demo_lib_dates] j show ?thesis by (simp add: child_meaning_def)
qed

text \<open>C38: the one exception: every season job that the catalog scan submits carries a scope that its
  payload type does not know, so it is refused as an invalid payload.\<close>

theorem scan_season_jobs_rejected:
  assumes "season_job lib tv season = Inr j"
  shows "parse_job lib (nj_type j) (nj_version j) (nj_payload j) = Inl InvalidPayload"
proof -
  obtain i n where b: "build_job lib refresh_season_job (JObj [(''tv_id'', JInt (int i)),
      (''season_number'', JInt (int n)), (''scope'', JStr (scope_text CatalogOnly))])
      (refresh_season_job @ '':'' @ dec i @ '':'' @ dec n) Inr = Inr j"
    using assms by (auto simp: season_job_def result_simps)
  from build_job_payload [OF b] show ?thesis by (auto simp: payload_simps)
qed

theorem scan_season_jobs_rejected_witness:
  "\<exists>j. season_job demo_ingest_lib 5 1 = Inr j \<and>
     parse_job demo_ingest_lib (nj_type j) (nj_version j) (nj_payload j) = Inl InvalidPayload"
proof -
  have key: "validate_text (refresh_season_job @ '':'' @ dec 5 @ '':'' @ dec 1) max_dedup_key_chars BadDedupKey = Inr ()"
    by (rule validate_text_graphic)
       (simp_all add: dec_digit digit_char_def graphic_def refresh_season_job_def max_dedup_key_chars_def)
  have "validate_text refresh_season_job max_job_type_chars BadJobType = Inr ()"
    by (rule validate_text_graphic) (simp_all add: graphic_def refresh_season_job_def max_job_type_chars_def)
  with key obtain j where j: "season_job demo_ingest_lib 5 1 = Inr j"
    by (simp add: season_job_def row_u32_def build_job_def new_job_new_def validate_json_object_def
        is_object_def demo_ingest_lib_def max_json_bytes_def ingest_payload_version_def)
  with scan_season_jobs_rejected [OF j] show ?thesis by blast
qed

text \<open>C9: two accepted jobs have the same deduplication key exactly when they stand for the same work
  (same kind, identifiers, dates, page, cursor, export digest and offset; the refresh scope and the
  \<open>refresh_all\<close> flag do not count).\<close>

theorem dedup_key_identifies_work:
  assumes "parse_job lib ty version v = Inr a" "parse_job lib ty' version' v' = Inr b"
    and "dates_round_trip lib" "plain_texts lib"
  shows "dedup_key lib a = dedup_key lib b \<longleftrightarrow> job_identity lib a = job_identity lib b"
proof -
  have wf: "wf_ingest lib a" "wf_ingest lib b" using parse_job_cases assms(1,2) by blast+
  have "dedup_key lib a = dedup_key lib b \<longleftrightarrow> key_words lib a = key_words lib b"
    using dedup_key_split [OF assms(4)] wf dedup_key_join by metis
  then show ?thesis using key_words_identity [OF wf assms(3)] by simp
qed

lemma demo_parse:
  "parse_job demo_ingest_lib ''ingest.refresh_tv'' 1 (JObj [(''tmdb_id'', JInt 5)]) = Inr (RefreshTv 5 Full)"
  "parse_job demo_ingest_lib ''ingest.enrich_tv'' 1 (JObj [(''tmdb_id'', JInt 5)]) = Inr (EnrichTv 5 Full)"
  by (simp_all add: payload_simps de_refresh_payload_def validate_tmdb_id_def de_u32_def)

theorem dedup_key_identifies_work_witness:
  "dedup_key demo_ingest_lib (RefreshTv 5 Full) \<noteq> dedup_key demo_ingest_lib (EnrichTv 5 Full)"
  using dedup_key_identifies_work [OF demo_parse demo_lib_dates demo_lib_plain] by (simp add: job_identity_def)

text \<open>C11: an accepted job is within bounds: it has version 1 and its type's kind; identifiers are
  positive 32-bit numbers; change and sync windows are ordered and span at most fourteen days;
  exports come from the TMDB file host without credentials, query or fragment; and a scan names
  each media type once, in a phase its mode has.\<close>

theorem accepted_jobs_well_formed:
  assumes "parse_job lib ty version v = Inr job"
  shows "version = 1 \<and> ty = job_type_of job \<and> ty \<in> set ingest_job_types \<and> wf_ingest lib job"
  using parse_job_cases [OF assms] by (cases job) (simp_all add: job_type_of_def ingest_job_types_def)

theorem accepted_jobs_well_formed_witness:
  "wf_ingest demo_ingest_lib (RefreshTv 5 Full)"
  using accepted_jobs_well_formed [OF demo_parse(1)] by blast

end
