(* ===== verification/Ingest_Submission.thy ===== *)
theory Ingest_Submission
  imports Ingest_Payload Job_Repository
begin

text \<open>
  How the ingestion worker submits children, in \<open>src/apps/tmdb-ingest/src/jobs.rs\<close>: one transaction
  per batch, guarded by the operator's submission switch and, for title refreshes, by an advisory
  lock and the queue's capacity. What the database answers at each statement is a field of
  \<open>tx_env\<close>: a statement may fail, and a commit may fail or lose its reply.
\<close>

section \<open>One transaction\<close>

record tx_env =
  begin_ok :: bool
  child_submissions :: "bool option"
  rollback_ok :: bool
  admission_turn :: "bool option"
  tx_repo :: repo_env
  commit :: delivery

abbreviation database_retry :: job_execution_error where
  "database_retry \<equiv> job_retry ''database_unavailable'' (from_secs 5)"

abbreviation storage_retry :: job_execution_error where
  "storage_retry \<equiv> job_retry ''export_storage'' (from_secs 30)"

definition map_submission_error :: "job_error \<Rightarrow> job_execution_error" where
  "map_submission_error e =
     (case e of Validation _ \<Rightarrow> invalid_payload | _ \<Rightarrow> database_retry)"

text \<open>The commit: the work becomes visible, is lost, or is visible without our knowing.\<close>

definition commit_tx ::
    "tx_env \<Rightarrow> 'r \<Rightarrow> job_queue \<Rightarrow> job_queue \<Rightarrow> (job_execution_error + 'r) \<times> job_queue" where
  "commit_tx tx r before after =
     (case commit tx of
        Delivered \<Rightarrow> (Inr r, after)
      | Failed _ \<Rightarrow> (Inl database_retry, before)
      | Reply_lost \<Rightarrow> (Inl database_retry, after))"

definition rollback_tx :: "tx_env \<Rightarrow> job_execution_error + 'r \<Rightarrow> job_queue \<Rightarrow> (job_execution_error + 'r) \<times> job_queue" where
  "rollback_tx tx r q = (if rollback_ok tx then (r, q) else (Inl database_retry, q))"

definition submit_ingest_child_jobs ::
    "tx_env \<Rightarrow> new_job list \<Rightarrow> job_queue \<Rightarrow> (job_execution_error + submit_outcome list) \<times> job_queue" where
  "submit_ingest_child_jobs tx jobs q =
     (if jobs = [] then (Inr [], q)
      else if \<not> begin_ok tx then (Inl database_retry, q)
      else
        (case child_submissions tx of
           None \<Rightarrow> (Inl database_retry, q)
         | Some enabled \<Rightarrow>
             if \<not> enabled then rollback_tx tx (Inr []) q
             else
               (case repo_submit_many_in_transaction (tx_repo tx) jobs q of
                  (Inl e, _) \<Rightarrow> (Inl (map_submission_error e), q)
                | (Inr outcomes, q') \<Rightarrow> commit_tx tx outcomes q q')))"

definition submit_ingest_child_job ::
    "tx_env \<Rightarrow> new_job \<Rightarrow> job_queue \<Rightarrow> (job_execution_error + submit_outcome option) \<times> job_queue" where
  "submit_ingest_child_job tx job q =
     (case submit_ingest_child_jobs tx [job] q of
        (r, q') \<Rightarrow> (mapR (\<lambda>os. if os = [] then None else Some (last os)) r, q'))"

definition submit_refresh_jobs_with_capacity ::
    "tx_env \<Rightarrow> new_job list \<Rightarrow> string \<Rightarrow> job_queue \<Rightarrow> (job_execution_error + nat) \<times> job_queue" where
  "submit_refresh_jobs_with_capacity tx jobs failure q =
     (if jobs = [] then (Inr 0, q)
      else if \<not> begin_ok tx then (Inl database_retry, q)
      else
        (case child_submissions tx of
           None \<Rightarrow> (Inl database_retry, q)
         | Some enabled \<Rightarrow>
             if \<not> enabled then rollback_tx tx (Inr 0) q
             else
               (case admission_turn tx of
                  None \<Rightarrow> (Inl database_retry, q)
                | Some turn \<Rightarrow>
                    if \<not> turn then rollback_tx tx (Inl (job_retry failure (from_secs 10))) q
                    else
                      (case repo_submit_many_in_transaction (tx_repo tx) jobs q of
                         (Inl e, _) \<Rightarrow>
                           if e = Capacity then rollback_tx tx (Inl (job_retry failure (from_secs 10))) q
                           else (Inl (map_submission_error e), q)
                       | (Inr outcomes, q') \<Rightarrow>
                           commit_tx tx (length (filter (\<lambda>out. \<not> so_duplicate out) outcomes)) q q'))))"

section \<open>What every submission keeps\<close>

lemma execute_submit_many_in_tx_steps:
  "repo_submit_many_in_transaction env jobs q = (r, q') \<Longrightarrow> queue_step\<^sup>*\<^sup>* q q'"
proof -
  assume a: "repo_submit_many_in_transaction env jobs q = (r, q')"
  show ?thesis
  proof (cases "prepare_submit_batch env jobs")
    case (Inr p)
    obtain payloads positions where p: "p = (payloads, positions)" by (cases p)
    obtain x q1 where x: "db_query (network env 0) (execute_submit_many env jobs payloads positions 0) q = (x, q1)"
      by fastforce
    have "q' = q \<or> q' = q1" using a Inr p x
      by (auto simp: repo_submit_many_in_transaction_def split: if_splits sum.splits)
    then show ?thesis
      using db_query_state [OF x] execute_submit_many_steps [of env jobs payloads positions 0 q]
      by (metis prod.collapse rtranclp.rtrancl_refl)
  qed (use a in \<open>simp add: repo_submit_many_in_transaction_def\<close>)
qed

lemma commit_tx_cases:
  "commit_tx tx r p q = (x, q') \<Longrightarrow>
     (q' = p \<or> q' = q) \<and> (\<forall>e. x = Inl e \<longrightarrow> commit tx = Reply_lost \<or> q' = p) \<and>
     (\<forall>y. x = Inr y \<longrightarrow> y = r \<and> q' = q)"
  by (auto simp: commit_tx_def split: delivery.splits)

text \<open>
  The contract of a submission inside one transaction: it is a sequence of queue steps, and an
  error leaves the queue as it was unless the reply of the commit was lost.
\<close>

locale atomic_submission =
  fixes submit :: "'env \<Rightarrow> 'jobs \<Rightarrow> job_queue \<Rightarrow> (job_execution_error + 'r) \<times> job_queue"
    and reply_lost :: "'env \<Rightarrow> bool"
  assumes steps: "submit env jobs q = (r, q') \<Longrightarrow> queue_step\<^sup>*\<^sup>* q q'"
    and atomic: "submit env jobs q = (Inl e, q') \<Longrightarrow> \<not> reply_lost env \<Longrightarrow> q' = q"
begin

text \<open>Submitting batch after batch until one fails.\<close>

fun submit_all :: "(nat \<Rightarrow> 'env) \<Rightarrow> nat \<Rightarrow> 'jobs list \<Rightarrow> job_queue \<Rightarrow>
    (job_execution_error + 'r list) \<times> job_queue" where
  "submit_all env k [] q = (Inr [], q)"
| "submit_all env k (b # bs) q =
     (case submit (env k) b q of
        (Inl e, q') \<Rightarrow> (Inl e, q')
      | (Inr r, q') \<Rightarrow>
          (case submit_all env (Suc k) bs q' of (res, q'') \<Rightarrow> (mapR (\<lambda>rs. r # rs) res, q'')))"

lemma submit_all_steps: "submit_all env k bs q = (r, q') \<Longrightarrow> queue_step\<^sup>*\<^sup>* q q'"
proof (induction env k bs q arbitrary: r rule: submit_all.induct)
  case (2 env k b bs q)
  obtain x q1 where x: "submit (env k) b q = (x, q1)" by fastforce
  show ?case
  proof (cases x)
    case (Inr y)
    obtain z q2 where z: "submit_all env (Suc k) bs q1 = (z, q2)" by fastforce
    then have "queue_step\<^sup>*\<^sup>* q1 q2" using "2.IH" [OF x [symmetric] Inr] "2.prems" x Inr by simp
    then show ?thesis using steps [OF x] "2.prems" x Inr z by simp
  qed (use 2 x steps [OF x] in simp)
qed simp

text \<open>
  After an error exactly the batches before the failing one are recorded: running them alone
  succeeds and leaves the same queue.
\<close>

lemma submit_all_error:
  "submit_all env k bs q = (Inl e, q') \<Longrightarrow> (\<And>n. \<not> reply_lost (env n)) \<Longrightarrow>
   \<exists>n rs. n < length bs \<and> submit_all env k (take n bs) q = (Inr rs, q') \<and>
     (\<exists>q''. submit (env (k + n)) (bs ! n) q' = (Inl e, q''))"
proof (induction env k bs q rule: submit_all.induct)
  case (2 env k b bs q)
  obtain x q1 where x: "submit (env k) b q = (x, q1)" by fastforce
  show ?case
  proof (cases x)
    case (Inl e')
    then have "q1 = q" "e' = e" "q' = q" using x 2 atomic [of "env k" b q e' q1] by auto
    then show ?thesis using x Inl by (intro exI [of _ 0]) simp
  next
    case (Inr y)
    then obtain z where z: "submit_all env (Suc k) bs q1 = (z, q')" "z = Inl e"
      using "2.prems"(1) x by (auto simp: mapR_eq_Inl split: prod.splits)
    then obtain n rs where n: "n < length bs" "submit_all env (Suc k) (take n bs) q1 = (Inr rs, q')"
        "\<exists>q''. submit (env (Suc k + n)) (bs ! n) q' = (Inl e, q'')"
      using "2.IH" [OF x [symmetric] Inr] "2.prems"(2) by blast
    then show ?thesis using x Inr by (intro exI [of _ "Suc n"] exI [of _ "y # rs"]) simp
  qed
qed simp

end

lemma child_jobs_steps: "submit_ingest_child_jobs tx jobs q = (r, q') \<Longrightarrow> queue_step\<^sup>*\<^sup>* q q'"
  by (auto simp: submit_ingest_child_jobs_def rollback_tx_def split: if_splits option.splits prod.splits sum.splits
      dest!: commit_tx_cases intro: execute_submit_many_in_tx_steps)

lemma child_jobs_atomic:
  "submit_ingest_child_jobs tx jobs q = (Inl e, q') \<Longrightarrow> commit tx \<noteq> Reply_lost \<Longrightarrow> q' = q"
  by (auto simp: submit_ingest_child_jobs_def rollback_tx_def split: if_splits option.splits prod.splits sum.splits
      dest!: commit_tx_cases)

lemma capacity_steps: "submit_refresh_jobs_with_capacity tx jobs c q = (r, q') \<Longrightarrow> queue_step\<^sup>*\<^sup>* q q'"
  by (auto simp: submit_refresh_jobs_with_capacity_def rollback_tx_def
      split: if_splits option.splits prod.splits sum.splits
      dest!: commit_tx_cases intro: execute_submit_many_in_tx_steps)

lemma capacity_atomic:
  "submit_refresh_jobs_with_capacity tx jobs c q = (Inl e, q') \<Longrightarrow> commit tx \<noteq> Reply_lost \<Longrightarrow> q' = q"
  by (auto simp: submit_refresh_jobs_with_capacity_def rollback_tx_def
      split: if_splits option.splits prod.splits sum.splits dest!: commit_tx_cases)

interpretation children: atomic_submission submit_ingest_child_jobs "\<lambda>tx. commit tx = Reply_lost"
  by unfold_locales (blast intro: child_jobs_steps child_jobs_atomic)+

interpretation refreshes: atomic_submission "\<lambda>tx jobs. submit_refresh_jobs_with_capacity tx jobs failure"
    "\<lambda>tx. commit tx = Reply_lost" for failure
  by unfold_locales (blast intro: capacity_steps capacity_atomic)+

section \<open>Batches of refreshes\<close>

function chunks_of :: "nat \<Rightarrow> 'a list \<Rightarrow> 'a list list" where
  "chunks_of n xs = (if xs = [] \<or> n = 0 then [] else take n xs # chunks_of n (drop n xs))"
  by pat_completeness auto
termination
  by (relation "measure (\<lambda>(n, xs). length xs)") auto

declare chunks_of.simps [simp del]

lemma concat_chunks: "0 < n \<Longrightarrow> concat (chunks_of n xs) = xs"
proof (induction n xs rule: chunks_of.induct)
  case (1 n xs)
  then show ?case by (subst chunks_of.simps) auto
qed

lemma chunks_bound: "list_all (\<lambda>c. length c \<le> n) (chunks_of n xs)"
proof (induction n xs rule: chunks_of.induct)
  case (1 n xs)
  then show ?case by (subst chunks_of.simps) auto
qed

text \<open>Each batch is built completely before it is submitted.\<close>

fun enqueue_refresh_chunks ::
    "ingest_lib \<Rightarrow> (nat \<Rightarrow> tx_env) \<Rightarrow> nat \<Rightarrow> media_type \<Rightarrow> int \<Rightarrow> refresh_scope \<Rightarrow> string \<Rightarrow> nat list list \<Rightarrow>
     nat \<Rightarrow> job_queue \<Rightarrow> (job_execution_error + nat) \<times> job_queue" where
  "enqueue_refresh_chunks lib tx k m priority scope failure [] submitted q = (Inr submitted, q)"
| "enqueue_refresh_chunks lib tx k m priority scope failure (ids # rest) submitted q =
     (case collectR (map (\<lambda>i. refresh_job lib m i priority scope) ids) of
        Inl e \<Rightarrow> (Inl e, q)
      | Inr jobs \<Rightarrow>
          (case submit_refresh_jobs_with_capacity (tx k) jobs failure q of
             (Inl e, q') \<Rightarrow> (Inl e, q')
           | (Inr n, q') \<Rightarrow>
               enqueue_refresh_chunks lib tx (Suc k) m priority scope failure rest (submitted + n) q'))"

definition enqueue_refresh_jobs_with_priority ::
    "ingest_lib \<Rightarrow> (nat \<Rightarrow> tx_env) \<Rightarrow> media_type \<Rightarrow> nat list \<Rightarrow> int \<Rightarrow> refresh_scope \<Rightarrow> string \<Rightarrow> job_queue \<Rightarrow>
     (job_execution_error + nat) \<times> job_queue" where
  "enqueue_refresh_jobs_with_priority lib tx m ids priority scope failure q =
     enqueue_refresh_chunks lib tx 0 m priority scope failure (chunks_of 500 ids) 0 q"

text \<open>The identifiers not in the catalog, each once, in order; \<open>catalogued\<close> is the query's answer.\<close>

fun missing_ids :: "int list \<Rightarrow> nat list \<Rightarrow> nat list \<Rightarrow> nat list" where
  "missing_ids catalogued seen [] = []"
| "missing_ids catalogued seen (i # is) =
     (if i \<in> set seen then missing_ids catalogued seen is
      else if int i \<in> set catalogued then missing_ids catalogued (i # seen) is
      else i # missing_ids catalogued (i # seen) is)"

definition enqueue_missing_refresh_jobs ::
    "ingest_lib \<Rightarrow> int list option \<Rightarrow> (nat \<Rightarrow> tx_env) \<Rightarrow> media_type \<Rightarrow> nat list \<Rightarrow> string \<Rightarrow> job_queue \<Rightarrow>
     (job_execution_error + nat) \<times> job_queue" where
  "enqueue_missing_refresh_jobs lib catalogued tx m ids failure q =
     (case collectR (map validate_refresh_tmdb_id ids) of
        Inl e \<Rightarrow> (Inl e, q)
      | Inr valid \<Rightarrow>
          (case catalogued of
             None \<Rightarrow> (Inl database_retry, q)
           | Some known \<Rightarrow>
               enqueue_refresh_jobs_with_priority lib tx m (missing_ids known [] valid)
                 title_refresh_priority CatalogOnly failure q))"

lemma set_missing_ids:
  "set (missing_ids catalogued seen ids) = {i \<in> set ids. i \<notin> set seen \<and> int i \<notin> set catalogued}"
  by (induction catalogued seen ids rule: missing_ids.induct) auto

lemma distinct_missing_ids: "distinct (missing_ids catalogued seen ids)"
  by (induction catalogued seen ids rule: missing_ids.induct) (auto simp: set_missing_ids)

section \<open>What a successful submission has recorded\<close>

text \<open>Some active row has this type and deduplication key.\<close>

definition recorded :: "string \<Rightarrow> string \<Rightarrow> job_queue \<Rightarrow> bool" where
  "recorded ty k q \<longleftrightarrow> (\<exists>i. submitted_as ty k i q)"

definition job_recorded :: "job_queue \<Rightarrow> new_job \<Rightarrow> bool" where
  "job_recorded q j \<longleftrightarrow> recorded (nj_type j) (nj_dedup_key j) q"

lemma tx_submit_keeps:
  assumes "repo_submit_many_in_transaction env jobs q = (Inr outs, q')" "recorded ty k q"
  shows "recorded ty k q'"
proof -
  obtain i where i: "submitted_as ty k i q" using assms(2) by (auto simp: recorded_def)
  from assms(1) obtain payloads positions where p: "prepare_submit_batch env jobs = Inr (payloads, positions)"
    by (auto simp: repo_submit_many_in_transaction_def split: sum.splits)
  show ?thesis
  proof (cases "jobs = []")
    case False
    then obtain rows where "db_query (network env 0) (execute_submit_many env jobs payloads positions 0) q = (Inr rows, q')"
      using assms(1) p by (auto simp: repo_submit_many_in_transaction_def split: sum.splits prod.splits if_splits)
    then have "execute_submit_many env jobs payloads positions 0 q = (Inr rows, q')"
      by (auto simp: db_query_def db_call_def result_simps split: delivery.splits prod.splits)
    then have "submitted_as ty k i q'"
      using submit_rows_keeps i by (auto simp: execute_submit_many_def split: prod.splits sum.splits)
    then show ?thesis by (auto simp: recorded_def)
  qed (use assms p in \<open>simp add: repo_submit_many_in_transaction_def\<close>)
qed

lemma tx_submit_outcomes:
  assumes "repo_submit_many_in_transaction env jobs q = (Inr outs, q')"
  shows "batch_recorded jobs outs q'"
proof -
  from assms obtain payloads positions where p: "prepare_submit_batch env jobs = Inr (payloads, positions)"
    by (auto simp: repo_submit_many_in_transaction_def split: sum.splits)
  note len = prepare_submit_batch_ok [OF p]
  show ?thesis
  proof (cases "jobs = []")
    case True
    then show ?thesis using assms p by (simp add: repo_submit_many_in_transaction_def batch_recorded_def)
  next
    case False
    then obtain rows where rows: "db_query (network env 0) (execute_submit_many env jobs payloads positions 0) q = (Inr rows, q')"
        "outs = submit_outcomes rows"
      using assms p by (auto simp: repo_submit_many_in_transaction_def split: sum.splits prod.splits if_splits)
    then have "execute_submit_many env jobs payloads positions 0 q = (Inr rows, q')"
      by (auto simp: db_query_def db_call_def result_simps split: delivery.splits prod.splits)
    from execute_submit_many_ok [OF this] len rows(2) show ?thesis by simp
  qed
qed

lemma tx_submit_recorded:
  assumes "repo_submit_many_in_transaction env jobs q = (Inr outs, q')"
  shows "list_all (job_recorded q') jobs"
  using tx_submit_outcomes [OF assms]
  by (auto simp: batch_recorded_def job_recorded_def recorded_def list_all2_conv_all_nth list_all_length)

text \<open>While the operator allows child submissions, success means that every job is recorded.\<close>

lemma child_jobs_ok:
  assumes "submit_ingest_child_jobs tx jobs q = (Inr outs, q')"
  shows "(recorded ty k q \<longrightarrow> recorded ty k q') \<and>
    (child_submissions tx = Some True \<longrightarrow> list_all (job_recorded q') jobs)"
  using assms
  by (auto simp: submit_ingest_child_jobs_def rollback_tx_def split: if_splits option.splits prod.splits sum.splits
      dest!: commit_tx_cases dest: tx_submit_keeps tx_submit_recorded)

lemma child_job_ok:
  assumes "submit_ingest_child_job tx job q = (Inr out, q')"
  shows "(recorded ty k q \<longrightarrow> recorded ty k q') \<and>
    (child_submissions tx = Some True \<longrightarrow> job_recorded q' job)"
proof -
  obtain outs where "submit_ingest_child_jobs tx [job] q = (Inr outs, q')"
    using assms by (auto simp: submit_ingest_child_job_def result_simps split: prod.splits)
  from child_jobs_ok [OF this] show ?thesis by simp
qed

lemma capacity_ok:
  assumes "submit_refresh_jobs_with_capacity tx jobs c q = (Inr n, q')"
  shows "(recorded ty k q \<longrightarrow> recorded ty k q') \<and>
    (child_submissions tx = Some True \<longrightarrow> list_all (job_recorded q') jobs)"
  using assms
  by (auto simp: submit_refresh_jobs_with_capacity_def rollback_tx_def
      split: if_splits option.splits prod.splits sum.splits
      dest!: commit_tx_cases dest: tx_submit_keeps tx_submit_recorded)

definition refresh_recorded :: "ingest_lib \<Rightarrow> media_type \<Rightarrow> job_queue \<Rightarrow> nat \<Rightarrow> bool" where
  "refresh_recorded lib m q i = recorded (refresh_job_type m) (refresh_job_type m @ '':'' @ dec i) q"

lemma refresh_job_recorded:
  "refresh_job lib m i p s = Inr j \<Longrightarrow> job_recorded q j = refresh_recorded lib m q i"
  using build_job_payload [OF _ with_fields(1)]
  by (auto simp: refresh_job_def validate_refresh_tmdb_id_def job_recorded_def refresh_recorded_def
      result_simps Let_def split: if_splits)

lemma enqueue_chunks_ok:
  assumes "enqueue_refresh_chunks lib tx k m p s failure css n q = (Inr count, q')"
    and "\<And>k. child_submissions (tx k) = Some True"
  shows "(recorded ty key q \<longrightarrow> recorded ty key q') \<and> (\<forall>i\<in>set (concat css). refresh_recorded lib m q' i)"
  using assms
proof (induction lib tx k m p s failure css n q arbitrary: count ty key rule: enqueue_refresh_chunks.induct)
  case (2 lib tx k m priority scope failure ids rest submitted q)
  obtain jobs where jobs: "collectR (map (\<lambda>i. refresh_job lib m i priority scope) ids) = Inr jobs"
    using "2.prems"(1) by (auto split: sum.splits)
  obtain n q1 where sub: "submit_refresh_jobs_with_capacity (tx k) jobs failure q = (Inr n, q1)"
      "enqueue_refresh_chunks lib tx (Suc k) m priority scope failure rest (submitted + n) q1 = (Inr count, q')"
    using "2.prems"(1) jobs by (auto split: sum.splits prod.splits)
  have IH: "(recorded ty key q1 \<longrightarrow> recorded ty key q') \<and> (\<forall>i\<in>set (concat rest). refresh_recorded lib m q' i)"
    for ty key
    by (rule "2.IH" [OF jobs sub(1) [symmetric] refl sub(2) "2.prems"(2)])
  have "list_all2 (\<lambda>i j. refresh_job lib m i priority scope = Inr j) ids jobs"
    using jobs by (simp add: collectR_Inr_iff)
  then have "\<forall>i\<in>set ids. refresh_recorded lib m q1 i"
    using capacity_ok [OF sub(1)] "2.prems"(2) refresh_job_recorded
    by (fastforce simp: list_all2_conv_all_nth in_set_conv_nth list_all_length)
  then have "\<forall>i\<in>set ids. refresh_recorded lib m q' i" using IH by (simp add: refresh_recorded_def)
  then show ?case using IH capacity_ok [OF sub(1)] by auto
qed simp

lemma enqueue_refresh_ok:
  assumes "enqueue_refresh_jobs_with_priority lib tx m ids p s failure q = (Inr count, q')"
    and "\<And>k. child_submissions (tx k) = Some True"
  shows "(recorded ty key q \<longrightarrow> recorded ty key q') \<and> (\<forall>i\<in>set ids. refresh_recorded lib m q' i)"
  using enqueue_chunks_ok [OF assms [unfolded enqueue_refresh_jobs_with_priority_def]]
  by (simp add: concat_chunks)

lemma enqueue_missing_ok:
  assumes "enqueue_missing_refresh_jobs lib catalogued tx m ids failure q = (Inr count, q')"
    and "\<And>k. child_submissions (tx k) = Some True"
  shows "\<exists>known. catalogued = Some known \<and> (recorded ty key q \<longrightarrow> recorded ty key q') \<and>
    (\<forall>i\<in>set ids. int i \<in> set known \<or> refresh_recorded lib m q' i)"
proof -
  obtain valid known where v: "collectR (map validate_refresh_tmdb_id ids) = Inr valid" "catalogued = Some known"
      "enqueue_refresh_jobs_with_priority lib tx m (missing_ids known [] valid) title_refresh_priority CatalogOnly
         failure q = (Inr count, q')"
    using assms(1) by (auto simp: enqueue_missing_refresh_jobs_def split: sum.splits option.splits)
  have "list_all2 (\<lambda>i j. i = j) ids valid"
    using v(1) unfolding collectR_Inr_iff
    by (rule list_all2_mono) (auto simp: validate_refresh_tmdb_id_def split: if_splits)
  then have "valid = ids" by (simp add: list.rel_eq)
  then show ?thesis
    using enqueue_refresh_ok [OF v(3) assms(2)] v(2) by (auto simp: set_missing_ids)
qed

lemma enqueue_chunks_steps:
  "enqueue_refresh_chunks lib tx k m p s failure css n q = (r, q') \<Longrightarrow> queue_step\<^sup>*\<^sup>* q q'"
proof (induction lib tx k m p s failure css n q arbitrary: r rule: enqueue_refresh_chunks.induct)
  case (2 lib tx k m priority scope failure ids rest submitted q)
  show ?case
  proof (cases "collectR (map (\<lambda>i. refresh_job lib m i priority scope) ids)")
    case (Inr jobs)
    obtain x q1 where x: "submit_refresh_jobs_with_capacity (tx k) jobs failure q = (x, q1)" by fastforce
    show ?thesis
    proof (cases x)
      case Inl: (Inl e)
      then show ?thesis using "2.prems" Inr x capacity_steps [OF x] by simp
    next
      case n: (Inr n)
      then have "queue_step\<^sup>*\<^sup>* q1 q'"
        using "2.IH" [OF Inr x [symmetric] n] "2.prems" Inr x by simp
      then show ?thesis using capacity_steps [OF x] by simp
    qed
  qed (use 2 in simp)
qed simp

lemma enqueue_refresh_steps:
  "enqueue_refresh_jobs_with_priority lib tx m ids p s failure q = (r, q') \<Longrightarrow> queue_step\<^sup>*\<^sup>* q q'"
  by (auto simp: enqueue_refresh_jobs_with_priority_def dest: enqueue_chunks_steps)

lemma enqueue_missing_steps:
  "enqueue_missing_refresh_jobs lib catalogued tx m ids failure q = (r, q') \<Longrightarrow> queue_step\<^sup>*\<^sup>* q q'"
  by (auto simp: enqueue_missing_refresh_jobs_def split: sum.splits option.splits dest: enqueue_refresh_steps)

lemma child_job_steps: "submit_ingest_child_job tx job q = (r, q') \<Longrightarrow> queue_step\<^sup>*\<^sup>* q q'"
  by (auto simp: submit_ingest_child_job_def split: prod.splits dest: child_jobs_steps)

section \<open>All or nothing\<close>

text \<open>One chunk: its jobs are built, then submitted in one transaction.\<close>

definition submit_chunk ::
    "ingest_lib \<Rightarrow> media_type \<Rightarrow> int \<Rightarrow> refresh_scope \<Rightarrow> string \<Rightarrow> tx_env \<Rightarrow> nat list \<Rightarrow> job_queue \<Rightarrow>
     (job_execution_error + nat) \<times> job_queue" where
  "submit_chunk lib m p s failure tx ids q =
     (case collectR (map (\<lambda>i. refresh_job lib m i p s) ids) of
        Inl e \<Rightarrow> (Inl e, q)
      | Inr jobs \<Rightarrow> submit_refresh_jobs_with_capacity tx jobs failure q)"

interpretation chunks: atomic_submission "submit_chunk lib m p s failure" "\<lambda>tx. commit tx = Reply_lost"
  for lib m p s failure
  by unfold_locales
    (auto simp: submit_chunk_def split: sum.splits intro: capacity_steps dest: capacity_atomic)

lemma enqueue_chunks_all:
  "enqueue_refresh_chunks lib tx k m p s failure css n q =
     (case chunks.submit_all lib m p s failure tx k css q of
        (r, q') \<Rightarrow> (mapR (\<lambda>ns. n + sum_list ns) r, q'))"
  by (induction css arbitrary: k n q)
    (auto simp: submit_chunk_def result_simps add.assoc split: sum.splits prod.splits)

lemma take_chunks_of: "0 < n \<Longrightarrow> chunks_of n (take (n * k) xs) = take k (chunks_of n xs)"
proof (induction k arbitrary: xs)
  case (Suc k)
  show ?case
  proof (cases "xs = []")
    case False
    have "drop n (take (n * Suc k) xs) = take (n * k) (drop n xs)" by (simp add: drop_take)
    then show ?thesis
      using False Suc by (subst (1 2) chunks_of.simps) (simp add: min_def)
  qed (simp add: chunks_of.simps)
qed (simp add: chunks_of.simps)

lemma chunks_of_length: "0 < n \<Longrightarrow> k < length (chunks_of n xs) \<Longrightarrow> n * k < length xs"
proof (induction n xs arbitrary: k rule: chunks_of.induct)
  case (1 n xs)
  then have ne: "xs \<noteq> []" by (auto simp: chunks_of.simps)
  show ?case
  proof (cases k)
    case (Suc j)
    then have "j < length (chunks_of n (drop n xs))" using 1 ne by (subst (asm) chunks_of.simps) simp
    then have "n * j < length xs - n" using 1 ne by simp
    then show ?thesis using Suc by simp
  qed (use ne in simp)
qed

lemma enqueue_refresh_error:
  assumes "enqueue_refresh_jobs_with_priority lib tx m ids p s failure q = (Inl e, q')"
    and "\<And>k. commit (tx k) \<noteq> Reply_lost"
  shows "\<exists>n count. 500 * n < length ids \<and>
    enqueue_refresh_jobs_with_priority lib tx m (take (500 * n) ids) p s failure q = (Inr count, q')"
proof -
  have "chunks.submit_all lib m p s failure tx 0 (chunks_of 500 ids) q = (Inl e, q')"
    using assms(1) by (auto simp: enqueue_refresh_jobs_with_priority_def enqueue_chunks_all mapR_eq_Inl split: prod.splits)
  then obtain n rs where n: "n < length (chunks_of 500 ids)"
      "chunks.submit_all lib m p s failure tx 0 (take n (chunks_of 500 ids)) q = (Inr rs, q')"
    using chunks.submit_all_error assms(2) by blast
  then have "500 * n < length ids" by (intro chunks_of_length) simp_all
  then show ?thesis
    using n(2) by (intro exI [of _ n] exI [of _ "sum_list rs"])
      (simp add: enqueue_refresh_jobs_with_priority_def enqueue_chunks_all take_chunks_of)
qed

text \<open>A bulk of title refreshes is submitted in whole batches of 500: when it fails and no commit
  lost its reply, the queue is exactly what submitting the identifiers of the first \<open>n\<close> batches leaves,
  and that submission succeeds.\<close>

theorem refresh_batches_all_or_nothing:
  assumes "enqueue_refresh_jobs_with_priority lib tx m ids p s failure q = (Inl e, q')"
    and "\<And>k. commit (tx k) \<noteq> Reply_lost"
  shows "\<exists>n count. 500 * n < length ids \<and>
    enqueue_refresh_jobs_with_priority lib tx m (take (500 * n) ids) p s failure q = (Inr count, q')"
  by (rule enqueue_refresh_error [OF assms])

abbreviation demo_tx :: tx_env where
  "demo_tx \<equiv> \<lparr>begin_ok = False, child_submissions = Some True, rollback_ok = True, admission_turn = Some True,
     tx_repo = demo_env (\<lambda>n. Delivered), commit = Delivered\<rparr>"

theorem refresh_batches_all_or_nothing_witness:
  "\<exists>e n count.
    enqueue_refresh_jobs_with_priority demo_ingest_lib (\<lambda>k. demo_tx) Movie [1] 5 CatalogOnly ''busy'' empty_queue
      = (Inl e, empty_queue) \<and> 500 * n < (1::nat) \<and>
    enqueue_refresh_jobs_with_priority demo_ingest_lib (\<lambda>k. demo_tx) Movie (take (500 * n) [1]) 5 CatalogOnly ''busy''
      empty_queue = (Inr count, empty_queue)"
proof -
  have "chunks_of 500 [1::nat] = [[1]]" by (simp add: chunks_of.simps)
  then obtain e where run: "enqueue_refresh_jobs_with_priority demo_ingest_lib (\<lambda>k. demo_tx) Movie [1] 5 CatalogOnly
      ''busy'' empty_queue = (Inl e, empty_queue)"
    by (cases "refresh_job demo_ingest_lib Movie 1 5 CatalogOnly")
      (simp_all add: enqueue_refresh_jobs_with_priority_def submit_refresh_jobs_with_capacity_def)
  from refresh_batches_all_or_nothing [OF run] run show ?thesis by auto
qed

end
