(* ===== verification/Catalog_Scan.thy ===== *)
theory Catalog_Scan
  imports Ingest_Submission
begin

text \<open>
  The phases of a catalog scan, in \<open>src/apps/tmdb-ingest/src/jobs.rs\<close>: enrichment and season batches
  read by keyset paging, the waiting polls, and the completion that advances the synchronization
  state (\<open>ops.complete_catalog_sync\<close>). The tables \<open>catalog.titles\<close>, \<open>catalog.seasons\<close> and
  \<open>ops.catalog_sync_state\<close> are lists and maps of rows; every statement may fail.
\<close>

section \<open>Tables\<close>

record title_row =
  ct_id :: int
  ct_tmdb_id :: int
  ct_media :: string
  ct_active :: bool
  ct_enriched :: bool
  ct_sourced :: bool
  ct_titled :: bool

record season_row =
  cs_id :: int
  cs_title_id :: int
  cs_number :: int
  cs_enriched :: bool

record sync_row =
  sync_end :: "int option"
  sweep_required :: bool

record scan_world =
  w_queue :: job_queue
  w_sync :: "string \<Rightarrow> sync_row option"
  w_titles :: "title_row list"
  w_seasons :: "season_row list"

record scan_env =
  today :: int
  clock_us :: int
  rows_ok :: bool
  work_ok :: bool
  failures_ok :: bool
  state_ok :: bool
  sync_call :: delivery
  scan_tx :: "nat \<Rightarrow> tx_env"

text \<open>\<open>ops.complete_catalog_sync\<close> and \<open>ops.mark_catalog_full_sweep_required\<close>; \<open>FOUND\<close> tells of the last
  \<open>UPDATE\<close>.\<close>

definition complete_catalog_sync ::
    "string \<Rightarrow> int \<Rightarrow> (string \<Rightarrow> sync_row option) \<Rightarrow> (string + bool) \<times> (string \<Rightarrow> sync_row option)" where
  "complete_catalog_sync mode until s =
     (if mode \<notin> {''daily_sync'', ''missing_only'', ''reconcile'', ''full_sweep''} then (Inl ''22023'', s)
      else
        let s1 = (case s mode of None \<Rightarrow> s
           | Some r \<Rightarrow> s(mode \<mapsto>
               \<lparr>sync_end = Some (case sync_end r of None \<Rightarrow> until | Some e \<Rightarrow> max e until),
                sweep_required = (if mode = ''daily_sync'' then False else sweep_required r)\<rparr>))
        in if mode \<noteq> ''full_sweep'' then (Inr (s mode \<noteq> None), s1)
           else
             (Inr (s1 ''daily_sync'' \<noteq> None),
              case s1 ''daily_sync'' of None \<Rightarrow> s1
              | Some r \<Rightarrow> s1(''daily_sync'' \<mapsto> \<lparr>sync_end = Some until, sweep_required = False\<rparr>)))"

definition mark_catalog_full_sweep_required ::
    "(string \<Rightarrow> sync_row option) \<Rightarrow> (string + bool) \<times> (string \<Rightarrow> sync_row option)" where
  "mark_catalog_full_sweep_required s =
     (Inr (s ''daily_sync'' \<noteq> None),
      case s ''daily_sync'' of None \<Rightarrow> s
      | Some r \<Rightarrow> s(''daily_sync'' \<mapsto> r\<lparr>sweep_required := True\<rparr>))"

definition sync_query ::
    "delivery \<Rightarrow> ((string \<Rightarrow> sync_row option) \<Rightarrow> (string + bool) \<times> (string \<Rightarrow> sync_row option)) \<Rightarrow>
     scan_world \<Rightarrow> (job_execution_error + bool) \<times> scan_world" where
  "sync_query d f w =
     (case db_call d f (w_sync w) of (r, s) \<Rightarrow> (map_errR (\<lambda>_. database_retry) r, w\<lparr>w_sync := s\<rparr>))"

section \<open>Batches\<close>

definition catalog_enrichment_batch_size :: nat where "catalog_enrichment_batch_size = 100"
definition catalog_season_batch_size :: nat where "catalog_season_batch_size = 25"
definition catalog_refresh_batch_size :: nat where "catalog_refresh_batch_size = 500"

record catalog_phase_batch =
  pb_queued :: nat
  pb_next_cursor :: nat
  pb_done :: bool

text \<open>\<open>WHERE .. AND id > $cursor ORDER BY id LIMIT n\<close>.\<close>

definition scan_page :: "('a \<Rightarrow> int) \<Rightarrow> nat \<Rightarrow> ('a \<Rightarrow> bool) \<Rightarrow> nat \<Rightarrow> 'a list \<Rightarrow> 'a list" where
  "scan_page key limit sel cursor rows =
     take limit (sort_key key (filter (\<lambda>r. sel r \<and> int cursor < key r) rows))"

definition next_row_cursor :: "nat \<Rightarrow> int list \<Rightarrow> job_execution_error + nat" where
  "next_row_cursor cursor ids =
     (if ids = [] then Inr cursor else if last ids < 0 then Inl invalid_payload else Inr (nat (last ids)))"

text \<open>What the three batch functions have in common: one row more than the batch is read to know
  whether it is the last, the jobs are built and submitted, and the cursor moves to the last row.\<close>

definition phase_batch ::
    "bool \<Rightarrow> ('a \<Rightarrow> int) \<Rightarrow> nat \<Rightarrow> ('a \<Rightarrow> bool) \<Rightarrow> 'a list \<Rightarrow> ('a \<Rightarrow> job_execution_error + new_job) \<Rightarrow>
     (new_job list \<Rightarrow> job_queue \<Rightarrow> (job_execution_error + nat) \<times> job_queue) \<Rightarrow> nat \<Rightarrow> job_queue \<Rightarrow>
     (job_execution_error + catalog_phase_batch) \<times> job_queue" where
  "phase_batch answered key lim sel table build submit cursor q =
     (if cursor > i64_max then (Inl invalid_payload, q)
      else if \<not> answered then (Inl database_retry, q)
      else
        let rows = scan_page key (lim + 1) sel cursor table;
            page = take lim rows
        in case collectR (map build page) of
             Inl e \<Rightarrow> (Inl e, q)
           | Inr jobs \<Rightarrow>
               (case submit jobs q of
                  (Inl e, q') \<Rightarrow> (Inl e, q')
                | (Inr n, q') \<Rightarrow>
                    (mapR (\<lambda>c. \<lparr>pb_queued = n, pb_next_cursor = c, pb_done = (length rows \<le> lim)\<rparr>)
                       (next_row_cursor cursor (map key page)), q')))"

definition submit_children :: "tx_env \<Rightarrow> new_job list \<Rightarrow> job_queue \<Rightarrow> (job_execution_error + nat) \<times> job_queue" where
  "submit_children tx jobs q =
     (if jobs = [] then (Inr 0, q)
      else case submit_ingest_child_jobs tx jobs q of
        (r, q') \<Rightarrow> (mapR (\<lambda>outs. length (filter (\<lambda>out. \<not> so_duplicate out) outs)) r, q'))"

definition missing_title :: "media_type list \<Rightarrow> title_row \<Rightarrow> bool" where
  "missing_title ms r \<longleftrightarrow> ct_active r \<and> ct_media r \<in> set (map media_type_as_str ms) \<and> (\<not> ct_sourced r \<or> \<not> ct_titled r)"

definition enqueue_missing_catalog_refresh_batch ::
    "ingest_lib \<Rightarrow> scan_env \<Rightarrow> tx_env \<Rightarrow> media_type list \<Rightarrow> nat \<Rightarrow> scan_world \<Rightarrow>
     (job_execution_error + catalog_phase_batch) \<times> scan_world" where
  "enqueue_missing_catalog_refresh_batch lib env tx ms cursor w =
     (case phase_batch (rows_ok env) ct_id catalog_refresh_batch_size (missing_title ms) (w_titles w)
             (\<lambda>r. missing_refresh_job lib (ct_media r) (ct_tmdb_id r))
             (\<lambda>jobs. submit_refresh_jobs_with_capacity tx jobs ''missing_queue_full'') cursor (w_queue w) of
        (r, q) \<Rightarrow> (r, w\<lparr>w_queue := q\<rparr>))"

text \<open>Which rows a mode looks at: all of them, or those not yet enriched; none for the other modes.\<close>

definition enrichment_rows :: "admin_scan_mode \<Rightarrow> media_type \<Rightarrow> (title_row \<Rightarrow> bool) option" where
  "enrichment_rows mode m =
     (case mode of
        FullSweep \<Rightarrow> Some (\<lambda>r. ct_active r \<and> ct_media r = media_type_as_str m)
      | Recovery \<Rightarrow> Some (\<lambda>r. ct_active r \<and> ct_media r = media_type_as_str m \<and> \<not> ct_enriched r)
      | Reconcile \<Rightarrow> Some (\<lambda>r. ct_active r \<and> ct_media r = media_type_as_str m \<and> \<not> ct_enriched r)
      | MissingOnly \<Rightarrow> Some (\<lambda>r. ct_active r \<and> ct_media r = media_type_as_str m \<and> \<not> ct_enriched r)
      | _ \<Rightarrow> None)"

definition enqueue_catalog_enrichment_batch ::
    "ingest_lib \<Rightarrow> scan_env \<Rightarrow> tx_env \<Rightarrow> admin_scan_mode \<Rightarrow> media_type \<Rightarrow> nat \<Rightarrow> scan_world \<Rightarrow>
     (job_execution_error + catalog_phase_batch) \<times> scan_world" where
  "enqueue_catalog_enrichment_batch lib env tx mode m cursor w =
     (case enrichment_rows mode m of
        None \<Rightarrow> (Inl invalid_payload, w)
      | Some sel \<Rightarrow>
          (case phase_batch (rows_ok env) ct_id catalog_enrichment_batch_size sel (w_titles w)
                  (\<lambda>r. enrichment_job lib m (ct_tmdb_id r)) (submit_children tx) cursor (w_queue w) of
             (r, q) \<Rightarrow> (r, w\<lparr>w_queue := q\<rparr>)))"

text \<open>A season joined with its title: its id, the show's TMDB id, the season number.\<close>

definition season_rows :: "admin_scan_mode \<Rightarrow> scan_world \<Rightarrow> (int \<times> int \<times> int) list option" where
  "season_rows mode w =
     (let joined = (\<lambda>sel. concat (map (\<lambda>s.
            map (\<lambda>t. (cs_id s, ct_tmdb_id t, cs_number s))
              (filter (\<lambda>t. ct_id t = cs_title_id s \<and> ct_active t \<and> ct_media t = ''tv'' \<and> sel s) (w_titles w)))
            (w_seasons w)))
      in case mode of
           FullSweep \<Rightarrow> Some (joined (\<lambda>s. True))
         | Recovery \<Rightarrow> Some (joined (\<lambda>s. \<not> cs_enriched s))
         | Reconcile \<Rightarrow> Some (joined (\<lambda>s. \<not> cs_enriched s))
         | MissingOnly \<Rightarrow> Some (joined (\<lambda>s. \<not> cs_enriched s))
         | _ \<Rightarrow> None)"

definition enqueue_catalog_season_batch ::
    "ingest_lib \<Rightarrow> scan_env \<Rightarrow> tx_env \<Rightarrow> admin_scan_mode \<Rightarrow> nat \<Rightarrow> scan_world \<Rightarrow>
     (job_execution_error + catalog_phase_batch) \<times> scan_world" where
  "enqueue_catalog_season_batch lib env tx mode cursor w =
     (case season_rows mode w of
        None \<Rightarrow> (Inl invalid_payload, w)
      | Some rows \<Rightarrow>
          (case phase_batch (rows_ok env) fst catalog_season_batch_size (\<lambda>r. True) rows
                  (\<lambda>(i, tmdb_id, number). season_job lib tmdb_id number) (submit_children tx) cursor (w_queue w) of
             (r, q) \<Rightarrow> (r, w\<lparr>w_queue := q\<rparr>)))"

section \<open>What the queue says about a scan\<close>

definition catalog_completion_has_active_work :: "scan_env \<Rightarrow> job_queue \<Rightarrow> job_execution_error + bool" where
  "catalog_completion_has_active_work env q =
     (if \<not> work_ok env then Inl database_retry
      else Inr (list_ex (\<lambda>r. active (jr_status r) \<and> prefix ''ingest.'' (jr_type r)) (q_rows q)))"

definition catalog_only :: "job_row \<Rightarrow> bool" where
  "catalog_only r \<longleftrightarrow> json_get (jr_payload r) ''scope'' = Some (JStr ''catalog_only'')"

definition catalog_scan_phase_has_active_work ::
    "scan_env \<Rightarrow> admin_scan_phase \<Rightarrow> job_queue \<Rightarrow> job_execution_error + bool" where
  "catalog_scan_phase_has_active_work env phase q =
     (if \<not> work_ok env then Inl database_retry
      else Inr (list_ex (\<lambda>r. active (jr_status r) \<and>
        (jr_type r = ''ingest.daily_export'' \<or>
         jr_type r \<in> {''ingest.refresh_movie'', ''ingest.refresh_tv'', ''ingest.enrich_movie'', ''ingest.enrich_tv''} \<and>
           catalog_only r \<or>
         phase = Seasons \<and> jr_type r = ''ingest.refresh_season'' \<and> catalog_only r)) (q_rows q)))"

text \<open>The newest scan of the mode that started without a phase.\<close>

definition scan_roots :: "admin_scan_mode \<Rightarrow> job_queue \<Rightarrow> int list" where
  "scan_roots mode q =
     map jr_created_at (filter (\<lambda>r. jr_type r = ''admin.scan'' \<and>
       json_get (jr_payload r) ''mode'' = Some (JStr (scan_mode_name mode)) \<and>
       json_get (jr_payload r) ''phase'' = None) (q_rows q))"

definition recovered_by :: "job_row \<Rightarrow> job_row \<Rightarrow> bool" where
  "recovered_by failed r \<longleftrightarrow> jr_type r = jr_type failed \<and> jr_dedup_key r = jr_dedup_key failed \<and>
     jr_status r = Succeeded \<and>
     (case (jr_finished_at r, jr_finished_at failed) of (Some a, Some b) \<Rightarrow> b < a | _ \<Rightarrow> False)"

definition unresolved :: "int \<Rightarrow> job_queue \<Rightarrow> job_row \<Rightarrow> bool" where
  "unresolved started q r \<longleftrightarrow> jr_status r = DeadLetter \<and> prefix ''ingest.'' (jr_type r) \<and>
     started \<le> jr_created_at r \<and> \<not> list_ex (recovered_by r) (q_rows q)"

definition catalog_completion_has_unresolved_failures ::
    "scan_env \<Rightarrow> admin_scan_mode \<Rightarrow> job_queue \<Rightarrow> job_execution_error + bool" where
  "catalog_completion_has_unresolved_failures env mode q =
     (if \<not> failures_ok env then Inl database_retry
      else Inr (case scan_roots mode q of
          [] \<Rightarrow> True
        | t # ts \<Rightarrow> list_ex (unresolved (fold max ts t) q) (q_rows q)))"

section \<open>One job of a scan\<close>

text \<open>Building and submitting one child; whether it is new.\<close>

definition submit_scan_child ::
    "tx_env \<Rightarrow> job_execution_error + new_job \<Rightarrow> scan_world \<Rightarrow> (job_execution_error + bool) \<times> scan_world" where
  "submit_scan_child tx job w =
     (case job of
        Inl e \<Rightarrow> (Inl e, w)
      | Inr j \<Rightarrow>
          (case submit_ingest_child_job tx j (w_queue w) of
             (r, q) \<Rightarrow> (mapR (\<lambda>out. case out of None \<Rightarrow> False | Some x \<Rightarrow> \<not> so_duplicate x) r, w\<lparr>w_queue := q\<rparr>)))"

definition scan_report :: "admin_scan_mode \<Rightarrow> media_type list \<Rightarrow> admin_scan_phase \<Rightarrow> (string \<times> json) list \<Rightarrow> json" where
  "scan_report mode ms phase kvs =
     JObj ([(''mode'', JStr (scan_mode_name mode)),
            (''media_types'', JArr (map (\<lambda>m. JStr (media_type_as_str m)) ms)),
            (''phase'', JStr (phase_text phase))] @ kvs)"

text \<open>Waiting: the same phase again, with the next poll number.\<close>

definition wait_again ::
    "ingest_lib \<Rightarrow> scan_env \<Rightarrow> admin_scan_mode \<Rightarrow> media_type list \<Rightarrow> admin_scan_phase \<Rightarrow> nat \<Rightarrow> nat \<Rightarrow>
     int option \<Rightarrow> int option \<Rightarrow> json \<Rightarrow> scan_world \<Rightarrow> (job_execution_error + json) \<times> scan_world" where
  "wait_again lib env mode ms phase cursor poll a b report w =
     (if poll + 1 > u32_max then (Inl invalid_payload, w)
      else case submit_scan_child (scan_tx env 0)
             (admin_scan_job_with_window lib (clock_us env) mode ms phase cursor (poll + 1) a b) w of
        (r, w') \<Rightarrow> (mapR (\<lambda>_. report) r, w'))"

definition execute_scan_completion ::
    "ingest_lib \<Rightarrow> scan_env \<Rightarrow> admin_scan_mode \<Rightarrow> media_type list \<Rightarrow> nat \<Rightarrow> nat \<Rightarrow> int option \<Rightarrow> int option \<Rightarrow>
     scan_world \<Rightarrow> (job_execution_error + json) \<times> scan_world" where
  "execute_scan_completion lib env mode ms cursor poll a b w =
     (if mode = PruneCleanup then (Inl invalid_payload, w)
      else case catalog_completion_has_active_work env (w_queue w) of
        Inl e \<Rightarrow> (Inl e, w)
      | Inr True \<Rightarrow>
          wait_again lib env mode ms Completion cursor poll a b
            (scan_report mode ms Completion [(''poll'', JInt (int poll)), (''waiting'', JBool True)]) w
      | Inr False \<Rightarrow>
          (case catalog_completion_has_unresolved_failures env mode (w_queue w) of
             Inl e \<Rightarrow> (Inl e, w)
           | Inr True \<Rightarrow>
               (Inr (scan_report mode ms Completion
                  [(''completed'', JBool False), (''watermark_advanced'', JBool False),
                   (''failure_reason'', JStr ''unresolved_child_jobs'')]), w)
           | Inr False \<Rightarrow>
               let until = (case b of None \<Rightarrow> today env | Some d \<Rightarrow> d)
               in (case (if mode = Recovery then (Inr True, w)
                         else sync_query (sync_call env) (complete_catalog_sync (scan_mode_name mode) until) w) of
                     (r, w') \<Rightarrow>
                       (mapR (\<lambda>advanced. scan_report mode ms Completion
                          [(''completed_for'', JStr (iso_date lib until)), (''watermark_advanced'', JBool advanced)]) r,
                        w'))))"

text \<open>The job after a batch.\<close>

definition next_scan_job ::
    "ingest_lib \<Rightarrow> scan_env \<Rightarrow> admin_scan_mode \<Rightarrow> media_type list \<Rightarrow> media_type \<Rightarrow> admin_scan_phase \<Rightarrow>
     int option \<Rightarrow> int option \<Rightarrow> catalog_phase_batch \<Rightarrow> job_execution_error + new_job" where
  "next_scan_job lib env mode ms m phase a b batch =
     (if \<not> pb_done batch
      then admin_scan_job_with_window lib (clock_us env) mode ms phase (pb_next_cursor batch) 0 a b
      else if phase = Enrichment \<and> m = Tv then admin_scan_job lib (clock_us env) mode ms Seasons 0 0
      else admin_scan_job_with_window lib (clock_us env) mode ms Completion 0 0 a b)"

definition execute_catalog_scan_phase ::
    "ingest_lib \<Rightarrow> scan_env \<Rightarrow> admin_scan_mode \<Rightarrow> media_type list \<Rightarrow> admin_scan_phase \<Rightarrow> nat \<Rightarrow> nat \<Rightarrow>
     int option \<Rightarrow> int option \<Rightarrow> scan_world \<Rightarrow> (job_execution_error + json) \<times> scan_world" where
  "execute_catalog_scan_phase lib env mode ms phase cursor poll a b w =
     (if phase = Completion then execute_scan_completion lib env mode ms cursor poll a b w
      else if mode \<notin> {FullSweep, Recovery, Reconcile, MissingOnly} \<or> length ms \<noteq> 1 then (Inl invalid_payload, w)
      else case catalog_scan_phase_has_active_work env phase (w_queue w) of
        Inl e \<Rightarrow> (Inl e, w)
      | Inr True \<Rightarrow>
          wait_again lib env mode ms phase cursor poll a b
            (scan_report mode ms phase
               [(''cursor'', JInt (int cursor)), (''poll'', JInt (int poll)), (''waiting'', JBool True)]) w
      | Inr False \<Rightarrow>
          (case (if phase = Enrichment
                 then enqueue_catalog_enrichment_batch lib env (scan_tx env 0) mode (hd ms) cursor w
                 else if phase = Seasons \<and> hd ms = Tv
                 then enqueue_catalog_season_batch lib env (scan_tx env 0) mode cursor w
                 else (Inl invalid_payload, w)) of
             (Inl e, w1) \<Rightarrow> (Inl e, w1)
           | (Inr batch, w1) \<Rightarrow>
               (case submit_scan_child (scan_tx env 1) (next_scan_job lib env mode ms (hd ms) phase a b batch) w1 of
                  (r, w2) \<Rightarrow>
                    (mapR (\<lambda>_. scan_report mode ms phase
                       [(''queued'', JInt (int (pb_queued batch))), (''cursor'', JInt (int cursor)),
                        (''next_cursor'', JInt (int (pb_next_cursor batch))),
                        (''continued'', JBool (\<not> pb_done batch))]) r, w2))))"

section \<open>Following the batches of a phase\<close>

text \<open>The batches of the jobs that follow one another while the catalog does not change.\<close>

fun follow_scan ::
    "(nat \<Rightarrow> nat \<Rightarrow> 'w \<Rightarrow> (job_execution_error + catalog_phase_batch) \<times> 'w) \<Rightarrow> nat \<Rightarrow> nat \<Rightarrow> nat \<Rightarrow> 'w \<Rightarrow>
     ((job_execution_error + unit) \<times> 'w) option" where
  "follow_scan batch 0 k cursor w = None"
| "follow_scan batch (Suc n) k cursor w =
     (case batch k cursor w of
        (Inl e, w') \<Rightarrow> Some (Inl e, w')
      | (Inr b, w') \<Rightarrow>
          if pb_done b then Some (Inr (), w') else follow_scan batch n (Suc k) (pb_next_cursor b) w')"

text \<open>
  The contract of a batch operation: \<open>pending\<close> are the row ids it has to visit, \<open>lim\<close> its size,
  \<open>covered\<close> what it has done for a row.
\<close>

locale paged_scan =
  fixes batch :: "nat \<Rightarrow> nat \<Rightarrow> 'w \<Rightarrow> (job_execution_error + catalog_phase_batch) \<times> 'w"
    and pending :: "'w \<Rightarrow> int set" and lim :: nat and covered :: "'w \<Rightarrow> int \<Rightarrow> bool"
    and good :: "'w \<Rightarrow> bool"
  assumes stable: "batch k c w = (r, w') \<Longrightarrow> good w \<Longrightarrow> good w' \<and> pending w' = pending w"
    and finite_pending: "finite (pending w)"
    and progress: "batch k c w = (Inr b, w') \<Longrightarrow> good w \<Longrightarrow> \<not> pb_done b \<Longrightarrow>
      lim + card {i \<in> pending w. int (pb_next_cursor b) < i} \<le> card {i \<in> pending w. int c < i}"
    and cover: "batch k c w = (Inr b, w') \<Longrightarrow> good w \<Longrightarrow> i \<in> pending w \<Longrightarrow> int c < i \<Longrightarrow>
      covered w' i \<or> \<not> pb_done b \<and> int (pb_next_cursor b) < i"
    and kept: "batch k c w = (Inr b, w') \<Longrightarrow> good w \<Longrightarrow> covered w i \<Longrightarrow> covered w' i"
begin

lemma follow_ends:
  "good w \<Longrightarrow> card {i \<in> pending w. int c < i} < lim * n \<Longrightarrow> follow_scan batch n k c w \<noteq> None"
proof (induction n arbitrary: k c w)
  case (Suc n)
  obtain x w' where x: "batch k c w = (x, w')" by fastforce
  show ?case
  proof (cases x)
    case (Inr b)
    show ?thesis
    proof (cases "pb_done b")
      case False
      then have "lim + card {i \<in> pending w'. int (pb_next_cursor b) < i} \<le> card {i \<in> pending w. int c < i}"
        using progress [of k c w b w'] stable [OF x] x Inr Suc.prems(1) by simp
      then have "follow_scan batch n (Suc k) (pb_next_cursor b) w' \<noteq> None"
        using Suc.prems stable [OF x] by (intro Suc.IH) simp_all
      then show ?thesis using x Inr False by simp
    qed (use x Inr in simp)
  qed (use x in simp)
qed simp

lemma follow_stable: "follow_scan batch n k c w = Some (r, w') \<Longrightarrow> good w \<Longrightarrow> good w'"
proof (induction n arbitrary: k c w)
  case (Suc n)
  obtain x w1 where x: "batch k c w = (x, w1)" by fastforce
  show ?case using Suc.prems Suc.IH x stable [OF x] by (auto split: sum.splits if_splits)
qed simp

lemma follow_kept:
  "follow_scan batch n k c w = Some (Inr (), w') \<Longrightarrow> good w \<Longrightarrow> covered w i \<Longrightarrow> covered w' i"
proof (induction n arbitrary: k c w)
  case (Suc n)
  then obtain b w1 where b: "batch k c w = (Inr b, w1)" by (auto split: prod.splits sum.splits)
  show ?case using Suc.prems Suc.IH [of "Suc k" "pb_next_cursor b" w1] b kept [OF b] stable [OF b]
    by (auto split: if_splits)
qed simp

lemma follow_covers:
  "follow_scan batch n k c w = Some (Inr (), w') \<Longrightarrow> good w \<Longrightarrow> i \<in> pending w \<Longrightarrow> int c < i \<Longrightarrow> covered w' i"
proof (induction n arbitrary: k c w)
  case (Suc n)
  then obtain b w1 where b: "batch k c w = (Inr b, w1)" by (auto split: prod.splits sum.splits)
  note st = stable [OF b Suc.prems(2)]
  show ?case
  proof (cases "pb_done b")
    case True
    then show ?thesis using Suc.prems b cover [OF b] by auto
  next
    case False
    then have rest: "follow_scan batch n (Suc k) (pb_next_cursor b) w1 = Some (Inr (), w')" using Suc.prems(1) b by simp
    from cover [OF b Suc.prems(2-4)] show ?thesis
      using Suc.IH [OF rest] follow_kept [OF rest] st Suc.prems by auto
  qed
qed simp

end

section \<open>A page and what lies beyond it\<close>

lemma sorted_beyond:
  fixes xs :: "int list"
  assumes "sorted xs" "distinct xs" "0 < n" "n < length xs"
  shows "{i \<in> set xs. last (take n xs) < i} = set (drop n xs)"
proof -
  have ne: "take n xs \<noteq> []" using assms(3,4) by auto
  then have split: "xs = butlast (take n xs) @ last (take n xs) # drop n xs"
    by (metis append_take_drop_id append_butlast_last_id append.assoc append_Cons append_Nil)
  have "sorted (butlast (take n xs) @ last (take n xs) # drop n xs)"
      "distinct (butlast (take n xs) @ last (take n xs) # drop n xs)"
    using assms(1,2) split by simp_all
  then have "\<forall>i\<in>set (butlast (take n xs)). i \<le> last (take n xs)" "\<forall>i\<in>set (drop n xs). last (take n xs) < i"
    by (auto simp: sorted_append less_le)
  moreover have "set xs = set (butlast (take n xs)) \<union> {last (take n xs)} \<union> set (drop n xs)"
    by (subst split) auto
  ultimately show ?thesis by force
qed

definition ids_of :: "('a \<Rightarrow> int) \<Rightarrow> ('a \<Rightarrow> bool) \<Rightarrow> 'a list \<Rightarrow> int set" where
  "ids_of key sel table = key ` {r \<in> set table. sel r}"

lemma finite_ids_of [simp]: "finite (ids_of key sel table)"
  by (simp add: ids_of_def)

lemma phase_batch_page:
  assumes "phase_batch answered key lim sel table build submit c q = (Inr b, q')"
    and "distinct (map key table)" "0 < lim"
  shows "\<exists>page jobs n. submit jobs q = (Inr n, q') \<and> collectR (map build page) = Inr jobs \<and>
    set page \<subseteq> {r \<in> set table. sel r \<and> int c < key r} \<and>
    (pb_done b \<longrightarrow> key ` set page = {i \<in> ids_of key sel table. int c < i}) \<and>
    (\<not> pb_done b \<longrightarrow> length page = lim \<and>
       {i \<in> ids_of key sel table. int c < i} = key ` set page \<union> {i \<in> ids_of key sel table. int (pb_next_cursor b) < i} \<and>
       card {i \<in> ids_of key sel table. int c < i} = lim + card {i \<in> ids_of key sel table. int (pb_next_cursor b) < i})"
proof -
  define all where "all = sort_key key (filter (\<lambda>r. sel r \<and> int c < key r) table)"
  define page where "page = take lim all"
  have rows: "scan_page key (lim + 1) sel c table = take (lim + 1) all" by (simp add: scan_page_def all_def)
  have page_eq: "take lim (take (lim + 1) all) = page" by (simp add: page_def min_def)
  obtain jobs n cur where jobs: "collectR (map build page) = Inr jobs" "submit jobs q = (Inr n, q')"
      and cur: "next_row_cursor c (map key page) = Inr cur"
      and b: "b = \<lparr>pb_queued = n, pb_next_cursor = cur, pb_done = (length (take (lim + 1) all) \<le> lim)\<rparr>"
    using assms(1) unfolding phase_batch_def rows Let_def page_eq
    by (auto split: if_splits sum.splits prod.splits simp: result_simps)
  let ?keys = "map key all"
  have set_all: "set all = {r \<in> set table. sel r \<and> int c < key r}" by (simp add: all_def)
  have sorted: "sorted ?keys" by (simp add: all_def)
  have "distinct (map key (filter (\<lambda>r. sel r \<and> int c < key r) table))" using assms(2) by (rule distinct_map_filter)
  then have dist: "distinct ?keys" by (simp add: all_def distinct_map)
  have keys: "set ?keys = {i \<in> ids_of key sel table. int c < i}" using set_all by (auto simp: ids_of_def)
  have sub: "set page \<subseteq> {r \<in> set table. sel r \<and> int c < key r}"
    unfolding set_all [symmetric] page_def by (rule set_take_subset)
  show ?thesis
  proof (cases "length all \<le> lim")
    case True
    then have "page = all" "pb_done b" by (simp_all add: page_def b)
    then show ?thesis using jobs sub keys by auto
  next
    case False
    then have nd: "\<not> pb_done b" "page \<noteq> []" using assms(3) by (auto simp: b page_def)
    have last: "last (map key page) = last (take lim ?keys)" by (simp add: page_def take_map)
    have "last (map key page) \<in> key ` set page" using nd(2) by (simp add: last_map)
    then have "int c < last (map key page)" using sub by auto
    then have cur': "int cur = last (take lim ?keys)"
      using cur nd(2) last by (auto simp: next_row_cursor_def split: if_splits)
    have beyond: "{i \<in> set ?keys. int cur < i} = set (drop lim ?keys)"
      unfolding cur' using sorted dist assms(3) False by (intro sorted_beyond) simp_all
    have "{i \<in> ids_of key sel table. int cur < i} = {i \<in> set ?keys. int cur < i}"
      unfolding keys using cur' last \<open>int c < last (map key page)\<close> by auto
    then have past: "{i \<in> ids_of key sel table. int (pb_next_cursor b) < i} = set (drop lim ?keys)"
      using beyond by (simp add: b)
    have "card (set (drop lim ?keys)) = length all - lim" using dist by (simp add: distinct_card)
    moreover have "card {i \<in> ids_of key sel table. int c < i} = length all"
      unfolding keys [symmetric] using dist distinct_card by fastforce
    moreover have "{i \<in> ids_of key sel table. int c < i} = key ` set page \<union> set (drop lim ?keys)"
      unfolding keys [symmetric] page_def
      by (metis append_take_drop_id set_append set_map take_map)
    moreover have "length page = lim" using False by (simp add: page_def)
    ultimately show ?thesis using jobs sub nd(1) past False by (intro exI [of _ page] exI [of _ jobs] exI [of _ n]) simp
  qed
qed

lemma batch_next:
  assumes "phase_batch answered key lim sel table build submit c q = (Inr b, q')" "\<not> pb_done b" "0 < lim"
  shows "c < pb_next_cursor b \<and> int (pb_next_cursor b) \<in> ids_of key sel table"
proof -
  define page where "page = take lim (scan_page key (lim + 1) sel c table)"
  have b: "\<not> length (scan_page key (lim + 1) sel c table) \<le> lim"
      "next_row_cursor c (map key page) = Inr (pb_next_cursor b)"
    using assms(1,2) by (auto simp: phase_batch_def Let_def page_def result_simps split: if_splits sum.splits prod.splits)
  then have ne: "page \<noteq> []" using assms(3) by (auto simp: page_def)
  then have "last page \<in> set (sort_key key (filter (\<lambda>r. sel r \<and> int c < key r) table))"
    by (metis last_in_set in_set_takeD page_def scan_page_def)
  then have mem: "last page \<in> {r \<in> set table. sel r}" "int c < key (last page)" by auto
  then have "int (pb_next_cursor b) = key (last page)"
    using b(2) ne by (auto simp: next_row_cursor_def last_map split: if_splits)
  then show ?thesis using mem by (simp add: ids_of_def)
qed

text \<open>A job that could be built and is in the queue.\<close>

definition made_recorded :: "job_queue \<Rightarrow> job_execution_error + new_job \<Rightarrow> bool" where
  "made_recorded q r \<longleftrightarrow> (\<exists>j. r = Inr j \<and> job_recorded q j)"

lemma batch_progress:
  assumes "phase_batch answered key lim sel table build submit c q = (Inr b, q')"
    and "distinct (map key table)" "0 < lim" "\<not> pb_done b"
  shows "lim + card {i \<in> ids_of key sel table. int (pb_next_cursor b) < i} \<le> card {i \<in> ids_of key sel table. int c < i}"
  using phase_batch_page [OF assms(1-3)] assms(4) by auto

lemma batch_cover:
  assumes "phase_batch answered key lim sel table build submit c q = (Inr b, q')"
    and "distinct (map key table)" "0 < lim"
    and recorded: "\<And>jobs n. submit jobs q = (Inr n, q') \<Longrightarrow> list_all (job_recorded q') jobs"
    and r: "r \<in> set table" "sel r" "int c < key r"
  shows "made_recorded q' (build r) \<or> \<not> pb_done b \<and> int (pb_next_cursor b) < key r"
proof -
  obtain page jobs n where page: "submit jobs q = (Inr n, q')" "collectR (map build page) = Inr jobs"
      "set page \<subseteq> {r \<in> set table. sel r \<and> int c < key r}"
      "pb_done b \<longrightarrow> key ` set page = {i \<in> ids_of key sel table. int c < i}"
      "\<not> pb_done b \<longrightarrow> {i \<in> ids_of key sel table. int c < i} =
         key ` set page \<union> {i \<in> ids_of key sel table. int (pb_next_cursor b) < i}"
    using phase_batch_page [OF assms(1-3)] by blast
  have built: "list_all2 (\<lambda>r j. build r = Inr j) page jobs" using page(2) by (simp add: collectR_Inr_iff)
  have done_page: "made_recorded q' (build x)" if "x \<in> set page" for x
    using that built recorded [OF page(1)]
    by (fastforce simp: made_recorded_def list_all2_conv_all_nth in_set_conv_nth list_all_length)
  have "key r \<in> {i \<in> ids_of key sel table. int c < i}" using r by (auto simp: ids_of_def)
  then have "key r \<in> key ` set page \<or> \<not> pb_done b \<and> int (pb_next_cursor b) < key r"
    using page(4,5) by (cases "pb_done b") auto
  then consider x where "x \<in> set page" "key x = key r" | "\<not> pb_done b" "int (pb_next_cursor b) < key r"
    by (metis imageE)
  then show ?thesis
  proof cases
    case 1
    then have "x = r" using assms(2) r(1) page(3) by (auto simp: distinct_map inj_on_def)
    then show ?thesis using done_page 1(1) by blast
  qed blast
qed

lemma submit_children_ok:
  assumes "submit_children tx jobs q = (Inr n, q')"
  shows "(job_recorded q j \<longrightarrow> job_recorded q' j) \<and>
    (child_submissions tx = Some True \<longrightarrow> list_all (job_recorded q') jobs)"
proof (cases "jobs = []")
  case False
  then obtain outs where "submit_ingest_child_jobs tx jobs q = (Inr outs, q')"
    using assms by (auto simp: submit_children_def result_simps split: prod.splits)
  from child_jobs_ok [OF this] show ?thesis by (simp add: job_recorded_def)
qed (use assms in \<open>simp add: submit_children_def\<close>)

lemma phase_batch_submitted:
  "phase_batch answered key lim sel table build submit c q = (Inr b, q') \<Longrightarrow> \<exists>jobs n. submit jobs q = (Inr n, q')"
  by (auto simp: phase_batch_def Let_def split: if_splits sum.splits prod.splits)

section \<open>The phases meet the contract\<close>

definition enrichment_pending :: "admin_scan_mode \<Rightarrow> media_type \<Rightarrow> scan_world \<Rightarrow> int set" where
  "enrichment_pending mode m w =
     (case enrichment_rows mode m of None \<Rightarrow> {} | Some sel \<Rightarrow> ids_of ct_id sel (w_titles w))"

definition enrichment_covered ::
    "ingest_lib \<Rightarrow> (nat \<Rightarrow> tx_env) \<Rightarrow> admin_scan_mode \<Rightarrow> media_type \<Rightarrow> scan_world \<Rightarrow> int \<Rightarrow> bool" where
  "enrichment_covered lib tx mode m w i \<longleftrightarrow>
     ((\<forall>k. child_submissions (tx k) = Some True) \<longrightarrow>
       (\<forall>sel t. enrichment_rows mode m = Some sel \<and> t \<in> set (w_titles w) \<and> ct_id t = i \<and> sel t \<longrightarrow>
         made_recorded (w_queue w) (enrichment_job lib m (ct_tmdb_id t))))"

lemma enrichment_batch_cases:
  assumes "enqueue_catalog_enrichment_batch lib env tx mode m c w = (r, w')"
  shows "(\<exists>q. w' = w\<lparr>w_queue := q\<rparr>) \<and>
    (\<forall>b. r = Inr b \<longrightarrow> (\<exists>sel. enrichment_rows mode m = Some sel \<and>
      phase_batch (rows_ok env) ct_id catalog_enrichment_batch_size sel (w_titles w)
        (\<lambda>r. enrichment_job lib m (ct_tmdb_id r)) (submit_children tx) c (w_queue w) = (Inr b, w_queue w')))"
  using assms
  by (auto simp: enqueue_catalog_enrichment_batch_def split: option.splits prod.splits
      intro: exI [of _ "w_queue w"])

interpretation enrichment: paged_scan
    "\<lambda>k. enqueue_catalog_enrichment_batch lib (env k) (tx k) mode m"
    "enrichment_pending mode m" catalog_enrichment_batch_size "enrichment_covered lib tx mode m"
    "\<lambda>w. w_titles w = T \<and> distinct (map ct_id T)"
  for lib env tx mode m T
proof unfold_locales
  fix k c w r w'
  assume batch: "enqueue_catalog_enrichment_batch lib (env k) (tx k) mode m c w = (r, w')"
    and "w_titles w = T \<and> distinct (map ct_id T)"
  then show "(w_titles w' = T \<and> distinct (map ct_id T)) \<and> enrichment_pending mode m w' = enrichment_pending mode m w"
    using enrichment_batch_cases [OF batch] by (cases "enrichment_rows mode m") (auto simp: enrichment_pending_def)
next
  fix w show "finite (enrichment_pending mode m w)" by (simp add: enrichment_pending_def split: option.splits)
next
  fix k c w b w'
  assume batch: "enqueue_catalog_enrichment_batch lib (env k) (tx k) mode m c w = (Inr b, w')"
    and "w_titles w = T \<and> distinct (map ct_id T)"
  then have good: "distinct (map ct_id (w_titles w))" by simp
  obtain sel where sel: "enrichment_rows mode m = Some sel" and p: "phase_batch (rows_ok (env k)) ct_id
      catalog_enrichment_batch_size sel (w_titles w) (\<lambda>r. enrichment_job lib m (ct_tmdb_id r)) (submit_children (tx k)) c
      (w_queue w) = (Inr b, w_queue w')"
    using enrichment_batch_cases [OF batch] by blast
  have same: "w_titles w' = w_titles w" using enrichment_batch_cases [OF batch] by auto
  have pos: "0 < catalog_enrichment_batch_size" by (simp add: catalog_enrichment_batch_size_def)
  show "catalog_enrichment_batch_size + card {i \<in> enrichment_pending mode m w. int (pb_next_cursor b) < i}
      \<le> card {i \<in> enrichment_pending mode m w. int c < i}" if "\<not> pb_done b"
    using batch_progress [OF p good pos that] sel by (simp add: enrichment_pending_def)
  show "enrichment_covered lib tx mode m w' i \<or> \<not> pb_done b \<and> int (pb_next_cursor b) < i"
    if "i \<in> enrichment_pending mode m w" "int c < i" for i
    using batch_cover [OF p good pos] submit_children_ok that sel same
    by (fastforce simp: enrichment_covered_def)
  show "enrichment_covered lib tx mode m w' i" if "enrichment_covered lib tx mode m w i" for i
    using that phase_batch_submitted [OF p] submit_children_ok same sel
    by (fastforce simp: enrichment_covered_def made_recorded_def)
qed

definition season_pending :: "admin_scan_mode \<Rightarrow> scan_world \<Rightarrow> int set" where
  "season_pending mode w = (case season_rows mode w of None \<Rightarrow> {} | Some rows \<Rightarrow> ids_of fst (\<lambda>r. True) rows)"

definition season_covered ::
    "ingest_lib \<Rightarrow> (nat \<Rightarrow> tx_env) \<Rightarrow> admin_scan_mode \<Rightarrow> scan_world \<Rightarrow> int \<Rightarrow> bool" where
  "season_covered lib tx mode w i \<longleftrightarrow>
     ((\<forall>k. child_submissions (tx k) = Some True) \<longrightarrow>
       (\<forall>rows tmdb_id number. season_rows mode w = Some rows \<and> (i, tmdb_id, number) \<in> set rows \<longrightarrow>
         made_recorded (w_queue w) (season_job lib tmdb_id number)))"

definition distinct_rows :: "scan_world \<Rightarrow> bool" where
  "distinct_rows w \<longleftrightarrow> distinct (map ct_id (w_titles w)) \<and> distinct (map cs_id (w_seasons w))"

lemma filter_id_short:
  "distinct (map ct_id ts) \<Longrightarrow> length (filter (\<lambda>t. ct_id t = i \<and> P t) ts) \<le> 1"
proof (induction ts)
  case (Cons t ts)
  show ?case
  proof (cases "ct_id t = i \<and> P t")
    case True
    then have "filter (\<lambda>t. ct_id t = i \<and> P t) ts = []" using Cons.prems by (auto simp: filter_empty_conv) (metis imageI)
    then show ?thesis using True by simp
  qed (use Cons in auto)
qed simp

lemma distinct_join:
  assumes "distinct (map cs_id ss)" "\<And>s. length (f s) \<le> 1"
  shows "distinct (map fst (concat (map (\<lambda>s. map (\<lambda>t. (cs_id s, g t, cs_number s)) (f s)) ss)))"
  using assms(1)
proof (induction ss)
  case (Cons s ss)
  have "cs_id s \<notin> fst ` (\<Union>x\<in>set ss. (\<lambda>t. (cs_id x, g t, cs_number x)) ` set (f x))"
    using Cons.prems by auto
  moreover have "distinct (map fst (map (\<lambda>t. (cs_id s, g t, cs_number s)) (f s)))"
    using assms(2) [of s] by (cases "f s"; cases "tl (f s)") auto
  ultimately show ?case using Cons by auto
qed simp

lemma season_rows_distinct: "distinct_rows w \<Longrightarrow> season_rows mode w = Some rows \<Longrightarrow> distinct (map fst rows)"
  by (cases mode) (auto simp: season_rows_def Let_def distinct_rows_def intro!: distinct_join filter_id_short)

lemma season_rows_queue [simp]: "season_rows mode (w\<lparr>w_queue := q\<rparr>) = season_rows mode w"
  by (simp add: season_rows_def)

lemma season_batch_cases:
  assumes "enqueue_catalog_season_batch lib env tx mode c w = (r, w')"
  shows "(\<exists>q. w' = w\<lparr>w_queue := q\<rparr>) \<and>
    (\<forall>b. r = Inr b \<longrightarrow> (\<exists>rows. season_rows mode w = Some rows \<and>
      phase_batch (rows_ok env) fst catalog_season_batch_size (\<lambda>r. True) rows
        (\<lambda>(i, tmdb_id, number). season_job lib tmdb_id number) (submit_children tx) c (w_queue w)
      = (Inr b, w_queue w')))"
  using assms
  by (auto simp: enqueue_catalog_season_batch_def split: option.splits prod.splits
      intro: exI [of _ "w_queue w"])

interpretation seasons: paged_scan
    "\<lambda>k. enqueue_catalog_season_batch lib (env k) (tx k) mode"
    "season_pending mode" catalog_season_batch_size "season_covered lib tx mode"
    "\<lambda>w. w_titles w = T \<and> w_seasons w = S \<and> distinct_rows w"
  for lib env tx mode T S
proof unfold_locales
  fix k c w r w'
  assume batch: "enqueue_catalog_season_batch lib (env k) (tx k) mode c w = (r, w')"
    and "w_titles w = T \<and> w_seasons w = S \<and> distinct_rows w"
  then show "(w_titles w' = T \<and> w_seasons w' = S \<and> distinct_rows w') \<and> season_pending mode w' = season_pending mode w"
    using season_batch_cases [OF batch] by (auto simp: season_pending_def distinct_rows_def)
next
  fix w show "finite (season_pending mode w)" by (simp add: season_pending_def split: option.splits)
next
  fix k c w b w'
  assume batch: "enqueue_catalog_season_batch lib (env k) (tx k) mode c w = (Inr b, w')"
    and "w_titles w = T \<and> w_seasons w = S \<and> distinct_rows w"
  then have good: "distinct_rows w" by simp
  obtain rows q where rows: "season_rows mode w = Some rows" "w' = w\<lparr>w_queue := q\<rparr>" and p: "phase_batch (rows_ok (env k))
      fst catalog_season_batch_size (\<lambda>r. True) rows (\<lambda>(i, tmdb_id, number). season_job lib tmdb_id number)
      (submit_children (tx k)) c (w_queue w) = (Inr b, w_queue w')"
    using season_batch_cases [OF batch] by blast
  have pos: "0 < catalog_season_batch_size" by (simp add: catalog_season_batch_size_def)
  note dist = season_rows_distinct [OF good rows(1)]
  show "catalog_season_batch_size + card {i \<in> season_pending mode w. int (pb_next_cursor b) < i}
      \<le> card {i \<in> season_pending mode w. int c < i}" if "\<not> pb_done b"
    using batch_progress [OF p dist pos that] rows by (simp add: season_pending_def)
  show "season_covered lib tx mode w' i \<or> \<not> pb_done b \<and> int (pb_next_cursor b) < i"
    if "i \<in> season_pending mode w" "int c < i" for i
    using batch_cover [OF p dist pos] submit_children_ok that rows
    by (fastforce simp: season_covered_def)
  show "season_covered lib tx mode w' i" if "season_covered lib tx mode w i" for i
    using that phase_batch_submitted [OF p] submit_children_ok rows
    by (fastforce simp: season_covered_def made_recorded_def)
qed

definition missing_covered ::
    "ingest_lib \<Rightarrow> (nat \<Rightarrow> tx_env) \<Rightarrow> media_type list \<Rightarrow> scan_world \<Rightarrow> int \<Rightarrow> bool" where
  "missing_covered lib tx ms w i \<longleftrightarrow>
     ((\<forall>k. child_submissions (tx k) = Some True) \<longrightarrow>
       (\<forall>t\<in>set (w_titles w). ct_id t = i \<and> missing_title ms t \<longrightarrow>
         made_recorded (w_queue w) (missing_refresh_job lib (ct_media t) (ct_tmdb_id t))))"

lemma missing_batch_cases:
  assumes "enqueue_missing_catalog_refresh_batch lib env tx ms c w = (r, w')"
  shows "\<exists>q. w' = w\<lparr>w_queue := q\<rparr> \<and>
      phase_batch (rows_ok env) ct_id catalog_refresh_batch_size (missing_title ms) (w_titles w)
        (\<lambda>r. missing_refresh_job lib (ct_media r) (ct_tmdb_id r))
        (\<lambda>jobs. submit_refresh_jobs_with_capacity tx jobs ''missing_queue_full'') c (w_queue w) = (r, q)"
  using assms by (auto simp: enqueue_missing_catalog_refresh_batch_def split: prod.splits)

interpretation missing: paged_scan
    "\<lambda>k. enqueue_missing_catalog_refresh_batch lib (env k) (tx k) ms"
    "\<lambda>w. ids_of ct_id (missing_title ms) (w_titles w)" catalog_refresh_batch_size "missing_covered lib tx ms"
    "\<lambda>w. w_titles w = T \<and> distinct (map ct_id T)"
  for lib env tx ms T
proof unfold_locales
  fix k c w r w'
  assume batch: "enqueue_missing_catalog_refresh_batch lib (env k) (tx k) ms c w = (r, w')"
    and "w_titles w = T \<and> distinct (map ct_id T)"
  then show "(w_titles w' = T \<and> distinct (map ct_id T)) \<and>
      ids_of ct_id (missing_title ms) (w_titles w') = ids_of ct_id (missing_title ms) (w_titles w)"
    using missing_batch_cases [OF batch] by auto
next
  fix w :: scan_world show "finite (ids_of ct_id (missing_title ms) (w_titles w))" by simp
next
  fix k c w b w'
  assume batch: "enqueue_missing_catalog_refresh_batch lib (env k) (tx k) ms c w = (Inr b, w')"
    and "w_titles w = T \<and> distinct (map ct_id T)"
  then have good: "distinct (map ct_id (w_titles w))" by simp
  obtain q where q: "w' = w\<lparr>w_queue := q\<rparr>" and p: "phase_batch (rows_ok (env k)) ct_id catalog_refresh_batch_size
      (missing_title ms) (w_titles w) (\<lambda>r. missing_refresh_job lib (ct_media r) (ct_tmdb_id r))
      (\<lambda>jobs. submit_refresh_jobs_with_capacity (tx k) jobs ''missing_queue_full'') c (w_queue w) = (Inr b, q)"
    using missing_batch_cases [OF batch] by blast
  have pos: "0 < catalog_refresh_batch_size" by (simp add: catalog_refresh_batch_size_def)
  show "catalog_refresh_batch_size + card {i \<in> ids_of ct_id (missing_title ms) (w_titles w). int (pb_next_cursor b) < i}
      \<le> card {i \<in> ids_of ct_id (missing_title ms) (w_titles w). int c < i}" if "\<not> pb_done b"
    using batch_progress [OF p good pos that] .
  show "missing_covered lib tx ms w' i \<or> \<not> pb_done b \<and> int (pb_next_cursor b) < i"
    if "i \<in> ids_of ct_id (missing_title ms) (w_titles w)" "int c < i" for i
    using batch_cover [OF p good pos] capacity_ok that q
    by (fastforce simp: missing_covered_def)
  show "missing_covered lib tx ms w' i" if "missing_covered lib tx ms w i" for i
    using that phase_batch_submitted [OF p] capacity_ok q
    by (fastforce simp: missing_covered_def made_recorded_def job_recorded_def)
qed

section \<open>The state machine of a scan\<close>

text \<open>Where a scan job may lead: it waits, goes to the next page, to the seasons of a show, or to the
  completion.\<close>

inductive scan_succ ::
    "admin_scan_mode \<Rightarrow> media_type list \<Rightarrow> admin_scan_phase \<times> nat \<times> nat \<Rightarrow> admin_scan_phase \<times> nat \<times> nat \<Rightarrow> bool"
  for mode ms where
  wait: "p \<noteq> Start \<Longrightarrow> n < u32_max \<Longrightarrow> scan_succ mode ms (p, c, n) (p, c, n + 1)"
| next_page: "p \<in> {Enrichment, Seasons} \<Longrightarrow> c < c' \<Longrightarrow> scan_succ mode ms (p, c, n) (p, c', 0)"
| to_seasons: "ms = [Tv] \<Longrightarrow> scan_succ mode ms (Enrichment, c, n) (Seasons, 0, 0)"
| complete_movies: "ms = [Movie] \<Longrightarrow> scan_succ mode ms (Enrichment, c, n) (Completion, 0, 0)"
| complete_shows: "ms = [Tv] \<Longrightarrow> scan_succ mode ms (Seasons, c, n) (Completion, 0, 0)"

inductive_simps scan_succ_from_completion: "scan_succ mode ms (Completion, c, n) y"

text \<open>The order of the phases; a scan never goes back, and only the waiting polls repeat a state.\<close>

fun phase_rank :: "admin_scan_phase \<Rightarrow> nat" where
  "phase_rank Start = 0"
| "phase_rank Enrichment = 1"
| "phase_rank Seasons = 2"
| "phase_rank Completion = 3"

instantiation admin_scan_phase :: linorder
begin

definition less_eq_admin_scan_phase :: "admin_scan_phase \<Rightarrow> admin_scan_phase \<Rightarrow> bool" where
  "less_eq_admin_scan_phase p p' \<longleftrightarrow> phase_rank p \<le> phase_rank p'"

definition less_admin_scan_phase :: "admin_scan_phase \<Rightarrow> admin_scan_phase \<Rightarrow> bool" where
  "less_admin_scan_phase p p' \<longleftrightarrow> phase_rank p < phase_rank p'"

instance
proof
  fix p p' :: admin_scan_phase
  assume "p \<le> p'" "p' \<le> p"
  then show "p = p'" by (cases p; cases p') (simp_all add: less_eq_admin_scan_phase_def)
qed (auto simp: less_eq_admin_scan_phase_def less_admin_scan_phase_def)

end

lemma scan_succ_forward:
  assumes "scan_succ mode ms (p, c, n) (p', c', n')"
  shows "p < p' \<or> p = p' \<and> c < c' \<or> p = p' \<and> c = c' \<and> n' = n + 1"
  using assms by (cases rule: scan_succ.cases) (auto simp: less_admin_scan_phase_def)



text \<open>Row ids are \<open>bigint\<close> columns.\<close>

definition bigint_rows :: "scan_world \<Rightarrow> bool" where
  "bigint_rows w \<longleftrightarrow> (\<forall>t\<in>set (w_titles w). ct_id t \<le> int i64_max) \<and> (\<forall>s\<in>set (w_seasons w). cs_id s \<le> int i64_max)"

lemma season_ids: "season_rows mode w = Some rows \<Longrightarrow> fst ` set rows \<subseteq> cs_id ` set (w_seasons w)"
  by (cases mode) (auto simp: season_rows_def Let_def)

lemma scan_batch_next:
  assumes "(if phase = Enrichment then enqueue_catalog_enrichment_batch lib env tx mode m c w
      else if phase = Seasons \<and> m = Tv then enqueue_catalog_season_batch lib env tx mode c w
      else (Inl invalid_payload, w)) = (Inr b, w')"
    and "\<not> pb_done b" "bigint_rows w"
  shows "c < pb_next_cursor b \<and> pb_next_cursor b \<le> i64_max"
proof (cases "phase = Enrichment")
  case True
  then obtain sel where p: "phase_batch (rows_ok env) ct_id catalog_enrichment_batch_size sel (w_titles w)
      (\<lambda>r. enrichment_job lib m (ct_tmdb_id r)) (submit_children tx) c (w_queue w) = (Inr b, w_queue w')"
    using assms(1) enrichment_batch_cases by fastforce
  have pos: "0 < catalog_enrichment_batch_size" by (simp add: catalog_enrichment_batch_size_def)
  show ?thesis using batch_next [OF p assms(2) pos] assms(3) by (auto simp: ids_of_def bigint_rows_def)
next
  case False
  then have seasons: "enqueue_catalog_season_batch lib env tx mode c w = (Inr b, w')" using assms(1) by (auto split: if_splits)
  obtain rows where rows: "season_rows mode w = Some rows" and p: "phase_batch (rows_ok env) fst
      catalog_season_batch_size (\<lambda>r. True) rows (\<lambda>(i, tmdb_id, number). season_job lib tmdb_id number)
      (submit_children tx) c (w_queue w) = (Inr b, w_queue w')"
    using season_batch_cases [OF seasons] by blast
  have pos: "0 < catalog_season_batch_size" by (simp add: catalog_season_batch_size_def)
  have "int (pb_next_cursor b) \<in> cs_id ` set (w_seasons w)"
    using batch_next [OF p assms(2) pos] season_ids [OF rows] by (auto simp: ids_of_def)
  then show ?thesis using batch_next [OF p assms(2) pos] assms(3) by (auto simp: bigint_rows_def)
qed

lemma submit_scan_child_ok:
  assumes "submit_scan_child tx job w = (Inr x, w')"
  shows "\<exists>j. job = Inr j \<and> (child_submissions tx = Some True \<longrightarrow> job_recorded (w_queue w') j) \<and>
    w_sync w' = w_sync w"
proof -
  obtain j out where j: "job = Inr j" "submit_ingest_child_job tx j (w_queue w) = (Inr out, w_queue w')"
      "w_sync w' = w_sync w"
    using assms by (auto simp: submit_scan_child_def result_simps split: sum.splits prod.splits)
  then show ?thesis using child_job_ok [OF j(2)] by auto
qed

text \<open>The scan job for a state is in the queue.\<close>

definition scan_queued ::
    "ingest_lib \<Rightarrow> scan_env \<Rightarrow> admin_scan_mode \<Rightarrow> media_type list \<Rightarrow> admin_scan_phase \<times> nat \<times> nat \<Rightarrow>
     int option \<Rightarrow> int option \<Rightarrow> job_queue \<Rightarrow> bool" where
  "scan_queued lib env mode ms st a b q \<longleftrightarrow>
     (case st of (p, c, n) \<Rightarrow> made_recorded q (admin_scan_job_with_window lib (clock_us env) mode ms p c n a b))"

lemma wait_again_ok:
  assumes "wait_again lib env mode ms phase cursor poll a b report w = (Inr v, w')"
    and "child_submissions (scan_tx env 0) = Some True"
  shows "poll < u32_max \<and> scan_queued lib env mode ms (phase, cursor, poll + 1) a b (w_queue w') \<and> w_sync w' = w_sync w"
proof -
  obtain x where "\<not> poll + 1 > u32_max" "submit_scan_child (scan_tx env 0)
      (admin_scan_job_with_window lib (clock_us env) mode ms phase cursor (poll + 1) a b) w = (Inr x, w')"
    using assms(1) by (auto simp: wait_again_def result_simps split: if_splits prod.splits)
  then show ?thesis
    using submit_scan_child_ok assms(2) by (fastforce simp: scan_queued_def made_recorded_def)
qed

text \<open>What a batch leaves alone.\<close>

lemma scan_batch_frame:
  assumes "(if phase = Enrichment then enqueue_catalog_enrichment_batch lib env tx mode m c w
      else if phase = Seasons \<and> m = Tv then enqueue_catalog_season_batch lib env tx mode c w
      else (Inl invalid_payload, w)) = (r, w')"
  shows "\<exists>q. w' = w\<lparr>w_queue := q\<rparr>"
proof -
  have "w' = w \<or> (\<exists>q. w' = w\<lparr>w_queue := q\<rparr>)"
    using assms enrichment_batch_cases season_batch_cases by (auto split: if_splits)
  then show ?thesis by (metis scan_world.surjective scan_world.update_convs(1))
qed

text \<open>The outcome of a scan job: nothing more to do, or a well-formed successor is queued.\<close>

definition scan_moved ::
    "ingest_lib \<Rightarrow> scan_env \<Rightarrow> admin_scan_mode \<Rightarrow> media_type list \<Rightarrow> admin_scan_phase \<times> nat \<times> nat \<Rightarrow>
     int option \<Rightarrow> int option \<Rightarrow> job_queue \<Rightarrow> bool" where
  "scan_moved lib env mode ms st a b q \<longleftrightarrow>
     (\<exists>p c n a' b'. scan_succ mode ms st (p, c, n) \<and> scan_queued lib env mode ms (p, c, n) a' b' q \<and>
       (a' = a \<and> b' = b \<or> a' = None \<and> b' = None) \<and> wf_ingest lib (AdminScan mode ms p c n a' b'))"

lemma scan_movedI:
  "scan_succ mode ms st (p, c, n) \<Longrightarrow> scan_queued lib env mode ms (p, c, n) a b q \<Longrightarrow>
   wf_ingest lib (AdminScan mode ms p c n a b) \<Longrightarrow> scan_moved lib env mode ms st a b q"
  unfolding scan_moved_def by blast

lemma scan_moved_wait:
  assumes "wait_again lib env mode ms phase cursor poll a b report w = (Inr v, w')"
    and "child_submissions (scan_tx env 0) = Some True" "phase \<noteq> Start"
    and "wf_ingest lib (AdminScan mode ms phase cursor poll a b)"
  shows "scan_moved lib env mode ms (phase, cursor, poll) a b (w_queue w')"
proof -
  have st: "poll < u32_max" "scan_queued lib env mode ms (phase, cursor, poll + 1) a b (w_queue w')"
    using wait_again_ok [OF assms(1,2)] by simp_all
  moreover have "wf_ingest lib (AdminScan mode ms phase cursor (poll + 1) a b)"
    using assms(3,4) st(1) unfolding wf_ingest.simps by auto
  ultimately show ?thesis using scan_succ.wait [OF assms(3) st(1)] unfolding scan_moved_def by blast
qed

lemma scan_moved_next:
  assumes "next_scan_job lib env mode [m] m phase a b batch = Inr j" "job_recorded q j"
    and "\<not> pb_done batch \<longrightarrow> cursor < pb_next_cursor batch \<and> pb_next_cursor batch \<le> i64_max"
    and "phase = Enrichment \<or> phase = Seasons \<and> m = Tv" "mode \<in> {FullSweep, Recovery, Reconcile, MissingOnly}"
    and "a = None" "b = None"
  shows "scan_moved lib env mode [m] (phase, cursor, poll) a b q"
proof -
  have wf: "wf_ingest lib (AdminScan mode [m] p c 0 a b)" if "c \<le> i64_max" "p \<noteq> Start" for p c
    using that assms(5-7) by (cases m; cases p) (auto simp: window_ok_def phases_of_def)
  have queued: "scan_queued lib env mode [m] (p, c, 0) a b q"
    if "admin_scan_job_with_window lib (clock_us env) mode [m] p c 0 a b = Inr j" for p c
    using that assms(2) by (simp add: scan_queued_def made_recorded_def)
  consider "\<not> pb_done batch" | "pb_done batch" "phase = Enrichment" "m = Tv"
    | "pb_done batch" "\<not> (phase = Enrichment \<and> m = Tv)" by blast
  then show ?thesis
  proof cases
    case 1
    have "scan_succ mode [m] (phase, cursor, poll) (phase, pb_next_cursor batch, 0)"
      using 1 assms(3,4) by (intro scan_succ.next_page) auto
    from scan_movedI [OF this queued wf] show ?thesis
      using 1 assms(1,3,4) by (auto simp: next_scan_job_def)
  next
    case 2
    have "scan_succ mode [m] (phase, cursor, poll) (Seasons, 0, 0)"
      using 2 scan_succ.to_seasons by simp
    from scan_movedI [OF this queued wf] show ?thesis
      using 2 assms(1,6,7) by (simp add: next_scan_job_def admin_scan_job_def)
  next
    case 3
    have "scan_succ mode [m] (phase, cursor, poll) (Completion, 0, 0)"
      using 3 assms(4) scan_succ.complete_movies scan_succ.complete_shows by (cases m) auto
    from scan_movedI [OF this queued wf] show ?thesis
      using 3 assms(1) by (auto simp: next_scan_job_def)
  qed
qed

lemma scan_completion_step:
  assumes "execute_scan_completion lib env mode ms cursor poll a b w = (Inr v, w')"
    and "child_submissions (scan_tx env 0) = Some True"
    and "wf_ingest lib (AdminScan mode ms Completion cursor poll a b)"
  shows "w_queue w' = w_queue w \<or> scan_moved lib env mode ms (Completion, cursor, poll) a b (w_queue w')"
  using assms(1) scan_moved_wait [OF _ assms(2) _ assms(3)]
  by (auto simp: execute_scan_completion_def result_simps sync_query_def Let_def
      split: if_splits sum.splits bool.splits prod.splits)

lemma scan_page_step:
  assumes "execute_catalog_scan_phase lib env mode ms phase cursor poll a b w = (Inr v, w')"
    and "\<And>k. child_submissions (scan_tx env k) = Some True" "bigint_rows w"
    and wf: "wf_ingest lib (AdminScan mode ms phase cursor poll a b)" and phase: "phase \<noteq> Start" "phase \<noteq> Completion"
  shows "scan_moved lib env mode ms (phase, cursor, poll) a b (w_queue w')"
proof (cases "catalog_scan_phase_has_active_work env phase (w_queue w) = Inr True")
  case True
  then show ?thesis
    using assms(1) phase scan_moved_wait [OF _ assms(2) phase(1) wf]
    by (auto simp: execute_catalog_scan_phase_def split: if_splits)
next
  case False
  define step where "step = (if phase = Enrichment
      then enqueue_catalog_enrichment_batch lib env (scan_tx env 0) mode (hd ms) cursor w
      else if phase = Seasons \<and> hd ms = Tv then enqueue_catalog_season_batch lib env (scan_tx env 0) mode cursor w
      else (Inl invalid_payload, w))"
  obtain batch w1 x where step: "step = (Inr batch, w1)" and sub: "submit_scan_child (scan_tx env 1)
      (next_scan_job lib env mode ms (hd ms) phase a b batch) w1 = (Inr x, w')" and one: "length ms = 1"
      and mode: "mode \<in> {FullSweep, Recovery, Reconcile, MissingOnly}"
    using assms(1) phase False unfolding execute_catalog_scan_phase_def step_def [symmetric]
    by (auto simp: result_simps split: if_splits sum.splits bool.splits prod.splits)
  obtain m where m: "ms = [m]" using one by (cases ms) auto
  obtain j where j: "next_scan_job lib env mode [m] m phase a b batch = Inr j" "job_recorded (w_queue w') j"
    using submit_scan_child_ok [OF sub] assms(2) m by auto
  have "window_ok a b" "mode \<noteq> DailySync \<longrightarrow> a = None" using wf unfolding wf_ingest.simps by blast+
  then have "a = None" "b = None" using mode by (auto simp: window_ok_def split: option.splits)
  moreover have "phase = Enrichment \<or> phase = Seasons \<and> m = Tv"
    using step m by (auto simp: step_def split: if_splits)
  ultimately show ?thesis
    using scan_moved_next [OF j] scan_batch_next [OF step [unfolded step_def] _ assms(3)] mode m by blast
qed

section \<open>Properties\<close>

lemma pending_count:
  "card {i \<in> ids_of key sel table. int c < i} \<le> length table"
proof -
  have "{i \<in> ids_of key sel table. int c < i} \<subseteq> set (map key table)" by (auto simp: ids_of_def)
  then have "card {i \<in> ids_of key sel table. int c < i} \<le> card (set (map key table))" by (intro card_mono) auto
  also have "\<dots> \<le> length table" using card_length [of "map key table"] by simp
  finally show ?thesis .
qed

text \<open>C14: one phase of a scan visits the whole catalog: however the statements fail, following the
  enrichment jobs from cursor 0 ends after at most one job per 100 titles plus one; and if none of
  them failed (and the operator allows submissions) the enrichment of every title the mode looks at
  is in the queue.\<close>

theorem enrichment_reaches_every_title:
  assumes "distinct (map ct_id (w_titles w))" "length (w_titles w) < 100 * n"
  shows "\<exists>r w'. follow_scan (\<lambda>k. enqueue_catalog_enrichment_batch lib (env k) (tx k) mode m) n 0 0 w = Some (r, w') \<and>
    (r = Inr () \<and> (\<forall>k. child_submissions (tx k) = Some True) \<longrightarrow>
      (\<forall>sel t. enrichment_rows mode m = Some sel \<and> t \<in> set (w_titles w) \<and> sel t \<and> 0 < ct_id t \<longrightarrow>
        made_recorded (w_queue w') (enrichment_job lib m (ct_tmdb_id t))))"
proof -
  have good: "w_titles w = w_titles w \<and> distinct (map ct_id (w_titles w))" using assms(1) by simp
  have "card {i \<in> enrichment_pending mode m w. int 0 < i} \<le> length (w_titles w)"
    using pending_count [where c = 0] by (auto simp: enrichment_pending_def split: option.splits)
  then have "card {i \<in> enrichment_pending mode m w. int 0 < i} < catalog_enrichment_batch_size * n"
    using assms(2) by (simp add: catalog_enrichment_batch_size_def)
  from enrichment.follow_ends [OF good this] obtain r w' where
    run: "follow_scan (\<lambda>k. enqueue_catalog_enrichment_batch lib (env k) (tx k) mode m) n 0 0 w = Some (r, w')"
    by fastforce
  have same: "w_titles w' = w_titles w" using enrichment.follow_stable [OF run good] by simp
  have "made_recorded (w_queue w') (enrichment_job lib m (ct_tmdb_id t))"
    if "r = Inr ()" "\<forall>k. child_submissions (tx k) = Some True" "enrichment_rows mode m = Some sel"
      "t \<in> set (w_titles w)" "sel t" "0 < ct_id t" for sel t
  proof -
    have "ct_id t \<in> enrichment_pending mode m w" using that by (auto simp: enrichment_pending_def ids_of_def)
    then have "enrichment_covered lib tx mode m w' (ct_id t)"
      using enrichment.follow_covers [OF run [unfolded that(1)] good] that(6) by simp
    then show ?thesis using that same by (simp add: enrichment_covered_def)
  qed
  with run show ?thesis by blast
qed

definition demo_title :: title_row where
  "demo_title = \<lparr>ct_id = 1, ct_tmdb_id = 5, ct_media = ''movie'', ct_active = True, ct_enriched = False,
     ct_sourced = True, ct_titled = True\<rparr>"

definition demo_scan_world :: scan_world where
  "demo_scan_world = \<lparr>w_queue = empty_queue, w_sync = [''full_sweep'' \<mapsto> \<lparr>sync_end = None, sweep_required = False\<rparr>],
     w_titles = [demo_title], w_seasons = []\<rparr>"

definition demo_scan_env :: scan_env where
  "demo_scan_env = \<lparr>today = 9, clock_us = 0, rows_ok = True, work_ok = True, failures_ok = True, state_ok = True,
     sync_call = Delivered, scan_tx = \<lambda>k. demo_tx\<rparr>"

text \<open>A full sweep whose movies are done while the enrichment scan of its shows is still queued.\<close>

definition demo_scan_row :: "nat \<Rightarrow> (string \<times> json) list \<Rightarrow> job_status \<Rightarrow> job_row" where
  "demo_scan_row i kvs st = demo_row\<lparr>jr_id := i, jr_type := ''admin.scan'', jr_status := st,
     jr_payload := JObj ((''mode'', JStr ''full_sweep'') # kvs)\<rparr>"

definition demo_sweep :: scan_world where
  "demo_sweep = demo_scan_world\<lparr>w_queue := \<lparr>q_rows =
     [demo_scan_row 1 [] Succeeded, demo_scan_row 2 [(''phase'', JStr ''enrichment'')] Queued], q_events = []\<rparr>\<rparr>"

lemma demo_sweep_facts:
  "scan_roots FullSweep (w_queue demo_sweep) = [9]"
  "\<forall>row\<in>set (q_rows (w_queue demo_sweep)). jr_type row = ''admin.scan''"
  "w_sync demo_sweep = [''full_sweep'' \<mapsto> \<lparr>sync_end = None, sweep_required = False\<rparr>]"
  "w_titles demo_sweep = [demo_title]" "w_seasons demo_sweep = []"
  by (simp_all add: demo_sweep_def demo_scan_row_def demo_scan_world_def scan_roots_def scan_mode_name_def demo_row_def)

lemma demo_complete:
  "snd (complete_catalog_sync ''full_sweep'' 9 (w_sync demo_sweep)) =
     [''full_sweep'' \<mapsto> \<lparr>sync_end = Some 9, sweep_required = False\<rparr>]"
  by (simp add: complete_catalog_sync_def demo_sweep_facts)

lemma demo_sweep_run:
  "\<exists>v w'. execute_catalog_scan_phase demo_ingest_lib demo_scan_env FullSweep [Movie] Completion 0 0 None None demo_sweep
     = (Inr v, w') \<and> w_sync w' \<noteq> w_sync demo_sweep"
  using demo_sweep_facts
  by (auto simp: execute_catalog_scan_phase_def execute_scan_completion_def sync_query_def db_call_def Let_def
      catalog_completion_has_active_work_def catalog_completion_has_unresolved_failures_def demo_scan_env_def
      demo_sweep_def demo_scan_row_def demo_row_def unresolved_def complete_catalog_sync_def scan_mode_name_def
      dest: fun_cong [of _ _ "''full_sweep''"])

theorem enrichment_reaches_every_title_witness:
  "\<exists>r w'. follow_scan (\<lambda>k. enqueue_catalog_enrichment_batch demo_ingest_lib demo_scan_env demo_tx FullSweep Movie) 1 0 0
      demo_scan_world = Some (r, w')"
  using enrichment_reaches_every_title [of demo_scan_world 1 demo_ingest_lib "\<lambda>k. demo_scan_env" "\<lambda>k. demo_tx" FullSweep Movie]
  by (auto simp: demo_scan_world_def)


lemma child_sync: "submit_scan_child tx job w1 = (x, w2) \<Longrightarrow> w_sync w2 = w_sync w1"
  by (auto simp: submit_scan_child_def split: sum.splits prod.splits)

lemma wait_sync: "wait_again lib env mode ms phase cursor poll a b report w1 = (x, w2) \<Longrightarrow> w_sync w2 = w_sync w1"
  by (auto simp: wait_again_def split: if_splits prod.splits dest: child_sync)

lemma enrichment_sync: "enqueue_catalog_enrichment_batch lib env tx mode m c w1 = (x, w2) \<Longrightarrow> w_sync w2 = w_sync w1"
  using enrichment_batch_cases by fastforce

lemma season_sync: "enqueue_catalog_season_batch lib env tx mode c w1 = (x, w2) \<Longrightarrow> w_sync w2 = w_sync w1"
  using season_batch_cases by fastforce

lemmas scan_sync = child_sync wait_sync enrichment_sync season_sync

lemma scan_page_sync:
  assumes "execute_catalog_scan_phase lib env mode ms phase cursor poll a b w = (r, w')" "phase \<noteq> Completion"
  shows "w_sync w' = w_sync w"
  using assms by (auto simp: execute_catalog_scan_phase_def split: if_splits sum.splits bool.splits prod.splits
      dest!: scan_sync)

lemma scan_completion_sync:
  assumes "execute_scan_completion lib env mode ms cursor poll a b w = (r, w')" "w_sync w' \<noteq> w_sync w"
  shows "mode \<notin> {PruneCleanup, Recovery} \<and>
    catalog_completion_has_active_work env (w_queue w) = Inr False \<and>
    catalog_completion_has_unresolved_failures env mode (w_queue w) = Inr False \<and>
    w_sync w' = snd (complete_catalog_sync (scan_mode_name mode) (case b of None \<Rightarrow> today env | Some d \<Rightarrow> d) (w_sync w))"
  using assms
  by (auto simp: execute_scan_completion_def Let_def sync_query_def db_call_def
      split: if_splits sum.splits bool.splits prod.splits delivery.splits dest!: wait_sync)




text \<open>C40: the completion of one media type does not wait for the scan jobs of the other: it looks only at
  jobs whose type starts with \<open>ingest.\<close>, so with nothing queued but the still pending enrichment scan of
  the shows, the completion of the movies records the whole mode as finished.\<close>

theorem completion_ignores_pending_scans:
  assumes "\<forall>row\<in>set (q_rows (w_queue w)). jr_type row = ''admin.scan''"
    and "scan_roots mode (w_queue w) \<noteq> []" "mode \<in> {FullSweep, Reconcile, MissingOnly, DailySync}"
    and "work_ok env" "failures_ok env" "sync_call env = Delivered"
  shows "w_sync (snd (execute_catalog_scan_phase lib env mode ms Completion cursor poll a b w)) =
    snd (complete_catalog_sync (scan_mode_name mode) (case b of None \<Rightarrow> today env | Some d \<Rightarrow> d) (w_sync w))"
proof -
  have "\<not> list_ex (\<lambda>r. active (jr_status r) \<and> prefix ''ingest.'' (jr_type r)) (q_rows (w_queue w))"
    using assms(1) by (auto simp: list_ex_iff)
  moreover have "\<not> list_ex (unresolved t (w_queue w)) (q_rows (w_queue w))" for t
    using assms(1) by (auto simp: list_ex_iff unresolved_def)
  ultimately show ?thesis
    using assms(2-6)
    by (auto simp: execute_catalog_scan_phase_def execute_scan_completion_def sync_query_def db_call_def Let_def
        catalog_completion_has_active_work_def catalog_completion_has_unresolved_failures_def
        split: list.splits prod.splits)
qed

theorem completion_ignores_pending_scans_witness:
  "w_sync (snd (execute_catalog_scan_phase demo_ingest_lib demo_scan_env FullSweep [Movie] Completion 0 0 None None
     demo_sweep)) = [''full_sweep'' \<mapsto> \<lparr>sync_end = Some 9, sweep_required = False\<rparr>]"
proof -
  have env: "work_ok demo_scan_env" "failures_ok demo_scan_env" "sync_call demo_scan_env = Delivered" "today demo_scan_env = 9"
    by (simp_all add: demo_scan_env_def)
  have roots: "scan_roots FullSweep (w_queue demo_sweep) \<noteq> []" by (simp add: demo_sweep_facts)
  show ?thesis
    unfolding completion_ignores_pending_scans [OF demo_sweep_facts(2) roots _ env(1-3), simplified]
    by (simp add: env demo_complete scan_mode_name_def)
qed

end
