(* ===== verification/Export_Download.thy ===== *)
theory Export_Download
  imports Http_Client
begin

text \<open>
  The streamed daily-export download of \<open>src/crates/tmdb-upstream/src/client.rs\<close>
  (\<open>fetch_daily_export_to_file\<close>): each attempt writes a new temporary file beside the
  destination and publishes it by a rename. The file system is \<open>files\<close> of the world; which
  of its calls fail is part of the environment.
\<close>

definition max_daily_export_bytes :: nat where
  "max_daily_export_bytes = 8 * 1024 * 1024 * 1024"

record export_download =
  bytes :: nat
  digest :: string

text \<open>\<open>Path::file_name\<close>: the last component, if it is a normal one.\<close>

definition file_name :: "string \<Rightarrow> string option" where
  "file_name path =
     (case rev (filter (\<lambda>x. x \<noteq> [] \<and> x \<noteq> ''.'') (split_on CHR ''/'' path)) of
        [] \<Rightarrow> None
      | x # _ \<Rightarrow> if x = ''..'' then None else Some x)"

definition temp_path :: "string \<Rightarrow> nat \<Rightarrow> nat \<Rightarrow> string" where
  "temp_path destination process counter =
     destination @ ''.part.'' @ dec process @ ''.'' @ dec counter"

definition create_attempt ::
    "client_env \<Rightarrow> string \<Rightarrow> nat \<Rightarrow> client_world \<Rightarrow> (client_error + string) outcome \<times> client_world" where
  "create_attempt env destination k w =
     (let path = temp_path destination (pid env) (temp_counter w);
          w1 = w\<lparr>temp_counter := (temp_counter w + 1) mod 2 ^ 64\<rparr>
      in if files w path \<noteq> None then (Again, w1)
         else if create_ok env path
         then (Done (Inr path), w1\<lparr>files := (files w)(path \<mapsto> [])\<rparr>)
         else (Done (Inl ExportStorage), w1))"

definition create_temporary_file ::
    "client_env \<Rightarrow> string \<Rightarrow> client_world \<Rightarrow> (client_error + string) \<times> client_world" where
  "create_temporary_file env destination w =
     for_attempts 3 0 (create_attempt env destination) (Inl ExportStorage) w"

definition remove_temporary_file :: "client_env \<Rightarrow> string \<Rightarrow> client_world \<Rightarrow> client_world" where
  "remove_temporary_file env path w =
     (if remove_ok env path then w\<lparr>files := (files w)(path := None)\<rparr> else w)"

text \<open>
  The chunk loop. \<open>Stream_leak\<close> is the early return of the checked addition, which leaves
  the temporary file; \<open>Stream_error\<close> removes it and returns; \<open>Stream_failed\<close> is a broken
  stream, which may be retried.
\<close>

datatype stream_result =
    Stream_done nat string
  | Stream_failed string
  | Stream_error client_error string
  | Stream_leak client_error string

fun stream_chunks ::
    "(nat \<Rightarrow> bool) \<Rightarrow> nat \<Rightarrow> nat \<Rightarrow> nat \<Rightarrow> string \<Rightarrow> string list \<Rightarrow> bool \<Rightarrow> stream_result" where
  "stream_chunks wok max_bytes i written content [] brk =
     (if brk then Stream_failed content else Stream_done written content)"
| "stream_chunks wok max_bytes i written content (c # cs) brk =
     (let written' = written + length c
      in if length c > u64_max \<or> written' > u64_max then Stream_leak ExportSizeLimit content
         else if written' > max_bytes then Stream_error ExportSizeLimit content
         else if \<not> wok i then Stream_error ExportStorage content
         else stream_chunks wok max_bytes (Suc i) written' (content @ c) cs brk)"

definition write_file :: "string \<Rightarrow> string \<Rightarrow> client_world \<Rightarrow> client_world" where
  "write_file path content w = w\<lparr>files := (files w)(path \<mapsto> content)\<rparr>"

definition rename_file :: "string \<Rightarrow> string \<Rightarrow> client_world \<Rightarrow> client_world" where
  "rename_file src dst w = w\<lparr>files := (files w)(dst := files w src, src := None)\<rparr>"

text \<open>\<open>drop(permit); remove_temporary_file(..)\<close>.\<close>

definition give_up :: "client_env \<Rightarrow> string \<Rightarrow> client_world \<Rightarrow> client_world" where
  "give_up env path w = remove_temporary_file env path (emit Released w)"

definition retry_or ::
    "retry_policy \<Rightarrow> nat \<Rightarrow> client_error \<Rightarrow> client_world \<Rightarrow> (client_error + 'r) outcome \<times> client_world" where
  "retry_or p k e w =
     (if k < max_attempts p then (Again, emit (Slept (backoff p k)) w) else (Done (Inl e), w))"

definition export_response ::
    "client_lib \<Rightarrow> client_env \<Rightarrow> client \<Rightarrow> url \<Rightarrow> string \<Rightarrow> nat \<Rightarrow> nat \<Rightarrow> string \<Rightarrow> response \<Rightarrow>
     client_world \<Rightarrow> (client_error + export_download) outcome \<times> client_world" where
  "export_response lib env c u destination max_bytes k tmp r w =
     (if \<not> is_success (status r) then
        (case read_bounded r (max_response_bytes (policy c)) of
           Inl e \<Rightarrow> (Done (Inl e), give_up env tmp w)
         | Inr body \<Rightarrow>
             dispatch_class lib env (policy c) u k r body (Inl Transport) (give_up env tmp w))
      else
        (case stream_chunks (write_ok env tmp) max_bytes 0 0 [] (chunks r) (broken r) of
           Stream_leak e content \<Rightarrow> (Done (Inl e), emit Released (write_file tmp content w))
         | Stream_error e content \<Rightarrow> (Done (Inl e), give_up env tmp (write_file tmp content w))
         | Stream_failed content \<Rightarrow>
             retry_or (policy c) k Transport (give_up env tmp (write_file tmp content w))
         | Stream_done n content \<Rightarrow>
             (let w1 = write_file tmp content w
              in if \<not> sync_ok env tmp then (Done (Inl ExportStorage), give_up env tmp w1)
                 else
                   (let w2 = emit Released w1
                    in if rename_ok env tmp
                       then (Done (Inr \<lparr>bytes = n, digest = sha256 lib content\<rparr>),
                             rename_file tmp destination w2)
                       else (Done (Inl ExportStorage), remove_temporary_file env tmp w2)))))"

definition export_attempt ::
    "client_lib \<Rightarrow> client_env \<Rightarrow> client \<Rightarrow> url \<Rightarrow> string \<Rightarrow> nat \<Rightarrow> nat \<Rightarrow>
     client_world \<Rightarrow> (client_error + export_download) outcome \<times> client_world" where
  "export_attempt lib env c u destination max_bytes k w =
     (case gate_error env k of
        Some e \<Rightarrow> (Done (Inl (PolicyFailure e)), w)
      | None \<Rightarrow>
          (case create_temporary_file env destination (emit Acquired w) of
             (Inl e, w1) \<Rightarrow> (Done (Inl e), emit Released w1)
           | (Inr tmp, w1) \<Rightarrow>
               (let w2 = emit (Requested u None) w1
                in case answer env k of
                     None \<Rightarrow> retry_or (policy c) k Transport (give_up env tmp w2)
                   | Some r \<Rightarrow> export_response lib env c u destination max_bytes k tmp r w2)))"

definition fetch_daily_export_to_file ::
    "client_lib \<Rightarrow> client_env \<Rightarrow> client \<Rightarrow> string \<Rightarrow> string \<Rightarrow> nat \<Rightarrow> client_world \<Rightarrow>
     (client_error + export_download) \<times> client_world" where
  "fetch_daily_export_to_file lib env c address destination max_bytes w =
     (case parse_url lib address of
        None \<Rightarrow> (Inl InvalidBaseUrl, w)
      | Some u \<Rightarrow>
          if \<not> usable_url u then (Inl InvalidBaseUrl, w)
          else if max_bytes = 0 \<or> max_bytes > max_daily_export_bytes then (Inl ExportSizeLimit, w)
          else if destination = '''' \<or> file_name destination = None
          then (Inl InvalidExportDestination, w)
          else for_attempts (max_attempts (policy c)) 1
                 (export_attempt lib env c u destination max_bytes) (Inl Transport) w)"

section \<open>The chunk loop\<close>

lemma stream_done:
  "stream_chunks wok m i n content cs brk = Stream_done n' out \<Longrightarrow>
     \<not> brk \<and> out = content @ concat cs \<and> n' = n + length (concat cs) \<and> (cs = [] \<or> n' \<le> m)"
  by (induction wok m i n content cs brk rule: stream_chunks.induct)
     (fastforce simp: Let_def split: if_splits)+

text \<open>The checked addition cannot fail while a chunk fits beside the limit.\<close>

lemma stream_no_leak:
  assumes "n \<le> m" "\<forall>c\<in>set cs. m + length c \<le> u64_max"
  shows "stream_chunks wok m i n content cs brk \<noteq> Stream_leak e out"
  using assms
proof (induction cs arbitrary: i n content)
  case (Cons c cs)
  then have "length c \<le> u64_max" "n + length c \<le> u64_max" by auto
  with Cons show ?case by (simp add: Let_def)
qed simp

section \<open>The file system\<close>

text \<open>
  \<open>files_kept clean d old w\<close>: the destination and every file of \<open>old\<close> are as they were,
  and in a \<open>clean\<close> environment (removals succeed, no checked addition overflows) the file
  system is exactly \<open>old\<close>. \<open>holding\<close> is the same while the attempt owns its temporary file.
\<close>

definition files_kept :: "bool \<Rightarrow> string \<Rightarrow> (string \<Rightarrow> string option) \<Rightarrow> client_world \<Rightarrow> bool" where
  "files_kept clean d old w \<longleftrightarrow>
     (\<forall>q. old q \<noteq> None \<longrightarrow> files w q = old q) \<and> files w d = old d \<and> (clean \<longrightarrow> files w = old)"

definition holding ::
    "bool \<Rightarrow> string \<Rightarrow> (string \<Rightarrow> string option) \<Rightarrow> string \<Rightarrow> client_world \<Rightarrow> bool" where
  "holding clean d old tmp w \<longleftrightarrow>
     tmp \<noteq> d \<and> old tmp = None \<and> (\<forall>q. old q \<noteq> None \<longrightarrow> files w q = old q) \<and> files w d = old d \<and>
     (clean \<longrightarrow> (\<exists>x. files w = old(tmp := x)))"

definition published ::
    "bool \<Rightarrow> string \<Rightarrow> (string \<Rightarrow> string option) \<Rightarrow> string \<Rightarrow> client_world \<Rightarrow> bool" where
  "published clean d old content w \<longleftrightarrow>
     files w d = Some content \<and> (\<forall>q. q \<noteq> d \<longrightarrow> old q \<noteq> None \<longrightarrow> files w q = old q) \<and>
     (clean \<longrightarrow> files w = old(d \<mapsto> content))"

lemma temp_path_neq [simp]: "temp_path d p n \<noteq> d" "d \<noteq> temp_path d p n"
proof -
  have "length (temp_path d p n) \<noteq> length d" by (simp add: temp_path_def)
  then show "temp_path d p n \<noteq> d" "d \<noteq> temp_path d p n" by metis+
qed

lemma files_kept_emit [simp]: "files_kept clean d old (emit e w) = files_kept clean d old w"
  by (simp add: files_kept_def)

lemma holding_emit [simp]: "holding clean d old tmp (emit e w) = holding clean d old tmp w"
  by (simp add: holding_def)

lemma holding_write:
  "holding clean d old tmp w \<Longrightarrow> holding clean d old tmp (write_file tmp content w)"
  by (auto simp: holding_def write_file_def)

lemma holding_remove:
  "holding clean d old tmp w \<Longrightarrow> (clean \<longrightarrow> remove_ok env tmp) \<Longrightarrow>
   files_kept clean d old (remove_temporary_file env tmp w)"
  by (auto simp: holding_def files_kept_def remove_temporary_file_def)

lemma holding_give_up:
  "holding clean d old tmp w \<Longrightarrow> (clean \<longrightarrow> remove_ok env tmp) \<Longrightarrow>
   files_kept clean d old (give_up env tmp w)"
  unfolding give_up_def by (rule holding_remove) simp_all

lemma holding_not_clean: "holding False d old tmp w \<Longrightarrow> files_kept False d old w"
  by (simp add: holding_def files_kept_def)

lemma holding_rename:
  "holding clean d old tmp w \<Longrightarrow> files w tmp = Some content \<Longrightarrow>
   published clean d old content (rename_file tmp d w)"
  by (auto simp: holding_def published_def rename_file_def)

lemma files_write [simp]: "files (write_file tmp content w) tmp = Some content"
  by (simp add: write_file_def)

text \<open>No step but \<open>emit\<close> touches the trace.\<close>

lemma trace_simps [simp]:
  "trace (write_file tmp content w) = trace w"
  "trace (remove_temporary_file env tmp w) = trace w"
  "trace (rename_file tmp d w) = trace w"
  "trace (give_up env tmp w) = trace w @ [Released]"
  by (simp_all add: write_file_def remove_temporary_file_def rename_file_def give_up_def)

lemma create_temporary:
  assumes "create_temporary_file env d w = (r, w')" "files_kept clean d old w"
  shows "trace w' = trace w \<and>
    (case r of Inl e \<Rightarrow> files_kept clean d old w' | Inr tmp \<Rightarrow> holding clean d old tmp w')"
proof -
  let ?P = "\<lambda>v. trace v = trace w \<and> files_kept clean d old v"
  let ?Q = "\<lambda>r v. trace v = trace w \<and>
    (case r of Inl e \<Rightarrow> files_kept clean d old v | Inr tmp \<Rightarrow> holding clean d old tmp v)"
  show ?thesis
  proof (rule for_attempts_post [where P = ?P and Q = ?Q, OF _ assms(1) [unfolded create_temporary_file_def]])
    show "?P w" using assms(2) by simp
    show "\<And>k s s'. ?P s \<Longrightarrow> create_attempt env d k s = (Again, s') \<Longrightarrow> ?P s'"
      by (auto simp: create_attempt_def Let_def files_kept_def split: if_splits)
    show "\<And>k s s' r. ?P s \<Longrightarrow> create_attempt env d k s = (Done r, s') \<Longrightarrow> ?Q r s'"
      by (auto simp: create_attempt_def Let_def files_kept_def holding_def split: if_splits)
    show "\<And>s. ?P s \<Longrightarrow> ?Q (Inl ExportStorage) s" by simp
  qed
qed

section \<open>One attempt\<close>

text \<open>What an environment must do for the file system to be left exactly as described.\<close>

definition clean_env :: "client_env \<Rightarrow> nat \<Rightarrow> bool" where
  "clean_env env max_bytes \<longleftrightarrow>
     (\<forall>p. remove_ok env p) \<and>
     (\<forall>k r. answer env k = Some r \<longrightarrow> (\<forall>c\<in>set (chunks r). max_bytes + length c \<le> u64_max))"

definition export_done ::
    "client_lib \<Rightarrow> client_env \<Rightarrow> nat \<Rightarrow> bool \<Rightarrow> string \<Rightarrow> (string \<Rightarrow> string option) \<Rightarrow>
     client_error + export_download \<Rightarrow> client_world \<Rightarrow> bool" where
  "export_done lib env max_bytes clean d old r w \<longleftrightarrow>
     (case r of
        Inl e \<Rightarrow> files_kept clean d old w
      | Inr x \<Rightarrow>
          (\<exists>k resp. answer env k = Some resp \<and> is_success (status resp) \<and> \<not> broken resp \<and>
             bytes x = length (concat (chunks resp)) \<and> bytes x \<le> max_bytes \<and>
             digest x = sha256 lib (concat (chunks resp)) \<and>
             published clean d old (concat (chunks resp)) w))"

lemma export_done_Inl [simp]:
  "export_done lib env m clean d old (Inl e) w = files_kept clean d old w"
  by (simp add: export_done_def)

text \<open>The events after the temporary file exists.\<close>

definition tail_events :: "retry_policy \<Rightarrow> client_world \<Rightarrow> client_world \<Rightarrow> bool" where
  "tail_events p w w' \<longleftrightarrow>
     trace w' = trace w @ [Released] \<or>
     (\<exists>d. trace w' = trace w @ [Released, Slept d] \<and> d \<le> backoff_max p)"

lemma tail_events_released: "trace w' = trace w @ [Released] \<Longrightarrow> tail_events p w w'"
  by (simp add: tail_events_def)

lemma tail_events_dispatch:
  assumes "dispatch_class lib env p u k r body ok (give_up env tmp w) = (out, w')"
  shows "tail_events p w w'"
  using dispatch_class_world [OF assms] by (auto simp: tail_events_def)

lemma files_kept_dispatch:
  assumes "dispatch_class lib env p u k r body ok w = (out, w')" "files_kept clean d old w"
  shows "files_kept clean d old w'"
  using dispatch_class_world [OF assms(1)] assms(2) by auto

lemma retry_or_spec:
  assumes "retry_or p k e (give_up env tmp w) = (out, w')" "files_kept clean d old (give_up env tmp w)"
  shows "tail_events p w w' \<and> files_kept clean d old w' \<and>
    (out = Again \<longrightarrow> k < max_attempts p) \<and> (\<forall>x. out \<noteq> Done (Inr x))"
  using assms backoff_le_max [of p k]
  by (auto simp: retry_or_def tail_events_def split: if_splits)

lemma export_response_failed:
  assumes run: "export_response lib env c u d m k tmp r w = (out, w')"
    and hold: "holding clean d old tmp w" and clean: "clean \<longrightarrow> remove_ok env tmp"
    and fail: "\<not> is_success (status r)"
  shows "tail_events (policy c) w w' \<and> files_kept clean d old w' \<and>
    (out = Again \<longrightarrow> k < max_attempts (policy c)) \<and> (\<forall>x. out \<noteq> Done (Inr x))"
proof (cases "read_bounded r (max_response_bytes (policy c))")
  case (Inl e)
  with run fail hold clean show ?thesis
    by (auto simp: export_response_def tail_events_def intro: holding_give_up)
next
  case (Inr body)
  with run fail have d: "dispatch_class lib env (policy c) u k r body
      (Inl Transport :: client_error + export_download) (give_up env tmp w) = (out, w')"
    by (simp add: export_response_def)
  have "files_kept clean d old w'"
    using files_kept_dispatch [OF d holding_give_up [OF hold clean]] .
  then show ?thesis
    using tail_events_dispatch [OF d] d dispatch_class_done dispatch_class_again
    by (metis Inl_Inr_False)
qed

lemma export_response_spec:
  assumes run: "export_response lib env c u d m k tmp r w = (out, w')"
    and hold: "holding clean d old tmp w" and r: "answer env k = Some r"
    and clean: "clean \<longrightarrow> clean_env env m"
  shows "tail_events (policy c) w w' \<and> (out = Again \<longrightarrow> k < max_attempts (policy c) \<and>
      files_kept clean d old w') \<and> (\<forall>x. out = Done x \<longrightarrow> export_done lib env m clean d old x w')"
proof -
  have rm: "clean \<longrightarrow> remove_ok env tmp" using clean by (simp add: clean_env_def)
  note hw = holding_write [OF hold]
  show ?thesis
  proof (cases "is_success (status r)")
    case False
    from export_response_failed [OF run hold rm False] show ?thesis
      by (auto simp: export_done_def split: sum.split)
  next
    case True
    show ?thesis
    proof (cases "stream_chunks (write_ok env tmp) m 0 0 [] (chunks r) (broken r)")
      case (Stream_done n content)
      with stream_done have content: "\<not> broken r" "content = concat (chunks r)"
          "n = length content" "n \<le> m"
        by fastforce+
      note hr = holding_rename [of clean d old tmp "emit Released (write_file tmp content w)" content]
      have "export_done lib env m clean d old
          (Inr \<lparr>bytes = n, digest = sha256 lib content\<rparr>)
          (rename_file tmp d (emit Released (write_file tmp content w)))"
        using hr hw content r True by (auto simp: export_done_def)
      moreover have "files_kept clean d old (give_up env tmp (write_file tmp content w))"
        using holding_give_up [OF hw rm] .
      moreover have
        "files_kept clean d old (remove_temporary_file env tmp (emit Released (write_file tmp content w)))"
        using holding_remove [OF _ rm] hw by simp
      ultimately show ?thesis
        using run True Stream_done
        by (cases "sync_ok env tmp"; cases "rename_ok env tmp")
           (auto simp: export_response_def Let_def intro!: tail_events_released)
    next
      case (Stream_failed content)
      with run True have t: "retry_or (policy c) k Transport
          (give_up env tmp (write_file tmp content w)) = (out, w')"
        by (simp add: export_response_def)
      from retry_or_spec [OF this holding_give_up [OF hw rm]] show ?thesis
        by (auto simp: tail_events_def export_done_def split: sum.split)
    next
      case (Stream_error e content)
      with run True holding_give_up [OF hw rm] show ?thesis
        by (auto simp: export_response_def tail_events_def export_done_def)
    next
      case (Stream_leak e content)
      have "\<not> clean"
        using stream_no_leak [of 0 m "chunks r"] clean r Stream_leak
        by (auto simp: clean_env_def)
      then have "files_kept clean d old (emit Released (write_file tmp content w))"
        using holding_not_clean [of d old tmp] hw by simp
      with run True Stream_leak show ?thesis
        by (auto simp: export_response_def intro!: tail_events_released)
    qed
  qed
qed

lemma export_attempt_spec:
  assumes run: "export_attempt lib env c u d m k w = (out, w')"
    and kept: "files_kept clean d old w" and clean: "clean \<longrightarrow> clean_env env m"
  shows "(\<exists>t. trace w' = trace w @ t \<and> attempt_events (policy c) u None t) \<and>
    (out = Again \<longrightarrow> k < max_attempts (policy c) \<and> files_kept clean d old w') \<and>
    (\<forall>x. out = Done x \<longrightarrow> export_done lib env m clean d old x w')"
proof (cases "gate_error env k")
  case (Some e)
  with run kept show ?thesis
    by (auto simp: export_attempt_def attempt_events_def)
next
  case gate: None
  obtain r w1 where cr: "create_temporary_file env d (emit Acquired w) = (r, w1)"
    by (cases "create_temporary_file env d (emit Acquired w)") auto
  have made: "trace w1 = trace w @ [Acquired]"
    "case r of Inl e \<Rightarrow> files_kept clean d old w1 | Inr tmp \<Rightarrow> holding clean d old tmp w1"
    using create_temporary [OF cr, of clean old] kept by (auto split: sum.splits)
  show ?thesis
  proof (cases r)
    case (Inl e)
    with run gate cr made show ?thesis
      by (auto simp: export_attempt_def attempt_events_def)
  next
    case (Inr tmp)
    let ?w2 = "emit (Requested u None) w1"
    have hold: "holding clean d old tmp ?w2" using made Inr by simp
    have rm: "clean \<longrightarrow> remove_ok env tmp" using clean by (simp add: clean_env_def)
    have "tail_events (policy c) ?w2 w' \<and>
        (out = Again \<longrightarrow> k < max_attempts (policy c) \<and> files_kept clean d old w') \<and>
        (\<forall>x. out = Done x \<longrightarrow> export_done lib env m clean d old x w')"
    proof (cases "answer env k")
      case None
      with run gate cr Inr
      have t: "retry_or (policy c) k Transport (give_up env tmp ?w2) = (out, w')"
        by (simp add: export_attempt_def)
      from retry_or_spec [OF t holding_give_up [OF hold rm]] show ?thesis
        by (auto simp: export_done_def split: sum.split)
    next
      case (Some resp)
      with run gate cr Inr
      have "export_response lib env c u d m k tmp resp ?w2 = (out, w')"
        by (simp add: export_attempt_def)
      from export_response_spec [OF this hold Some clean] show ?thesis by blast
    qed
    moreover have "\<exists>t. trace w' = trace w @ t \<and> attempt_events (policy c) u None t"
      using calculation made(1) by (auto simp: tail_events_def attempt_events_def)
    ultimately show ?thesis by blast
  qed
qed

definition export_inv ::
    "client \<Rightarrow> url \<Rightarrow> client_env \<Rightarrow> nat \<Rightarrow> bool \<Rightarrow> string \<Rightarrow> client_world \<Rightarrow> client_world \<Rightarrow> bool" where
  "export_inv c u env m clean d w0 w \<longleftrightarrow>
     (clean \<longrightarrow> clean_env env m) \<and> files_kept clean d (files w0) w \<and>
     (\<exists>t. trace w = trace w0 @ t \<and> disciplined (policy c) u None t)"

lemma export_inv_trace:
  assumes "export_inv c u env m clean d w0 w" "export_attempt lib env c u d m k w = (out, w')"
  shows "(\<exists>t. trace w' = trace w0 @ t \<and> disciplined (policy c) u None t) \<and>
    length (requests (trace w')) \<le> Suc (length (requests (trace w)))"
proof -
  from assms(1) obtain t where t: "trace w = trace w0 @ t" "disciplined (policy c) u None t"
    by (auto simp: export_inv_def)
  from export_attempt_spec [OF assms(2), of False "files w"] obtain s
    where s: "trace w' = trace w @ s" "attempt_events (policy c) u None s"
    by (auto simp: files_kept_def)
  have "trace w' = trace w0 @ (t @ s)" using s t by simp
  then show ?thesis
    using disciplined_append [OF t(2) attempt_disciplined [OF s(2)]] attempt_requests [OF s(2)] s(1)
    by auto
qed

interpretation export: bounded_attempts
    "export_attempt lib env c u d m" "max_attempts (policy c)"
    "export_inv c u env m clean d w0" "\<lambda>w. length (requests (trace w))"
    "\<lambda>r w. export_done lib env m clean d (files w0) r w \<and>
       (\<exists>t. trace w = trace w0 @ t \<and> disciplined (policy c) u None t)"
  for lib env c u d m clean w0
proof unfold_locales
  fix w k w'
  assume inv: "export_inv c u env m clean d w0 w"
    and step: "export_attempt lib env c u d m k w = (Again, w')"
  have "files_kept clean d (files w0) w'"
    using export_attempt_spec [OF step] inv by (auto simp: export_inv_def)
  then show "export_inv c u env m clean d w0 w' \<and>
      length (requests (trace w')) \<le> Suc (length (requests (trace w)))"
    using export_inv_trace [OF inv step] inv by (simp add: export_inv_def)
next
  fix w k r w'
  assume inv: "export_inv c u env m clean d w0 w"
    and step: "export_attempt lib env c u d m k w = (Done r, w')"
  have "export_done lib env m clean d (files w0) r w'"
    using export_attempt_spec [OF step] inv by (auto simp: export_inv_def)
  then show "(export_done lib env m clean d (files w0) r w' \<and>
      (\<exists>t. trace w' = trace w0 @ t \<and> disciplined (policy c) u None t)) \<and>
      length (requests (trace w')) \<le> Suc (length (requests (trace w)))"
    using export_inv_trace [OF inv step] by blast
next
  fix w
  have "files_kept False d (files w) w" by (simp add: files_kept_def)
  then show "fst (export_attempt lib env c u d m (max_attempts (policy c)) w) \<noteq> Again"
    using export_attempt_spec [of lib env c u d m "max_attempts (policy c)" w _ _ False "files w"]
    by (cases "export_attempt lib env c u d m (max_attempts (policy c)) w") auto
qed

lemma fetch_export_cases:
  assumes wf: "wf_retry (policy c)"
    and run: "fetch_daily_export_to_file lib env c a d m w = (r, w')"
    and clean: "clean \<longrightarrow> clean_env env m"
  shows "export_done lib env m clean d (files w) r w' \<and>
    (\<exists>u t. trace w' = trace w @ t \<and> disciplined (policy c) u None t \<and>
           length (requests t) \<le> max_attempts (policy c))"
proof (cases "w' = w \<and> (\<exists>e. r = Inl e)")
  case True
  then show ?thesis by (auto simp: files_kept_def intro!: exI [of _ "[]"])
next
  case False
  with run obtain u where loop: "for_attempts (max_attempts (policy c)) 1
      (export_attempt lib env c u d m) (Inl Transport) w = (r, w')"
    by (auto simp: fetch_daily_export_to_file_def split: option.splits if_splits)
  have "export_inv c u env m clean d w w"
    using clean by (auto simp: export_inv_def files_kept_def)
  from export.run [OF this loop] wf show ?thesis by (auto simp: wf_retry_def)
qed

section \<open>Properties\<close>

text \<open>A concrete download of two chunks; the demonstration hash is the identity.\<close>

definition demo_export_env :: client_env where
  "demo_export_env = demo_env\<lparr>answer := (\<lambda>k. Some \<lparr>status = 200, headers = [],
     chunks = [''ab'', ''c''], broken = False\<rparr>)\<rparr>"

lemma demo_export_env_simps:
  "gate_error demo_export_env k = None"
  "answer demo_export_env k =
     Some \<lparr>status = 200, headers = [], chunks = [''ab'', ''c''], broken = False\<rparr>"
  "write_ok demo_export_env p i" "sync_ok demo_export_env p" "rename_ok demo_export_env p"
  by (simp_all add: demo_export_env_def demo_env_def)

lemma demo_export_run:
  "\<exists>w'. fetch_daily_export_to_file demo_lib demo_export_env demo_client ''u'' ''e.gz'' 10 demo_world
     = (Inr \<lparr>bytes = 3, digest = ''abc''\<rparr>, w')"
proof -
  let ?tmp = "temp_path ''e.gz'' 7 0"
  have create: "create_temporary_file demo_export_env ''e.gz'' (emit Acquired demo_world) =
      (Inr ?tmp, demo_world\<lparr>trace := [Acquired], files := [?tmp \<mapsto> []], temp_counter := 1\<rparr>)"
    unfolding create_temporary_file_def
    by (rule for_attempts_Done)
       (simp_all add: create_attempt_def Let_def demo_export_env_def demo_env_def demo_world_def emit_def)
  have "\<exists>w'. export_attempt demo_lib demo_export_env demo_client demo_url ''e.gz'' 10 1 demo_world =
      (Done (Inr \<lparr>bytes = 3, digest = ''abc''\<rparr>), w')"
    by (simp add: export_attempt_def create demo_export_env_simps export_response_def demo_lib_def
        is_success_def Let_def)
  then obtain w' where w': "export_attempt demo_lib demo_export_env demo_client demo_url ''e.gz'' 10 1
      demo_world = (Done (Inr \<lparr>bytes = 3, digest = ''abc''\<rparr>), w')" by blast
  have loop: "for_attempts 4 1 (export_attempt demo_lib demo_export_env demo_client demo_url ''e.gz'' 10)
      (Inl Transport) demo_world = (Inr \<lparr>bytes = 3, digest = ''abc''\<rparr>, w')"
    using w' by (intro for_attempts_Done) simp_all
  have "usable_url demo_url" by (simp add: usable_url_def demo_url_def)
  moreover have "parse_url demo_lib ''u'' = Some demo_url" by (simp add: demo_lib_def)
  moreover have "file_name ''e.gz'' = Some ''e.gz''" by (simp add: file_name_def)
  moreover have "max_attempts (policy demo_client) = 4"
    by (simp add: demo_client_def retry_conservative_def nonzero_or_min_def)
  ultimately show ?thesis
    using loop by (simp add: fetch_daily_export_to_file_def max_daily_export_bytes_def)
qed

lemma wf_demo_client: "wf_retry (policy demo_client)"
  by (simp add: demo_client_def wf_retry_conservative)



text \<open>Where removals succeed and no chunk is so long that the byte count overflows, the
  download leaves no temporary file behind: the file system is unchanged after an error, and
  changed only at the destination after success.\<close>

theorem export_download_no_leftovers:
  assumes "wf_retry (policy c)" "clean_env env m"
    and "fetch_daily_export_to_file lib env c a d m w = (r, w')"
  shows "files w' = (case r of Inl e \<Rightarrow> files w | Inr x \<Rightarrow> (files w)(d := files w' d))"
proof -
  from fetch_export_cases [OF assms(1,3), of True] assms(2)
  have "export_done lib env m True d (files w) r w'" by blast
  then show ?thesis
    by (cases r) (auto simp: export_done_def files_kept_def published_def)
qed

theorem export_download_no_leftovers_witness:
  "\<exists>w' r. fetch_daily_export_to_file demo_lib demo_export_env demo_client ''u'' ''e.gz'' 10 demo_world
      = (Inr r, w') \<and> files w' = (files demo_world)(''e.gz'' := files w' ''e.gz'')"
proof -
  obtain w' where w': "fetch_daily_export_to_file demo_lib demo_export_env demo_client ''u'' ''e.gz''
      10 demo_world = (Inr \<lparr>bytes = 3, digest = ''abc''\<rparr>, w')" using demo_export_run by blast
  have "clean_env demo_export_env 10"
    by (simp add: clean_env_def demo_export_env_def demo_env_def)
  from export_download_no_leftovers [OF wf_demo_client this w'] w' show ?thesis by auto
qed

end
