(* ===== verification/Export_Parser.thy ===== *)
theory Export_Parser
  imports Export_Download
begin

text \<open>
  The bounded daily-export parser, \<open>src/crates/tmdb-upstream/src/parser.rs\<close>. A reader is
  the list of the buffers that \<open>fill_buf\<close> will return, each non-empty, and whether it ends
  with an I/O error; \<open>decode\<close> is \<open>serde_json::from_slice\<close> on a line, \<open>rec_id\<close> the
  identifier of a record, and \<open>gunzip\<close> the buffers of \<open>GzDecoder\<close>. The visitor is the list
  of the records it was called with.
\<close>

section \<open>Bounds and errors\<close>

datatype export_parse_error =
    InvalidBounds | InputTooLarge | LineTooLong nat | InvalidJson nat | InvalidId nat
  | InvalidPage | TooManyRecords | Io

datatype line_read_error = ReadIo | TooLong

record export_parser =
  line_bytes :: nat
  records :: nat
  decompressed_bytes :: nat

definition parser_default :: export_parser where
  "parser_default =
     \<lparr>line_bytes = 2 ^ 20, records = 5000000, decompressed_bytes = 512 * 2 ^ 20\<rparr>"

definition parser_try_new :: "nat \<Rightarrow> nat \<Rightarrow> nat \<Rightarrow> export_parse_error + export_parser" where
  "parser_try_new l r d =
     (if l = 0 \<or> r = 0 \<or> d = 0 then Inl InvalidBounds
      else Inr \<lparr>line_bytes = l, records = r, decompressed_bytes = d\<rparr>)"

section \<open>Reading a line\<close>

definition newline :: char where
  "newline = CHR 0x0A"

fun position :: "char \<Rightarrow> string \<Rightarrow> nat option" where
  "position d [] = None"
| "position d (c # cs) = (if c = d then Some 0 else map_option Suc (position d cs))"

text \<open>
  The loop of \<open>read_line_bounded\<close>: the line read so far and the buffers left. Consuming
  part of a buffer leaves the rest of it to the next \<open>fill_buf\<close>.
\<close>

fun read_line_bounded ::
    "nat \<Rightarrow> string \<Rightarrow> string list \<Rightarrow> bool \<Rightarrow> (line_read_error + string) \<times> string list" where
  "read_line_bounded m line [] brk = (if brk then Inl ReadIo else Inr line, [])"
| "read_line_bounded m line (b # bs) brk =
     (if b = [] then (Inr line, bs)
      else
        let nl = position newline b;
            n = (case nl of None \<Rightarrow> length b | Some p \<Rightarrow> p + 1)
        in if min (length line + n) u64_max > m then (Inl TooLong, b # bs)
           else if nl \<noteq> None
           then (Inr (line @ take n b), (if drop n b = [] then bs else drop n b # bs))
           else read_line_bounded m (line @ take n b) bs brk)"

section \<open>Reference: lines of a text\<close>

fun first_line :: "string \<Rightarrow> string" where
  "first_line [] = []"
| "first_line (c # cs) = (if c = newline then [c] else c # first_line cs)"

definition after_line :: "string \<Rightarrow> string" where
  "after_line s = drop (length (first_line s)) s"

lemma first_line_nonempty: "s \<noteq> [] \<Longrightarrow> first_line s \<noteq> []"
  by (cases s) auto

lemma first_line_split: "first_line s @ after_line s = s"
proof (induction s)
  case (Cons c cs)
  then show ?case by (simp add: after_line_def)
qed (simp add: after_line_def)

lemma length_after_line: "length (first_line s) + length (after_line s) = length s"
  by (metis first_line_split length_append)

lemma position_None: "position d b = None \<longleftrightarrow> d \<notin> set b"
  by (induction b) auto

lemma position_Some: "position d b = Some p \<Longrightarrow> p < length b \<and> b ! p = d \<and> d \<notin> set (take p b)"
proof (induction b arbitrary: p)
  case (Cons c cs)
  then show ?case by (auto split: if_splits)
qed simp

lemma first_line_no_newline: "newline \<notin> set a \<Longrightarrow> first_line (a @ b) = a @ first_line b"
  by (induction a) auto

lemma first_line_position:
  "position newline b = Some p \<Longrightarrow> first_line (b @ r) = take (p + 1) b"
proof (induction b arbitrary: p)
  case (Cons c cs)
  then show ?case by (auto split: if_splits)
qed simp

lemma after_line_position:
  "position newline b = Some p \<Longrightarrow> after_line (b @ r) = drop (p + 1) b @ r"
  using position_Some [of newline b p]
  by (simp add: after_line_def first_line_position min_def)

text \<open>The chunked reader reads exactly the first line of the remaining text.\<close>

lemma read_line_bounded_spec:
  assumes "[] \<notin> set bs" "m < u64_max"
  shows "case read_line_bounded m line bs brk of
      (Inr out, bs') \<Rightarrow> out = line @ first_line (concat bs) \<and>
          concat bs' = after_line (concat bs) \<and> [] \<notin> set bs' \<and>
          (brk \<longrightarrow> newline \<in> set (concat bs)) \<and> (bs = [] \<or> length out \<le> m)
    | (Inl TooLong, bs') \<Rightarrow> length line + length (first_line (concat bs)) > m
    | (Inl ReadIo, bs') \<Rightarrow> brk \<and> newline \<notin> set (concat bs) \<and>
          (bs = [] \<or> length line + length (concat bs) \<le> m)"
  using assms
proof (induction m line bs brk rule: read_line_bounded.induct)
  case (1 m line brk)
  then show ?case by (simp add: after_line_def)
next
  case (2 m line b bs brk)
  show ?case
  proof (cases "position newline b")
    case None
    then have nl: "newline \<notin> set b" by (simp add: position_None)
    have "b \<noteq> []" using 2(2) by auto
    show ?thesis
    proof (cases "length line + length b \<le> m")
      case False
      with None nl 2 show ?thesis
        by (auto simp: Let_def min_def first_line_no_newline)
    next
      case True
      then have le: "\<not> min (length line + length b) u64_max > m" by (simp add: min_def)
      then have step: "read_line_bounded m line (b # bs) brk = read_line_bounded m (line @ b) bs brk"
        using None \<open>b \<noteq> []\<close> True by (simp add: Let_def)
      have after: "after_line (b @ s) = after_line s" for s
        by (simp add: after_line_def first_line_no_newline [OF nl])
      have "case read_line_bounded m (line @ b) bs brk of
        (Inr out, bs') \<Rightarrow> out = (line @ b) @ first_line (concat bs) \<and>
            concat bs' = after_line (concat bs) \<and> [] \<notin> set bs' \<and>
            (brk \<longrightarrow> newline \<in> set (concat bs)) \<and> (bs = [] \<or> length out \<le> m)
      | (Inl TooLong, bs') \<Rightarrow> length (line @ b) + length (first_line (concat bs)) > m
      | (Inl ReadIo, bs') \<Rightarrow> brk \<and> newline \<notin> set (concat bs) \<and>
            (bs = [] \<or> length (line @ b) + length (concat bs) \<le> m)"
        using 2(1) [of "position newline b" "length b"] 2(2,3) None le \<open>b \<noteq> []\<close> True
        unfolding take_all [OF order_refl] by simp
      then show ?thesis
        using True nl unfolding step
        by (auto simp: first_line_no_newline after split: sum.splits prod.splits line_read_error.splits)
    qed
  next
    case (Some p)
    then have p: "p < length b" "newline \<in> set b"
      using position_Some [OF Some] by (auto simp: in_set_conv_nth)
    show ?thesis
      using Some p 2(2) \<open>m < u64_max\<close> first_line_position [OF Some] after_line_position [OF Some]
      by (auto simp: Let_def min_def)
  qed
qed

text \<open>Hence one line read is a function of the remaining text alone.\<close>

definition line_of :: "nat \<Rightarrow> string \<Rightarrow> bool \<Rightarrow> line_read_error + string" where
  "line_of m text brk =
     (if length (first_line text) > m then Inl TooLong
      else if brk \<and> newline \<notin> set text then Inl ReadIo
      else Inr (first_line text))"

lemma first_line_whole: "newline \<notin> set s \<Longrightarrow> first_line s = s"
  using first_line_no_newline [of s "[]"] by simp

lemma read_line_is_line_of:
  assumes "[] \<notin> set bs" "0 < m" "m < u64_max"
  shows "fst (read_line_bounded m [] bs brk) = line_of m (concat bs) brk \<and>
    (\<forall>line. line_of m (concat bs) brk = Inr line \<longrightarrow>
       concat (snd (read_line_bounded m [] bs brk)) = after_line (concat bs) \<and>
       [] \<notin> set (snd (read_line_bounded m [] bs brk)))"
proof -
  obtain r bs' where r: "read_line_bounded m [] bs brk = (r, bs')"
    by (cases "read_line_bounded m [] bs brk") auto
  note spec = read_line_bounded_spec [OF assms(1,3), where line = "[]" and brk = brk, unfolded r]
  show ?thesis
  proof (cases r)
    case (Inl e)
    with spec r show ?thesis
      by (cases e) (auto simp: line_of_def first_line_whole)
  next
    case (Inr out)
    with spec r show ?thesis
      by (auto simp: line_of_def)
  qed
qed

section \<open>Scanning a reader\<close>

text \<open>
  State of the scan: the line number, the bytes and the records so far; the result carries
  the records handed to the visitor. Counters saturate or are checked as in the source.
\<close>

definition is_ascii_whitespace :: "char \<Rightarrow> bool" where
  "is_ascii_whitespace c \<longleftrightarrow> byte c \<in> {9, 10, 12, 13, 32}"

definition saturating_succ :: "nat \<Rightarrow> nat" where
  "saturating_succ n = min (n + 1) u64_max"

text \<open>The checks of one iteration after a line was read: skip it, take a record, or fail.\<close>

datatype 'r line_verdict = Skip | Take 'r | Fail export_parse_error

definition judge_line ::
    "export_parser \<Rightarrow> (string \<Rightarrow> 'r option) \<Rightarrow> ('r \<Rightarrow> nat) \<Rightarrow> nat \<Rightarrow> nat \<Rightarrow> string \<Rightarrow> 'r line_verdict" where
  "judge_line p decode rec_id line_number consumed line =
     (if consumed > u64_max then Fail InputTooLarge
      else if consumed > decompressed_bytes p then Fail InputTooLarge
      else if length line > line_bytes p then Fail (LineTooLong line_number)
      else if list_all is_ascii_whitespace line then Skip
      else case decode line of
             None \<Rightarrow> Fail (InvalidJson line_number)
           | Some r \<Rightarrow> if rec_id r = 0 then Fail (InvalidId line_number) else Take r)"

text \<open>\<open>fuel\<close> bounds the number of lines; \<open>scan_reader_until\<close> passes more than the input has.\<close>

fun scan_loop ::
    "export_parser \<Rightarrow> (string \<Rightarrow> 'r option) \<Rightarrow> ('r \<Rightarrow> nat) \<Rightarrow> nat option \<Rightarrow> bool \<Rightarrow> nat \<Rightarrow>
     nat \<Rightarrow> nat \<Rightarrow> nat \<Rightarrow> 'r list \<Rightarrow> string list \<Rightarrow> (export_parse_error + nat) option \<times> 'r list" where
  "scan_loop p decode rec_id limit brk 0 line_number consumed record_count seen bs = (None, seen)"
| "scan_loop p decode rec_id limit brk (Suc fuel) line_number consumed record_count seen bs =
     (case read_line_bounded (line_bytes p) [] bs brk of
        (Inl ReadIo, _) \<Rightarrow> (Some (Inl Io), seen)
      | (Inl TooLong, _) \<Rightarrow> (Some (Inl (LineTooLong (saturating_succ line_number))), seen)
      | (Inr line, bs') \<Rightarrow>
          if line = [] then (Some (Inr record_count), seen)
          else
            let ln = saturating_succ line_number; consumed' = consumed + length line
            in case judge_line p decode rec_id ln consumed' line of
                 Fail e \<Rightarrow> (Some (Inl e), seen)
               | Skip \<Rightarrow> scan_loop p decode rec_id limit brk fuel ln consumed' record_count seen bs'
               | Take r \<Rightarrow>
                   (let count = saturating_succ record_count; seen' = seen @ [r]
                    in if (case limit of None \<Rightarrow> False | Some l \<Rightarrow> count \<ge> l)
                       then (Some (Inr count), seen')
                       else if count > records p then (Some (Inl TooManyRecords), seen')
                       else scan_loop p decode rec_id limit brk fuel ln consumed' count seen' bs'))"

definition scan_reader_until ::
    "export_parser \<Rightarrow> (string \<Rightarrow> 'r option) \<Rightarrow> ('r \<Rightarrow> nat) \<Rightarrow> nat option \<Rightarrow> string list \<Rightarrow> bool \<Rightarrow>
     (export_parse_error + nat) \<times> 'r list" where
  "scan_reader_until p decode rec_id limit bs brk =
     (case scan_loop p decode rec_id limit brk (Suc (length (concat bs))) 0 0 0 [] bs of
        (Some r, seen) \<Rightarrow> (r, seen)
      | (None, seen) \<Rightarrow> (Inl Io, seen))"

definition parse_reader ::
    "export_parser \<Rightarrow> (string \<Rightarrow> 'r option) \<Rightarrow> ('r \<Rightarrow> nat) \<Rightarrow> string list \<Rightarrow> bool \<Rightarrow>
     export_parse_error + 'r list" where
  "parse_reader p decode rec_id bs brk =
     (let (r, seen) = scan_reader_until p decode rec_id None bs brk in mapR (\<lambda>_. seen) r)"

definition count_reader ::
    "export_parser \<Rightarrow> (string \<Rightarrow> 'r option) \<Rightarrow> ('r \<Rightarrow> nat) \<Rightarrow> string list \<Rightarrow> bool \<Rightarrow>
     export_parse_error + nat" where
  "count_reader p decode rec_id bs brk = fst (scan_reader_until p decode rec_id None bs brk)"

text \<open>\<open>BufReader\<close> over a file or a cursor: buffers of 8192 bytes.\<close>

fun buffered :: "nat \<Rightarrow> string \<Rightarrow> string list" where
  "buffered n [] = []"
| "buffered n (c # cs) = (c # take n cs) # buffered n (drop n cs)"

definition is_gzip :: "string \<Rightarrow> bool" where
  "is_gzip s \<longleftrightarrow> take 2 s = [char_of (31 :: nat), char_of (139 :: nat)]"

definition open_reader :: "(string \<Rightarrow> string list \<times> bool) \<Rightarrow> string \<Rightarrow> string list \<times> bool" where
  "open_reader gunzip content =
     (if is_gzip content then gunzip content else (buffered 8191 content, False))"

definition parse_bytes ::
    "export_parser \<Rightarrow> (string \<Rightarrow> 'r option) \<Rightarrow> ('r \<Rightarrow> nat) \<Rightarrow> (string \<Rightarrow> string list \<times> bool) \<Rightarrow>
     string \<Rightarrow> export_parse_error + 'r list" where
  "parse_bytes p decode rec_id gunzip content =
     (let (bs, brk) = open_reader gunzip content in parse_reader p decode rec_id bs brk)"

definition scan_file_until ::
    "export_parser \<Rightarrow> (string \<Rightarrow> 'r option) \<Rightarrow> ('r \<Rightarrow> nat) \<Rightarrow> (string \<Rightarrow> string list \<times> bool) \<Rightarrow>
     string option \<Rightarrow> nat option \<Rightarrow> (export_parse_error + nat) \<times> 'r list" where
  "scan_file_until p decode rec_id gunzip file limit =
     (case file of
        None \<Rightarrow> (Inl Io, [])
      | Some content \<Rightarrow>
          (let (bs, brk) = open_reader gunzip content
           in scan_reader_until p decode rec_id limit bs brk))"

definition scan_file_limited ::
    "export_parser \<Rightarrow> (string \<Rightarrow> 'r option) \<Rightarrow> ('r \<Rightarrow> nat) \<Rightarrow> (string \<Rightarrow> string list \<times> bool) \<Rightarrow>
     string option \<Rightarrow> nat \<Rightarrow> (export_parse_error + nat) \<times> 'r list" where
  "scan_file_limited p decode rec_id gunzip file limit =
     (if limit = 0 then (Inl InvalidBounds, [])
      else scan_file_until p decode rec_id gunzip file (Some limit))"

definition count_file ::
    "export_parser \<Rightarrow> (string \<Rightarrow> 'r option) \<Rightarrow> ('r \<Rightarrow> nat) \<Rightarrow> (string \<Rightarrow> string list \<times> bool) \<Rightarrow>
     string option \<Rightarrow> export_parse_error + nat" where
  "count_file p decode rec_id gunzip file = fst (scan_file_until p decode rec_id gunzip file None)"

section \<open>Change pages\<close>

record change_page =
  cp_page :: nat
  cp_total_pages :: nat

definition parse_change_page :: "(string \<Rightarrow> change_page option) \<Rightarrow> string \<Rightarrow> export_parse_error + change_page" where
  "parse_change_page decode content =
     bindR (ok_or (InvalidJson 0) (decode content)) (\<lambda>page.
       if cp_page page = 0 \<or> cp_total_pages page < cp_page page then Inl InvalidPage else Inr page)"

definition parse_change_history :: "(string \<Rightarrow> change_page option) \<Rightarrow> string \<Rightarrow> export_parse_error + change_page" where
  "parse_change_history decode content =
     bindR (ok_or (InvalidJson 0) (decode content)) (\<lambda>history.
       if cp_page history = 0 \<or> cp_total_pages history < cp_page history then Inl InvalidPage
       else Inr history)"

section \<open>The id file\<close>

text \<open>\<open>Path::with_extension\<close> on a path whose last component is \<open>name\<close>.\<close>

definition file_stem :: "string \<Rightarrow> string" where
  "file_stem name =
     (case split_once CHR ''.'' (rev name) of
        None \<Rightarrow> name
      | Some (ext, before) \<Rightarrow> if before = [] then name else rev before)"

fun strip_tail_rev :: "string \<Rightarrow> string" where
  "strip_tail_rev (c # cs) =
     (if c = CHR ''/'' then strip_tail_rev cs
      else if c = CHR ''.'' \<and> cs \<noteq> [] \<and> hd cs = CHR ''/'' then strip_tail_rev cs
      else c # cs)"
| "strip_tail_rev [] = []"

definition with_extension :: "string \<Rightarrow> string \<Rightarrow> string" where
  "with_extension path ext =
     (case file_name path of
        None \<Rightarrow> path
      | Some name \<Rightarrow>
          (let kept = rev (strip_tail_rev (rev path))
           in take (length kept - length name) kept @ file_stem name @ ''.'' @ ext))"

text \<open>
  Which file-system calls of \<open>write_id_file\<close> succeed; \<open>id_writes_ok i\<close> is the i-th
  \<open>writeln!\<close>. The temporary file is given its buffered content; after a failed write it is
  only removed, never read or published.
\<close>

record id_file_env =
  id_create_ok :: bool
  id_writes_ok :: "nat \<Rightarrow> bool"
  id_flush_ok :: bool
  id_rename_ok :: bool
  id_remove_ok :: bool

definition id_line :: "nat \<Rightarrow> string" where
  "id_line i = dec i @ [newline]"

text \<open>\<open>let _ = fs::remove_file(&temporary)\<close>.\<close>

definition drop_temporary ::
    "id_file_env \<Rightarrow> string \<Rightarrow> (string \<Rightarrow> string option) \<Rightarrow> string \<Rightarrow> string option" where
  "drop_temporary env path fs = (if id_remove_ok env then fs(path := None) else fs)"

definition write_id_file ::
    "export_parser \<Rightarrow> (string \<Rightarrow> 'r option) \<Rightarrow> ('r \<Rightarrow> nat) \<Rightarrow> (string \<Rightarrow> string list \<times> bool) \<Rightarrow>
     id_file_env \<Rightarrow> string \<Rightarrow> string \<Rightarrow> (string \<Rightarrow> string option) \<Rightarrow>
     (export_parse_error + nat) \<times> (string \<Rightarrow> string option)" where
  "write_id_file p decode rec_id gunzip env source destination fs =
     (if destination = '''' \<or> file_name destination = None then (Inl Io, fs)
      else
        let temporary = with_extension destination ''ids.tmp''
        in if \<not> id_create_ok env then (Inl Io, fs)
           else
             (let fs1 = fs(temporary \<mapsto> []);
                  (result, seen) = scan_file_until p decode rec_id gunzip (fs1 source) None;
                  write_error = \<not> list_all (id_writes_ok env) [0..<length seen];
                  fs2 = fs1(temporary \<mapsto> concat (map (\<lambda>r. id_line (rec_id r)) seen))
              in if write_error then (Inl Io, drop_temporary env temporary fs2)
                 else case result of
                   Inl e \<Rightarrow> (Inl e, drop_temporary env temporary fs2)
                 | Inr n \<Rightarrow>
                     if \<not> id_flush_ok env then (Inl Io, fs2)
                     else if \<not> id_rename_ok env then (Inl Io, fs2)
                     else (Inr n, fs2(destination := fs2 temporary, temporary := None))))"

text \<open>The temporary name differs from every destination.\<close>

lemma split_on_nonempty [simp]: "split_on d s \<noteq> []"
  by (induction s) (auto split: list.split)

lemma split_on_single: "split_on d s = [p] \<Longrightarrow> p = s"
  by (induction s arbitrary: p) (auto split: if_splits list.splits)

lemma last_split_suffix: "suffix (last (split_on d s)) s"
proof (induction s)
  case (Cons c cs)
  obtain p ps where p: "split_on d cs = p # ps" by (cases "split_on d cs") auto
  show ?case
  proof (cases "c = d \<or> ps \<noteq> []")
    case True
    with Cons p show ?thesis by (auto intro: suffix_ConsI)
  next
    case False
    then have "split_on d cs = [p]" using p by simp
    with False split_on_single [OF this] show ?thesis by simp
  qed
qed simp

lemma last_split_nonempty:
  "s \<noteq> [] \<Longrightarrow> last s \<noteq> d \<Longrightarrow> last (split_on d s) \<noteq> []"
proof (induction s)
  case (Cons c cs)
  obtain p ps where "split_on d cs = p # ps" by (cases "split_on d cs") auto
  with Cons show ?case by (cases cs) auto
qed simp

lemma split_once_Some: "split_once d s = Some (a, b) \<Longrightarrow> s = a @ d # b \<and> d \<notin> set a"
  by (induction s arbitrary: a) (auto split: if_splits)

lemma file_name_last:
  assumes "file_name path = Some name" "path \<noteq> []" "last path \<noteq> CHR ''/''" "last path \<noteq> CHR ''.''"
  shows "suffix name path"
proof -
  obtain xs l where sp: "split_on CHR ''/'' path = xs @ [l]" by (metis rev_exhaust split_on_nonempty)
  then have l: "suffix l path" "l \<noteq> []"
    using last_split_suffix [of "CHR ''/''" path] last_split_nonempty [of path "CHR ''/''"] assms(2,3)
    by simp_all
  then have "last l = last path" unfolding suffix_def by (metis last_appendR)
  then have "l \<noteq> ''.''" using assms(4) by (metis last.simps)
  then show ?thesis using assms(1) l by (simp add: file_name_def sp split: if_splits)
qed

lemma with_extension_neq: "file_name path = Some name \<Longrightarrow> with_extension path ''ids.tmp'' \<noteq> path"
proof
  assume name: "file_name path = Some name" and eq: "with_extension path ''ids.tmp'' = path"
  let ?kept = "rev (strip_tail_rev (rev path))"
  from name eq have path: "path = take (length ?kept - length name) ?kept @ file_stem name @ ''.ids.tmp''"
    by (simp add: with_extension_def Let_def)
  then obtain q where q: "path = q @ ''.ids.tmp''" by (metis append.assoc)
  then have kept: "?kept = path" by simp
  have suf: "suffix name path" using file_name_last [OF name] q by simp
  then have "length name \<le> length path" by (auto simp: suffix_def)
  with arg_cong [OF path, of length] kept have len: "length name = length (file_stem name) + 8"
    by simp
  then obtain ext before where ext: "split_once CHR ''.'' (rev name) = Some (ext, before)" "before \<noteq> []"
    by (auto simp: file_stem_def split: option.splits if_splits)
  from split_once_Some [OF ext(1)] have r: "rev name = ext @ CHR ''.'' # before" "CHR ''.'' \<notin> set ext"
    by auto
  have "length ext = 7" using len ext arg_cong [OF r(1), of length] by (simp add: file_stem_def)
  moreover obtain z where "rev path = rev name @ z" using suf by (auto simp: suffix_def)
  then have "take 7 (rev path) = take 7 (ext @ CHR ''.'' # before @ z)" using r(1) by simp
  ultimately have "ext = take 7 (rev path)" by simp
  then have "ext = ''pmt.sdi''" by (simp add: q)
  with r(2) show False by simp
qed

section \<open>The scan is a function of the text\<close>

definition wf_parser :: "export_parser \<Rightarrow> bool" where
  "wf_parser p \<longleftrightarrow> 0 < line_bytes p \<and> line_bytes p < u64_max \<and> 0 < records p \<and>
     records p < u64_max \<and> 0 < decompressed_bytes p \<and> decompressed_bytes p < u64_max"

lemma scan_loop_concat:
  assumes "wf_parser p" "[] \<notin> set bs" "[] \<notin> set cs" "concat bs = concat cs"
  shows "scan_loop p decode rec_id limit brk fuel ln consumed count seen bs =
    scan_loop p decode rec_id limit brk fuel ln consumed count seen cs"
  using assms(2-4)
proof (induction fuel arbitrary: ln consumed count seen bs cs)
  case (Suc fuel)
  have lb: "0 < line_bytes p" "line_bytes p < u64_max" using assms(1) by (auto simp: wf_parser_def)
  obtain r bs' where b: "read_line_bounded (line_bytes p) [] bs brk = (r, bs')" by fastforce
  obtain q cs' where c: "read_line_bounded (line_bytes p) [] cs brk = (q, cs')" by fastforce
  note rb = read_line_is_line_of [OF Suc.prems(1) lb, of brk, unfolded b fst_conv snd_conv]
  note rc = read_line_is_line_of [OF Suc.prems(2) lb, of brk, unfolded c fst_conv snd_conv]
  have eq: "q = r" using rb rc Suc.prems(3) by simp
  show ?case
  proof (cases r)
    case (Inl e)
    then show ?thesis using b c eq by (cases e) simp_all
  next
    case (Inr line)
    have "line_of (line_bytes p) (concat bs) brk = Inr line" using rb Inr by simp
    then have "[] \<notin> set bs'" "[] \<notin> set cs'" "concat bs' = concat cs'"
      using rb rc Suc.prems(3) by auto
    from Suc.IH [OF this] show ?thesis
      using b c eq Inr by (simp add: Let_def split: line_verdict.split)
  qed
qed simp

lemma scan_reader_until_concat:
  assumes "wf_parser p" "[] \<notin> set bs" "[] \<notin> set cs" "concat bs = concat cs"
  shows "scan_reader_until p decode rec_id limit bs brk = scan_reader_until p decode rec_id limit cs brk"
  unfolding scan_reader_until_def scan_loop_concat [OF assms] assms(4) ..

lemma concat_buffered [simp]: "concat (buffered n s) = s"
  by (induction n s rule: buffered.induct) auto

lemma buffered_nonempty: "[] \<notin> set (buffered n s)"
  by (induction n s rule: buffered.induct) auto

text \<open>One step of the scan over the text.\<close>

lemma scan_loop_step:
  assumes "wf_parser p" "[] \<notin> set bs"
  shows "scan_loop p decode rec_id limit brk (Suc fuel) ln consumed count seen bs =
    (case line_of (line_bytes p) (concat bs) brk of
       Inl ReadIo \<Rightarrow> (Some (Inl Io), seen)
     | Inl TooLong \<Rightarrow> (Some (Inl (LineTooLong (saturating_succ ln))), seen)
     | Inr line \<Rightarrow>
         if line = [] then (Some (Inr count), seen)
         else
           let ln' = saturating_succ ln; consumed' = consumed + length line;
               rest = buffered 8191 (after_line (concat bs))
           in case judge_line p decode rec_id ln' consumed' line of
                Fail e \<Rightarrow> (Some (Inl e), seen)
              | Skip \<Rightarrow> scan_loop p decode rec_id limit brk fuel ln' consumed' count seen rest
              | Take r \<Rightarrow>
                  (let count' = saturating_succ count; seen' = seen @ [r]
                   in if (case limit of None \<Rightarrow> False | Some l \<Rightarrow> count' \<ge> l)
                      then (Some (Inr count'), seen')
                      else if count' > records p then (Some (Inl TooManyRecords), seen')
                      else scan_loop p decode rec_id limit brk fuel ln' consumed' count' seen' rest))"
proof -
  have lb: "0 < line_bytes p" "line_bytes p < u64_max" using assms(1) by (auto simp: wf_parser_def)
  obtain r bs' where b: "read_line_bounded (line_bytes p) [] bs brk = (r, bs')" by fastforce
  note rb = read_line_is_line_of [OF assms(2) lb, of brk, unfolded b fst_conv snd_conv]
  show ?thesis
  proof (cases r)
    case (Inl e)
    then have "line_of (line_bytes p) (concat bs) brk = Inl e" using rb by simp
    then show ?thesis using b Inl by (cases e) simp_all
  next
    case (Inr line)
    then have line: "line_of (line_bytes p) (concat bs) brk = Inr line" using rb by simp
    then have rest: "[] \<notin> set bs'" "concat bs' = concat (buffered 8191 (after_line (concat bs)))"
      using rb by auto
    note same = scan_loop_concat
      [OF assms(1) rest(1) buffered_nonempty rest(2), where decode = decode and rec_id = rec_id]
    show ?thesis
      using b Inr line same
      by (simp add: Let_def split: line_verdict.split)
  qed
qed

declare scan_loop.simps(2) [simp del]

section \<open>What a complete scan returns\<close>

function text_lines :: "string \<Rightarrow> string list" where
  "text_lines s = (if s = [] then [] else first_line s # text_lines (after_line s))"
  by pat_completeness auto
termination
proof (relation "measure length")
  fix s :: string
  assume "s \<noteq> []"
  then show "(after_line s, s) \<in> measure length"
    using length_after_line [of s] first_line_nonempty [of s] by (cases "first_line s") auto
qed simp

declare text_lines.simps [simp del]

lemma text_lines_Nil [simp]: "text_lines [] = []"
  by (subst text_lines.simps) simp

lemma text_lines_nonempty: "s \<noteq> [] \<Longrightarrow> text_lines s = first_line s # text_lines (after_line s)"
  by (subst text_lines.simps) simp

lemma concat_text_lines: "concat (text_lines s) = s"
proof (induction s rule: text_lines.induct)
  case (1 s)
  then show ?case
    by (cases "s = []") (simp_all add: text_lines_nonempty first_line_split)
qed

text \<open>The records of a text: its non-blank lines, decoded.\<close>

definition blank :: "string \<Rightarrow> bool" where
  "blank line = list_all is_ascii_whitespace line"

definition text_records :: "(string \<Rightarrow> 'r option) \<Rightarrow> string \<Rightarrow> 'r list" where
  "text_records decode s = map (\<lambda>l. the (decode l)) (filter (\<lambda>l. \<not> blank l) (text_lines s))"

definition text_valid ::
    "nat \<Rightarrow> (string \<Rightarrow> 'r option) \<Rightarrow> ('r \<Rightarrow> nat) \<Rightarrow> string \<Rightarrow> bool" where
  "text_valid m decode rec_id s \<longleftrightarrow>
     list_all (\<lambda>l. length l \<le> m \<and>
       (blank l \<or> (case decode l of None \<Rightarrow> False | Some r \<Rightarrow> rec_id r \<noteq> 0))) (text_lines s)"

lemma text_valid_step:
  "s \<noteq> [] \<Longrightarrow> text_valid m decode rec_id s \<longleftrightarrow>
     length (first_line s) \<le> m \<and>
     (blank (first_line s) \<or>
      (case decode (first_line s) of None \<Rightarrow> False | Some r \<Rightarrow> rec_id r \<noteq> 0)) \<and>
     text_valid m decode rec_id (after_line s)"
  by (simp add: text_valid_def text_lines_nonempty)

lemma text_records_step:
  "s \<noteq> [] \<Longrightarrow> text_records decode s =
     (if blank (first_line s) then [] else [the (decode (first_line s))]) @
     text_records decode (after_line s)"
  by (simp add: text_records_def text_lines_nonempty)

lemma saturating_succ_small: "n < u64_max \<Longrightarrow> saturating_succ n = Suc n"
  by (simp add: saturating_succ_def)

lemma judge_line_Skip:
  "judge_line p decode rec_id ln n line = Skip \<longleftrightarrow>
     n \<le> u64_max \<and> n \<le> decompressed_bytes p \<and> length line \<le> line_bytes p \<and> blank line"
  by (auto simp: judge_line_def blank_def split: option.splits)

lemma judge_line_Take:
  "judge_line p decode rec_id ln n line = Take r \<longleftrightarrow>
     n \<le> u64_max \<and> n \<le> decompressed_bytes p \<and> length line \<le> line_bytes p \<and> \<not> blank line \<and>
     decode line = Some r \<and> rec_id r \<noteq> 0"
  by (auto simp: judge_line_def blank_def split: option.splits)

text \<open>
  An unlimited scan succeeds exactly on a complete text whose lines are short enough and blank
  or valid, within the byte and record bounds, and it hands every record to the visitor.
\<close>

lemma scan_loop_complete:
  assumes "wf_parser p" "[] \<notin> set bs" "length (concat bs) < fuel" "count \<le> records p"
    and "consumed \<le> decompressed_bytes p"
  shows "case scan_loop p decode rec_id None brk fuel ln consumed count seen bs of
      (None, _) \<Rightarrow> False
    | (Some (Inr n), seen') \<Rightarrow>
        \<not> brk \<and> text_valid (line_bytes p) decode rec_id (concat bs) \<and>
        seen' = seen @ text_records decode (concat bs) \<and>
        n = count + length (text_records decode (concat bs)) \<and> n \<le> records p \<and>
        consumed + length (concat bs) \<le> decompressed_bytes p
    | (Some (Inl e), _) \<Rightarrow>
        \<not> (\<not> brk \<and> text_valid (line_bytes p) decode rec_id (concat bs) \<and>
           count + length (text_records decode (concat bs)) \<le> records p \<and>
           consumed + length (concat bs) \<le> decompressed_bytes p)"
  using assms(2-5)
proof (induction fuel arbitrary: bs ln consumed count seen)
  case (Suc fuel)
  let ?s = "concat bs" and ?rest = "after_line (concat bs)"
  note step = scan_loop_step [OF assms(1) Suc.prems(1)]
  have bounds: "records p < u64_max" "decompressed_bytes p < u64_max" using assms(1) by (auto simp: wf_parser_def)
  show ?case
  proof (cases "line_of (line_bytes p) ?s brk")
    case (Inl e)
    then have bad: "brk \<or> line_bytes p < length (first_line ?s)"
      by (auto simp: line_of_def split: if_splits)
    have "\<not> text_valid (line_bytes p) decode rec_id ?s" if "\<not> brk"
    proof -
      have "?s \<noteq> []" using bad that by (metis first_line.simps(1) list.size(3) not_less0)
      with bad that show ?thesis by (simp add: text_valid_def text_lines_nonempty del: concat_eq_Nil_conv)
    qed
    then have "\<not> (\<not> brk \<and> text_valid (line_bytes p) decode rec_id ?s)" by blast
    then show ?thesis by (cases e) (simp_all add: step Inl, blast+)
  next
    case (Inr line)
    then have line: "line = first_line ?s" "length line \<le> line_bytes p" "brk \<longrightarrow> newline \<in> set ?s"
      by (auto simp: line_of_def split: if_splits)
    show ?thesis
    proof (cases "?s = []")
      case True
      then have "line = []" using line by (simp del: concat_eq_Nil_conv)
      with True Suc.prems line Inr show ?thesis
        by (simp add: step text_valid_def text_records_def del: concat_eq_Nil_conv)
    next
      case False
      then have ne: "line \<noteq> []" using line first_line_nonempty by simp
      have len: "length line + length ?rest = length ?s" using length_after_line line by simp
      then have shorter: "length (concat (buffered 8191 ?rest)) < fuel"
        using Suc.prems(2) ne by (cases line) auto
      note lines = text_valid_step [OF False] text_records_step [OF False]
      show ?thesis
      proof (cases "judge_line p decode rec_id (saturating_succ ln) (consumed + length line) line")
        case Skip
        then have j: "consumed + length line \<le> decompressed_bytes p" "blank (first_line ?s)"
          using line by (auto simp: judge_line_Skip)
        obtain out seen' where run: "scan_loop p decode rec_id None brk fuel (saturating_succ ln)
            (consumed + length line) count seen (buffered 8191 ?rest) = (out, seen')" by fastforce
        then have "scan_loop p decode rec_id None brk (Suc fuel) ln consumed count seen bs = (out, seen')"
          using Skip ne by (simp add: step Inr)
        moreover note Suc.IH [OF buffered_nonempty shorter \<open>count \<le> records p\<close> j(1),
            where ln = "saturating_succ ln" and seen = seen, unfolded run]
        ultimately show ?thesis
          using j line len by (auto simp: lines split: option.splits sum.splits)
      next
        case (Take r)
        then have j: "consumed + length line \<le> decompressed_bytes p" "\<not> blank (first_line ?s)"
            "decode (first_line ?s) = Some r" "rec_id r \<noteq> 0"
          using line by (auto simp: judge_line_Take)
        have count: "saturating_succ count = Suc count"
          using Suc.prems(3) bounds by (intro saturating_succ_small) simp
        show ?thesis
        proof (cases "Suc count \<le> records p")
          case True
          obtain out seen' where run: "scan_loop p decode rec_id None brk fuel (saturating_succ ln)
              (consumed + length line) (Suc count) (seen @ [r]) (buffered 8191 ?rest) = (out, seen')"
            by fastforce
          then have "scan_loop p decode rec_id None brk (Suc fuel) ln consumed count seen bs = (out, seen')"
            using Take ne True count by (simp add: step Inr)
          moreover note Suc.IH [OF buffered_nonempty shorter True j(1),
              where ln = "saturating_succ ln" and seen = "seen @ [r]", unfolded run]
          ultimately show ?thesis
            using j line len by (auto simp: lines split: option.splits sum.splits)
        next
          case over: False
          then have "scan_loop p decode rec_id None brk (Suc fuel) ln consumed count seen bs =
              (Some (Inl TooManyRecords), seen @ [r])"
            using Take ne count by (simp add: step Inr)
          then show ?thesis using over j by (simp add: lines)
        qed
      next
        case (Fail e)
        then have "scan_loop p decode rec_id None brk (Suc fuel) ln consumed count seen bs =
            (Some (Inl e), seen)"
          using ne by (simp add: step Inr)
        moreover have "decompressed_bytes p < consumed + length line \<or>
            \<not> text_valid (line_bytes p) decode rec_id ?s"
          using Fail line bounds by (auto simp: judge_line_def lines blank_def split: if_splits option.splits)
        ultimately show ?thesis using len by auto
      qed
    qed
  qed
qed simp

lemma scan_complete_iff:
  assumes "wf_parser p" "[] \<notin> set bs"
  shows "scan_reader_until p decode rec_id None bs brk = (Inr n, seen) \<longleftrightarrow>
    \<not> brk \<and> text_valid (line_bytes p) decode rec_id (concat bs) \<and>
    seen = text_records decode (concat bs) \<and> n = length seen \<and> n \<le> records p \<and>
    length (concat bs) \<le> decompressed_bytes p"
proof -
  have "length (concat bs) < Suc (length (concat bs))" "0 \<le> records p" "0 \<le> decompressed_bytes p"
    by auto
  note spec = scan_loop_complete
    [OF assms this, where decode = decode and rec_id = rec_id and brk = brk and ln = 0 and seen = "[]"]
  obtain out seen' where run: "scan_loop p decode rec_id None brk (Suc (length (concat bs))) 0 0 0 [] bs
      = (out, seen')" by fastforce
  show ?thesis
  proof (cases out)
    case None
    with spec run show ?thesis by simp
  next
    case (Some r)
    with spec run show ?thesis by (cases r) (auto simp: scan_reader_until_def)
  qed
qed

section \<open>Properties\<close>

text \<open>C8: the streamed scan does not depend on how the input is cut into buffers: over any two
  sequences of buffers with the same bytes it visits the same records and returns the same
  count or the same error, with or without a record limit and also when the stream breaks.\<close>

theorem scan_chunking_independent:
  assumes "wf_parser p" "[] \<notin> set bs" "[] \<notin> set cs" "concat bs = concat cs"
  shows "scan_reader_until p decode rec_id limit bs brk = scan_reader_until p decode rec_id limit cs brk"
  by (rule scan_reader_until_concat [OF assms])

lemma wf_parser_default: "wf_parser parser_default"
  by (simp add: wf_parser_def parser_default_def)

theorem scan_chunking_independent_witness:
  "scan_reader_until parser_default Some length (Some 1) [''ab'', ''c'' @ [newline]] True =
   scan_reader_until parser_default Some length (Some 1) [''abc'', [newline]] True"
  by (rule scan_chunking_independent [OF wf_parser_default]) simp_all

text \<open>The bounded parser is the line-by-line specification: it succeeds exactly when the input
  is complete, within the byte bound, every line is within the line bound and blank or a record
  with a positive identifier, and the records are within the record bound; it then returns the
  decoded non-blank lines in file order.\<close>

theorem parse_reader_spec:
  assumes "wf_parser p" "[] \<notin> set bs"
  shows "parse_reader p decode rec_id bs brk = Inr recs \<longleftrightarrow>
    \<not> brk \<and> length (concat bs) \<le> decompressed_bytes p \<and>
    text_valid (line_bytes p) decode rec_id (concat bs) \<and>
    recs = text_records decode (concat bs) \<and> length recs \<le> records p"
proof -
  obtain r seen where s: "scan_reader_until p decode rec_id None bs brk = (r, seen)" by fastforce
  show ?thesis
    using scan_complete_iff [OF assms, of decode rec_id brk] s
    by (cases r) (auto simp: parse_reader_def)
qed

lemma demo_text:
  "text_lines (''ab'' @ [newline]) = [''ab'' @ [newline]]" "\<not> blank (''ab'' @ [newline])"
proof -
  have nl: "(CHR ''a'' = newline) = False" "(CHR ''b'' = newline) = False"
    by (simp_all add: newline_def)
  show "text_lines (''ab'' @ [newline]) = [''ab'' @ [newline]]"
    by (subst text_lines_nonempty) (simp_all add: nl after_line_def)
  show "\<not> blank (''ab'' @ [newline])" by (simp add: blank_def is_ascii_whitespace_def)
qed

theorem parse_reader_spec_witness:
  "parse_reader parser_default Some length [''ab'', [newline]] False = Inr [''ab'' @ [newline]]"
  using parse_reader_spec [OF wf_parser_default, of "[''ab'', [newline]]" Some length False] demo_text
  by (simp add: text_valid_def text_records_def) (simp add: parser_default_def)

lemma write_id_file_result:
  assumes "wf_parser p" "[] \<notin> set (fst (open_reader gunzip content))"
    and "fs source = Some content" "with_extension destination ''ids.tmp'' \<noteq> source"
    and "write_id_file p decode rec_id gunzip env source destination fs = (r, fs')"
  shows "case r of
      Inl e \<Rightarrow> fs' destination = fs destination
    | Inr n \<Rightarrow>
        (let text = concat (fst (open_reader gunzip content)); recs = text_records decode text
         in fs' destination = Some (concat (map (\<lambda>x. id_line (rec_id x)) recs)) \<and>
            n = length recs \<and> list_all (\<lambda>x. rec_id x \<noteq> 0) recs)"
proof (cases "destination = '''' \<or> file_name destination = None \<or> \<not> id_create_ok env")
  case True
  with assms(5) show ?thesis by (auto simp: write_id_file_def Let_def split: if_splits)
next
  case False
  let ?tmp = "with_extension destination ''ids.tmp''"
  have neq: "?tmp \<noteq> destination" using False with_extension_neq by auto
  obtain bs brk where o: "open_reader gunzip content = (bs, brk)" by fastforce
  obtain q seen where s: "scan_reader_until p decode rec_id None bs brk = (q, seen)" by fastforce
  have scan: "scan_file_until p decode rec_id gunzip ((fs(?tmp \<mapsto> [])) source) None = (q, seen)"
    using assms(3,4) o s by (simp add: scan_file_until_def)
  have "rec_id x \<noteq> 0" if "q = Inr n" "x \<in> set seen" for n x
    using that s scan_complete_iff [OF assms(1), of bs decode rec_id brk n seen] assms(2) o
    by (auto simp: text_valid_def text_records_def list_all_iff split: option.splits)
  then show ?thesis
    using assms(5) False neq scan o assms(2) s scan_complete_iff [OF assms(1), of bs decode rec_id brk]
    by (cases q)
       (auto simp: write_id_file_def Let_def drop_temporary_def list_all_iff split: if_splits)
qed

lemma demo_d: "file_name ''d'' \<noteq> None" "''d'' \<noteq> []"
  by (simp_all add: file_name_def)

definition demo_id :: "string \<Rightarrow> nat" where
  "demo_id s = min 7 (length s)"

abbreviation demo_id_env :: id_file_env where
  "demo_id_env \<equiv> \<lparr>id_create_ok = True, id_writes_ok = \<lambda>i. True, id_flush_ok = True, id_rename_ok = True,
     id_remove_ok = True\<rparr>"

lemma demo_id_file:
  shows "[] \<notin> set (fst (open_reader (\<lambda>s. ([s], False)) (''ab'' @ [newline])))"
    and "with_extension ''d'' ''ids.tmp'' \<noteq> ''s''"
    and "file_name d \<noteq> None \<Longrightarrow> d \<noteq> [] \<Longrightarrow> with_extension d ''ids.tmp'' \<noteq> s \<Longrightarrow> fs s = Some (''ab'' @ [newline]) \<Longrightarrow>
      \<exists>fs'. write_id_file parser_default Some demo_id (\<lambda>s. ([s], False)) demo_id_env s d fs = (Inr 1, fs')"
    and "text_records Some (concat (fst (open_reader (\<lambda>s. ([s], False)) (''ab'' @ [newline])))) = [''ab'' @ [newline]]"
proof -
  let ?g = "\<lambda>s. ([s], False)"
  have reader: "open_reader ?g (''ab'' @ [newline]) = (buffered 8191 (''ab'' @ [newline]), False)"
    by (simp add: open_reader_def is_gzip_def)
  have ext: "with_extension ''d'' ''ids.tmp'' = ''d.ids.tmp''" "file_name ''d'' = Some ''d''"
    by (simp_all add: with_extension_def file_name_def file_stem_def)
  have scan: "scan_reader_until parser_default Some demo_id None (buffered 8191 (''ab'' @ [newline])) False
      = (Inr 1, [''ab'' @ [newline]])"
    using scan_complete_iff [OF wf_parser_default buffered_nonempty,
        of Some demo_id 8191 "''ab'' @ [newline]" False 1] demo_text
    by (simp add: text_valid_def text_records_def demo_id_def del: buffered.simps) (simp add: parser_default_def)
  show "\<exists>fs'. write_id_file parser_default Some demo_id ?g demo_id_env s d fs = (Inr 1, fs')"
    if "file_name d \<noteq> None" "d \<noteq> []" "with_extension d ''ids.tmp'' \<noteq> s" "fs s = Some (''ab'' @ [newline])"
    using scan reader that by (simp add: write_id_file_def scan_file_until_def Let_def)
  show "[] \<notin> set (fst (open_reader ?g (''ab'' @ [newline])))"
    unfolding reader by (simp add: buffered_nonempty del: buffered.simps)
  show "with_extension ''d'' ''ids.tmp'' \<noteq> ''s''" by (simp add: ext)
  show "text_records Some (concat (fst (open_reader ?g (''ab'' @ [newline])))) = [''ab'' @ [newline]]"
    unfolding reader using demo_text by (simp add: text_records_def del: buffered.simps)
qed

text \<open>The normalized id file is published atomically: an error leaves the destination as it
  was, and success publishes one decimal identifier per line for exactly the records of the
  export, in order, and returns their number. (For a plain export; \<open>gunzip\<close> supplies the
  buffers of a compressed one.)\<close>

theorem write_id_file_publishes:
  assumes "wf_parser p" "[] \<notin> set (fst (open_reader gunzip content))"
    and "fs source = Some content" "with_extension destination ''ids.tmp'' \<noteq> source"
    and "write_id_file p decode rec_id gunzip env source destination fs = (r, fs')"
  shows "case r of
      Inl e \<Rightarrow> fs' destination = fs destination
    | Inr n \<Rightarrow>
        (let text = concat (fst (open_reader gunzip content)); recs = text_records decode text
         in fs' destination = Some (concat (map (\<lambda>x. id_line (rec_id x)) recs)) \<and>
            n = length recs \<and> list_all (\<lambda>x. rec_id x \<noteq> 0) recs)"
  by (rule write_id_file_result [OF assms])

theorem write_id_file_publishes_witness:
  "\<exists>fs'. write_id_file parser_default Some demo_id (\<lambda>s. ([s], False)) demo_id_env ''s'' ''d''
      [''s'' \<mapsto> ''ab'' @ [newline]] = (Inr 1, fs') \<and> fs' ''d'' = Some (id_line 3)"
proof -
  obtain fs' where run: "write_id_file parser_default Some demo_id (\<lambda>s. ([s], False)) demo_id_env ''s'' ''d''
      [''s'' \<mapsto> ''ab'' @ [newline]] = (Inr 1, fs')"
    using demo_id_file(3) [OF demo_d demo_id_file(2), of "[''s'' \<mapsto> ''ab'' @ [newline]]"] by auto
  have "fs' ''d'' = Some (id_line (demo_id (''ab'' @ [newline])))"
    using write_id_file_publishes [OF wf_parser_default demo_id_file(1) _ demo_id_file(2) run]
    unfolding Let_def demo_id_file(4) by simp
  then show ?thesis using run by (simp add: demo_id_def numeral_3_eq_3)
qed

end
