(* ===== verification/Export_Batches.thy ===== *)
theory Export_Batches
  imports Ingest_Submission Export_Parser
begin

text \<open>
  The daily export as a chain of jobs, in \<open>src/apps/tmdb-ingest/src/jobs.rs\<close>: each job reads at most
  500 identifiers of the identifier file from its offset, submits their refreshes, and submits its
  own continuation at the next offset until the file is finished.
\<close>

section \<open>Reading a batch\<close>

definition daily_export_batch_size :: nat where
  "daily_export_batch_size = 500"

record export_id_batch =
  batch_ids :: "nat list"
  next_offset :: nat
  finished :: bool

text \<open>One line: \<open>line.trim().parse::<u64>().ok().filter(|id| *id > 0)\<close>.\<close>

definition line_id :: "string \<Rightarrow> job_execution_error + nat" where
  "line_id line =
     (if \<not> utf8_valid line then Inl storage_retry
      else case parse_uint u64_max (trim line) of
        None \<Rightarrow> Inl invalid_payload
      | Some i \<Rightarrow> if i > 0 then Inr i else Inl invalid_payload)"

text \<open>The loop over at most \<open>n\<close> lines of the rest of the file: the identifiers and what is left.\<close>

fun read_ids :: "nat \<Rightarrow> string \<Rightarrow> job_execution_error + nat list \<times> string" where
  "read_ids 0 s = Inr ([], s)"
| "read_ids (Suc n) s =
     (if s = [] then Inr ([], s)
      else
        bindR (line_id (first_line s)) (\<lambda>i.
        bindR (read_ids n (after_line s)) (\<lambda>(is, rest). Inr (i # is, rest))))"

text \<open>\<open>content\<close> is the file, if it can be opened and read.\<close>

definition read_export_id_batch ::
    "string option \<Rightarrow> nat \<Rightarrow> job_execution_error + export_id_batch" where
  "read_export_id_batch content offset =
     (case content of
        None \<Rightarrow> Inl storage_retry
      | Some s \<Rightarrow>
          if offset > length s then Inl invalid_payload
          else
            bindR (read_ids daily_export_batch_size (drop offset s)) (\<lambda>(is, rest).
              Inr \<lparr>batch_ids = is, next_offset = length s - length rest, finished = (rest = [])\<rparr>))"

section \<open>The identifier file\<close>

datatype id_file = Id_file_exists | Id_file_missing | Id_file_unknown

text \<open>\<open>ensure_export_id_file\<close>: \<open>write\<close> is \<open>parser.write_id_file(source, destination)\<close>, \<open>joined\<close> whether
  the blocking task was joined.\<close>

definition ensure_export_id_file ::
    "id_file \<Rightarrow> bool \<Rightarrow> ('fs \<Rightarrow> (export_parse_error + nat) \<times> 'fs) \<Rightarrow> 'fs \<Rightarrow>
     (job_execution_error + unit) \<times> 'fs" where
  "ensure_export_id_file found joined write fs =
     (case found of
        Id_file_unknown \<Rightarrow> (Inl storage_retry, fs)
      | Id_file_exists \<Rightarrow> (Inr (), fs)
      | Id_file_missing \<Rightarrow>
          (case write fs of
             (r, fs') \<Rightarrow>
               if \<not> joined then (Inl storage_retry, fs')
               else (case r of Inl _ \<Rightarrow> (Inl invalid_payload, fs') | Inr _ \<Rightarrow> (Inr (), fs'))))"

section \<open>One export job\<close>

record export_queue_summary =
  sum_records :: nat
  sum_candidates :: nat
  sum_continued :: bool
  sum_next_offset :: "nat option"

record export_env =
  id_content :: "string option"
  catalogued_ids :: "int list option"
  batch_tx :: "nat \<Rightarrow> tx_env"
  next_tx :: tx_env
  wall_clock :: int

definition next_export_job ::
    "ingest_lib \<Rightarrow> int \<Rightarrow> media_type \<Rightarrow> string \<Rightarrow> bool \<Rightarrow> export_id_batch \<Rightarrow>
     (job_execution_error + new_job) option" where
  "next_export_job lib now m u refresh_all batch =
     (if \<not> finished batch then Some (export_continuation lib now m u (next_offset batch) refresh_all)
      else if refresh_all then Some (admin_scan_job lib now FullSweep [m] Enrichment 0 0)
      else None)"

definition enqueue_daily_export_refresh_jobs ::
    "ingest_lib \<Rightarrow> export_env \<Rightarrow> media_type \<Rightarrow> string \<Rightarrow> nat \<Rightarrow> bool \<Rightarrow> job_queue \<Rightarrow>
     (job_execution_error + export_queue_summary) \<times> job_queue" where
  "enqueue_daily_export_refresh_jobs lib env m u offset refresh_all q =
     (case read_export_id_batch (id_content env) offset of
        Inl e \<Rightarrow> (Inl e, q)
      | Inr batch \<Rightarrow>
          (case (if refresh_all
                 then enqueue_refresh_jobs_with_priority lib (batch_tx env) m (batch_ids batch)
                        title_refresh_priority CatalogOnly ''export_queue_incomplete'' q
                 else enqueue_missing_refresh_jobs lib (catalogued_ids env) (batch_tx env) m (batch_ids batch)
                        ''export_queue_incomplete'' q) of
             (Inl e, q1) \<Rightarrow> (Inl e, q1)
           | (Inr candidates, q1) \<Rightarrow>
               let done = (Inr \<lparr>sum_records = length (batch_ids batch), sum_candidates = candidates,
                     sum_continued = \<not> finished batch,
                     sum_next_offset = (if finished batch then None else Some (next_offset batch))\<rparr>)
               in (case next_export_job lib (wall_clock env) m u refresh_all batch of
                     None \<Rightarrow> (done, q1)
                   | Some (Inl e) \<Rightarrow> (Inl e, q1)
                   | Some (Inr job) \<Rightarrow>
                       (case submit_ingest_child_job (next_tx env) job q1 of
                          (Inl e, q2) \<Rightarrow> (Inl e, q2)
                        | (Inr _, q2) \<Rightarrow> (done, q2)))))"

section \<open>The batches of a file\<close>

text \<open>Following the continuations from an offset; the fuel bounds the number of jobs.\<close>

fun follow_batches :: "nat \<Rightarrow> string \<Rightarrow> nat \<Rightarrow> (job_execution_error + nat list list) option" where
  "follow_batches 0 s offset = None"
| "follow_batches (Suc n) s offset =
     (case read_export_id_batch (Some s) offset of
        Inl e \<Rightarrow> Some (Inl e)
      | Inr b \<Rightarrow>
          if finished b then Some (Inr [batch_ids b])
          else map_option (mapR (\<lambda>bs. batch_ids b # bs)) (follow_batches n s (next_offset b)))"

definition id_file_text :: "nat list \<Rightarrow> string" where
  "id_file_text ids = concat (map id_line ids)"

lemma id_file_text_Cons [simp]: "id_file_text (i # is) = id_line i @ id_file_text is"
  by (simp add: id_file_text_def)

lemma id_file_text_append: "id_file_text (a @ b) = id_file_text a @ id_file_text b"
  by (simp add: id_file_text_def)

lemma id_file_text_Nil [simp]: "id_file_text is = [] \<longleftrightarrow> is = []"
  by (cases "is") (simp_all add: id_file_text_def id_line_def)

lemma dec_no_newline: "newline \<notin> set (dec i)"
  using dec_digits [of i] by (auto simp: list_all_iff is_digit_def newline_def)

lemma first_line_id: "first_line (id_line i @ s) = id_line i"
proof -
  have "first_line (dec i @ newline # s) = dec i @ first_line (newline # s)"
    by (rule first_line_no_newline [OF dec_no_newline])
  then show ?thesis by (simp add: id_line_def)
qed

lemma after_line_id: "after_line (id_line i @ s) = s"
  by (simp add: after_line_def first_line_id)

lemma utf8_id_line: "utf8_valid (id_line i)"
  using dec_digits [of i]
  by (intro utf8_valid_ascii) (auto simp: is_ascii_def id_line_def newline_def list_all_iff is_digit_def)

lemma trim_id_line: "trim (id_line i) = dec i"
proof -
  have "char_of (10::nat) = newline" by (simp add: newline_def char_of_eq_iff take_bit_eq_mod)
  then show ?thesis using trim_dec_line [of i] by (simp add: id_line_def)
qed

lemma line_id_line: "0 < i \<Longrightarrow> i \<le> u64_max \<Longrightarrow> line_id (id_line i) = Inr i"
  by (simp add: line_id_def utf8_id_line trim_id_line parse_uint_dec)

definition valid_ids :: "nat list \<Rightarrow> bool" where
  "valid_ids ids \<longleftrightarrow> list_all (\<lambda>i. 0 < i \<and> i \<le> u64_max) ids"

lemma read_ids_text:
  "valid_ids ids \<Longrightarrow> read_ids n (id_file_text ids) = Inr (take n ids, id_file_text (drop n ids))"
proof (induction n arbitrary: ids)
  case (Suc n)
  show ?case
  proof (cases ids)
    case (Cons i "is")
    then have "valid_ids is" "0 < i" "i \<le> u64_max" using Suc.prems by (auto simp: valid_ids_def)
    then show ?thesis
      using Cons Suc.IH by (simp add: first_line_id after_line_id line_id_line) (simp add: id_line_def)
  qed simp
qed simp

lemma read_batch_text:
  assumes "valid_ids (pre @ ids)" "ids \<noteq> [] \<or> pre = []"
  shows "read_export_id_batch (Some (id_file_text (pre @ ids))) (length (id_file_text pre)) =
    Inr \<lparr>batch_ids = take 500 ids, next_offset = length (id_file_text (pre @ take 500 ids)),
      finished = (length ids \<le> 500)\<rparr>"
proof -
  have ids: "valid_ids ids" using assms(1) by (simp add: valid_ids_def)
  have len: "length (id_file_text (take 500 ids)) + length (id_file_text (drop 500 ids)) = length (id_file_text ids)"
    by (metis append_take_drop_id id_file_text_append length_append)
  show ?thesis
    using len by (simp add: read_export_id_batch_def daily_export_batch_size_def id_file_text_append
        read_ids_text [OF ids])
qed

lemma follow_batches_text:
  assumes "valid_ids (pre @ ids)" "length ids < 500 * n" "ids \<noteq> [] \<or> pre = []"
  shows "\<exists>bs. follow_batches n (id_file_text (pre @ ids)) (length (id_file_text pre)) = Some (Inr bs) \<and>
    concat bs = ids \<and> list_all (\<lambda>b. length b \<le> 500) bs"
  using assms
proof (induction n arbitrary: pre ids)
  case (Suc n)
  note batch = read_batch_text [OF Suc.prems(1,3)]
  show ?case
  proof (cases "length ids \<le> 500")
    case True
    then show ?thesis using batch by simp
  next
    case False
    let ?pre = "pre @ take 500 ids" and ?ids = "drop 500 ids"
    have whole: "pre @ ids = ?pre @ ?ids" by simp
    have "\<exists>bs. follow_batches n (id_file_text (?pre @ ?ids)) (length (id_file_text ?pre)) = Some (Inr bs) \<and>
        concat bs = ?ids \<and> list_all (\<lambda>b. length b \<le> 500) bs"
      using Suc.prems(1,2) False by (intro Suc.IH) simp_all
    then obtain bs where bs: "follow_batches n (id_file_text (pre @ ids)) (length (id_file_text ?pre)) = Some (Inr bs)"
        "concat bs = ?ids" "list_all (\<lambda>b. length b \<le> 500) bs"
      unfolding whole [symmetric] by blast
    then show ?thesis
      using batch False by (intro exI [of _ "take 500 ids # bs"]) simp
  qed
qed simp

section \<open>The export reaches every title\<close>

text \<open>From the identifier file to the jobs: once \<open>write_id_file\<close> has published the file, the chain of
  export jobs that starts at offset 0 and follows \<open>next_offset\<close> ends after at most one job more than a
  500th of the records, no job fails, no job has more than 500 identifiers, and the batches put
  together are the identifiers of the export's records, each once, in order.\<close>

theorem export_ids_delivered:
  assumes "wf_parser p" "[] \<notin> set (fst (open_reader gunzip content))"
    and "fs source = Some content" "with_extension destination ''ids.tmp'' \<noteq> source"
    and "write_id_file p decode rec_id gunzip env source destination fs = (Inr n, fs')"
    and "\<And>x. rec_id x \<le> u64_max"
  shows "\<exists>s bs. fs' destination = Some s \<and> follow_batches (n div 500 + 1) s 0 = Some (Inr bs) \<and>
    concat bs = map rec_id (text_records decode (concat (fst (open_reader gunzip content)))) \<and>
    list_all (\<lambda>b. length b \<le> 500) bs"
proof -
  let ?recs = "text_records decode (concat (fst (open_reader gunzip content)))"
  have published: "fs' destination = Some (id_file_text (map rec_id ?recs))" "n = length ?recs"
      "list_all (\<lambda>x. rec_id x \<noteq> 0) ?recs"
    using write_id_file_result [OF assms(1-5)] by (simp_all add: Let_def id_file_text_def o_def)
  then have "valid_ids ([] @ map rec_id ?recs)"
    using assms(6) by (auto simp: valid_ids_def list_all_iff)
  moreover have "length (map rec_id ?recs) < 500 * (n div 500 + 1)" using published(2) by simp
  ultimately show ?thesis
    using follow_batches_text [of "[]" "map rec_id ?recs" "n div 500 + 1"] published(1) by (auto simp: id_file_text_def)
qed

theorem export_ids_delivered_witness:
  "\<exists>fs' s. write_id_file parser_default Some demo_id (\<lambda>s. ([s], False)) demo_id_env ''s'' ''d''
      [''s'' \<mapsto> ''ab'' @ [newline]] = (Inr 1, fs') \<and>
    fs' ''d'' = Some s \<and> (\<exists>bs. follow_batches 1 s 0 = Some (Inr bs) \<and> concat bs = [3])"
proof -
  obtain fs' where run: "write_id_file parser_default Some demo_id (\<lambda>s. ([s], False)) demo_id_env ''s'' ''d''
      [''s'' \<mapsto> ''ab'' @ [newline]] = (Inr 1, fs')"
    using demo_id_file(3) [OF demo_d demo_id_file(2), of "[''s'' \<mapsto> ''ab'' @ [newline]]"] by auto
  have bound: "demo_id x \<le> u64_max" for x by (simp add: demo_id_def)
  have three: "map demo_id [''ab'' @ [newline]] = [3]" by (simp add: demo_id_def)
  show ?thesis
    using export_ids_delivered [OF wf_parser_default demo_id_file(1) _ demo_id_file(2) run bound] run
    unfolding demo_id_file(4) three by auto
qed

lemma export_continuation_key:
  assumes "export_continuation lib now m u offset refresh_all = Inr j"
  shows "job_recorded q j = recorded daily_export_job (export_dedup_key lib m u offset refresh_all) q"
proof -
  have "nj_type j = daily_export_job \<and> nj_version j = ingest_payload_version \<and>
      nj_payload j = JObj [(''media_type'', JStr (media_type_as_str m)), (''url'', JStr u), (''offset'', JInt (int offset)),
              (''refresh_all'', JBool refresh_all)] \<and>
      nj_dedup_key j = export_dedup_key lib m u offset refresh_all"
    by (rule build_job_payload [OF assms [unfolded export_continuation_def]])
      (auto simp: result_simps dest!: with_fields)
  then show ?thesis by (simp add: job_recorded_def)
qed

lemma export_job_ok:
  assumes "enqueue_daily_export_refresh_jobs lib env m u offset refresh_all q = (Inr summary, q')"
    and "\<And>k. child_submissions (batch_tx env k) = Some True" "child_submissions (next_tx env) = Some True"
  shows "\<exists>batch. read_export_id_batch (id_content env) offset = Inr batch \<and>
    sum_records summary = length (batch_ids batch) \<and>
    (\<forall>i\<in>set (batch_ids batch). refresh_recorded lib m q' i \<or>
       \<not> refresh_all \<and> (\<exists>known. catalogued_ids env = Some known \<and> int i \<in> set known)) \<and>
    (\<not> finished batch \<longrightarrow> sum_next_offset summary = Some (next_offset batch) \<and>
       recorded daily_export_job (export_dedup_key lib m u (next_offset batch) refresh_all) q') \<and>
    (finished batch \<and> refresh_all \<longrightarrow>
       (\<exists>job. admin_scan_job lib (wall_clock env) FullSweep [m] Enrichment 0 0 = Inr job \<and> job_recorded q' job))"
proof -
  obtain batch where batch: "read_export_id_batch (id_content env) offset = Inr batch"
    using assms(1) by (auto simp: enqueue_daily_export_refresh_jobs_def split: sum.splits)
  define first where "first = (if refresh_all
      then enqueue_refresh_jobs_with_priority lib (batch_tx env) m (batch_ids batch)
             title_refresh_priority CatalogOnly ''export_queue_incomplete'' q
      else enqueue_missing_refresh_jobs lib (catalogued_ids env) (batch_tx env) m (batch_ids batch)
             ''export_queue_incomplete'' q)"
  obtain candidates q1 where first: "first = (Inr candidates, q1)"
    using assms(1) batch
    by (auto simp: enqueue_daily_export_refresh_jobs_def first_def [symmetric] split: sum.splits prod.splits)
  define summ where "summ = \<lparr>sum_records = length (batch_ids batch), sum_candidates = candidates,
     sum_continued = \<not> finished batch,
     sum_next_offset = (if finished batch then None else Some (next_offset batch))\<rparr>"
  have ids: "\<forall>i\<in>set (batch_ids batch). refresh_recorded lib m q1 i \<or>
       \<not> refresh_all \<and> (\<exists>known. catalogued_ids env = Some known \<and> int i \<in> set known)"
  proof (cases refresh_all)
    case True
    then show ?thesis using enqueue_refresh_ok first assms(2) by (simp add: first_def)
  next
    case False
    then have "enqueue_missing_refresh_jobs lib (catalogued_ids env) (batch_tx env) m (batch_ids batch)
        ''export_queue_incomplete'' q = (Inr candidates, q1)" using first by (simp add: first_def)
    from enqueue_missing_ok [OF this assms(2)] False show ?thesis by blast
  qed
  have rest: "summary = summ \<and> (case next_export_job lib (wall_clock env) m u refresh_all batch of
      None \<Rightarrow> q' = q1 | Some (Inl e) \<Rightarrow> False
    | Some (Inr job) \<Rightarrow> \<exists>out. submit_ingest_child_job (next_tx env) job q1 = (Inr out, q'))"
    using assms(1) batch first
    by (auto simp: enqueue_daily_export_refresh_jobs_def first_def [symmetric] summ_def Let_def
        split: sum.splits prod.splits option.splits)
  show ?thesis
  proof (cases "next_export_job lib (wall_clock env) m u refresh_all batch")
    case None
    then show ?thesis using batch ids rest by (auto simp: summ_def next_export_job_def split: if_splits)
  next
    case (Some r)
    then obtain job out where job: "r = Inr job" "submit_ingest_child_job (next_tx env) job q1 = (Inr out, q')"
      using rest by (auto split: sum.splits)
    have keep: "recorded ty k q1 \<longrightarrow> recorded ty k q'" and this: "job_recorded q' job" for ty k
      using child_job_ok [OF job(2)] assms(3) by auto
    then show ?thesis
      using Some job(1) batch ids rest export_continuation_key
      by (auto simp: summ_def next_export_job_def refresh_recorded_def split: if_splits)
  qed
qed

text \<open>An export job that succeeds has skipped nothing (while the operator allows submissions):
  every identifier of its batch has a queued refresh or, outside a full refresh, is known to the
  catalog; unless the file is finished the continuation at the next offset is queued, and the last
  job of a full refresh has queued the enrichment scan.\<close>

theorem export_job_never_skips:
  assumes "enqueue_daily_export_refresh_jobs lib env m u offset refresh_all q = (Inr summary, q')"
    and "\<And>k. child_submissions (batch_tx env k) = Some True" "child_submissions (next_tx env) = Some True"
  shows "\<exists>batch. read_export_id_batch (id_content env) offset = Inr batch \<and>
    sum_records summary = length (batch_ids batch) \<and>
    (\<forall>i\<in>set (batch_ids batch). refresh_recorded lib m q' i \<or>
       \<not> refresh_all \<and> (\<exists>known. catalogued_ids env = Some known \<and> int i \<in> set known)) \<and>
    (\<not> finished batch \<longrightarrow> sum_next_offset summary = Some (next_offset batch) \<and>
       recorded daily_export_job (export_dedup_key lib m u (next_offset batch) refresh_all) q') \<and>
    (finished batch \<and> refresh_all \<longrightarrow>
       (\<exists>job. admin_scan_job lib (wall_clock env) FullSweep [m] Enrichment 0 0 = Inr job \<and> job_recorded q' job))"
  by (rule export_job_ok [OF assms])

lemma demo_batch:
  "read_export_id_batch (Some (id_file_text [3])) 0 =
     Inr \<lparr>batch_ids = [3], next_offset = length (id_file_text [3]), finished = True\<rparr>"
  using read_batch_text [of "[]" "[3]"] by (simp add: valid_ids_def id_file_text_def)

theorem export_job_never_skips_witness:
  "\<exists>summary. enqueue_daily_export_refresh_jobs demo_ingest_lib
      \<lparr>id_content = Some (id_file_text [3]), catalogued_ids = Some [3], batch_tx = \<lambda>k. demo_tx, next_tx = demo_tx,
       wall_clock = 0\<rparr> Movie ''u'' 0 False empty_queue = (Inr summary, empty_queue) \<and>
    sum_records summary = 1"
proof -
  let ?env = "\<lparr>id_content = Some (id_file_text [3]), catalogued_ids = Some [3], batch_tx = \<lambda>k. demo_tx,
    next_tx = demo_tx, wall_clock = 0\<rparr>"
  have run: "enqueue_daily_export_refresh_jobs demo_ingest_lib ?env Movie ''u'' 0 False empty_queue =
      (Inr \<lparr>sum_records = 1, sum_candidates = 0, sum_continued = False, sum_next_offset = None\<rparr>, empty_queue)"
    by (simp add: enqueue_daily_export_refresh_jobs_def demo_batch enqueue_missing_refresh_jobs_def
        validate_refresh_tmdb_id_def enqueue_refresh_jobs_with_priority_def chunks_of.simps next_export_job_def
        del: id_file_text_Cons)
  from export_job_never_skips [OF run] run show ?thesis by (simp add: demo_batch del: id_file_text_Cons)
qed

end
