(* ===== verification/Media_Layout.thy ===== *)
theory Media_Layout
  imports Prelude
begin

text \<open>
  The media layout of \<open>src/crates/tmdb-media/src/lib.rs\<close>: the public path of every image, the test
  that a requested path is public, and the preparation of the service's directories. A path is
  its text; a file system maps paths to directories, files and links. What the operating system
  answers at each call (which calls fail and how, the clock, the process id) is a parameter.
\<close>

section \<open>Paths\<close>

definition path_push :: "string \<Rightarrow> string \<Rightarrow> string" where
  "path_push a b =
     (if starts_with b ''/'' then b
      else if a = [] \<or> ends_with a ''/'' then a @ b
      else a @ ''/'' @ b)"

datatype title_scope = TitleMovie | TitleTv

datatype reusable_entity = Person | Network | Company | Collection

datatype asset_variant =
    Poster nat | Backdrop nat | Logo nat | Profile nat
  | SeasonPoster nat nat | EpisodeThumbnail nat nat nat

datatype image_format = Jpeg | Webp | Png

definition extension :: "image_format \<Rightarrow> string" where
  "extension f = (case f of Jpeg \<Rightarrow> ''jpg'' | Webp \<Rightarrow> ''webp'' | Png \<Rightarrow> ''png'')"

datatype media_path_error = InvalidId | InvalidNumber | InvalidDigest

definition positive_id :: "int \<Rightarrow> media_path_error + int" where
  "positive_id i = (if i > 0 then Inr i else Inl InvalidId)"

definition positive_number :: "nat \<Rightarrow> media_path_error + nat" where
  "positive_number n = (if n > 0 then Inr n else Inl InvalidNumber)"

definition numbered_name :: "string \<Rightarrow> nat \<Rightarrow> string \<Rightarrow> media_path_error + string" where
  "numbered_name base index ext =
     bindR (positive_number index) (\<lambda>i.
       if i = 1 then Inr (base @ ''.'' @ ext) else Inr (base @ ''-'' @ pad2 i @ ''.'' @ ext))"

definition backdrop_name :: "nat \<Rightarrow> string \<Rightarrow> media_path_error + string" where
  "backdrop_name index ext =
     bindR (positive_number index) (\<lambda>i. Inr (''backdrop-'' @ pad2 i @ ''.'' @ ext))"

definition title_dir :: "title_scope \<Rightarrow> int \<Rightarrow> media_path_error + string" where
  "title_dir scope i =
     bindR (positive_id i) (\<lambda>i. Inr
       (case scope of TitleMovie \<Rightarrow> ''movies/'' @ dec_int i | TitleTv \<Rightarrow> ''tv/'' @ dec_int i))"

definition title_subdirectory :: "asset_variant \<Rightarrow> string" where
  "title_subdirectory v =
     (case v of Poster _ \<Rightarrow> ''posters'' | SeasonPoster _ _ \<Rightarrow> ''posters'' | Backdrop _ \<Rightarrow> ''backdrops''
      | Logo _ \<Rightarrow> ''logos'' | Profile _ \<Rightarrow> ''profiles'' | EpisodeThumbnail _ _ _ \<Rightarrow> ''thumbnails'')"

definition variant_filename :: "asset_variant \<Rightarrow> image_format \<Rightarrow> media_path_error + string" where
  "variant_filename v f =
     (case v of
        Poster i \<Rightarrow> numbered_name ''poster'' i (extension f)
      | Backdrop i \<Rightarrow> backdrop_name i (extension f)
      | Logo i \<Rightarrow> numbered_name ''logo'' i (extension f)
      | Profile i \<Rightarrow> numbered_name ''profile'' i (extension f)
      | SeasonPoster s i \<Rightarrow>
          numbered_name (if s = 0 then ''season-specials-poster'' else ''season'' @ pad2 s @ ''-poster'')
            i (extension f)
      | EpisodeThumbnail s e i \<Rightarrow>
          bindR (positive_number e) (\<lambda>e.
            numbered_name ((if s = 0 then ''season-specials'' else ''season'' @ pad2 s) @
              ''-episode'' @ pad2 e @ ''-thumbnails'') i (extension f)))"

definition title_asset ::
    "title_scope \<Rightarrow> int \<Rightarrow> asset_variant \<Rightarrow> image_format \<Rightarrow> media_path_error + string" where
  "title_asset scope i v f =
     bindR (title_dir scope i) (\<lambda>d.
     bindR (variant_filename v f) (\<lambda>n.
     Inr (path_push (path_push d (title_subdirectory v)) n)))"

definition reusable_subdirectory :: "reusable_entity \<Rightarrow> asset_variant \<Rightarrow> string" where
  "reusable_subdirectory e v = ''''"

definition reusable_filename ::
    "reusable_entity \<Rightarrow> asset_variant \<Rightarrow> image_format \<Rightarrow> media_path_error + string" where
  "reusable_filename e v f =
     (case (e, v) of
        (Person, Profile i) \<Rightarrow> numbered_name ''profile'' i (extension f)
      | _ \<Rightarrow> variant_filename v f)"

definition reusable_asset ::
    "reusable_entity \<Rightarrow> int \<Rightarrow> asset_variant \<Rightarrow> image_format \<Rightarrow> media_path_error + string" where
  "reusable_asset e i v f =
     bindR (positive_id i) (\<lambda>i.
       let directory = (case e of Person \<Rightarrow> ''people'' | Network \<Rightarrow> ''networks''
                        | Company \<Rightarrow> ''companies'' | Collection \<Rightarrow> ''collections'');
           path = path_push directory (dec_int i);
           sub = reusable_subdirectory e v;
           path = (if sub \<noteq> [] then path_push path sub else path)
       in bindR (reusable_filename e v f) (\<lambda>n. Inr (path_push path n)))"

section \<open>Public paths\<close>

text \<open>
  \<open>Path::components\<close>: the text between slashes, without empty parts and without \<open>.\<close> parts after
  the first; a leading slash is the root component.
\<close>

datatype path_component = RootDir | CurDir | ParentDir | Normal string

definition classify :: "string \<Rightarrow> path_component" where
  "classify s = (if s = ''.'' then CurDir else if s = ''..'' then ParentDir else Normal s)"

definition path_components :: "string \<Rightarrow> path_component list" where
  "path_components p =
     (case split_on (CHR ''/'') p of
        [] \<Rightarrow> []
      | s # ss \<Rightarrow>
          (if starts_with p ''/'' then [RootDir] else if s = [] then [] else [classify s]) @
          map classify (filter (\<lambda>t. t \<noteq> [] \<and> t \<noteq> ''.'') ss))"

definition is_public_relative :: "string \<Rightarrow> bool" where
  "is_public_relative p \<longleftrightarrow>
     p \<noteq> [] \<and> \<not> starts_with p ''.'' \<and> \<not> starts_with p ''/'' \<and>
     list_all (\<lambda>c. case c of Normal v \<Rightarrow> \<not> starts_with v ''.'' | _ \<Rightarrow> False) (path_components p)"

section \<open>Names of images are unambiguous\<close>

definition name_char :: "char \<Rightarrow> bool" where
  "name_char c \<longleftrightarrow> is_lower c \<or> is_digit c \<or> c = CHR ''-''"

lemma name_digits: "list_all is_digit s \<Longrightarrow> list_all name_char s"
  by (auto simp: list_all_iff name_char_def)

lemma pad2_name [simp]: "list_all name_char (pad2 n)"
  by (rule name_digits, rule pad2_digits)

lemma name_sep: "\<not> name_char (CHR ''.'')" "\<not> name_char (CHR ''/'')"
  by (simp_all add: name_char_def is_lower_def is_digit_def)

lemma lowercase_name:
  "name_char c \<longleftrightarrow> (97 \<le> byte c \<and> byte c \<le> 122) \<or> (48 \<le> byte c \<and> byte c \<le> 57) \<or> c = CHR ''-''"
  by (auto simp: name_char_def is_lower_def is_digit_def)

lemma extension_inj: "extension f = extension g \<longleftrightarrow> f = g"
  by (cases f; cases g) (simp_all add: extension_def)

lemma minus_not_digit: "\<not> is_digit (CHR ''-'')" "\<not> is_digit (CHR ''.'')" "\<not> is_digit (CHR ''/'')"
  by (simp_all add: is_digit_def)

lemmas pad2_minus = pad2_codec.enc_sep [OF minus_not_digit(1)]

text \<open>The stem of a file name: everything before the dot and the format.\<close>

definition indexed :: "string \<Rightarrow> nat \<Rightarrow> string" where
  "indexed base i = (if i = 1 then base else base @ ''-'' @ pad2 i)"

definition stem :: "asset_variant \<Rightarrow> string" where
  "stem v =
     (case v of
        Poster i \<Rightarrow> indexed ''poster'' i
      | Backdrop i \<Rightarrow> ''backdrop-'' @ pad2 i
      | Logo i \<Rightarrow> indexed ''logo'' i
      | Profile i \<Rightarrow> indexed ''profile'' i
      | SeasonPoster s i \<Rightarrow>
          indexed (if s = 0 then ''season-specials-poster'' else ''season'' @ pad2 s @ ''-poster'') i
      | EpisodeThumbnail s e i \<Rightarrow>
          indexed ((if s = 0 then ''season-specials'' else ''season'' @ pad2 s) @
            ''-episode'' @ pad2 e @ ''-thumbnails'') i)"

fun numbers_ok :: "asset_variant \<Rightarrow> bool" where
  "numbers_ok (EpisodeThumbnail s e i) \<longleftrightarrow> 0 < e \<and> 0 < i"
| "numbers_ok (SeasonPoster s i) \<longleftrightarrow> 0 < i"
| "numbers_ok (Poster i) \<longleftrightarrow> 0 < i"
| "numbers_ok (Backdrop i) \<longleftrightarrow> 0 < i"
| "numbers_ok (Logo i) \<longleftrightarrow> 0 < i"
| "numbers_ok (Profile i) \<longleftrightarrow> 0 < i"

lemma variant_filename_stem:
  "variant_filename v f =
     (if numbers_ok v then Inr (stem v @ CHR ''.'' # extension f) else Inl InvalidNumber)"
  by (cases v) (simp_all add: variant_filename_def stem_def indexed_def numbered_name_def
      backdrop_name_def positive_number_def)

lemma reusable_filename_stem:
  "reusable_filename e v f = variant_filename v f"
  by (cases e; cases v) (simp_all add: reusable_filename_def variant_filename_def)

lemma stem_name: "list_all name_char (stem v)"
  by (cases v) (simp_all add: stem_def indexed_def lowercase_name)

text \<open>A stem is a list of words joined by hyphens, so it can be split again.\<close>

definition index_words :: "nat \<Rightarrow> string list" where
  "index_words i = (if i = 1 then [] else [pad2 i])"

definition stem_words :: "asset_variant \<Rightarrow> string list" where
  "stem_words v =
     (case v of
        Poster i \<Rightarrow> ''poster'' # index_words i
      | Backdrop i \<Rightarrow> [''backdrop'', pad2 i]
      | Logo i \<Rightarrow> ''logo'' # index_words i
      | Profile i \<Rightarrow> ''profile'' # index_words i
      | SeasonPoster s i \<Rightarrow>
          (if s = 0 then [''season'', ''specials''] else [''season'' @ pad2 s]) @ ''poster'' # index_words i
      | EpisodeThumbnail s e i \<Rightarrow>
          (if s = 0 then [''season'', ''specials''] else [''season'' @ pad2 s]) @
          (''episode'' @ pad2 e) # ''thumbnails'' # index_words i)"

lemma stem_join: "stem v = join_with ''-'' (stem_words v)"
  by (cases v) (simp_all add: stem_def stem_words_def indexed_def index_words_def)

lemma pad2_no_minus: "CHR ''-'' \<notin> set (pad2 n)"
  using pad2_digits [of n] by (auto simp: list_all_iff is_digit_def)

lemma stem_split: "split_on (CHR ''-'') (stem v) = stem_words v"
proof -
  have "stem_words v \<noteq> [] \<and> list_all (\<lambda>w. CHR ''-'' \<notin> set w) (stem_words v)"
    by (cases v) (simp_all add: stem_words_def index_words_def pad2_no_minus)
  then show ?thesis unfolding stem_join by (blast intro: split_on_join)
qed

lemma pad2_not_word: "\<not> is_digit c \<Longrightarrow> pad2 n \<noteq> c # cs" "\<not> is_digit c \<Longrightarrow> c # cs \<noteq> pad2 n"
  using pad2_digits [of n] by (metis list.pred_inject(2))+

lemma index_words_simps [simp]:
  "index_words i = index_words j \<longleftrightarrow> i = j"
  "\<not> is_digit c \<Longrightarrow> index_words i \<noteq> (c # cs) # ws" "\<not> is_digit c \<Longrightarrow> (c # cs) # ws \<noteq> index_words i"
  by (auto simp: index_words_def pad2_not_word)

lemma stem_inj: "stem v = stem w \<longleftrightarrow> v = w"
proof
  assume "stem v = stem w"
  then have "stem_words v = stem_words w" using stem_split by metis
  then show "v = w"
    by (cases v; cases w)
       (auto simp: stem_words_def pad2_not_word is_digit_def split: if_splits)
qed simp

section \<open>Paths of images\<close>

text \<open>Titles and reusable entities together.\<close>

datatype asset =
    Title_asset title_scope int asset_variant image_format
  | Reusable_asset reusable_entity int asset_variant image_format

fun asset_path :: "asset \<Rightarrow> media_path_error + string" where
  "asset_path (Title_asset s i v f) = title_asset s i v f"
| "asset_path (Reusable_asset e i v f) = reusable_asset e i v f"

fun asset_dirs :: "asset \<Rightarrow> string list" where
  "asset_dirs (Title_asset s i v f) =
     [case s of TitleMovie \<Rightarrow> ''movies'' | TitleTv \<Rightarrow> ''tv'', dec_int i, title_subdirectory v]"
| "asset_dirs (Reusable_asset e i v f) =
     [case e of Person \<Rightarrow> ''people'' | Network \<Rightarrow> ''networks'' | Company \<Rightarrow> ''companies''
      | Collection \<Rightarrow> ''collections'', dec_int i]"

fun asset_variant_of :: "asset \<Rightarrow> asset_variant" where
  "asset_variant_of (Title_asset s i v f) = v"
| "asset_variant_of (Reusable_asset e i v f) = v"

fun asset_format_of :: "asset \<Rightarrow> image_format" where
  "asset_format_of (Title_asset s i v f) = f"
| "asset_format_of (Reusable_asset e i v f) = f"

fun asset_id :: "asset \<Rightarrow> int" where
  "asset_id (Title_asset s i v f) = i"
| "asset_id (Reusable_asset e i v f) = i"

definition asset_name :: "asset \<Rightarrow> string" where
  "asset_name a = stem (asset_variant_of a) @ CHR ''.'' # extension (asset_format_of a)"

lemma int_text_no_slash: "CHR ''/'' \<notin> set (dec_int i)"
  using dec_int_text [of i] by (auto simp: list_all_iff int_text_def is_digit_def)

lemma dec_int_nonempty [simp]: "dec_int i \<noteq> []"
  by (simp add: dec_int_def)

lemma stem_nonempty [simp]: "stem v \<noteq> []"
  by (cases v) (simp_all add: stem_def indexed_def)

lemma stem_no_slash: "CHR ''/'' \<notin> set (stem v)" "CHR ''.'' \<notin> set (stem v)"
  using stem_name [of v] name_sep by (auto simp: list_all_iff)

lemma asset_name_no_slash: "CHR ''/'' \<notin> set (asset_name a)"
  using stem_no_slash by (cases "asset_format_of a") (auto simp: asset_name_def extension_def)

lemma path_push_join:
  assumes "a \<noteq> []" "CHR ''/'' \<notin> set b" "last a \<noteq> CHR ''/''"
  shows "path_push a b = a @ ''/'' @ b"
proof -
  have "\<not> prefix ''/'' b" using assms(2) by (cases b) auto
  moreover have "\<not> suffix ''/'' a" using assms(1,3) by (auto simp: suffix_def)
  ultimately show ?thesis using assms(1) by (simp add: path_push_def)
qed

lemma last_no_sep: "c \<notin> set s \<Longrightarrow> s \<noteq> [] \<Longrightarrow> last s \<noteq> c"
  by (metis last_in_set)

lemma title_subdirectory_no_slash:
  "CHR ''/'' \<notin> set (title_subdirectory v)" "title_subdirectory v \<noteq> []"
  by (cases v; simp add: title_subdirectory_def)+

lemma asset_path_join:
  "asset_path a =
     (if 0 < asset_id a
      then if numbers_ok (asset_variant_of a) then Inr (join_with ''/'' (asset_dirs a @ [asset_name a]))
           else Inl InvalidNumber
      else Inl InvalidId)"
proof (cases a)
  case (Title_asset s i v f)
  have "path_push (path_push (d @ ''/'' @ dec_int i) (title_subdirectory v)) n =
      d @ ''/'' @ dec_int i @ ''/'' @ title_subdirectory v @ ''/'' @ n" if "CHR ''/'' \<notin> set n" for d n
    using that by (simp add: path_push_join title_subdirectory_no_slash last_no_sep int_text_no_slash)
  note push = this [of _ "''movies''"] this [of _ "''tv''"]
  show ?thesis
    using Title_asset asset_name_no_slash [of a] push
    by (cases s) (simp_all add: title_asset_def title_dir_def positive_id_def variant_filename_stem asset_name_def)
next
  case (Reusable_asset e i v f)
  have "path_push (path_push d (dec_int i)) n = d @ ''/'' @ dec_int i @ ''/'' @ n"
    if "CHR ''/'' \<notin> set n" "CHR ''/'' \<notin> set d" "d \<noteq> []" for d n
    using that by (simp add: path_push_join last_no_sep int_text_no_slash)
  then show ?thesis
    using Reusable_asset asset_name_no_slash [of a]
    by (cases e) (simp_all add: reusable_asset_def Let_def reusable_subdirectory_def positive_id_def
        reusable_filename_stem variant_filename_stem asset_name_def)
qed

lemma asset_segments:
  "list_all (\<lambda>s. CHR ''/'' \<notin> set s) (asset_dirs a @ [asset_name a])"
  using asset_name_no_slash [of a]
  by (cases a) (auto simp: int_text_no_slash title_subdirectory_no_slash
      split: title_scope.splits reusable_entity.splits)

lemma asset_path_split:
  "asset_path a = Inr p \<Longrightarrow> split_on (CHR ''/'') p = asset_dirs a @ [asset_name a]"
  using split_on_join [OF _ asset_segments [of a]] by (auto simp: asset_path_join split: if_splits)

lemma asset_name_inj:
  "asset_name a = asset_name b \<longleftrightarrow> asset_variant_of a = asset_variant_of b \<and> asset_format_of a = asset_format_of b"
  unfolding asset_name_def sep_split_eq [OF stem_name stem_name name_sep(1)]
  by (simp add: stem_inj extension_inj)

section \<open>Runtime directories\<close>

datatype storage_role = Role_worker | Role_media

definition role_text :: "storage_role \<Rightarrow> string" where
  "role_text r = (case r of Role_worker \<Rightarrow> ''worker'' | Role_media \<Rightarrow> ''media'')"

datatype storage_path =
    ConfigRaw | ConfigBackups | ConfigLogs | MediaMovies | MediaTv | MediaPeople | MediaNetworks
  | MediaCompanies | MediaCollections

definition storage_text :: "storage_path \<Rightarrow> string" where
  "storage_text p =
     (case p of
        ConfigRaw \<Rightarrow> ''/config/raw'' | ConfigBackups \<Rightarrow> ''/config/backups'' | ConfigLogs \<Rightarrow> ''/config/logs''
      | MediaMovies \<Rightarrow> ''/media/movies'' | MediaTv \<Rightarrow> ''/media/tv'' | MediaPeople \<Rightarrow> ''/media/people''
      | MediaNetworks \<Rightarrow> ''/media/networks'' | MediaCompanies \<Rightarrow> ''/media/companies''
      | MediaCollections \<Rightarrow> ''/media/collections'')"

definition storage_resolve :: "storage_path \<Rightarrow> string \<Rightarrow> string \<Rightarrow> string" where
  "storage_resolve p config media =
     (case p of
        ConfigRaw \<Rightarrow> path_push config ''raw'' | ConfigBackups \<Rightarrow> path_push config ''backups''
      | ConfigLogs \<Rightarrow> path_push config ''logs'' | MediaMovies \<Rightarrow> path_push media ''movies''
      | MediaTv \<Rightarrow> path_push media ''tv'' | MediaPeople \<Rightarrow> path_push media ''people''
      | MediaNetworks \<Rightarrow> path_push media ''networks'' | MediaCompanies \<Rightarrow> path_push media ''companies''
      | MediaCollections \<Rightarrow> path_push media ''collections'')"

datatype io_kind =
    PermissionDenied | ReadOnlyFilesystem | StorageFull | QuotaExceeded | NotFound | AlreadyExists | Other_io

datatype storage_error =
    NotDirectory storage_path | Symlink storage_path | Create storage_path io_kind
  | Write_probe storage_path io_kind | Cleanup_probe storage_path io_kind

definition storage_error_path :: "storage_error \<Rightarrow> storage_path" where
  "storage_error_path e =
     (case e of NotDirectory p \<Rightarrow> p | Symlink p \<Rightarrow> p | Create p _ \<Rightarrow> p | Write_probe p _ \<Rightarrow> p
      | Cleanup_probe p _ \<Rightarrow> p)"

definition storage_error_operation :: "storage_error \<Rightarrow> string" where
  "storage_error_operation e =
     (case e of NotDirectory _ \<Rightarrow> ''not_directory'' | Symlink _ \<Rightarrow> ''symlink'' | Create _ _ \<Rightarrow> ''create''
      | Write_probe _ _ \<Rightarrow> ''write_probe'' | Cleanup_probe _ _ \<Rightarrow> ''cleanup_probe'')"

definition storage_error_io_kind :: "storage_error \<Rightarrow> string option" where
  "storage_error_io_kind e =
     map_option (\<lambda>k. case k of
         PermissionDenied \<Rightarrow> ''permission_denied'' | ReadOnlyFilesystem \<Rightarrow> ''read_only_filesystem''
       | StorageFull \<Rightarrow> ''storage_full'' | QuotaExceeded \<Rightarrow> ''quota_exceeded''
       | NotFound \<Rightarrow> ''not_found'' | AlreadyExists \<Rightarrow> ''already_exists'' | Other_io \<Rightarrow> ''io_error'')
       (case e of Create _ k \<Rightarrow> Some k | Write_probe _ k \<Rightarrow> Some k | Cleanup_probe _ k \<Rightarrow> Some k | _ \<Rightarrow> None)"

definition worker_runtime_paths :: "storage_path list" where
  "worker_runtime_paths = [ConfigRaw, ConfigLogs]"

definition media_runtime_paths :: "storage_path list" where
  "media_runtime_paths =
     [ConfigLogs, MediaMovies, MediaTv, MediaPeople, MediaNetworks, MediaCompanies, MediaCollections]"

datatype node = Dir | Regular string | Link

type_synonym file_tree = "string \<Rightarrow> node option"

text \<open>What the operating system answers: an error, or \<open>None\<close> when the call succeeds.\<close>

record os_env =
  stat_error :: "string \<Rightarrow> io_kind option"
  mkdir_error :: "string \<Rightarrow> io_kind option"
  open_error :: "string \<Rightarrow> io_kind option"
  write_error :: "string \<Rightarrow> io_kind option"
  remove_error :: "string \<Rightarrow> io_kind option"
  now_nanos :: "nat \<Rightarrow> nat"
  process_id :: nat

record storage_state =
  tree :: file_tree
  probe_counter :: nat

definition probe_name :: "os_env \<Rightarrow> storage_role \<Rightarrow> nat \<Rightarrow> string" where
  "probe_name env role n =
     ''.tmdb-'' @ role_text role @ ''-write-probe-'' @ dec (process_id env) @ ''-'' @
     dec (now_nanos env n) @ ''-'' @ dec n"

text \<open>\<open>create_dir_all\<close>: the path and its missing ancestors become directories.\<close>

definition ancestor_or_self :: "string \<Rightarrow> string \<Rightarrow> bool" where
  "ancestor_or_self a p \<longleftrightarrow> a = p \<or> starts_with p (a @ ''/'')"

definition make_dirs :: "string \<Rightarrow> file_tree \<Rightarrow> file_tree" where
  "make_dirs p t = (\<lambda>x. if t x = None \<and> ancestor_or_self x p then Some Dir else t x)"

definition write_probe ::
    "os_env \<Rightarrow> storage_path \<Rightarrow> string \<Rightarrow> storage_role \<Rightarrow> storage_state \<Rightarrow>
     (storage_error + unit) \<times> storage_state" where
  "write_probe env sp path role s =
     (let n = probe_counter s;
          s = s\<lparr>probe_counter := n + 1\<rparr>;
          probe = path_push path (probe_name env role n)
      in case (if tree s probe \<noteq> None then Some AlreadyExists else open_error env probe) of
           Some k \<Rightarrow> (Inl (Write_probe sp k), s)
         | None \<Rightarrow>
             (case write_error env probe of
                Some k \<Rightarrow> (Inl (Write_probe sp k), s\<lparr>tree := (tree s)(probe \<mapsto> Regular [])\<rparr>)
              | None \<Rightarrow>
                  let s = s\<lparr>tree := (tree s)(probe \<mapsto> Regular ''tmdb-runtime-probe'')\<rparr>
                  in case remove_error env probe of
                       Some k \<Rightarrow> (Inl (Cleanup_probe sp k), s)
                     | None \<Rightarrow> (Inr (), s\<lparr>tree := (tree s)(probe := None)\<rparr>)))"

definition prepare_directory ::
    "os_env \<Rightarrow> storage_path \<Rightarrow> string \<Rightarrow> storage_role \<Rightarrow> storage_state \<Rightarrow>
     (storage_error + unit) \<times> storage_state" where
  "prepare_directory env sp path role s =
     (case stat_error env path of
        Some k \<Rightarrow> (Inl (Create sp k), s)
      | None \<Rightarrow>
          (case tree s path of
             Some Link \<Rightarrow> (Inl (Symlink sp), s)
           | Some (Regular _) \<Rightarrow> (Inl (NotDirectory sp), s)
           | Some Dir \<Rightarrow> write_probe env sp path role s
           | None \<Rightarrow>
               (case mkdir_error env path of
                  Some k \<Rightarrow> (Inl (Create sp k), s)
                | None \<Rightarrow> write_probe env sp path role (s\<lparr>tree := make_dirs path (tree s)\<rparr>))))"

fun prepare_all ::
    "os_env \<Rightarrow> storage_role \<Rightarrow> string \<Rightarrow> string \<Rightarrow> storage_path list \<Rightarrow> storage_state \<Rightarrow>
     (storage_error + unit) \<times> storage_state" where
  "prepare_all env role config media [] s = (Inr (), s)"
| "prepare_all env role config media (p # ps) s =
     (case prepare_directory env p (storage_resolve p config media) role s of
        (Inl e, s') \<Rightarrow> (Inl e, s')
      | (Inr _, s') \<Rightarrow> prepare_all env role config media ps s')"

definition role_paths :: "storage_role \<Rightarrow> storage_path list" where
  "role_paths role = (case role of Role_worker \<Rightarrow> worker_runtime_paths | Role_media \<Rightarrow> media_runtime_paths)"

definition prepare_runtime_storage_at ::
    "os_env \<Rightarrow> storage_role \<Rightarrow> string \<Rightarrow> string \<Rightarrow> storage_state \<Rightarrow>
     (storage_error + unit) \<times> storage_state" where
  "prepare_runtime_storage_at env role config media s =
     prepare_all env role config media (role_paths role) s"

definition prepare_runtime_storage ::
    "os_env \<Rightarrow> storage_role \<Rightarrow> storage_state \<Rightarrow> (storage_error + unit) \<times> storage_state" where
  "prepare_runtime_storage env role s = prepare_runtime_storage_at env role ''/config'' ''/media'' s"

text \<open>A successful preparation of a directory only adds directories.\<close>

definition grows :: "file_tree \<Rightarrow> file_tree \<Rightarrow> bool" where
  "grows t t' \<longleftrightarrow> (\<forall>x. t' x = t x \<or> (t x = None \<and> t' x = Some Dir))"

lemma grows_trans: "grows a b \<Longrightarrow> grows b c \<Longrightarrow> grows a c"
  by (auto simp: grows_def) (metis option.distinct(1))+

lemma write_probe_ok:
  "write_probe env sp path role s = (Inr u, s') \<Longrightarrow> tree s' = tree s"
  by (auto simp: write_probe_def Let_def fun_upd_idem split: option.splits if_splits)

lemma prepare_directory_ok:
  assumes "prepare_directory env sp path role s = (Inr u, s')"
  shows "tree s' path = Some Dir \<and> grows (tree s) (tree s')"
  using assms
  by (auto simp: prepare_directory_def grows_def make_dirs_def ancestor_or_self_def
      split: option.splits node.splits if_splits dest!: write_probe_ok)

lemma grows_dir: "grows t t' \<Longrightarrow> t x = Some Dir \<Longrightarrow> t' x = Some Dir"
  by (metis grows_def)

lemma prepare_all_ok:
  "prepare_all env role config media ps s = (Inr u, s') \<Longrightarrow>
   grows (tree s) (tree s') \<and> (\<forall>p\<in>set ps. tree s' (storage_resolve p config media) = Some Dir)"
proof (induction ps arbitrary: s)
  case (Cons p ps)
  then obtain s1 where s1: "prepare_directory env p (storage_resolve p config media) role s = (Inr (), s1)"
      "prepare_all env role config media ps s1 = (Inr u, s')"
    by (auto split: prod.splits sum.splits)
  show ?case
    using prepare_directory_ok [OF s1(1)] Cons.IH [OF s1(2)] grows_trans grows_dir by auto
qed (simp add: grows_def)

text \<open>Two images (title or reusable, any entity, identifier, slot, numbers and format) never share a path.\<close>

lemma asset_path_inj:
  assumes "asset_path a = Inr p" "asset_path b = Inr p"
  shows "a = b"
proof -
  have s: "asset_dirs a @ [asset_name a] = asset_dirs b @ [asset_name b]"
    using asset_path_split [OF assms(1)] asset_path_split [OF assms(2)] by simp
  then have "asset_dirs a = asset_dirs b" "asset_variant_of a = asset_variant_of b"
      "asset_format_of a = asset_format_of b"
    using asset_name_inj by auto
  then show ?thesis
    by (cases a; cases b) (auto split: title_scope.splits reusable_entity.splits)
qed

lemma asset_segments_visible:
  "list_all (\<lambda>w. w \<noteq> [] \<and> hd w \<noteq> CHR ''.'') (asset_dirs a @ [asset_name a])"
proof -
  have "hd (stem v) \<noteq> CHR ''.''" for v using stem_no_slash(2) [of v] by (metis hd_in_set stem_nonempty)
  moreover have "hd (dec_int i) \<noteq> CHR ''.''" for i
    using dec_int_text [of i] by (cases "dec_int i") (auto simp: int_text_def is_digit_def)
  moreover have "hd (title_subdirectory v) \<noteq> CHR ''.''" for v by (cases v) (simp_all add: title_subdirectory_def)
  ultimately show ?thesis
    by (cases a) (auto simp: asset_name_def title_subdirectory_no_slash hd_append
        split: title_scope.splits reusable_entity.splits)
qed

text \<open>Every path the layout produces is one the media server is willing to serve.\<close>

lemma asset_path_public:
  assumes "asset_path a = Inr p"
  shows "is_public_relative p"
proof -
  let ?ws = "asset_dirs a @ [asset_name a]"
  note split = asset_path_split [OF assms]
  note ok = asset_segments_visible [of a]
  have normal: "classify w = Normal w \<and> \<not> starts_with w ''.'' \<and> w \<noteq> ''.''" if "w \<noteq> []" "hd w \<noteq> CHR ''.''" for w
    using that by (cases w) (auto simp: classify_def)
  obtain w ws where ws: "?ws = w # ws" by (cases ?ws) auto
  have p: "p = join_with ''/'' ?ws" using assms by (auto simp: asset_path_join split: if_splits)
  have w: "w \<noteq> []" "hd w \<noteq> CHR ''.''" "CHR ''/'' \<notin> set w"
    using ok asset_segments [of a] unfolding ws by auto
  then have "p \<noteq> []" "hd p = hd w" unfolding p ws by (cases ws; simp)+
  then have start: "\<not> starts_with p ''.''" "\<not> starts_with p ''/''" "p \<noteq> []"
    using w by (cases p; cases w; auto)+
  have "path_components p = map Normal ?ws"
    using start normal ok unfolding path_components_def split ws
    by (auto simp: list_all_iff filter_id_conv)
  moreover have "list_all (\<lambda>c. case c of Normal v \<Rightarrow> \<not> starts_with v ''.'' | _ \<Rightarrow> False) (map Normal ?ws)"
    using ok normal by (auto simp: list_all_iff)
  ultimately show ?thesis using start by (simp add: is_public_relative_def)
qed

section \<open>Properties\<close>

text \<open>Every image has its own public file: two images (title or reusable, any entity, identifier,
  slot, numbers and format) never share a path.\<close>

theorem media_paths_injective:
  "asset_path a = Inr p \<Longrightarrow> asset_path b = Inr p \<Longrightarrow> a = b"
  by (rule asset_path_inj)

definition demo_asset :: asset where
  "demo_asset = Title_asset TitleTv 7 (EpisodeThumbnail 0 3 2) Jpeg"

lemma demo_asset_path:
  "asset_path demo_asset = Inr ''tv/7/thumbnails/season-specials-episode03-thumbnails-02.jpg''"
  by code_simp

theorem media_paths_injective_witness:
  "\<forall>b. (b = demo_asset) = (asset_path b = Inr ''tv/7/thumbnails/season-specials-episode03-thumbnails-02.jpg'')"
  using media_paths_injective [OF _ demo_asset_path] demo_asset_path by blast

text \<open>When the storage of a role is prepared, each of its directories exists and is a real
  directory, nothing that was there has changed, and no probe file is left behind.\<close>

theorem storage_preparation:
  assumes "prepare_runtime_storage_at env role config media s = (Inr u, s')"
  shows "(\<forall>p\<in>set (role_paths role). tree s' (storage_resolve p config media) = Some Dir) \<and>
    (tree s' x = tree s x \<or> (tree s x = None \<and> tree s' x = Some Dir))"
  using prepare_all_ok [OF assms [unfolded prepare_runtime_storage_at_def]] by (auto simp: grows_def)

definition demo_os :: os_env where
  "demo_os = \<lparr>stat_error = (\<lambda>p. None), mkdir_error = (\<lambda>p. None), open_error = (\<lambda>p. None),
     write_error = (\<lambda>p. None), remove_error = (\<lambda>p. None), now_nanos = (\<lambda>n. 5), process_id = 1\<rparr>"

theorem storage_preparation_witness:
  "\<exists>s'. prepare_runtime_storage demo_os Role_worker \<lparr>tree = (\<lambda>x. None), probe_counter = 0\<rparr> = (Inr (), s') \<and>
     tree s' ''/config/raw'' = Some Dir"
proof -
  obtain r s' where run: "prepare_runtime_storage_at demo_os Role_worker ''/config'' ''/media''
      \<lparr>tree = (\<lambda>x. None), probe_counter = 0\<rparr> = (r, s')" by fastforce
  have "fst (prepare_runtime_storage_at demo_os Role_worker ''/config'' ''/media''
      \<lparr>tree = (\<lambda>x. None), probe_counter = 0\<rparr>) = Inr ()" by code_simp
  then have "r = Inr ()" using run by simp
  then show ?thesis
    using storage_preparation [of demo_os Role_worker "''/config''" "''/media''"] run
    by (auto simp: prepare_runtime_storage_def role_paths_def worker_runtime_paths_def
        storage_resolve_def path_push_def suffix_def)
qed

end
