(* ===== verification/Export_Site.thy ===== *)
theory Export_Site
  imports Export_Batches Export_Download Media_Layout
begin

text \<open>
  Where the ingestion executor meets the upstream client and the file system, in
  \<open>src/apps/tmdb-ingest/src/jobs.rs\<close>: how an upstream error becomes a job error, the download of an
  export and its identifier file under the export root, and the daily-export job as a whole.
\<close>

section \<open>Upstream errors\<close>

definition upstream_error_reason :: "client_error \<Rightarrow> string" where
  "upstream_error_reason e =
     (case e of
        InvalidBaseUrl \<Rightarrow> ''invalid_base_url''
      | InvalidPath \<Rightarrow> ''invalid_path''
      | HttpClientBuild \<Rightarrow> ''http_client_build_failed''
      | PolicyFailure _ \<Rightarrow> ''request_policy_failed''
      | Transport \<Rightarrow> ''transport_failed''
      | ResponseTooLarge \<Rightarrow> ''response_too_large''
      | ExportSizeLimit \<Rightarrow> ''export_size_limit''
      | InvalidExportDestination \<Rightarrow> ''invalid_export_destination''
      | ExportStorage \<Rightarrow> ''export_storage_failed''
      | RateLimited _ \<Rightarrow> ''rate_limited''
      | Unauthorized \<Rightarrow> ''unauthorized''
      | Forbidden _ \<Rightarrow> ''forbidden''
      | client_error.NotFound \<Rightarrow> ''not_found''
      | NotModified \<Rightarrow> ''not_modified''
      | UpstreamServer _ \<Rightarrow> ''upstream_server_error''
      | PermanentHttp _ \<Rightarrow> ''permanent_http_error''
      | MalformedJson _ \<Rightarrow> ''malformed_json'')"

definition upstream_http_status :: "client_error \<Rightarrow> nat" where
  "upstream_http_status e =
     (case e of
        Unauthorized \<Rightarrow> 401
      | Forbidden _ \<Rightarrow> 403
      | client_error.NotFound \<Rightarrow> 404
      | NotModified \<Rightarrow> 304
      | RateLimited _ \<Rightarrow> 429
      | UpstreamServer s \<Rightarrow> s
      | PermanentHttp s \<Rightarrow> s
      | _ \<Rightarrow> 0)"

definition map_upstream_error :: "client_error \<Rightarrow> job_execution_error" where
  "map_upstream_error e =
     (case e of
        RateLimited retry_after \<Rightarrow>
          job_retry ''rate_limited'' (from_secs (min (case retry_after of None \<Rightarrow> 1 | Some s \<Rightarrow> s) 600))
      | Transport \<Rightarrow> job_retry ''upstream_unavailable'' (from_secs 5)
      | ResponseTooLarge \<Rightarrow> job_retry ''upstream_unavailable'' (from_secs 5)
      | UpstreamServer _ \<Rightarrow> job_retry ''upstream_unavailable'' (from_secs 5)
      | Unauthorized \<Rightarrow> job_dead_letter ''upstream_unauthorized''
      | ExportStorage \<Rightarrow> storage_retry
      | _ \<Rightarrow> invalid_payload)"

text \<open>Every upstream error becomes a canonical failure code, and a retry of at most ten minutes.\<close>

lemma map_upstream_error_canonical: "code (map_upstream_error e) \<in> set canonical_failure_codes"
  by (cases e) (simp_all add: map_upstream_error_def job_retry_def job_dead_letter_def canonical_failure_codes_def)

lemma map_upstream_error_delay: "retry_delay (map_upstream_error e) \<le> from_secs 600"
  by (cases e) (simp_all add: map_upstream_error_def job_retry_def job_dead_letter_def from_secs_mono)

section \<open>Export files\<close>

text \<open>
  What the executor is built from and what the outside answers: the client and its environment, the
  parser with its libraries, the export root, and which file-system probes succeed.
\<close>

record 'r export_site =
  ex_client_lib :: client_lib
  ex_client_env :: client_env
  ex_client :: client
  ex_max_bytes :: nat
  ex_root :: string
  ex_parser :: export_parser
  ex_decode :: "string \<Rightarrow> 'r option"
  ex_rec_id :: "'r \<Rightarrow> nat"
  ex_gunzip :: "string \<Rightarrow> string list \<times> bool"
  ex_id_env :: id_file_env
  ex_dir_ok :: bool
  ex_probe_ok :: bool
  ex_ids_probe_ok :: bool
  ex_joined :: bool
  ex_open_ok :: bool

definition export_destination :: "ingest_lib \<Rightarrow> 'r export_site \<Rightarrow> media_type \<Rightarrow> string \<Rightarrow> string" where
  "export_destination lib site m u =
     path_push (ex_root site) (media_type_as_str m @ ''-'' @ sha256_hex lib u @ ''.ndjson.gz'')"

definition ids_destination :: "ingest_lib \<Rightarrow> 'r export_site \<Rightarrow> media_type \<Rightarrow> string \<Rightarrow> string" where
  "ids_destination lib site m u = with_extension (export_destination lib site m u) ''ids''"

text \<open>The export is downloaded unless its file is there.\<close>

definition obtain_export ::
    "ingest_lib \<Rightarrow> 'r export_site \<Rightarrow> media_type \<Rightarrow> string \<Rightarrow> client_world \<Rightarrow>
     (job_execution_error + export_download option) \<times> client_world" where
  "obtain_export lib site m u w =
     (if \<not> ex_dir_ok site \<or> \<not> ex_probe_ok site then (Inl storage_retry, w)
      else if files w (export_destination lib site m u) \<noteq> None then (Inr None, w)
      else
        case fetch_daily_export_to_file (ex_client_lib site) (ex_client_env site) (ex_client site) u
               (export_destination lib site m u) (ex_max_bytes site) w of
          (Inl e, w') \<Rightarrow> (Inl (map_upstream_error e), w')
        | (Inr d, w') \<Rightarrow> (Inr (Some d), w'))"

definition obtain_ids ::
    "ingest_lib \<Rightarrow> 'r export_site \<Rightarrow> media_type \<Rightarrow> string \<Rightarrow> client_world \<Rightarrow>
     (job_execution_error + unit) \<times> client_world" where
  "obtain_ids lib site m u w =
     (let found = (if \<not> ex_ids_probe_ok site then Id_file_unknown
            else if files w (ids_destination lib site m u) \<noteq> None then Id_file_exists else Id_file_missing)
      in case ensure_export_id_file found (ex_joined site)
                (write_id_file (ex_parser site) (ex_decode site) (ex_rec_id site) (ex_gunzip site) (ex_id_env site)
                   (export_destination lib site m u) (ids_destination lib site m u)) (files w) of
           (r, fs) \<Rightarrow> (r, w\<lparr>files := fs\<rparr>))"

definition obtain_export_ids ::
    "ingest_lib \<Rightarrow> 'r export_site \<Rightarrow> media_type \<Rightarrow> string \<Rightarrow> client_world \<Rightarrow>
     (job_execution_error + export_download option) \<times> client_world" where
  "obtain_export_ids lib site m u w =
     (case obtain_export lib site m u w of
        (Inl e, w1) \<Rightarrow> (Inl e, w1)
      | (Inr d, w1) \<Rightarrow> (case obtain_ids lib site m u w1 of (r, w2) \<Rightarrow> (mapR (\<lambda>_. d) r, w2)))"

section \<open>The daily-export job\<close>

definition hex_digit :: "nat \<Rightarrow> char" where
  "hex_digit n = (if n < 10 then digit_char n else char_of (87 + n))"

definition hex_digest :: "string \<Rightarrow> string" where
  "hex_digest s = concat (map (\<lambda>c. [hex_digit (byte c div 16), hex_digit (byte c mod 16)]) s)"

definition export_report ::
    "media_type \<Rightarrow> export_queue_summary \<Rightarrow> string \<Rightarrow> export_download option \<Rightarrow> json" where
  "export_report m s key d =
     JObj [(''media_type'', JStr (media_type_as_str m)), (''records'', JInt (int (sum_records s))),
           (''detail_refresh_candidates'', JInt (int (sum_candidates s))),
           (''continued'', JBool (sum_continued s)),
           (''next_offset'', case sum_next_offset s of None \<Rightarrow> JNull | Some n \<Rightarrow> JInt (int n)),
           (''dedup_key'', JStr key),
           (''bytes'', JInt (case d of None \<Rightarrow> 0 | Some x \<Rightarrow> int (bytes x))),
           (''sha256'', case d of None \<Rightarrow> JNull | Some x \<Rightarrow> JStr (hex_digest (digest x)))]"

text \<open>With a database: the identifiers are queued. Without one the records are only counted.\<close>

definition execute_daily_export ::
    "ingest_lib \<Rightarrow> 'r export_site \<Rightarrow> export_env option \<Rightarrow> media_type \<Rightarrow> string \<Rightarrow> nat \<Rightarrow> bool \<Rightarrow>
     client_world \<times> job_queue \<Rightarrow> (job_execution_error + json) \<times> client_world \<times> job_queue" where
  "execute_daily_export lib site db m u offset refresh_all w =
     (case w of (cw, q) \<Rightarrow>
        let key = dedup_key lib (DailyExport m u offset refresh_all)
        in case db of
          Some env \<Rightarrow>
            (case obtain_export_ids lib site m u cw of
               (Inl e, cw1) \<Rightarrow> (Inl e, cw1, q)
             | (Inr d, cw1) \<Rightarrow>
                 let content = (if ex_open_ok site then files cw1 (ids_destination lib site m u) else None)
                 in (case enqueue_daily_export_refresh_jobs lib (env\<lparr>id_content := content\<rparr>) m u offset refresh_all q of
                       (r, q') \<Rightarrow> (mapR (\<lambda>s. export_report m s key d) r, cw1, q')))
        | None \<Rightarrow>
            (case obtain_export lib site m u cw of
               (Inl e, cw1) \<Rightarrow> (Inl e, cw1, q)
             | (Inr d, cw1) \<Rightarrow>
                 if \<not> ex_joined site then (Inl storage_retry, cw1, q)
                 else
                   (case count_file (ex_parser site) (ex_decode site) (ex_rec_id site) (ex_gunzip site)
                           (files cw1 (export_destination lib site m u)) of
                      Inl _ \<Rightarrow> (Inl invalid_payload, cw1, q)
                    | Inr n \<Rightarrow>
                        (Inr (export_report m \<lparr>sum_records = n, sum_candidates = 0, sum_continued = False,
                                sum_next_offset = None\<rparr> key d), cw1, q))))"

section \<open>From the network to the identifier file\<close>

lemma with_extension_last:
  "file_name p \<noteq> None \<Longrightarrow> ext \<noteq> [] \<Longrightarrow> with_extension p ext \<noteq> [] \<and> last (with_extension p ext) = last ext"
  by (auto simp: with_extension_def Let_def split: option.splits)

lemma export_destination_last:
  "export_destination lib site m u \<noteq> [] \<and> last (export_destination lib site m u) = CHR ''z''"
  by (auto simp: export_destination_def path_push_def)

lemma obtain_export_fresh:
  assumes "obtain_export lib site m u w = (Inr d, w')" "files w (export_destination lib site m u) = None"
    and "wf_retry (policy (ex_client site))" "clean_env (ex_client_env site) (ex_max_bytes site)"
  shows "file_name (export_destination lib site m u) \<noteq> None \<and>
    (\<exists>k resp. answer (ex_client_env site) k = Some resp \<and> is_success (status resp) \<and> \<not> broken resp \<and>
       files w' = (files w)(export_destination lib site m u \<mapsto> concat (chunks resp)))"
proof -
  let ?d = "export_destination lib site m u"
  obtain x where run: "fetch_daily_export_to_file (ex_client_lib site) (ex_client_env site) (ex_client site) u ?d
      (ex_max_bytes site) w = (Inr x, w')"
    using assms(1,2) by (auto simp: obtain_export_def split: if_splits prod.splits sum.splits)
  then have "file_name ?d \<noteq> None"
    by (auto simp: fetch_daily_export_to_file_def split: option.splits if_splits)
  moreover have "export_done (ex_client_lib site) (ex_client_env site) (ex_max_bytes site) True ?d (files w) (Inr x) w'"
    using fetch_export_cases [OF assms(3) run, of True] assms(4) by blast
  ultimately show ?thesis by (auto simp: export_done_def published_def)
qed

lemma obtain_ids_fresh:
  assumes "obtain_ids lib site m u w = (Inr r, w')" "files w (ids_destination lib site m u) = None"
    and "files w (export_destination lib site m u) = Some content" "file_name (export_destination lib site m u) \<noteq> None"
    and "wf_parser (ex_parser site)" "[] \<notin> set (fst (open_reader (ex_gunzip site) content))"
  shows "files w' (ids_destination lib site m u) = Some (id_file_text (map (ex_rec_id site)
      (text_records (ex_decode site) (concat (fst (open_reader (ex_gunzip site) content)))))) \<and>
    (\<forall>x\<in>set (text_records (ex_decode site) (concat (fst (open_reader (ex_gunzip site) content)))). ex_rec_id site x \<noteq> 0)"
proof -
  let ?d = "export_destination lib site m u" and ?i = "ids_destination lib site m u"
  obtain n fs where run: "write_id_file (ex_parser site) (ex_decode site) (ex_rec_id site) (ex_gunzip site)
      (ex_id_env site) ?d ?i (files w) = (Inr n, fs)" and w': "files w' = fs"
    using assms(1,2) by (auto simp: obtain_ids_def ensure_export_id_file_def Let_def split: if_splits prod.splits sum.splits)
  have "file_name ?i \<noteq> None" using run by (auto simp: write_id_file_def split: if_splits)
  then have "last (with_extension ?i ''ids.tmp'') = CHR ''p''" using with_extension_last by simp
  then have "with_extension ?i ''ids.tmp'' \<noteq> ?d" using export_destination_last [of lib site m u] by auto
  from write_id_file_result [OF assms(5,6,3) this run] w' show ?thesis
    by (auto simp: Let_def id_file_text_def o_def list_all_iff)
qed

lemma obtain_export_ids_fresh:
  assumes "obtain_export_ids lib site m u w = (Inr d, w')"
    and "files w (export_destination lib site m u) = None" "files w (ids_destination lib site m u) = None"
    and "wf_retry (policy (ex_client site))" "clean_env (ex_client_env site) (ex_max_bytes site)"
    and "wf_parser (ex_parser site)" "\<And>s. [] \<notin> set (fst (open_reader (ex_gunzip site) s))"
  shows "\<exists>k resp. answer (ex_client_env site) k = Some resp \<and> is_success (status resp) \<and> \<not> broken resp \<and>
    (let recs = text_records (ex_decode site) (concat (fst (open_reader (ex_gunzip site) (concat (chunks resp)))))
     in files w' (ids_destination lib site m u) = Some (id_file_text (map (ex_rec_id site) recs)) \<and>
        (\<forall>x\<in>set recs. ex_rec_id site x \<noteq> 0))"
proof -
  let ?d = "export_destination lib site m u" and ?i = "ids_destination lib site m u"
  obtain w1 r where run: "obtain_export lib site m u w = (Inr d, w1)" "obtain_ids lib site m u w1 = (Inr r, w')"
    using assms(1) by (auto simp: obtain_export_ids_def result_simps split: prod.splits sum.splits)
  obtain k resp where name: "file_name ?d \<noteq> None" and resp: "answer (ex_client_env site) k = Some resp"
      "is_success (status resp)" "\<not> broken resp" "files w1 = (files w)(?d \<mapsto> concat (chunks resp))"
    using obtain_export_fresh [OF run(1) assms(2,4,5)] by blast
  have "last ?i = CHR ''s''" using with_extension_last [OF name] by (simp add: ids_destination_def)
  then have neq: "?i \<noteq> ?d" using export_destination_last [of lib site m u] by auto
  then have "files w1 ?i = None" "files w1 ?d = Some (concat (chunks resp))" using resp(4) assms(3) by simp_all
  from obtain_ids_fresh [OF run(2) this name assms(6,7)] resp(1-3) show ?thesis
    by (intro exI [of _ k] exI [of _ resp]) (simp add: Let_def)
qed

lemma daily_export_first:
  assumes "execute_daily_export lib site (Some env) m u 0 refresh_all (cw, q) = (Inr report, cw', q')"
    and fresh: "files cw (export_destination lib site m u) = None" "files cw (ids_destination lib site m u) = None"
    and wf: "wf_retry (policy (ex_client site))" "clean_env (ex_client_env site) (ex_max_bytes site)"
      "wf_parser (ex_parser site)" "\<And>s. [] \<notin> set (fst (open_reader (ex_gunzip site) s))"
    and ids: "\<And>x. ex_rec_id site x \<le> u64_max"
    and on: "\<And>k. child_submissions (batch_tx env k) = Some True" "child_submissions (next_tx env) = Some True"
  shows "\<exists>k resp. answer (ex_client_env site) k = Some resp \<and> is_success (status resp) \<and> \<not> broken resp \<and>
    (let ids = map (ex_rec_id site) (text_records (ex_decode site)
           (concat (fst (open_reader (ex_gunzip site) (concat (chunks resp))))))
     in (\<forall>i\<in>set (take 500 ids). refresh_recorded lib m q' i \<or>
           \<not> refresh_all \<and> (\<exists>known. catalogued_ids env = Some known \<and> int i \<in> set known)) \<and>
        (500 < length ids \<longrightarrow>
           recorded daily_export_job (export_dedup_key lib m u (length (id_file_text (take 500 ids))) refresh_all) q'))"
proof -
  obtain d where got: "obtain_export_ids lib site m u cw = (Inr d, cw')"
    using assms(1) by (auto simp: execute_daily_export_def Let_def split: prod.splits sum.splits)
  define content where "content = (if ex_open_ok site then files cw' (ids_destination lib site m u) else None)"
  obtain s where queued: "enqueue_daily_export_refresh_jobs lib (env\<lparr>id_content := content\<rparr>) m u 0 refresh_all q = (Inr s, q')"
    using assms(1) got by (auto simp: execute_daily_export_def Let_def content_def result_simps split: prod.splits sum.splits)
  obtain k resp where resp: "answer (ex_client_env site) k = Some resp" "is_success (status resp)" "\<not> broken resp"
      "let recs = text_records (ex_decode site) (concat (fst (open_reader (ex_gunzip site) (concat (chunks resp)))))
       in files cw' (ids_destination lib site m u) = Some (id_file_text (map (ex_rec_id site) recs)) \<and>
          (\<forall>x\<in>set recs. ex_rec_id site x \<noteq> 0)"
    using obtain_export_ids_fresh [OF got fresh wf] by blast
  define xs where "xs = map (ex_rec_id site) (text_records (ex_decode site)
      (concat (fst (open_reader (ex_gunzip site) (concat (chunks resp))))))"
  have valid: "valid_ids ([] @ xs)"
    using resp(4) ids by (auto simp: xs_def valid_ids_def list_all_iff Let_def)
  obtain batch where batch: "read_export_id_batch content 0 = Inr batch"
      "\<forall>i\<in>set (batch_ids batch). refresh_recorded lib m q' i \<or>
         \<not> refresh_all \<and> (\<exists>known. catalogued_ids env = Some known \<and> int i \<in> set known)"
      "\<not> finished batch \<longrightarrow> recorded daily_export_job (export_dedup_key lib m u (next_offset batch) refresh_all) q'"
    using export_job_ok [OF queued] on by auto
  have "content = Some (id_file_text xs)"
    using batch(1) resp(4) by (auto simp: content_def xs_def Let_def read_export_id_batch_def split: if_splits)
  then have "batch = \<lparr>batch_ids = take 500 xs, next_offset = length (id_file_text (take 500 xs)),
      finished = (length xs \<le> 500)\<rparr>"
    using batch(1) read_batch_text [OF valid] by (simp add: id_file_text_def)
  then show ?thesis
    using batch(2,3) resp(1-3) by (intro exI [of _ k] exI [of _ resp]) (simp add: Let_def xs_def [symmetric])
qed

section \<open>A small site\<close>

definition demo_fetch_env :: client_env where
  "demo_fetch_env = Http_Client.demo_env\<lparr>answer := (\<lambda>k. Some \<lparr>status = 200, headers = [],
     chunks = [''ab'' @ [newline]], broken = False\<rparr>)\<rparr>"

lemma demo_fetch_env_simps [simp]:
  "gate_error demo_fetch_env k = None"
  "answer demo_fetch_env k = Some \<lparr>status = 200, headers = [], chunks = [''ab'' @ [newline]], broken = False\<rparr>"
  "write_ok demo_fetch_env p i" "sync_ok demo_fetch_env p" "rename_ok demo_fetch_env p"
  "create_ok demo_fetch_env p" "pid demo_fetch_env = 7" "remove_ok demo_fetch_env p"
  by (simp_all add: demo_fetch_env_def Http_Client.demo_env_def)

lemma demo_fetch:
  assumes "d \<noteq> []" "file_name d \<noteq> None"
  shows "\<exists>x w'. fetch_daily_export_to_file demo_lib demo_fetch_env demo_client ''u'' d 10 demo_world = (Inr x, w') \<and>
    files w' = [d \<mapsto> ''ab'' @ [newline]]"
proof -
  let ?tmp = "temp_path d 7 0"
  have create: "create_temporary_file demo_fetch_env d (emit Acquired demo_world) =
      (Inr ?tmp, demo_world\<lparr>trace := [Acquired], files := [?tmp \<mapsto> []], temp_counter := 1\<rparr>)"
    unfolding create_temporary_file_def
    by (rule for_attempts_Done) (simp_all add: create_attempt_def Let_def demo_world_def emit_def)
  have "\<exists>x w'. export_attempt demo_lib demo_fetch_env demo_client demo_url d 10 1 demo_world = (Done (Inr x), w')"
    by (simp add: export_attempt_def create export_response_def demo_lib_def is_success_def Let_def)
  then obtain x w' where w': "export_attempt demo_lib demo_fetch_env demo_client demo_url d 10 1 demo_world =
      (Done (Inr x), w')" by blast
  have loop: "for_attempts 4 1 (export_attempt demo_lib demo_fetch_env demo_client demo_url d 10)
      (Inl Transport) demo_world = (Inr x, w')"
    using w' by (intro for_attempts_Done) simp_all
  have "usable_url demo_url" by (simp add: usable_url_def demo_url_def)
  moreover have "client_lib.parse_url demo_lib ''u'' = Some demo_url" by (simp add: demo_lib_def)
  moreover have "max_attempts (policy demo_client) = 4"
    by (simp add: demo_client_def retry_conservative_def nonzero_or_min_def)
  ultimately have run: "fetch_daily_export_to_file demo_lib demo_fetch_env demo_client ''u'' d 10 demo_world = (Inr x, w')"
    using loop assms by (simp add: fetch_daily_export_to_file_def max_daily_export_bytes_def)
  have "clean_env demo_fetch_env 10" by (simp add: clean_env_def)
  then have "export_done demo_lib demo_fetch_env 10 True d (files demo_world) (Inr x) w'"
    using fetch_export_cases [OF wf_demo_client run, of True] by blast
  then have "files w' = [d \<mapsto> ''ab'' @ [newline]]" by (auto simp: export_done_def published_def demo_world_def)
  then show ?thesis using run by blast
qed

definition demo_site :: "string export_site" where
  "demo_site = \<lparr>ex_client_lib = demo_lib, ex_client_env = demo_fetch_env, ex_client = demo_client, ex_max_bytes = 10,
     ex_root = [], ex_parser = parser_default, ex_decode = Some, ex_rec_id = demo_id, ex_gunzip = (\<lambda>s. ([s], False)),
     ex_id_env = demo_id_env, ex_dir_ok = True, ex_probe_ok = True, ex_ids_probe_ok = True, ex_joined = True,
     ex_open_ok = True\<rparr>"

lemma demo_site_paths:
  "export_destination demo_ingest_lib demo_site Movie ''u'' = ''movie-0a.ndjson.gz''"
  "ids_destination demo_ingest_lib demo_site Movie ''u'' = ''movie-0a.ndjson.ids''"
  "with_extension ''movie-0a.ndjson.ids'' ''ids.tmp'' = ''movie-0a.ndjson.ids.tmp''"
  "file_name ''movie-0a.ndjson.gz'' = Some ''movie-0a.ndjson.gz''"
  "file_name ''movie-0a.ndjson.ids'' = Some ''movie-0a.ndjson.ids''"
  by (simp_all add: export_destination_def ids_destination_def demo_site_def demo_ingest_lib_def media_type_as_str_def
      path_push_def with_extension_def file_name_def file_stem_def)

lemma demo_readers: "[] \<notin> set (fst (open_reader (\<lambda>s. ([s], False)) s))"
  by (auto simp: open_reader_def is_gzip_def buffered_nonempty simp del: buffered.simps)

lemma demo_site_run:
  "\<exists>d w'. obtain_export_ids demo_ingest_lib demo_site Movie ''u'' demo_world = (Inr d, w') \<and>
    files w' ''movie-0a.ndjson.ids'' = Some (id_file_text [3])"
proof -
  let ?d = "''movie-0a.ndjson.gz''" and ?i = "''movie-0a.ndjson.ids''"
  obtain x w1 where fetch: "fetch_daily_export_to_file demo_lib demo_fetch_env demo_client ''u'' ?d 10 demo_world = (Inr x, w1)"
      "files w1 = [?d \<mapsto> ''ab'' @ [newline]]"
    using demo_fetch [of ?d] by (auto simp: demo_site_paths)
  have d: "obtain_export demo_ingest_lib demo_site Movie ''u'' demo_world = (Inr (Some x), w1)"
    using fetch(1) by (simp add: obtain_export_def demo_site_paths) (simp add: demo_site_def demo_world_def)
  obtain fs where "write_id_file parser_default Some demo_id (\<lambda>s. ([s], False)) demo_id_env ?d ?i (files w1) = (Inr 1, fs)"
    using demo_id_file(3) [of ?i ?d "files w1"] fetch(2) by (auto simp: demo_site_paths)
  then have i: "obtain_ids demo_ingest_lib demo_site Movie ''u'' w1 = (Inr (), w1\<lparr>files := fs\<rparr>)"
    using fetch(2) by (simp add: obtain_ids_def demo_site_paths) (simp add: demo_site_def ensure_export_id_file_def)
  have run: "obtain_export_ids demo_ingest_lib demo_site Movie ''u'' demo_world = (Inr (Some x), w1\<lparr>files := fs\<rparr>)"
    using d i by (simp add: obtain_export_ids_def)
  have "files w1 (export_destination demo_ingest_lib demo_site Movie ''u'') = Some (''ab'' @ [newline])"
      "files w1 (ids_destination demo_ingest_lib demo_site Movie ''u'') = None"
    by (simp_all add: demo_site_paths fetch(2))
  then have "fs ?i = Some (id_file_text [3])"
    using obtain_ids_fresh [OF i] demo_readers wf_parser_default demo_id_file(4)
    by (simp add: demo_site_paths) (simp add: demo_site_def demo_id_def numeral_3_eq_3)
  then show ?thesis using run by simp
qed

lemma demo_daily_export:
  "\<exists>report w'. execute_daily_export demo_ingest_lib demo_site (Some \<lparr>id_content = None, catalogued_ids = Some [3],
      batch_tx = \<lambda>k. demo_tx, next_tx = demo_tx, wall_clock = 0\<rparr>) Movie ''u'' 0 False (demo_world, empty_queue) =
    (Inr report, w', empty_queue)"
proof -
  obtain d w' where w': "obtain_export_ids demo_ingest_lib demo_site Movie ''u'' demo_world = (Inr d, w')"
      "files w' ''movie-0a.ndjson.ids'' = Some (id_file_text [3])"
    using demo_site_run by blast
  have "ex_open_ok demo_site" by (simp add: demo_site_def)
  then show ?thesis
    using w' by (simp add: execute_daily_export_def Let_def demo_site_paths enqueue_daily_export_refresh_jobs_def demo_batch
        enqueue_missing_refresh_jobs_def validate_refresh_tmdb_id_def enqueue_refresh_jobs_with_priority_def
        chunks_of.simps next_export_job_def del: id_file_text_Cons)
qed

end
