(* ===== verification/Catalog_Start.thy ===== *)
theory Catalog_Start
  imports Catalog_Scan Export_Site
begin

text \<open>
  How a scan starts, in \<open>src/apps/tmdb-ingest/src/jobs.rs\<close>: the \<open>AdminScan\<close> branch of
  \<open>IngestExecutor::execute\<close> with its six modes, the window of the daily synchronization, and the two
  operations that compare the catalog with the daily export, pruning and reconciliation.
\<close>

section \<open>The window of the daily synchronization\<close>

text \<open>\<open>None\<close>: a full sweep is required first.\<close>

definition catalog_sync_window ::
    "scan_env \<Rightarrow> int option \<Rightarrow> int option \<Rightarrow> scan_world \<Rightarrow>
     (job_execution_error + (int \<times> int) option) \<times> scan_world" where
  "catalog_sync_window env requested_start requested_end w =
     (case (if state_ok env then w_sync w ''daily_sync'' else None) of
        None \<Rightarrow> (Inl database_retry, w)
      | Some state \<Rightarrow>
          if sweep_required state then (Inr None, w)
          else
            let until = (case requested_end of Some d \<Rightarrow> d | None \<Rightarrow> today env);
                since = (case requested_start of Some d \<Rightarrow> Some d | None \<Rightarrow> sync_end state);
                sweep = (case sync_query (sync_call env) mark_catalog_full_sweep_required w of
                           (r, w') \<Rightarrow> (mapR (\<lambda>_. None) r, w'))
            in case since of
                 None \<Rightarrow> sweep
               | Some s \<Rightarrow> if s > until \<or> until - s > 13 then sweep else (Inr (Some (s, until)), w))"

section \<open>Comparing the catalog with an export\<close>

text \<open>The loop over the lines of the identifier file: batches of 500 go to a temporary table; the
  \<open>k\<close>-th insertion may fail.\<close>

fun keep_loop ::
    "(string \<Rightarrow> job_execution_error + int) \<Rightarrow> (nat \<Rightarrow> bool) \<Rightarrow> nat \<Rightarrow> int list \<Rightarrow> int list \<Rightarrow> string list \<Rightarrow>
     job_execution_error + int list" where
  "keep_loop parse ok k pending kept [] =
     (if pending = [] then Inr kept else if ok k then Inr (kept @ pending) else Inl database_retry)"
| "keep_loop parse ok k pending kept (l # ls) =
     (case parse l of
        Inl e \<Rightarrow> Inl e
      | Inr i \<Rightarrow>
          if length (pending @ [i]) = 500
          then if ok k then keep_loop parse ok (Suc k) [] (kept @ pending @ [i]) ls else Inl database_retry
          else keep_loop parse ok k (pending @ [i]) kept ls)"

text \<open>\<open>parse::<u32>\<close> when pruning, \<open>parse::<i64>\<close> when reconciling; zero and less are refused.\<close>

definition prune_line_id :: "string \<Rightarrow> job_execution_error + int" where
  "prune_line_id l =
     (if \<not> utf8_valid l then Inl storage_retry
      else case parse_uint u32_max (trim l) of
        None \<Rightarrow> Inl invalid_payload
      | Some i \<Rightarrow> if i = 0 then Inl invalid_payload else Inr (int i))"

definition reconcile_line_id :: "string \<Rightarrow> job_execution_error + int" where
  "reconcile_line_id l =
     (if \<not> utf8_valid l then Inl storage_retry
      else case parse_int (- int i64_max - 1) (int i64_max) (trim l) of
        None \<Rightarrow> Inl invalid_payload
      | Some i \<Rightarrow> if i > 0 then Inr i else Inl invalid_payload)"

record titles_tx =
  tt_begin_ok :: bool
  tt_insert_ok :: "nat \<Rightarrow> bool"
  tt_change_ok :: bool
  tt_commit :: delivery

text \<open>A transaction over the titles: the identifiers to keep, the change, the commit.\<close>

definition titles_transaction ::
    "titles_tx \<Rightarrow> (string \<Rightarrow> job_execution_error + int) \<Rightarrow> string option \<Rightarrow> (int list \<Rightarrow> scan_world \<Rightarrow> nat \<times> scan_world) \<Rightarrow>
     scan_world \<Rightarrow> (job_execution_error + nat) \<times> scan_world" where
  "titles_transaction tx parse content change w =
     (if \<not> tt_begin_ok tx then (Inl database_retry, w)
      else case content of
        None \<Rightarrow> (Inl storage_retry, w)
      | Some s \<Rightarrow>
          (case keep_loop parse (tt_insert_ok tx) 0 [] [] (text_lines s) of
             Inl e \<Rightarrow> (Inl e, w)
           | Inr keep \<Rightarrow>
               if \<not> tt_change_ok tx then (Inl database_retry, w)
               else (case change keep w of
                 (n, w') \<Rightarrow>
                   (case tt_commit tx of
                      Delivered \<Rightarrow> (Inr n, w')
                    | Failed _ \<Rightarrow> (Inl database_retry, w)
                    | Reply_lost \<Rightarrow> (Inl database_retry, w')))))"

text \<open>Deleting a title deletes its seasons.\<close>

definition prune_catalog_titles ::
    "titles_tx \<Rightarrow> media_type \<Rightarrow> string option \<Rightarrow> scan_world \<Rightarrow> (job_execution_error + nat) \<times> scan_world" where
  "prune_catalog_titles tx m content w =
     titles_transaction tx prune_line_id content
       (\<lambda>keep w.
          let gone = filter (\<lambda>t. ct_media t = media_type_as_str m \<and> ct_tmdb_id t \<notin> set keep) (w_titles w)
          in (length gone,
              w\<lparr>w_titles := filter (\<lambda>t. ct_media t \<noteq> media_type_as_str m \<or> ct_tmdb_id t \<in> set keep) (w_titles w),
                w_seasons := filter (\<lambda>s. cs_title_id s \<notin> set (map ct_id gone)) (w_seasons w)\<rparr>)) w"

definition reconcile_catalog_titles ::
    "titles_tx \<Rightarrow> media_type \<Rightarrow> string option \<Rightarrow> scan_world \<Rightarrow> (job_execution_error + nat) \<times> scan_world" where
  "reconcile_catalog_titles tx m content w =
     titles_transaction tx reconcile_line_id content
       (\<lambda>keep w.
          (length (filter (\<lambda>t. ct_media t = media_type_as_str m \<and> ct_active t \<and> ct_tmdb_id t \<notin> set keep) (w_titles w)),
           w\<lparr>w_titles := map (\<lambda>t. if ct_media t = media_type_as_str m
                                   then t\<lparr>ct_active := (ct_tmdb_id t \<in> set keep)\<rparr> else t) (w_titles w)\<rparr>)) w"

text \<open>\<open>ops.prune_finished_jobs\<close>; \<open>held\<close> are the jobs that other tables refer to, or that are locked.\<close>

definition prune_finished_jobs ::
    "(nat \<Rightarrow> bool) \<Rightarrow> int \<Rightarrow> int \<Rightarrow> nat \<Rightarrow> job_queue \<Rightarrow> (string + nat) \<times> job_queue" where
  "prune_finished_jobs held now before limit q =
     (if \<not> (1 \<le> limit \<and> limit \<le> 10000) \<or> before \<ge> now then (Inl ''22023'', q)
      else
        let old = filter (\<lambda>r. is_terminal (jr_status r) \<and>
              (case jr_finished_at r of None \<Rightarrow> False | Some t \<Rightarrow> t < before) \<and> \<not> held (jr_id r)) (q_rows q);
            gone = map jr_id (take limit (sort_key (\<lambda>r. the (jr_finished_at r)) (sort_key jr_id old)))
        in (Inr (length gone),
            q\<lparr>q_rows := filter (\<lambda>r. jr_id r \<notin> set gone) (q_rows q),
              q_events := filter (\<lambda>e. ev_job e \<notin> set gone) (q_events q)\<rparr>))"

section \<open>Starting a scan\<close>

record 'r start_env =
  st_scan :: scan_env
  st_site :: "'r export_site"
  st_yesterday :: "int option"
  st_titles_tx :: "nat \<Rightarrow> titles_tx"
  st_held :: "nat \<Rightarrow> bool"
  st_prune_call :: delivery
  st_prune_clock :: int

type_synonym start_world = "scan_world \<times> client_world"

text \<open>Submitting children one after the other, counting the new ones; \<open>k\<close> is the next transaction.\<close>

fun submit_each ::
    "(nat \<Rightarrow> tx_env) \<Rightarrow> nat \<Rightarrow> new_job list \<Rightarrow> nat \<Rightarrow> scan_world \<Rightarrow> (job_execution_error + nat) \<times> scan_world" where
  "submit_each tx k [] n w = (Inr n, w)"
| "submit_each tx k (j # js) n w =
     (case submit_scan_child (tx k) (Inr j) w of
        (Inl e, w') \<Rightarrow> (Inl e, w')
      | (Inr fresh, w') \<Rightarrow> submit_each tx (Suc k) js (n + (if fresh then 1 else 0)) w')"

text \<open>Groups of jobs: a group is built completely before its first job is submitted.\<close>

fun submit_groups ::
    "(nat \<Rightarrow> tx_env) \<Rightarrow> nat \<Rightarrow> (job_execution_error + new_job) list list \<Rightarrow> nat \<Rightarrow> scan_world \<Rightarrow>
     (job_execution_error + nat) \<times> scan_world" where
  "submit_groups tx k [] n w = (Inr n, w)"
| "submit_groups tx k (g # gs) n w =
     (case collectR g of
        Inl e \<Rightarrow> (Inl e, w)
      | Inr js \<Rightarrow>
          (case submit_each tx k js n w of
             (Inl e, w') \<Rightarrow> (Inl e, w')
           | (Inr n', w') \<Rightarrow> submit_groups tx (k + length js) gs n' w'))"

definition submit_configuration_refresh ::
    "ingest_lib \<Rightarrow> tx_env \<Rightarrow> scan_world \<Rightarrow> (job_execution_error + nat) \<times> scan_world" where
  "submit_configuration_refresh lib tx w =
     (case submit_scan_child tx (configuration_refresh_job lib) w of
        (r, w') \<Rightarrow> (mapR (\<lambda>fresh. if fresh then 1 else 0) r, w'))"

definition start_full_sweep ::
    "ingest_lib \<Rightarrow> 'r start_env \<Rightarrow> media_type list \<Rightarrow> nat \<Rightarrow> scan_world \<Rightarrow> (job_execution_error + nat) \<times> scan_world" where
  "start_full_sweep lib env ms n w =
     (case st_yesterday env of
        None \<Rightarrow> (Inl invalid_payload, w)
      | Some d \<Rightarrow>
          submit_groups (scan_tx (st_scan env)) 1
            (concat (map (\<lambda>m. [[trending_job lib m ''day''], [trending_job lib m ''week''], [export_job lib m d True]]) ms))
            n w)"

definition start_recovery ::
    "ingest_lib \<Rightarrow> 'r start_env \<Rightarrow> media_type list \<Rightarrow> nat \<Rightarrow> scan_world \<Rightarrow> (job_execution_error + nat) \<times> scan_world" where
  "start_recovery lib env ms n w =
     (case st_yesterday env of
        None \<Rightarrow> (Inl invalid_payload, w)
      | Some d \<Rightarrow>
          submit_groups (scan_tx (st_scan env)) 1
            (map (\<lambda>m. [export_job lib m d False,
                       admin_scan_job lib (clock_us (st_scan env)) Recovery [m] Enrichment 0 0]) ms) n w)"

definition start_missing ::
    "ingest_lib \<Rightarrow> 'r start_env \<Rightarrow> media_type list \<Rightarrow> nat \<Rightarrow> nat \<Rightarrow> scan_world \<Rightarrow>
     (job_execution_error + nat) \<times> scan_world" where
  "start_missing lib env ms cursor n w =
     (case enqueue_missing_catalog_refresh_batch lib (st_scan env) (scan_tx (st_scan env) 1) ms cursor w of
        (Inl e, w1) \<Rightarrow> (Inl e, w1)
      | (Inr batch, w1) \<Rightarrow>
          (case submit_groups (scan_tx (st_scan env)) 2
                  (if pb_done batch
                   then map (\<lambda>m. [admin_scan_job lib (clock_us (st_scan env)) MissingOnly [m] Enrichment 0 0]) ms
                   else [[admin_scan_job lib (clock_us (st_scan env)) MissingOnly ms Start (pb_next_cursor batch) 0]])
                  0 w1 of
             (r, w2) \<Rightarrow> (mapR (\<lambda>_. pb_queued batch + n) r, w2)))"

text \<open>Each media type in turn: its export and identifiers, then \<open>act\<close> on the file.\<close>

fun for_exports ::
    "ingest_lib \<Rightarrow> 'r export_site \<Rightarrow> (nat \<Rightarrow> media_type \<Rightarrow> string option \<Rightarrow> scan_world \<Rightarrow> (job_execution_error + nat) \<times> scan_world) \<Rightarrow>
     int \<Rightarrow> nat \<Rightarrow> media_type list \<Rightarrow> nat \<Rightarrow> start_world \<Rightarrow> (job_execution_error + nat) \<times> start_world" where
  "for_exports lib site act d k [] n w = (Inr n, w)"
| "for_exports lib site act d k (m # ms) n (sw, cw) =
     (case obtain_export_ids lib site m (export_url lib m d) cw of
        (Inl e, cw1) \<Rightarrow> (Inl e, sw, cw1)
      | (Inr _, cw1) \<Rightarrow>
          (case act k m (if ex_open_ok site then files cw1 (ids_destination lib site m (export_url lib m d)) else None) sw of
             (Inl e, sw1) \<Rightarrow> (Inl e, sw1, cw1)
           | (Inr x, sw1) \<Rightarrow> for_exports lib site act d (Suc k) ms (n + x) (sw1, cw1)))"

definition start_prune ::
    "ingest_lib \<Rightarrow> 'r start_env \<Rightarrow> media_type list \<Rightarrow> start_world \<Rightarrow> (job_execution_error + nat \<times> nat) \<times> start_world" where
  "start_prune lib env ms w =
     (case st_yesterday env of
        None \<Rightarrow> (Inl invalid_payload, w)
      | Some d \<Rightarrow>
          (case for_exports lib (st_site env) (\<lambda>k. prune_catalog_titles (st_titles_tx env k)) d 0 ms 0 w of
             (Inl e, w1) \<Rightarrow> (Inl e, w1)
           | (Inr deleted, sw, cw) \<Rightarrow>
               (case db_call (st_prune_call env)
                       (prune_finished_jobs (st_held env) (st_prune_clock env)
                          (clock_us (st_scan env) - 30 * 86400 * 1000000) 10000) (w_queue sw) of
                  (r, q) \<Rightarrow> (mapR (\<lambda>jobs. (deleted, jobs)) (map_errR (\<lambda>_. database_retry) r), sw\<lparr>w_queue := q\<rparr>, cw))))"

definition execute_reconcile_start ::
    "ingest_lib \<Rightarrow> 'r start_env \<Rightarrow> media_type list \<Rightarrow> start_world \<Rightarrow> (job_execution_error + nat) \<times> start_world" where
  "execute_reconcile_start lib env ms w =
     (case st_yesterday env of
        None \<Rightarrow> (Inl invalid_payload, w)
      | Some d \<Rightarrow>
          for_exports lib (st_site env)
            (\<lambda>k m content sw.
               case reconcile_catalog_titles (st_titles_tx env k) m content sw of
                 (Inl e, sw1) \<Rightarrow> (Inl e, sw1)
               | (Inr _, sw1) \<Rightarrow>
                   submit_groups (scan_tx (st_scan env)) (1 + 2 * k)
                     [[export_job lib m d False,
                       admin_scan_job lib (clock_us (st_scan env)) Reconcile [m] Enrichment 0 0]] 0 sw1)
            d 0 ms 0 w)"

definition start_daily_sync ::
    "ingest_lib \<Rightarrow> 'r start_env \<Rightarrow> media_type list \<Rightarrow> int option \<Rightarrow> int option \<Rightarrow> nat \<Rightarrow> scan_world \<Rightarrow>
     (job_execution_error + nat option) \<times> scan_world" where
  "start_daily_sync lib env ms a b n w =
     (case catalog_sync_window (st_scan env) a b w of
        (Inl e, w1) \<Rightarrow> (Inl e, w1)
      | (Inr None, w1) \<Rightarrow> (Inr None, w1)
      | (Inr (Some (s, e)), w1) \<Rightarrow>
          (case submit_groups (scan_tx (st_scan env)) 1
                  (map (\<lambda>m. [changes_start_job lib m s e]) ms @
                   [[admin_scan_job_with_window lib (clock_us (st_scan env)) DailySync ms Completion 0 0 (Some s) (Some e)]])
                  n w1 of
             (r, w2) \<Rightarrow> (mapR Some r, w2)))"

definition start_report ::
    "ingest_lib \<Rightarrow> admin_scan_mode \<Rightarrow> media_type list \<Rightarrow> nat \<Rightarrow> string \<Rightarrow> nat \<Rightarrow> nat \<Rightarrow> json" where
  "start_report lib mode ms cursor key queued jobs_pruned =
     scan_report mode ms Start
       [(''queued'', JInt (int queued)),
        (''deleted'', if mode = PruneCleanup then JInt (int queued) else JNull),
        (''jobs_pruned'', if mode = PruneCleanup then JInt (int jobs_pruned) else JNull),
        (''cursor'', JInt (int cursor)), (''dedup_key'', JStr key)]"

definition execute_admin_scan ::
    "ingest_lib \<Rightarrow> 'r start_env \<Rightarrow> admin_scan_mode \<Rightarrow> media_type list \<Rightarrow> admin_scan_phase \<Rightarrow> nat \<Rightarrow> nat \<Rightarrow>
     int option \<Rightarrow> int option \<Rightarrow> start_world \<Rightarrow> (job_execution_error + json) \<times> start_world" where
  "execute_admin_scan lib env mode ms phase cursor poll a b w =
     (let key = dedup_key lib (AdminScan mode ms phase cursor poll a b);
          with_scan = (\<lambda>res cw. case res of (r, sw) \<Rightarrow> (r, (sw, cw)))
      in case w of (sw, cw) \<Rightarrow>
        if phase = Start \<and> mode \<noteq> MissingOnly \<and> cursor \<noteq> 0 then (Inl invalid_payload, w)
        else if phase \<noteq> Start
        then with_scan (execute_catalog_scan_phase lib (st_scan env) mode ms phase cursor poll a b sw) cw
        else
          (case (if mode \<noteq> PruneCleanup \<and> cursor = 0
                 then submit_configuration_refresh lib (scan_tx (st_scan env) 0) sw else (Inr 0, sw)) of
             (Inl e, sw1) \<Rightarrow> (Inl e, sw1, cw)
           | (Inr n, sw1) \<Rightarrow>
               (case mode of
                  FullSweep \<Rightarrow>
                    with_scan (case start_full_sweep lib env ms n sw1 of
                      (r, sw2) \<Rightarrow> (mapR (\<lambda>queued. start_report lib mode ms cursor key queued 0) r, sw2)) cw
                | DailySync \<Rightarrow>
                    with_scan (case start_daily_sync lib env ms a b n sw1 of
                      (r, sw2) \<Rightarrow>
                        (mapR (\<lambda>res. case res of
                             Some queued \<Rightarrow> start_report lib mode ms cursor key queued 0
                           | None \<Rightarrow> scan_report mode ms Start
                               [(''queued'', JInt (int n)), (''full_sweep_required'', JBool True),
                                (''dedup_key'', JStr key)]) r, sw2)) cw
                | PruneCleanup \<Rightarrow>
                    (case start_prune lib env ms (sw1, cw) of
                       (r, w2) \<Rightarrow> (mapR (\<lambda>(deleted, jobs). start_report lib mode ms cursor key deleted jobs) r, w2))
                | MissingOnly \<Rightarrow>
                    with_scan (case start_missing lib env ms cursor n sw1 of
                      (r, sw2) \<Rightarrow> (mapR (\<lambda>queued. start_report lib mode ms cursor key queued 0) r, sw2)) cw
                | Recovery \<Rightarrow>
                    with_scan (case start_recovery lib env ms n sw1 of
                      (r, sw2) \<Rightarrow> (mapR (\<lambda>queued. start_report lib mode ms cursor key queued 0) r, sw2)) cw
                | Reconcile \<Rightarrow>
                    (case execute_reconcile_start lib env ms (sw1, cw) of
                       (r, w2) \<Rightarrow> (mapR (\<lambda>queued. start_report lib mode ms cursor key (queued + n) 0) r, w2)))))"

section \<open>The identifiers of a file\<close>

lemma keep_loop_ok:
  "keep_loop parse ok k pending kept ls = Inr ids \<Longrightarrow>
     \<exists>xs. collectR (map parse ls) = Inr xs \<and> ids = kept @ pending @ xs"
proof (induction parse ok k pending kept ls rule: keep_loop.induct)
  case (2 parse ok k pending kept l ls)
  then obtain i where i: "parse l = Inr i" by (auto split: sum.splits)
  show ?case
    using "2.prems" "2.IH"(1) [OF i] "2.IH"(2) [OF i] i by (auto split: if_splits)
qed (auto split: if_splits)

lemma keep_loop_parses:
  assumes "collectR (map parse ls) = Inr xs" "\<And>k. ok k"
  shows "keep_loop parse ok k pending kept ls = Inr (kept @ pending @ xs)"
  using assms
proof (induction ls arbitrary: k pending kept xs)
  case (Cons l ls)
  then obtain i ys where "parse l = Inr i" "collectR (map parse ls) = Inr ys" "xs = i # ys"
    by (auto simp: result_simps)
  then show ?case using Cons.IH Cons.prems(2) by simp
qed simp

lemma text_lines_ids: "text_lines (id_file_text is) = map id_line is"
proof (induction "is")
  case (Cons i "is")
  have "id_line i @ id_file_text is \<noteq> []" by (simp add: id_line_def)
  then show ?case using Cons by (simp add: text_lines_nonempty first_line_id after_line_id)
qed (simp add: id_file_text_def)

lemma prune_line_id_line: "0 < i \<Longrightarrow> i \<le> u32_max \<Longrightarrow> prune_line_id (id_line i) = Inr (int i)"
  by (simp add: prune_line_id_def utf8_id_line trim_id_line parse_uint_dec)

lemma prune_file_ids:
  "list_all (\<lambda>i. 0 < i \<and> i \<le> u32_max) is \<Longrightarrow>
     collectR (map prune_line_id (text_lines (id_file_text is))) = Inr (map int is)"
  unfolding text_lines_ids by (induction "is") (simp_all add: prune_line_id_line)

lemma titles_transaction_cases:
  assumes "titles_transaction tx parse content change w = (r, w')"
  shows "(\<forall>n. r = Inr n \<longrightarrow> (\<exists>s ids. content = Some s \<and> collectR (map parse (text_lines s)) = Inr ids \<and>
      change ids w = (n, w'))) \<and>
    (\<forall>e. r = Inl e \<longrightarrow> tt_commit tx \<noteq> Reply_lost \<longrightarrow> w' = w)"
  using assms
  by (auto simp: titles_transaction_def split: if_splits option.splits sum.splits prod.splits delivery.splits
      dest: keep_loop_ok)

lemma not_in_removed:
  "k \<notin> set (map f (filter (\<lambda>t. \<not> P t) ts)) \<longleftrightarrow> (\<forall>t\<in>set ts. f t = k \<longrightarrow> t \<in> set (filter P ts))"
  by auto

text \<open>C18: pruning removes exactly what the export no longer has: if it succeeds on a written identifier
  file, the titles left are those of the other media type and those whose TMDB id is in the file, in
  their order, the number returned is the number removed, and no season of a removed title stays; if
  it fails and the commit's reply was not lost, nothing has changed.\<close>

theorem prune_keeps_the_export:
  assumes "prune_catalog_titles tx m (Some (id_file_text ids)) w = (r, w')"
    and "list_all (\<lambda>i. 0 < i \<and> i \<le> u32_max) ids"
  shows "(case r of
      Inr n \<Rightarrow>
        w_titles w' = filter (\<lambda>t. ct_media t \<noteq> media_type_as_str m \<or> ct_tmdb_id t \<in> int ` set ids) (w_titles w) \<and>
        n = length (w_titles w) - length (w_titles w') \<and>
        set (w_seasons w') = {s \<in> set (w_seasons w). \<forall>t\<in>set (w_titles w). ct_id t = cs_title_id s \<longrightarrow> t \<in> set (w_titles w')}
    | Inl e \<Rightarrow> tt_commit tx \<noteq> Reply_lost \<longrightarrow> w' = w)"
proof (cases r)
  case (Inl e)
  then show ?thesis
    using titles_transaction_cases [OF assms(1) [unfolded prune_catalog_titles_def]] by simp
next
  case (Inr n)
  let ?keep = "\<lambda>t. ct_media t \<noteq> media_type_as_str m \<or> ct_tmdb_id t \<in> int ` set ids"
  obtain s xs where run: "Some (id_file_text ids) = Some s" "collectR (map prune_line_id (text_lines s)) = Inr xs"
      "(let gone = filter (\<lambda>t. ct_media t = media_type_as_str m \<and> ct_tmdb_id t \<notin> set xs) (w_titles w)
        in (length gone,
            w\<lparr>w_titles := filter (\<lambda>t. ct_media t \<noteq> media_type_as_str m \<or> ct_tmdb_id t \<in> set xs) (w_titles w),
              w_seasons := filter (\<lambda>s. cs_title_id s \<notin> set (map ct_id gone)) (w_seasons w)\<rparr>)) = (n, w')"
    using titles_transaction_cases [OF assms(1) [unfolded prune_catalog_titles_def]] Inr by blast
  have xs: "set xs = int ` set ids" using run(1,2) prune_file_ids [OF assms(2)] by simp
  have gone: "filter (\<lambda>t. ct_media t = media_type_as_str m \<and> ct_tmdb_id t \<notin> int ` set ids) (w_titles w) =
      filter (\<lambda>t. \<not> ?keep t) (w_titles w)"
    by (intro filter_cong) auto
  have w': "w_titles w' = filter ?keep (w_titles w)" "n = length (filter (\<lambda>t. \<not> ?keep t) (w_titles w))"
      "w_seasons w' = filter (\<lambda>s. cs_title_id s \<notin> set (map ct_id (filter (\<lambda>t. \<not> ?keep t) (w_titles w)))) (w_seasons w)"
    using run(3) unfolding xs gone Let_def prod.inject by (elim conjE; hypsubst; simp)+
  have "length (w_titles w) - length (w_titles w') = n"
    unfolding w'(1,2) using sum_length_filter_compl [of ?keep "w_titles w"] by simp
  moreover have "set (w_seasons w') =
      {s \<in> set (w_seasons w). \<forall>t\<in>set (w_titles w). ct_id t = cs_title_id s \<longrightarrow> t \<in> set (w_titles w')}"
    unfolding w'(1,3) not_in_removed by simp
  ultimately show ?thesis using Inr w'(1) by simp
qed

definition demo_titles_tx :: titles_tx where
  "demo_titles_tx = \<lparr>tt_begin_ok = True, tt_insert_ok = \<lambda>k. True, tt_change_ok = True, tt_commit = Delivered\<rparr>"

lemma demo_prune:
  "\<exists>w'. prune_catalog_titles demo_titles_tx Movie (Some (id_file_text [7])) demo_scan_world = (Inr 1, w')"
proof -
  have parsed: "collectR (map prune_line_id (text_lines (id_file_text [7]))) = Inr [7]"
    using prune_file_ids [of "[7]"] by simp
  have "keep_loop prune_line_id (tt_insert_ok demo_titles_tx) 0 [] [] (text_lines (id_file_text [7])) = Inr ([] @ [] @ [7])"
    by (rule keep_loop_parses [OF parsed]) (simp add: demo_titles_tx_def)
  then show ?thesis
    by (simp add: prune_catalog_titles_def titles_transaction_def Let_def demo_scan_world_def demo_title_def
        media_type_as_str_def del: id_file_text_Cons) (simp add: demo_titles_tx_def)
qed

theorem prune_keeps_the_export_witness:
  "\<exists>w'. prune_catalog_titles demo_titles_tx Movie (Some (id_file_text [7])) demo_scan_world = (Inr 1, w') \<and> w_titles w' = []"
proof -
  obtain w' where run: "prune_catalog_titles demo_titles_tx Movie (Some (id_file_text [7])) demo_scan_world = (Inr 1, w')"
    using demo_prune by blast
  from prune_keeps_the_export [OF run] run show ?thesis
    by (simp add: demo_scan_world_def demo_title_def media_type_as_str_def del: id_file_text_Cons)
qed

section \<open>What a start leaves behind\<close>

lemma sync_query_sweep:
  assumes "sync_query d mark_catalog_full_sweep_required w = (Inr x, w')" "w_sync w ''daily_sync'' = Some st"
  shows "w_sync w' ''daily_sync'' = Some (st\<lparr>sweep_required := True\<rparr>)"
  using assms by (auto simp: sync_query_def db_call_def mark_catalog_full_sweep_required_def split: delivery.splits)

text \<open>The daily synchronization never asks for more than TMDB serves: a window it returns runs from
  the requested or last successful day to the requested day or today, is ordered and spans at most 13
  days, and nothing was changed; with no window the state asks for a full sweep, which stays required
  until a full sweep or a daily completion clears it.\<close>

theorem sync_window_bounded:
  assumes "catalog_sync_window env a b w = (Inr res, w')"
  shows "\<exists>state. w_sync w ''daily_sync'' = Some state \<and>
    (case res of
       Some (s, e) \<Rightarrow> w' = w \<and> \<not> sweep_required state \<and> s \<le> e \<and> e \<le> s + 13 \<and>
         e = (case b of Some d \<Rightarrow> d | None \<Rightarrow> today env) \<and> (a = Some s \<or> a = None \<and> sync_end state = Some s)
     | None \<Rightarrow> w_sync w' ''daily_sync'' = Some (state\<lparr>sweep_required := True\<rparr>))"
proof -
  obtain state where state: "w_sync w ''daily_sync'' = Some state"
    using assms by (auto simp: catalog_sync_window_def split: option.splits if_splits)
  show ?thesis
  proof (cases res)
    case (Some x)
    then show ?thesis using assms state
      by (auto simp: catalog_sync_window_def Let_def result_simps split: option.splits if_splits prod.splits)
  next
    case None
    then show ?thesis using assms state sync_query_sweep
      by (fastforce simp: catalog_sync_window_def Let_def result_simps split: option.splits if_splits prod.splits)
  qed
qed

theorem sync_window_bounded_witness:
  "\<exists>w'. catalog_sync_window demo_scan_env (Some 3) (Some 9)
      (demo_scan_world\<lparr>w_sync := [''daily_sync'' \<mapsto> \<lparr>sync_end = None, sweep_required = False\<rparr>]\<rparr>) = (Inr (Some (3, 9)), w') \<and>
    (9::int) \<le> 3 + 13"
proof -
  have run: "catalog_sync_window demo_scan_env (Some 3) (Some 9)
      (demo_scan_world\<lparr>w_sync := [''daily_sync'' \<mapsto> \<lparr>sync_end = None, sweep_required = False\<rparr>]\<rparr>) =
      (Inr (Some (3, 9)), demo_scan_world\<lparr>w_sync := [''daily_sync'' \<mapsto> \<lparr>sync_end = None, sweep_required = False\<rparr>]\<rparr>)"
    by (simp add: catalog_sync_window_def demo_scan_env_def Let_def)
  from sync_window_bounded [OF run] run show ?thesis by auto
qed

lemma submit_scan_child_keeps:
  assumes "submit_scan_child tx job w = (Inr x, w')" "recorded ty k (w_queue w)"
  shows "recorded ty k (w_queue w')"
proof -
  obtain j out where "submit_ingest_child_job tx j (w_queue w) = (Inr out, w_queue w')"
    using assms(1) by (auto simp: submit_scan_child_def result_simps split: sum.splits prod.splits)
  from child_job_ok [OF this] assms(2) show ?thesis by blast
qed

lemma submit_each_ok:
  assumes "submit_each tx k js n w = (Inr n', w')"
  shows "(recorded ty key (w_queue w) \<longrightarrow> recorded ty key (w_queue w')) \<and>
    ((\<forall>k. child_submissions (tx k) = Some True) \<longrightarrow> list_all (job_recorded (w_queue w')) js)"
  using assms
proof (induction js arbitrary: k n w ty key)
  case (Cons j js)
  obtain fresh w1 where one: "submit_scan_child (tx k) (Inr j) w = (Inr fresh, w1)"
      "submit_each tx (Suc k) js (n + (if fresh then 1 else 0)) w1 = (Inr n', w')"
    using Cons.prems by (auto split: prod.splits sum.splits)
  note IH = Cons.IH [OF one(2)]
  show ?case
    using IH submit_scan_child_ok [OF one(1)] submit_scan_child_keeps [OF one(1)] by (auto simp: job_recorded_def)
qed simp

lemma submit_groups_ok:
  assumes "submit_groups tx k gs n w = (Inr n', w')"
  shows "(recorded ty key (w_queue w) \<longrightarrow> recorded ty key (w_queue w')) \<and>
    ((\<forall>k. child_submissions (tx k) = Some True) \<longrightarrow> (\<forall>g\<in>set gs. \<forall>r\<in>set g. made_recorded (w_queue w') r))"
  using assms
proof (induction gs arbitrary: k n w ty key)
  case (Cons g gs)
  obtain js n1 w1 where one: "collectR g = Inr js" "submit_each tx k js n w = (Inr n1, w1)"
      "submit_groups tx (k + length js) gs n1 w1 = (Inr n', w')"
    using Cons.prems by (auto split: prod.splits sum.splits)
  note IH = Cons.IH [OF one(3)]
  have built: "list_all2 (\<lambda>r j. r = Inr j) g js" using one(1) collectR_Inr_iff [of id g js] by simp
  have "made_recorded (w_queue w') r" if r: "r \<in> set g" and on: "\<forall>k. child_submissions (tx k) = Some True" for r
  proof -
    obtain j where j: "j \<in> set js" "r = Inr j"
      using built r by (fastforce simp: list_all2_conv_all_nth in_set_conv_nth)
    then have "job_recorded (w_queue w1) j" using submit_each_ok [OF one(2)] on by (auto simp: list_all_iff)
    then show ?thesis using IH j(2) by (auto simp: made_recorded_def job_recorded_def)
  qed
  then show ?case using IH submit_each_ok [OF one(2)] by auto
qed simp

text \<open>A full sweep has queued the trending lists and the export of every media type it covers; a recovery
  its export and its enrichment scan; a daily synchronization the changes of its window and its
  completion.\<close>

lemma full_sweep_starts_everything:
  assumes "start_full_sweep lib env ms n w = (Inr n', w')" "\<forall>k. child_submissions (scan_tx (st_scan env) k) = Some True"
  shows "\<exists>d. st_yesterday env = Some d \<and> (\<forall>m\<in>set ms. made_recorded (w_queue w') (trending_job lib m ''day'') \<and>
    made_recorded (w_queue w') (trending_job lib m ''week'') \<and> made_recorded (w_queue w') (export_job lib m d True))"
proof -
  obtain d where d: "st_yesterday env = Some d" "submit_groups (scan_tx (st_scan env)) 1
      (concat (map (\<lambda>m. [[trending_job lib m ''day''], [trending_job lib m ''week''], [export_job lib m d True]]) ms)) n w
      = (Inr n', w')"
    using assms(1) by (auto simp: start_full_sweep_def split: option.splits)
  from submit_groups_ok [OF d(2)] assms(2) d(1) show ?thesis by auto
qed

lemma recovery_starts_everything:
  assumes "start_recovery lib env ms n w = (Inr n', w')" "\<forall>k. child_submissions (scan_tx (st_scan env) k) = Some True"
  shows "\<exists>d. st_yesterday env = Some d \<and> (\<forall>m\<in>set ms. made_recorded (w_queue w') (export_job lib m d False) \<and>
    made_recorded (w_queue w') (admin_scan_job lib (clock_us (st_scan env)) Recovery [m] Enrichment 0 0))"
proof -
  obtain d where d: "st_yesterday env = Some d" "submit_groups (scan_tx (st_scan env)) 1
      (map (\<lambda>m. [export_job lib m d False, admin_scan_job lib (clock_us (st_scan env)) Recovery [m] Enrichment 0 0]) ms) n w
      = (Inr n', w')"
    using assms(1) by (auto simp: start_recovery_def split: option.splits)
  from submit_groups_ok [OF d(2)] assms(2) d(1) show ?thesis by auto
qed

lemma daily_sync_starts_everything:
  assumes "start_daily_sync lib env ms a b n w = (Inr (Some n'), w')"
    and "\<forall>k. child_submissions (scan_tx (st_scan env) k) = Some True"
  shows "\<exists>s e. catalog_sync_window (st_scan env) a b w = (Inr (Some (s, e)), w) \<and>
    (\<forall>m\<in>set ms. made_recorded (w_queue w') (changes_start_job lib m s e)) \<and>
    made_recorded (w_queue w') (admin_scan_job_with_window lib (clock_us (st_scan env)) DailySync ms Completion 0 0 (Some s) (Some e))"
proof -
  obtain s e w1 where w: "catalog_sync_window (st_scan env) a b w = (Inr (Some (s, e)), w1)"
      "submit_groups (scan_tx (st_scan env)) 1 (map (\<lambda>m. [changes_start_job lib m s e]) ms @
         [[admin_scan_job_with_window lib (clock_us (st_scan env)) DailySync ms Completion 0 0 (Some s) (Some e)]]) n w1
       = (Inr n', w')"
    using assms(1) by (auto simp: start_daily_sync_def result_simps split: prod.splits sum.splits option.splits)
  moreover have "w1 = w" using w(1)
    by (auto simp: catalog_sync_window_def Let_def result_simps split: option.splits if_splits prod.splits)
  ultimately show ?thesis using submit_groups_ok [OF w(2)] assms(2) by auto
qed

end
