(* ===== verification/Image_Format.thy ===== *)
theory Image_Format
  imports Media_Layout
begin

text \<open>
  The image headers of \<open>src/apps/tmdb-images/src/image.rs\<close>: the dimensions of PNG, JPEG and WebP
  bodies, and \<open>validate_image_header\<close>. A body is its bytes, one \<open>char\<close> each. Indexing and slicing
  panic out of range, as in Rust, so every reader returns \<open>Inl Panic\<close> where the code would panic;
  that none does is proved for arbitrary bytes. The pixel decoder is a parameter.
\<close>

unbundle bit_operations_syntax

section \<open>Errors, panics and byte access\<close>

datatype transport_error = Timeout | Request | BodyRead_transport

datatype image_error =
    InvalidPolicy | InvalidTrawlUrl | DisallowedHost | InvalidRedirect | RedirectLimit
  | ChallengeDetected | FallbackUnavailable | HttpStatus nat | UnsupportedMime | InvalidImage
  | ImageTooLarge | TooLarge | Truncated | BodyRead | Transport transport_error

text \<open>A call returns a value, returns an error, or panics; a panic unwinds through every caller.\<close>

datatype 'e fault = Panic | Err 'e

definition byte_at :: "string \<Rightarrow> nat \<Rightarrow> 'e fault + nat" where
  "byte_at b i = (if i < length b then Inr (byte (b ! i)) else Inl Panic)"

definition slice :: "string \<Rightarrow> nat \<Rightarrow> nat \<Rightarrow> 'e fault + string" where
  "slice b i j = (if i \<le> j \<and> j \<le> length b then Inr (take (j - i) (drop i b)) else Inl Panic)"

definition from_be_bytes :: "string \<Rightarrow> 'a::len word" where
  "from_be_bytes s = foldl (\<lambda>a c. a * 256 + of_nat (byte c)) 0 s"

definition from_le_bytes :: "string \<Rightarrow> 'a::len word" where
  "from_le_bytes s = from_be_bytes (rev s)"

lemma bindR_cong [fundef_cong]:
  "r = r' \<Longrightarrow> (\<And>x. r' = Inr x \<Longrightarrow> f x = f' x) \<Longrightarrow> bindR r f = bindR r' f'"
  by (cases r') auto

lemma byte_at_ok [simp]: "i < length b \<Longrightarrow> byte_at b i = Inr (byte (b ! i))"
  by (simp add: byte_at_def)

lemma slice_ok [simp]: "i \<le> j \<Longrightarrow> j \<le> length b \<Longrightarrow> slice b i j = Inr (take (j - i) (drop i b))"
  by (simp add: slice_def)

section \<open>Dimensions\<close>

record image_dimensions =
  dim_width :: "32 word"
  dim_height :: "32 word"

definition max_image_dimension :: "32 word" where "max_image_dimension = 16384"
definition max_image_pixels :: nat where "max_image_pixels = 67108864"

definition png_signature :: string where
  "png_signature = map char_of [0x89 :: nat, 0x50, 0x4e, 0x47, 0x0d, 0x0a, 0x1a, 0x0a]"

definition parse_png_dimensions :: "string \<Rightarrow> 'e fault + image_dimensions option" where
  "parse_png_dimensions body =
     (if 24 \<le> length body \<and> starts_with body png_signature
      then bindR (slice body 12 16) (\<lambda>t.
        if t = ''IHDR'' then
          bindR (slice body 16 20) (\<lambda>w.
          bindR (slice body 20 24) (\<lambda>h.
          Inr (Some \<lparr>dim_width = from_be_bytes w, dim_height = from_be_bytes h\<rparr>)))
        else Inr None)
      else Inr None)"

section \<open>JPEG\<close>

definition is_jpeg_start_of_frame :: "nat \<Rightarrow> bool" where
  "is_jpeg_start_of_frame m \<longleftrightarrow>
     0xc0 \<le> m \<and> m \<le> 0xc3 \<or> 0xc5 \<le> m \<and> m \<le> 0xc7 \<or> 0xc9 \<le> m \<and> m \<le> 0xcb \<or> 0xcd \<le> m \<and> m \<le> 0xcf"

definition ends_header :: "nat \<Rightarrow> bool" where
  "ends_header m \<longleftrightarrow> m = 0xd9 \<or> m = 0xda"

definition standalone :: "nat \<Rightarrow> bool" where
  "standalone m \<longleftrightarrow> m = 0xd8 \<or> m = 0x01 \<or> 0xd0 \<le> m \<and> m \<le> 0xd7"

text \<open>The inner loop over fill bytes.\<close>

function skip_fill :: "string \<Rightarrow> nat \<Rightarrow> nat" where
  "skip_fill body i =
     (if i < length body \<and> byte (body ! i) = 0xff then skip_fill body (i + 1) else i)"
  by pat_completeness auto
termination by (relation "measure (\<lambda>(b, i). length b - i)") auto

declare skip_fill.simps [simp del]

lemma skip_fill_ge: "i \<le> skip_fill body i"
  by (induction body i rule: skip_fill.induct) (subst skip_fill.simps, auto)

function jpeg_scan :: "string \<Rightarrow> nat \<Rightarrow> 'e fault + image_dimensions option" where
  "jpeg_scan body index =
     (if index + 1 < length body then
        let j = skip_fill body index in
        if length body \<le> j then Inr None
        else bindR (byte_at body j) (\<lambda>marker.
          let k = j + 1 in
          if ends_header marker then Inr None
          else if standalone marker then jpeg_scan body k
          else if length body < k + 2 then Inr None
          else bindR (slice body k (k + 2)) (\<lambda>s.
            let segment_length = unat (from_be_bytes s :: 16 word) in
            if segment_length < 2 \<or> length body < k + segment_length then Inr None
            else if is_jpeg_start_of_frame marker then
              if segment_length < 7 then Inr None
              else bindR (slice body (k + 3) (k + 5)) (\<lambda>h.
                   bindR (slice body (k + 5) (k + 7)) (\<lambda>w.
                   Inr (Some \<lparr>dim_width = ucast (from_be_bytes w :: 16 word),
                              dim_height = ucast (from_be_bytes h :: 16 word)\<rparr>)))
            else jpeg_scan body (k + segment_length)))
      else Inr None)"
  by pat_completeness auto
termination
  by (relation "measure (\<lambda>(b, i). length b - i)") (use skip_fill_ge in \<open>auto intro!: diff_less_mono2 simp: le_imp_less_Suc trans_le_add1\<close>)

declare jpeg_scan.simps [simp del]

definition parse_jpeg_dimensions :: "string \<Rightarrow> 'e fault + image_dimensions option" where
  "parse_jpeg_dimensions body =
     (if length body < 4 then Inr None
      else bindR (byte_at body 0) (\<lambda>a. if a \<noteq> 0xff then Inr None
      else bindR (byte_at body 1) (\<lambda>b. if b \<noteq> 0xd8 then Inr None
      else jpeg_scan body 2)))"

section \<open>WebP\<close>

text \<open>A 24-bit little-endian field plus one, as the code adds it up in \<open>u32\<close>.\<close>

definition vp8x_side :: "nat \<Rightarrow> nat \<Rightarrow> nat \<Rightarrow> 32 word" where
  "vp8x_side a b c = 1 + of_nat a + push_bit 8 (of_nat b) + push_bit 16 (of_nat c)"

definition parse_webp_dimensions :: "string \<Rightarrow> 'e fault + image_dimensions option" where
  "parse_webp_dimensions body =
     (if length body < 20 then Inr None else
      bindR (slice body 0 4) (\<lambda>riff. if riff \<noteq> ''RIFF'' then Inr None else
      bindR (slice body 8 12) (\<lambda>webp. if webp \<noteq> ''WEBP'' then Inr None else
      bindR (slice body 16 20) (\<lambda>s.
        let chunk_size = unat (from_le_bytes s :: 32 word); data_end = 20 + chunk_size in
        if length body < data_end then Inr None else
        bindR (slice body 12 16) (\<lambda>tag.
          if tag = ''VP8X'' \<and> 10 \<le> chunk_size then
            bindR (byte_at body 24) (\<lambda>w0. bindR (byte_at body 25) (\<lambda>w1. bindR (byte_at body 26) (\<lambda>w2.
            bindR (byte_at body 27) (\<lambda>h0. bindR (byte_at body 28) (\<lambda>h1. bindR (byte_at body 29) (\<lambda>h2.
            Inr (Some \<lparr>dim_width = vp8x_side w0 w1 w2, dim_height = vp8x_side h0 h1 h2\<rparr>)))))))
          else if tag = ''VP8 '' \<and> 10 \<le> chunk_size then
            bindR (slice body 23 26) (\<lambda>sync.
            if map byte sync = [0x9d, 0x01, 0x2a] then
              bindR (slice body 26 28) (\<lambda>w.
              bindR (slice body 28 30) (\<lambda>h.
              Inr (Some \<lparr>dim_width = ucast (from_le_bytes w :: 16 word) AND 0x3fff,
                         dim_height = ucast (from_le_bytes h :: 16 word) AND 0x3fff\<rparr>)))
            else Inr None)
          else if tag = ''VP8L'' \<and> 5 \<le> chunk_size then
            bindR (byte_at body 20) (\<lambda>m.
            if m = 0x2f then
              bindR (slice body 21 25) (\<lambda>b. let bits = from_le_bytes b :: 32 word in
              Inr (Some \<lparr>dim_width = (bits AND 0x3fff) + 1,
                         dim_height = (drop_bit 14 bits AND 0x3fff) + 1\<rparr>))
            else Inr None)
          else Inr None)))))"

definition webp_is_animated :: "string \<Rightarrow> 'e fault + bool" where
  "webp_is_animated body =
     bindR (if 21 \<le> length body
            then bindR (slice body 12 16) (\<lambda>tag.
                 if tag = ''VP8X'' then bindR (byte_at body 20) (\<lambda>f. Inr ((of_nat f :: 8 word) AND 0x02 \<noteq> 0))
                 else Inr False)
            else Inr False) (\<lambda>flag.
     Inr (flag \<or> contains body ''ANIM'' \<or> contains body ''ANMF''))"

section \<open>\<open>validate_image_header\<close>\<close>

text \<open>
  The decoder \<open>image::load_from_memory_with_format\<close>: the dimensions of the decoded image, or
  \<open>None\<close> when it does not decode.
\<close>

type_synonym decoder = "string \<Rightarrow> image_format \<Rightarrow> image_dimensions option"

definition header_dimensions :: "string \<Rightarrow> string \<Rightarrow> image_error fault + image_dimensions option" where
  "header_dimensions mime body =
     (if mime = ''image/png'' then
        if contains body ''acTL'' then Inl (Err UnsupportedMime) else parse_png_dimensions body
      else if mime = ''image/jpeg'' then parse_jpeg_dimensions body
      else if mime = ''image/webp'' then
        bindR (webp_is_animated body) (\<lambda>animated.
          if animated then Inl (Err UnsupportedMime) else parse_webp_dimensions body)
      else Inl (Err UnsupportedMime))"

definition dimensions_allowed :: "image_dimensions \<Rightarrow> bool" where
  "dimensions_allowed d \<longleftrightarrow>
     dim_width d \<noteq> 0 \<and> dim_height d \<noteq> 0 \<and>
     dim_width d \<le> max_image_dimension \<and> dim_height d \<le> max_image_dimension \<and>
     unat (ucast (dim_width d) * ucast (dim_height d) :: 64 word) \<le> max_image_pixels"

definition mime_format :: "string \<Rightarrow> image_format option" where
  "mime_format mime =
     (if mime = ''image/jpeg'' then Some Jpeg else if mime = ''image/png'' then Some Png
      else if mime = ''image/webp'' then Some Webp else None)"

definition validate_image_header ::
    "decoder \<Rightarrow> string \<Rightarrow> string \<Rightarrow> image_error fault + image_dimensions" where
  "validate_image_header decode mime body =
     bindR (header_dimensions mime body) (\<lambda>found.
     bindR (ok_or (Err InvalidImage) found) (\<lambda>d.
     bindR (guardR (dimensions_allowed d) (Err ImageTooLarge)) (\<lambda>_.
     bindR (ok_or (Err UnsupportedMime) (mime_format mime)) (\<lambda>format.
     bindR (ok_or (Err InvalidImage) (decode body format)) (\<lambda>decoded.
     if decoded \<noteq> d then Inl (Err InvalidImage) else Inr d)))))"

section \<open>The JPEG reader over the rest of the file\<close>

text \<open>
  A reference reader without indices: it looks at the bytes that are left. The indexed loop is
  equal to it, so it stays inside the body.
\<close>

function jpeg_header :: "string \<Rightarrow> image_dimensions option" where
  "jpeg_header xs =
     (if length xs < 2 then None
      else case dropWhile (\<lambda>c. byte c = 0xff) xs of
        [] \<Rightarrow> None
      | m # ys \<Rightarrow>
          if ends_header (byte m) then None
          else if standalone (byte m) then jpeg_header ys
          else if length ys < 2 then None
          else let n = unat (from_be_bytes (take 2 ys) :: 16 word) in
            if n < 2 \<or> length ys < n then None
            else if is_jpeg_start_of_frame (byte m) then
              if n < 7 then None
              else Some \<lparr>dim_width = ucast (from_be_bytes (take 2 (drop 5 ys)) :: 16 word),
                         dim_height = ucast (from_be_bytes (take 2 (drop 3 ys)) :: 16 word)\<rparr>
            else jpeg_header (drop n ys))"
  by pat_completeness auto
termination
proof (relation "measure length")
  fix xs m and ys :: string
  assume "dropWhile (\<lambda>c. byte c = 255) xs = m # ys"
  then have "length ys < length xs" using length_dropWhile_le [of "\<lambda>c. byte c = 255" xs] by simp
  then show "(ys, xs) \<in> measure length" "(drop n ys, xs) \<in> measure length" for n by auto
qed simp

declare jpeg_header.simps [simp del]

lemma skip_fill_drop:
  "i \<le> length body \<Longrightarrow>
   skip_fill body i \<le> length body \<and> drop (skip_fill body i) body = dropWhile (\<lambda>c. byte c = 0xff) (drop i body)"
proof (induction body i rule: skip_fill.induct)
  case (1 body i)
  show ?case
  proof (cases "i < length body")
    case True
    then have "drop i body = body ! i # drop (Suc i) body" by (simp add: Cons_nth_drop_Suc)
    with 1 True show ?thesis by (subst (1 2) skip_fill.simps) simp
  qed (use 1 in \<open>subst (1 2) skip_fill.simps, simp\<close>)
qed

lemma slice_drop:
  assumes "drop k body = ys" "k \<le> length body" "a \<le> b" "b \<le> length ys"
  shows "slice body (k + a) (k + b) = Inr (take (b - a) (drop a ys))"
proof -
  have "k + b \<le> length body" using assms by auto
  moreover have "drop (k + a) body = drop a ys" using assms(1) by (simp add: add.commute flip: drop_drop)
  ultimately show ?thesis using assms(3) by (simp add: slice_def)
qed

theorem jpeg_scan_reference:
  "i \<le> length body \<Longrightarrow> (jpeg_scan body i :: 'e fault + _) = Inr (jpeg_header (drop i body))"
proof (induction "length body - i" arbitrary: i rule: less_induct)
  case less
  let ?j = "skip_fill body i"
  note fill = skip_fill_drop [OF less.prems] skip_fill_ge [of i body]
  show ?case
  proof (cases "i + 1 < length body \<and> ?j < length body")
    case False
    with fill show ?thesis
      by (subst jpeg_scan.simps, subst jpeg_header.simps) (auto simp: Let_def not_less)
  next
    case True
    define ys where "ys = drop (?j + 1) body"
    have d: "drop ?j body = body ! ?j # ys" using True by (simp add: ys_def Cons_nth_drop_Suc)
    have ys: "length ys = length body - (?j + 1)" by (simp add: ys_def)
    have less: "length body - (?j + 1 + n) < length body - i" "?j + 1 + n \<le> length body" if "n \<le> length ys" for n
      using that True fill ys by linarith+
    have IH: "(jpeg_scan body (?j + 1 + n) :: 'e fault + _) = Inr (jpeg_header (drop n ys))" if "n \<le> length ys" for n
      using less.hyps [OF less [OF that]] by (simp add: ys_def add.commute)
    have two: "length body < ?j + 1 + 2 \<longleftrightarrow> length ys < 2" "length body < ?j + 1 + n \<longleftrightarrow> length ys < n" for n
      using ys True by linarith+
    let ?k = "?j + 1" and ?m = "byte (body ! ?j)" and ?n = "unat (from_be_bytes (take 2 ys) :: 16 word)"
    have scan: "(jpeg_scan body i :: 'e fault + _) =
        (if ends_header ?m then Inr None
         else if standalone ?m then jpeg_scan body (?k + 0)
         else if length ys < 2 then Inr None
         else if ?n < 2 \<or> length ys < ?n then Inr None
         else if is_jpeg_start_of_frame ?m then
           if ?n < 7 then Inr None
           else Inr (Some \<lparr>dim_width = ucast (from_be_bytes (take 2 (drop 5 ys)) :: 16 word),
                           dim_height = ucast (from_be_bytes (take 2 (drop 3 ys)) :: 16 word)\<rparr>)
         else jpeg_scan body (?k + ?n))"
    proof -
      have k: "drop ?k body = ys" "?k \<le> length body" using True by (simp_all add: ys_def)
      note cut = slice_drop [OF k]
      have "\<not> length ys < 2 \<Longrightarrow> slice body ?k (?k + 2) = (Inr (take 2 ys) :: 'e fault + _)"
        using cut [of 0 2] by (simp del: add_2_eq_Suc' One_nat_def)
      moreover have "7 \<le> length ys \<Longrightarrow> slice body (?k + 3) (?k + 5) = (Inr (take 2 (drop 3 ys)) :: 'e fault + _)"
          "7 \<le> length ys \<Longrightarrow> slice body (?k + 5) (?k + 7) = (Inr (take 2 (drop 5 ys)) :: 'e fault + _)"
        using cut [of 3 5] cut [of 5 7] by simp_all
      ultimately show ?thesis
        using True two by (subst jpeg_scan.simps) (simp add: Let_def del: add_2_eq_Suc' One_nat_def)
    qed
    have reference: "jpeg_header (drop i body) =
        (if ends_header ?m then None
         else if standalone ?m then jpeg_header ys
         else if length ys < 2 then None
         else if ?n < 2 \<or> length ys < ?n then None
         else if is_jpeg_start_of_frame ?m then
           if ?n < 7 then None
           else Some \<lparr>dim_width = ucast (from_be_bytes (take 2 (drop 5 ys)) :: 16 word),
                       dim_height = ucast (from_be_bytes (take 2 (drop 3 ys)) :: 16 word)\<rparr>
         else jpeg_header (drop ?n ys))"
    proof -
      have dw: "dropWhile (\<lambda>c. byte c = 0xff) (drop i body) = body ! ?j # ys" using fill d by metis
      have "\<not> length (drop i body) < 2" using True by auto
      then show ?thesis by (subst jpeg_header.simps) (simp only: dw list.case Let_def if_False)
    qed
    show ?thesis
      unfolding scan reference using IH [of 0] IH [of ?n] by auto
  qed
qed

section \<open>The JPEG files the reader accepts\<close>

text \<open>
  The header of a JPEG file as the format has it: after the start of image come parts, each a
  marker (after any number of fill bytes) and, for most markers, a segment with its length in
  front. The reader skips parts until a start of frame, whose segment holds the dimensions.
\<close>

datatype jpeg_part = Marker nat char | Segment nat char string

definition be16 :: "nat \<Rightarrow> string" where
  "be16 n = [char_of (n div 256), char_of n]"

fun part_bytes :: "jpeg_part \<Rightarrow> string" where
  "part_bytes (Marker n m) = replicate n (char_of (0xff :: nat)) @ [m]"
| "part_bytes (Segment n m s) = replicate n (char_of (0xff :: nat)) @ m # be16 (length s + 2) @ s"

fun part_skipped :: "jpeg_part \<Rightarrow> bool" where
  "part_skipped (Marker n m) \<longleftrightarrow> standalone (byte m)"
| "part_skipped (Segment n m s) \<longleftrightarrow>
     byte m \<noteq> 0xff \<and> \<not> standalone (byte m) \<and> \<not> ends_header (byte m) \<and>
     \<not> is_jpeg_start_of_frame (byte m) \<and> length s + 2 < 65536"

fun frame_dimensions :: "jpeg_part \<Rightarrow> image_dimensions option" where
  "frame_dimensions (Segment n m s) =
     (if is_jpeg_start_of_frame (byte m) \<and> 5 \<le> length s \<and> length s + 2 < 65536
      then Some \<lparr>dim_width = ucast (from_be_bytes (take 2 (drop 3 s)) :: 16 word),
                 dim_height = ucast (from_be_bytes (take 2 (drop 1 s)) :: 16 word)\<rparr>
      else None)"
| "frame_dimensions (Marker n m) = None"

lemmas marker_classes = standalone_def ends_header_def is_jpeg_start_of_frame_def

lemma be16_length [simp]: "length (be16 n) = 2"
  by (simp add: be16_def)

lemma from_be_bytes_pair: "unat (from_be_bytes [a, b] :: 16 word) = byte a * 256 + byte b"
proof -
  have "byte a * 256 + byte b < 65536" using byte_less_256 [of a] byte_less_256 [of b] by linarith
  moreover have "(from_be_bytes [a, b] :: 16 word) = of_nat (byte a * 256 + byte b)"
    by (simp add: from_be_bytes_def)
  ultimately show ?thesis by (simp only: unat_of_nat) (simp add: take_bit_nat_eq_self)
qed

lemma from_be_bytes_be16: "n < 65536 \<Longrightarrow> unat (from_be_bytes (be16 n) :: 16 word) = n"
  unfolding be16_def from_be_bytes_pair by (simp add: div_less_iff_less_mult)

lemma be16_from_be_bytes: "be16 (unat (from_be_bytes [a, b] :: 16 word)) = [a, b]"
  unfolding from_be_bytes_pair be16_def by (simp add: char_of_eq_iff take_bit_eq_mod)

lemma drop_fill:
  "byte m \<noteq> 0xff \<Longrightarrow> dropWhile (\<lambda>c. byte c = 0xff) (replicate n (char_of (0xff :: nat)) @ m # xs) = m # xs"
  by (induction n) auto

lemma fill_split:
  assumes "dropWhile (\<lambda>c. byte c = 0xff) xs = m # ys"
  obtains n where "xs = replicate n (char_of (0xff :: nat)) @ m # ys" "byte m \<noteq> 0xff"
proof -
  let ?t = "takeWhile (\<lambda>c. byte c = 0xff) xs"
  have "xs = ?t @ m # ys" using assms by (metis takeWhile_dropWhile_id)
  moreover have "?t = replicate (length ?t) (char_of (0xff :: nat))"
    by (rule replicate_eqI) (auto dest!: set_takeWhileD, metis char_of_char)
  moreover have "byte m \<noteq> 0xff" using assms hd_dropWhile [of "\<lambda>c. byte c = 0xff" xs] by simp
  ultimately show thesis using that by metis
qed

lemma jpeg_header_step:
  assumes "dropWhile (\<lambda>c. byte c = 0xff) xs = m # ys" "\<not> length xs < 2"
  shows "jpeg_header xs =
    (if ends_header (byte m) then None
     else if standalone (byte m) then jpeg_header ys
     else if length ys < 2 then None
     else let n = unat (from_be_bytes (take 2 ys) :: 16 word) in
       if n < 2 \<or> length ys < n then None
       else if is_jpeg_start_of_frame (byte m) then
         if n < 7 then None
         else Some \<lparr>dim_width = ucast (from_be_bytes (take 2 (drop 5 ys)) :: 16 word),
                    dim_height = ucast (from_be_bytes (take 2 (drop 3 ys)) :: 16 word)\<rparr>
       else jpeg_header (drop n ys))"
  using assms by (subst jpeg_header.simps) (simp only: if_False list.case)

text \<open>The same for a part with a segment in front.\<close>

lemma jpeg_header_segment:
  assumes "byte m \<noteq> 0xff" "\<not> ends_header (byte m)" "\<not> standalone (byte m)" "length s + 2 < 65536"
  shows "jpeg_header (part_bytes (Segment n m s) @ xs) =
    (if is_jpeg_start_of_frame (byte m) then
       if length s < 5 then None
       else Some \<lparr>dim_width = ucast (from_be_bytes (take 2 (drop 3 s)) :: 16 word),
                  dim_height = ucast (from_be_bytes (take 2 (drop 1 s)) :: 16 word)\<rparr>
     else jpeg_header xs)"
proof -
  let ?ys = "be16 (length s + 2) @ s @ xs"
  have "take 2 ?ys = be16 (length s + 2)" by simp
  then have n: "unat (from_be_bytes (take 2 ?ys) :: 16 word) = length s + 2"
    using from_be_bytes_be16 [OF assms(4)] by metis
  have fields: "5 \<le> length s \<Longrightarrow> take 2 (drop 5 ?ys) = take 2 (drop 3 s)"
      "5 \<le> length s \<Longrightarrow> take 2 (drop 3 ?ys) = take 2 (drop 1 s)"
    by simp_all
  have rest: "drop (length s + 2) ?ys = xs" by simp
  have len: "\<not> length (part_bytes (Segment n m s) @ xs) < 2" "\<not> length ?ys < 2" "\<not> length ?ys < length s + 2"
    by simp_all
  have dw: "dropWhile (\<lambda>c. byte c = 0xff) (part_bytes (Segment n m s) @ xs) = m # ?ys"
    using drop_fill [OF assms(1), of n ?ys] by simp
  show ?thesis
    unfolding jpeg_header_step [OF dw len(1)] Let_def n rest using assms(2,3) len fields by auto
qed

lemma jpeg_header_part:
  assumes "part_skipped p" "xs \<noteq> []"
  shows "jpeg_header (part_bytes p @ xs) = jpeg_header xs"
proof (cases p)
  case (Marker n m)
  then have m: "byte m \<noteq> 0xff" "\<not> ends_header (byte m)" "standalone (byte m)"
    using assms(1) by (auto simp: marker_classes)
  have "\<not> length (part_bytes p @ xs) < 2" using assms(2) Marker by (cases xs) auto
  then show ?thesis
    using m drop_fill [OF m(1), of n xs] jpeg_header_step [of "part_bytes p @ xs" m xs] by (simp add: Marker)
next
  case (Segment n m s)
  then show ?thesis using assms(1) jpeg_header_segment [of m s n xs] by simp
qed

lemma jpeg_header_parts:
  "list_all part_skipped ps \<Longrightarrow> xs \<noteq> [] \<Longrightarrow> jpeg_header (concat (map part_bytes ps) @ xs) = jpeg_header xs"
proof (induction ps)
  case (Cons p ps)
  then have "jpeg_header (part_bytes p @ concat (map part_bytes ps) @ xs) =
      jpeg_header (concat (map part_bytes ps) @ xs)"
    by (intro jpeg_header_part) auto
  with Cons show ?case by simp
qed simp

lemma jpeg_header_frame:
  assumes "frame_dimensions f = Some d"
  shows "jpeg_header (part_bytes f @ rest) = Some d"
proof -
  obtain n m s where f: "f = Segment n m s" using assms by (cases f) auto
  have s: "is_jpeg_start_of_frame (byte m)" "length s + 2 < 65536"
    using assms f by (auto split: if_splits)
  then have "byte m \<noteq> 0xff" "\<not> ends_header (byte m)" "\<not> standalone (byte m)"
    by (auto simp: marker_classes)
  then show ?thesis
    using assms s jpeg_header_segment [of m s n rest] f by (auto split: if_splits)
qed

lemma jpeg_header_sound:
  "jpeg_header xs = Some d \<Longrightarrow>
   \<exists>ps f rest. xs = concat (map part_bytes ps) @ part_bytes f @ rest \<and> list_all part_skipped ps \<and>
     frame_dimensions f = Some d"
proof (induction xs rule: jpeg_header.induct)
  case (1 xs)
  have "\<not> length xs < 2"
    using "1.prems" by (subst (asm) jpeg_header.simps) (simp split: if_splits)
  moreover have "dropWhile (\<lambda>c. byte c = 0xff) xs \<noteq> []"
    using "1.prems" by (subst (asm) jpeg_header.simps) (auto simp del: dropWhile_eq_Nil_conv split: if_splits)
  ultimately obtain m ys where ys: "dropWhile (\<lambda>c. byte c = 0xff) xs = m # ys" "\<not> length xs < 2"
    by (cases "dropWhile (\<lambda>c. byte c = 0xff) xs") auto
  then obtain n where xs: "xs = replicate n (char_of (0xff :: nat)) @ m # ys" "byte m \<noteq> 0xff"
    using fill_split by metis
  let ?n = "unat (from_be_bytes (take 2 ys) :: 16 word)"
  note run = "1.prems" [unfolded jpeg_header_step [OF ys]]
  have marker: "\<not> ends_header (byte m)" using run by auto
  show ?case
  proof (cases "standalone (byte m)")
    case True
    then have "jpeg_header ys = Some d"
      using run marker by auto
    then obtain ps f rest where "ys = concat (map part_bytes ps) @ part_bytes f @ rest"
        "list_all part_skipped ps" "frame_dimensions f = Some d"
      using "1.IH"(1) ys marker True by blast
    then show ?thesis
      using xs True by (intro exI [of _ "Marker n m # ps"] exI [of _ f] exI [of _ rest]) simp
  next
    case False
    let ?s = "take (?n - 2) (drop 2 ys)" and ?rest = "drop ?n ys"
    have n: "\<not> length ys < 2" "2 \<le> ?n" "?n \<le> length ys"
      using run marker False by (auto simp: Let_def split: if_splits)
    then obtain a b zs where abz: "ys = a # b # zs" by (cases ys; cases "tl ys") auto
    have s: "length ?s + 2 = ?n" using n by simp
    have "unat w < 65536" for w :: "16 word" using unsigned_less [of w] by simp
    then have "?n < 65536" .
    have "drop 2 ys = ?s @ ?rest"
      using n by (metis append_take_drop_id drop_drop le_add_diff_inverse2)
    moreover have "take 2 ys = be16 ?n" using be16_from_be_bytes [of a b] abz by simp
    ultimately have "ys = be16 ?n @ ?s @ ?rest" by (metis append_take_drop_id)
    then have whole: "xs = part_bytes (Segment n m ?s) @ ?rest" using xs(1) unfolding part_bytes.simps s by simp
    show ?thesis
    proof (cases "is_jpeg_start_of_frame (byte m)")
      case True
      then have "7 \<le> ?n" "d = \<lparr>dim_width = ucast (from_be_bytes (take 2 (drop 5 ys)) :: 16 word),
          dim_height = ucast (from_be_bytes (take 2 (drop 3 ys)) :: 16 word)\<rparr>"
        using run marker False n by (auto simp: Let_def split: if_splits)
      then have "frame_dimensions (Segment n m ?s) = Some d"
      proof -
        have "take 2 (drop 3 ?s) = take 2 (drop 5 ys)"
          using \<open>7 \<le> ?n\<close> by (simp add: drop_take min_def)
        moreover have "take 2 (drop 1 ?s) = take 2 (drop 3 ys)"
          using \<open>7 \<le> ?n\<close> by (simp add: drop_take min_def numeral_3_eq_3)
        ultimately show ?thesis
          using True \<open>?n < 65536\<close> \<open>7 \<le> ?n\<close> s \<open>d = _\<close> by (simp only: frame_dimensions.simps) auto
      qed
      then show ?thesis using whole by (intro exI [of _ "[]"] exI [of _ "Segment n m ?s"] exI [of _ ?rest]) simp
    next
      case nf: False
      then have "jpeg_header ?rest = Some d"
        using run marker False n by (auto simp: Let_def split: if_splits)
      then obtain ps f rest where parts: "?rest = concat (map part_bytes ps) @ part_bytes f @ rest"
          "list_all part_skipped ps" "frame_dimensions f = Some d"
        using "1.IH"(2) ys marker False n nf by (metis leD)
      moreover have "part_skipped (Segment n m ?s)"
        using xs(2) marker False nf s \<open>?n < 65536\<close> by simp
      ultimately show ?thesis
        using whole by (intro exI [of _ "Segment n m ?s # ps"] exI [of _ f] exI [of _ rest]) simp
    qed
  qed
qed

section \<open>No reader panics\<close>

lemma ok_or_eq_Inl [result_simps]: "ok_or e x = Inl e' \<longleftrightarrow> x = None \<and> e = e'"
  by (cases x) auto

lemma parse_png_total [simp]: "parse_png_dimensions body \<noteq> Inl e"
  by (auto simp: parse_png_dimensions_def)

lemma parse_jpeg_reference:
  "parse_jpeg_dimensions body =
     Inr (if 4 \<le> length body \<and> byte (body ! 0) = 0xff \<and> byte (body ! 1) = 0xd8
          then jpeg_header (drop 2 body) else None)"
proof -
  have "4 \<le> length body \<Longrightarrow> 0 < length body \<and> 1 < length body \<and> 2 \<le> length body" by linarith
  then show ?thesis
    by (cases "4 \<le> length body") (simp_all add: parse_jpeg_dimensions_def jpeg_scan_reference)
qed

lemma parse_webp_total [simp]: "parse_webp_dimensions body \<noteq> Inl e"
  by (auto simp: parse_webp_dimensions_def Let_def)

lemma webp_is_animated_total [simp]: "webp_is_animated body \<noteq> Inl e"
  by (auto simp: webp_is_animated_def)

text \<open>The sums of the extended WebP header stay below \<open>2 ^ 32\<close>, so they do not overflow.\<close>

lemma vp8x_side_exact:
  assumes "a < 256" "b < 256" "c < 256"
  shows "unat (vp8x_side a b c) = 1 + a + 256 * b + 65536 * c"
proof -
  have "vp8x_side a b c = of_nat (1 + a + 256 * b + 65536 * c)"
    by (simp add: vp8x_side_def push_bit_eq_mult)
  moreover have "1 + a + 256 * b + 65536 * c < 2 ^ 32" using assms by simp
  ultimately show ?thesis by (simp only: unat_of_nat) (simp add: take_bit_nat_eq_self)
qed

lemma validate_image_header_no_panic: "validate_image_header decode mime body \<noteq> Inl Panic"
proof -
  have "header_dimensions mime body \<noteq> Inl Panic"
    by (auto simp: header_dimensions_def parse_jpeg_reference bindR_eq_Inl)
  then show ?thesis by (auto simp: validate_image_header_def result_simps)
qed

lemma ucast_pixels: "unat (ucast (a :: 32 word) * ucast (b :: 32 word) :: 64 word) = unat a * unat b"
proof -
  have "unat a < 2 ^ 32" "unat b < 2 ^ 32" using unsigned_less [of a] unsigned_less [of b] by simp_all
  then have "unat a * unat b < 2 ^ 32 * 2 ^ 32" by (intro mult_strict_mono) auto
  moreover have "unat (ucast w :: 64 word) = unat w" for w :: "32 word"
  proof -
    have "unat w < 2 ^ 32" using unsigned_less [of w] by simp
    then show ?thesis by (simp add: unsigned_ucast_eq take_bit_nat_eq_self)
  qed
  ultimately show ?thesis
    using unat_mult_lem [of "ucast a :: 64 word" "ucast b"] by simp
qed

lemma validate_image_header_ok:
  assumes "validate_image_header decode mime body = Inr d"
  shows "1 \<le> unat (dim_width d) \<and> unat (dim_width d) \<le> 16384 \<and> 1 \<le> unat (dim_height d) \<and>
    unat (dim_height d) \<le> 16384 \<and> unat (dim_width d) * unat (dim_height d) \<le> 67108864 \<and>
    (\<exists>f. mime_format mime = Some f \<and> decode body f = Some d)"
proof -
  have "dimensions_allowed d" "\<exists>f. mime_format mime = Some f \<and> decode body f = Some d"
    using assms by (auto simp: validate_image_header_def result_simps split: if_splits)
  then show ?thesis
    by (auto simp: dimensions_allowed_def max_image_dimension_def max_image_pixels_def ucast_pixels
        word_le_nat_alt unat_gt_0 Suc_le_eq)
qed

section \<open>Properties\<close>

text \<open>The JPEG reader finds exactly the dimensions of the first start of frame: it answers with
  dimensions \<open>d\<close> if and only if the body is a start of image, any number of skippable parts (fill
  bytes, markers without a segment, segments that are not a frame), and then a frame that holds \<open>d\<close>;
  for every other body it answers \<open>None\<close>.\<close>

theorem jpeg_dimensions_spec:
  "parse_jpeg_dimensions body = Inr (Some d) \<longleftrightarrow>
     (\<exists>ps f rest. body = map char_of [0xff :: nat, 0xd8] @ concat (map part_bytes ps) @ part_bytes f @ rest \<and>
        list_all part_skipped ps \<and> frame_dimensions f = Some d)"
  (is "?l \<longleftrightarrow> ?r")
proof
  assume ?l
  then have b: "4 \<le> length body" "byte (body ! 0) = 0xff" "byte (body ! 1) = 0xd8" "jpeg_header (drop 2 body) = Some d"
    by (auto simp: parse_jpeg_reference split: if_splits)
  obtain a c r where body: "body = a # c # r" using b(1) by (cases body; cases "tl body") auto
  then have "body = map char_of [0xff :: nat, 0xd8] @ drop 2 body"
    using b(2,3) by simp (metis char_of_char)
  with jpeg_header_sound [OF b(4)] show ?r by metis
next
  assume ?r
  then obtain ps f rest where r: "body = map char_of [0xff :: nat, 0xd8] @ concat (map part_bytes ps) @ part_bytes f @ rest"
      "list_all part_skipped ps" "frame_dimensions f = Some d" by blast
  obtain n m s where f: "f = Segment n m s" using r(3) by (cases f) auto
  have "jpeg_header (concat (map part_bytes ps) @ part_bytes f @ rest) = Some d"
    using jpeg_header_parts [OF r(2)] jpeg_header_frame [OF r(3)] f by simp
  then show ?l unfolding parse_jpeg_reference using r(1) f by simp
qed

text \<open>No bytes from the network can make the header validation panic: every index and slice the
  PNG, JPEG and WebP readers take is inside the body.\<close>

theorem image_headers_never_panic: "validate_image_header decode mime body \<noteq> Inl Panic"
  by (rule validate_image_header_no_panic)

end
