(* ===== verification/Image_Job.thy ===== *)
theory Image_Job
  imports Ingest_Payload Media_Layout
begin

text \<open>
  The durable job of the image worker: \<open>ImageJobPayload\<close> of \<open>src/apps/tmdb-images/src/image.rs\<close>, its
  validation and its JSON form, and \<open>semantic_path\<close>, the place of the image below the media root.
  \<open>Url::parse\<close> is the parameter \<open>urls\<close>.
\<close>

section \<open>Entities and kinds\<close>

datatype image_entity_type =
    EntityMovie | EntityTv | EntitySeason | EntityEpisode | EntityPerson | EntityCollection
  | EntityCompany | EntityNetwork

datatype image_kind = KindPoster | KindBackdrop | KindStill | KindProfile | KindLogo | KindOther

text \<open>The serde names (\<open>snake_case\<close>), which are also the names the runtime logs.\<close>

definition image_entity_type_name :: "image_entity_type \<Rightarrow> string" where
  "image_entity_type_name e =
     (case e of EntityMovie \<Rightarrow> ''movie'' | EntityTv \<Rightarrow> ''tv'' | EntitySeason \<Rightarrow> ''season''
      | EntityEpisode \<Rightarrow> ''episode'' | EntityPerson \<Rightarrow> ''person'' | EntityCollection \<Rightarrow> ''collection''
      | EntityCompany \<Rightarrow> ''company'' | EntityNetwork \<Rightarrow> ''network'')"

definition image_kind_name :: "image_kind \<Rightarrow> string" where
  "image_kind_name k =
     (case k of KindPoster \<Rightarrow> ''poster'' | KindBackdrop \<Rightarrow> ''backdrop'' | KindStill \<Rightarrow> ''still''
      | KindProfile \<Rightarrow> ''profile'' | KindLogo \<Rightarrow> ''logo'' | KindOther \<Rightarrow> ''other'')"

definition entity_types :: "image_entity_type list" where
  "entity_types = [EntityMovie, EntityTv, EntitySeason, EntityEpisode, EntityPerson, EntityCollection,
     EntityCompany, EntityNetwork]"

definition image_kinds :: "image_kind list" where
  "image_kinds = [KindPoster, KindBackdrop, KindStill, KindProfile, KindLogo, KindOther]"

definition entity_type_of :: "string \<Rightarrow> image_entity_type option" where
  "entity_type_of s = find (\<lambda>e. image_entity_type_name e = s) entity_types"

definition image_kind_of :: "string \<Rightarrow> image_kind option" where
  "image_kind_of s = find (\<lambda>k. image_kind_name k = s) image_kinds"

lemma image_enum_round_trips [simp]:
  "entity_type_of (image_entity_type_name e) = Some e" "image_kind_of (image_kind_name k) = Some k"
  subgoal by (cases e) (simp_all add: entity_type_of_def entity_types_def image_entity_type_name_def)
  subgoal by (cases k) (simp_all add: image_kind_of_def image_kinds_def image_kind_name_def)
  done

section \<open>The payload\<close>

record image_payload =
  ip_schema_version :: int
  ip_entity_type :: image_entity_type
  ip_entity_id :: int
  ip_kind :: image_kind
  ip_tmdb_path :: string
  ip_source_url :: string
  ip_language :: "string option"
  ip_source_revision :: "string option"
  ip_season_number :: "nat option"
  ip_episode_number :: "nat option"
  ip_title_tmdb_id :: "int option"
  ip_asset_index :: nat

datatype image_payload_error =
    MalformedJson | Payload_version | InvalidEntityId | InvalidTmdbPath | InvalidSourceUrl
  | InvalidLanguage | InvalidSourceRevision | InvalidSeasonNumber | InvalidEpisodeNumber
  | InvalidAssetIndex

definition image_job_type :: string where "image_job_type = ''image.download''"
definition image_job_payload_version :: int where "image_job_payload_version = 1"
definition max_path_chars :: nat where "max_path_chars = 512"
definition max_source_url_chars :: nat where "max_source_url_chars = 2048"
definition max_language_chars :: nat where "max_language_chars = 32"
definition max_revision_chars :: nat where "max_revision_chars = 128"

definition validate_tmdb_path :: "string \<Rightarrow> image_payload_error + unit" where
  "validate_tmdb_path v =
     (if v = [] \<or> char_count v > max_path_chars \<or> \<not> starts_with v ''/'' \<or> has_control v \<or>
         CHR 0x5C \<in> set v \<or> list_ex (\<lambda>part. part = ''..'' \<or> part = ''.'') (split_on (CHR ''/'') v)
      then Inl InvalidTmdbPath else Inr ())"

definition validate_image_text :: "string \<Rightarrow> nat \<Rightarrow> 'e \<Rightarrow> 'e + unit" where
  "validate_image_text v max_chars e =
     (if v = [] \<or> char_count v > max_chars \<or> has_control v \<or> v \<noteq> trim v then Inl e else Inr ())"

definition parse_source_url :: "(string \<Rightarrow> url option) \<Rightarrow> string \<Rightarrow> image_payload_error + url" where
  "parse_source_url urls v =
     (if v = [] \<or> char_count v > max_source_url_chars then Inl InvalidSourceUrl else
      bindR (ok_or InvalidSourceUrl (urls v)) (\<lambda>u.
      if url_scheme u \<notin> {''http'', ''https''} \<or> url_host u = None \<or> url_username u \<noteq> '''' \<or>
         url_password u \<noteq> None
      then Inl InvalidSourceUrl else Inr u))"

definition validate_optional :: "string option \<Rightarrow> nat \<Rightarrow> 'e \<Rightarrow> 'e + unit" where
  "validate_optional v max_chars e = (case v of None \<Rightarrow> Inr () | Some s \<Rightarrow> validate_image_text s max_chars e)"

definition validate_common :: "(string \<Rightarrow> url option) \<Rightarrow> image_payload \<Rightarrow> image_payload_error + unit" where
  "validate_common urls p =
     (if ip_schema_version p \<noteq> image_job_payload_version then Inl Payload_version
      else if ip_entity_id p \<le> 0 then Inl InvalidEntityId
      else if ip_asset_index p = 0 then Inl InvalidAssetIndex
      else bindR (validate_tmdb_path (ip_tmdb_path p)) (\<lambda>_.
           bindR (parse_source_url urls (ip_source_url p)) (\<lambda>source.
           if url_fragment source \<noteq> None then Inl InvalidSourceUrl else
           bindR (validate_optional (ip_language p) max_language_chars InvalidLanguage) (\<lambda>_.
           validate_optional (ip_source_revision p) max_revision_chars InvalidSourceRevision))))"

definition tv_position :: "image_entity_type \<Rightarrow> bool" where
  "tv_position e \<longleftrightarrow> e = EntitySeason \<or> e = EntityEpisode"

definition validate_position :: "image_payload \<Rightarrow> image_payload_error + unit" where
  "validate_position p =
     (let e = ip_entity_type p in
      if tv_position e \<and> ip_season_number p = None then Inl InvalidSeasonNumber
      else if tv_position e \<and> (case ip_title_tmdb_id p of None \<Rightarrow> True | Some i \<Rightarrow> i \<le> 0)
      then Inl InvalidSeasonNumber
      else if e = EntityEpisode \<and> (case ip_episode_number p of None \<Rightarrow> True | Some n \<Rightarrow> n = 0)
      then Inl InvalidEpisodeNumber
      else if e \<noteq> EntityEpisode \<and> ip_episode_number p \<noteq> None then Inl InvalidEpisodeNumber
      else if \<not> tv_position e \<and> ip_title_tmdb_id p \<noteq> None then Inl InvalidSeasonNumber
      else Inr ())"

definition validate :: "(string \<Rightarrow> url option) \<Rightarrow> image_payload \<Rightarrow> image_payload_error + unit" where
  "validate urls p = bindR (validate_common urls p) (\<lambda>_. validate_position p)"

definition payload_new ::
    "(string \<Rightarrow> url option) \<Rightarrow> image_entity_type \<Rightarrow> int \<Rightarrow> image_kind \<Rightarrow> string \<Rightarrow> string \<Rightarrow>
     string option \<Rightarrow> string option \<Rightarrow> image_payload_error + image_payload" where
  "payload_new urls e i k path source language revision =
     (let p = \<lparr>ip_schema_version = image_job_payload_version, ip_entity_type = e, ip_entity_id = i,
        ip_kind = k, ip_tmdb_path = path, ip_source_url = source, ip_language = language,
        ip_source_revision = revision, ip_season_number = None, ip_episode_number = None,
        ip_title_tmdb_id = None, ip_asset_index = 1\<rparr>
      in bindR (validate_common urls p) (\<lambda>_.
         bindR (if tv_position e then Inr () else validate_position p) (\<lambda>_. Inr p)))"

definition with_tv_position ::
    "(string \<Rightarrow> url option) \<Rightarrow> image_payload \<Rightarrow> int \<Rightarrow> nat \<Rightarrow> nat option \<Rightarrow>
     image_payload_error + image_payload" where
  "with_tv_position urls p title season episode =
     (let p = p\<lparr>ip_title_tmdb_id := Some title, ip_season_number := Some season,
        ip_episode_number := episode\<rparr>
      in bindR (validate urls p) (\<lambda>_. Inr p))"

definition with_asset_index ::
    "(string \<Rightarrow> url option) \<Rightarrow> image_payload \<Rightarrow> nat \<Rightarrow> image_payload_error + image_payload" where
  "with_asset_index urls p i =
     (let p = p\<lparr>ip_asset_index := i\<rparr> in bindR (validate urls p) (\<lambda>_. Inr p))"

definition source_url_of :: "(string \<Rightarrow> url option) \<Rightarrow> image_payload \<Rightarrow> image_payload_error + url" where
  "source_url_of urls p = bindR (validate urls p) (\<lambda>_. parse_source_url urls (ip_source_url p))"

section \<open>JSON\<close>

definition de_i32 :: "json \<Rightarrow> int option" where
  "de_i32 v = (case as_i64 v of None \<Rightarrow> None
     | Some n \<Rightarrow> if - 2147483648 \<le> n \<and> n \<le> 2147483647 then Some n else None)"

definition de_u16 :: "json \<Rightarrow> nat option" where
  "de_u16 v = (case as_u64 v of None \<Rightarrow> None | Some n \<Rightarrow> if n \<le> u16_max then Some n else None)"

text \<open>
  A derived struct is read from an object by the names of its fields, or from an array by their
  positions. An absent \<open>Option\<close> field of an object is \<open>None\<close>; a \<open>#[serde(default)]\<close> field has its
  default in both forms; unknown names are ignored, and surplus elements are an error.
\<close>

definition struct_field :: "json \<Rightarrow> nat \<Rightarrow> string \<Rightarrow> json option" where
  "struct_field v i k =
     (case v of JObj kvs \<Rightarrow> map_of kvs k | JArr xs \<Rightarrow> if i < length xs then Some (xs ! i) else None
      | _ \<Rightarrow> None)"

definition struct_form :: "json \<Rightarrow> nat \<Rightarrow> bool" where
  "struct_form v n = (case v of JObj _ \<Rightarrow> True | JArr xs \<Rightarrow> length xs \<le> n | _ \<Rightarrow> False)"

definition need :: "json \<Rightarrow> nat \<Rightarrow> string \<Rightarrow> (json \<Rightarrow> 'a option) \<Rightarrow> image_payload_error + 'a" where
  "need v i k d = ok_or MalformedJson (Option.bind (struct_field v i k) d)"

definition optional :: "json \<Rightarrow> nat \<Rightarrow> string \<Rightarrow> (json \<Rightarrow> 'a option) \<Rightarrow> image_payload_error + 'a option" where
  "optional v i k d =
     (case struct_field v i k of
        None \<Rightarrow> if is_object v then Inr None else Inl MalformedJson
      | Some x \<Rightarrow> ok_or MalformedJson (de_option d x))"

definition defaulted :: "json \<Rightarrow> nat \<Rightarrow> string \<Rightarrow> (json \<Rightarrow> 'a option) \<Rightarrow> 'a \<Rightarrow> image_payload_error + 'a" where
  "defaulted v i k d dflt =
     (case struct_field v i k of None \<Rightarrow> Inr dflt | Some x \<Rightarrow> ok_or MalformedJson (d x))"

definition de_image_payload :: "json \<Rightarrow> image_payload_error + image_payload" where
  "de_image_payload v =
     (if \<not> struct_form v 12 then Inl MalformedJson else
      bindR (need v 0 ''schemaVersion'' de_i32) (\<lambda>version.
      bindR (need v 1 ''entityType'' (de_variant entity_type_of)) (\<lambda>e.
      bindR (need v 2 ''entityId'' as_i64) (\<lambda>i.
      bindR (need v 3 ''kind'' (de_variant image_kind_of)) (\<lambda>k.
      bindR (need v 4 ''tmdbPath'' as_str) (\<lambda>path.
      bindR (need v 5 ''sourceUrl'' as_str) (\<lambda>source.
      bindR (optional v 6 ''language'' as_str) (\<lambda>language.
      bindR (optional v 7 ''sourceRevision'' as_str) (\<lambda>revision.
      bindR (defaulted v 8 ''seasonNumber'' (de_option de_u32) None) (\<lambda>season.
      bindR (defaulted v 9 ''episodeNumber'' (de_option de_u16) None) (\<lambda>episode.
      bindR (defaulted v 10 ''titleTmdbId'' (de_option as_i64) None) (\<lambda>title.
      bindR (defaulted v 11 ''assetIndex'' de_u32 1) (\<lambda>index.
      Inr \<lparr>ip_schema_version = version, ip_entity_type = e, ip_entity_id = i, ip_kind = k,
        ip_tmdb_path = path, ip_source_url = source, ip_language = language,
        ip_source_revision = revision, ip_season_number = season, ip_episode_number = episode,
        ip_title_tmdb_id = title, ip_asset_index = index\<rparr>)))))))))))))"

definition from_json :: "(string \<Rightarrow> url option) \<Rightarrow> json \<Rightarrow> image_payload_error + image_payload" where
  "from_json urls v = bindR (de_image_payload v) (\<lambda>p. bindR (validate urls p) (\<lambda>_. Inr p))"

definition json_option :: "('a \<Rightarrow> json) \<Rightarrow> 'a option \<Rightarrow> json" where
  "json_option f v = (case v of None \<Rightarrow> JNull | Some x \<Rightarrow> f x)"

definition json_nat :: "nat \<Rightarrow> json" where
  "json_nat n = JInt (int n)"

definition ser_image_payload :: "image_payload \<Rightarrow> json" where
  "ser_image_payload p = JObj
     [(''assetIndex'', json_nat (ip_asset_index p)),
      (''entityId'', JInt (ip_entity_id p)),
      (''entityType'', JStr (image_entity_type_name (ip_entity_type p))),
      (''episodeNumber'', json_option json_nat (ip_episode_number p)),
      (''kind'', JStr (image_kind_name (ip_kind p))),
      (''language'', json_option JStr (ip_language p)),
      (''schemaVersion'', JInt (ip_schema_version p)),
      (''seasonNumber'', json_option json_nat (ip_season_number p)),
      (''sourceRevision'', json_option JStr (ip_source_revision p)),
      (''sourceUrl'', JStr (ip_source_url p)),
      (''titleTmdbId'', json_option JInt (ip_title_tmdb_id p)),
      (''tmdbPath'', JStr (ip_tmdb_path p))]"

definition to_json :: "(string \<Rightarrow> url option) \<Rightarrow> image_payload \<Rightarrow> image_payload_error + json" where
  "to_json urls p = bindR (validate urls p) (\<lambda>_. Inr (ser_image_payload p))"

section \<open>The place of an image\<close>

definition image_mime_format :: "string \<Rightarrow> image_format option" where
  "image_mime_format mime =
     (if mime = ''image/webp'' then Some Webp else if mime = ''image/png'' then Some Png
      else if mime = ''image/jpeg'' then Some Jpeg else None)"

text \<open>The variant of a payload; every \<open>Err(())\<close> of the source is \<open>None\<close>.\<close>

definition payload_variant :: "image_payload \<Rightarrow> asset_variant option" where
  "payload_variant p =
     (let i = ip_asset_index p; e = ip_entity_type p;
          season_poster = map_option (\<lambda>s. SeasonPoster s i) (ip_season_number p)
      in case ip_kind p of
           KindPoster \<Rightarrow> if e = EntitySeason then season_poster else Some (Poster i)
         | KindOther \<Rightarrow> if e = EntitySeason then season_poster else Some (Poster i)
         | KindBackdrop \<Rightarrow> Some (Backdrop i)
         | KindProfile \<Rightarrow> Some (Profile i)
         | KindLogo \<Rightarrow> Some (Logo i)
         | KindStill \<Rightarrow>
             if e = EntitySeason then season_poster
             else if e = EntityEpisode then
               Option.bind (ip_season_number p) (\<lambda>s.
               map_option (\<lambda>n. EpisodeThumbnail s n i) (ip_episode_number p))
             else None)"

definition ok_path :: "media_path_error + string \<Rightarrow> string option" where
  "ok_path r = (case r of Inl _ \<Rightarrow> None | Inr x \<Rightarrow> Some x)"

definition semantic_path :: "image_payload \<Rightarrow> string \<Rightarrow> string option" where
  "semantic_path p mime =
     Option.bind (image_mime_format mime) (\<lambda>f.
     Option.bind (payload_variant p) (\<lambda>v.
     case ip_entity_type p of
       EntityMovie \<Rightarrow> ok_path (title_asset TitleMovie (ip_entity_id p) v f)
     | EntityTv \<Rightarrow> ok_path (title_asset TitleTv (ip_entity_id p) v f)
     | EntitySeason \<Rightarrow> Option.bind (ip_title_tmdb_id p) (\<lambda>t. ok_path (title_asset TitleTv t v f))
     | EntityEpisode \<Rightarrow> Option.bind (ip_title_tmdb_id p) (\<lambda>t. ok_path (title_asset TitleTv t v f))
     | EntityPerson \<Rightarrow> ok_path (reusable_asset Person (ip_entity_id p) v f)
     | EntityNetwork \<Rightarrow> ok_path (reusable_asset Network (ip_entity_id p) v f)
     | EntityCompany \<Rightarrow> ok_path (reusable_asset Company (ip_entity_id p) v f)
     | EntityCollection \<Rightarrow> ok_path (reusable_asset Collection (ip_entity_id p) v f)))"

section \<open>JSON round trip\<close>

text \<open>The ranges of the machine integers of the struct.\<close>

definition payload_fits :: "image_payload \<Rightarrow> bool" where
  "payload_fits p \<longleftrightarrow>
     - 2147483648 \<le> ip_schema_version p \<and> ip_schema_version p \<le> 2147483647 \<and>
     - 9223372036854775808 \<le> ip_entity_id p \<and> ip_entity_id p \<le> 9223372036854775807 \<and>
     pred_option (\<lambda>n. n \<le> u32_max) (ip_season_number p) \<and>
     pred_option (\<lambda>n. n \<le> u16_max) (ip_episode_number p) \<and>
     pred_option (\<lambda>i. - 9223372036854775808 \<le> i \<and> i \<le> 9223372036854775807) (ip_title_tmdb_id p) \<and>
     ip_asset_index p \<le> u32_max"

lemma de_bounds:
  "as_i64 v = Some i \<Longrightarrow> - 9223372036854775808 \<le> i \<and> i \<le> 9223372036854775807"
  "de_i32 v = Some n \<Longrightarrow> - 2147483648 \<le> n \<and> n \<le> 2147483647"
  "de_u16 v = Some k \<Longrightarrow> k \<le> u16_max" "de_u32 v = Some k \<Longrightarrow> k \<le> u32_max"
  subgoal by (cases v) (auto split: if_splits)
  subgoal by (auto simp: de_i32_def split: option.splits if_splits)
  subgoal by (auto simp: de_u16_def split: option.splits if_splits)
  subgoal by (auto simp: de_u32_def split: option.splits if_splits)
  done

lemma de_option_bounds:
  "defaulted v i k (de_option d) None = Inr m \<Longrightarrow> (\<And>w n. d w = Some n \<Longrightarrow> P n) \<Longrightarrow> pred_option P m"
  by (auto simp: defaulted_def de_option_def result_simps split: if_splits option.splits)

lemma de_image_payload_fits:
  assumes "de_image_payload v = Inr p"
  shows "payload_fits p"
proof -
  have "need v 2 ''entityId'' as_i64 = Inr (ip_entity_id p)"
      "need v 0 ''schemaVersion'' de_i32 = Inr (ip_schema_version p)"
      "defaulted v 8 ''seasonNumber'' (de_option de_u32) None = Inr (ip_season_number p)"
      "defaulted v 9 ''episodeNumber'' (de_option de_u16) None = Inr (ip_episode_number p)"
      "defaulted v 10 ''titleTmdbId'' (de_option as_i64) None = Inr (ip_title_tmdb_id p)"
      "defaulted v 11 ''assetIndex'' de_u32 1 = Inr (ip_asset_index p)"
    using assms by (auto simp: de_image_payload_def result_simps split: if_splits)
  note field = this
  have "- 9223372036854775808 \<le> ip_entity_id p \<and> ip_entity_id p \<le> 9223372036854775807"
    using field(1) by (auto simp: need_def result_simps bind_eq_Some_conv dest: de_bounds)
  moreover have "- 2147483648 \<le> ip_schema_version p \<and> ip_schema_version p \<le> 2147483647"
    using field(2) by (auto simp: need_def result_simps bind_eq_Some_conv dest: de_bounds)
  moreover have "ip_asset_index p \<le> u32_max"
    using field(6) by (auto simp: defaulted_def result_simps split: option.splits dest: de_bounds)
  moreover have "pred_option (\<lambda>n. n \<le> u32_max) (ip_season_number p)"
    using field(3) by (rule de_option_bounds) (rule de_bounds)
  moreover have "pred_option (\<lambda>n. n \<le> u16_max) (ip_episode_number p)"
    using field(4) by (rule de_option_bounds) (rule de_bounds)
  moreover have "pred_option (\<lambda>i. - 9223372036854775808 \<le> i \<and> i \<le> 9223372036854775807) (ip_title_tmdb_id p)"
    using field(5) by (rule de_option_bounds) (rule de_bounds)
  ultimately show ?thesis by (simp add: payload_fits_def)
qed

lemma de_json_option:
  "(\<And>x. v = Some x \<Longrightarrow> d (f x) = Some x) \<Longrightarrow> (\<And>x. f x \<noteq> JNull) \<Longrightarrow> de_option d (json_option f v) = Some v"
  by (cases v) (auto simp: de_option_def json_option_def)

lemma de_json_nat:
  "n \<le> u32_max \<Longrightarrow> de_u32 (json_nat n) = Some n" "n \<le> u16_max \<Longrightarrow> de_u16 (json_nat n) = Some n"
  "json_nat n \<noteq> JNull"
  by (simp_all add: de_u32_def de_u16_def json_nat_def)

lemma de_name [simp]: "de_variant g (JStr s) = g s"
  by (simp add: de_variant_def)

lemma de_ser_image_payload:
  assumes "payload_fits p"
  shows "de_image_payload (ser_image_payload p) = Inr p"
proof -
  have opt: "de_option de_u32 (json_option json_nat (ip_season_number p)) = Some (ip_season_number p)"
      "de_option de_u16 (json_option json_nat (ip_episode_number p)) = Some (ip_episode_number p)"
      "de_option as_i64 (json_option JInt (ip_title_tmdb_id p)) = Some (ip_title_tmdb_id p)"
    using assms by (auto intro!: de_json_option simp: de_json_nat payload_fits_def)
  have str: "de_option as_str (json_option JStr v) = Some v" for v
    by (rule de_json_option) auto
  have int: "de_i32 (JInt (ip_schema_version p)) = Some (ip_schema_version p)"
      "as_i64 (JInt (ip_entity_id p)) = Some (ip_entity_id p)"
      "de_u32 (json_nat (ip_asset_index p)) = Some (ip_asset_index p)"
    using assms by (simp_all add: de_i32_def payload_fits_def de_json_nat)
  show ?thesis
    by (simp add: de_image_payload_def ser_image_payload_def struct_form_def need_def optional_def
        defaulted_def struct_field_def opt str int del: as_i64.simps)
qed

section \<open>Where images go\<close>

definition payload_asset :: "image_payload \<Rightarrow> image_format \<Rightarrow> asset option" where
  "payload_asset p f =
     Option.bind (payload_variant p) (\<lambda>v.
     case ip_entity_type p of
       EntityMovie \<Rightarrow> Some (Title_asset TitleMovie (ip_entity_id p) v f)
     | EntityTv \<Rightarrow> Some (Title_asset TitleTv (ip_entity_id p) v f)
     | EntitySeason \<Rightarrow> map_option (\<lambda>t. Title_asset TitleTv t v f) (ip_title_tmdb_id p)
     | EntityEpisode \<Rightarrow> map_option (\<lambda>t. Title_asset TitleTv t v f) (ip_title_tmdb_id p)
     | EntityPerson \<Rightarrow> Some (Reusable_asset Person (ip_entity_id p) v f)
     | EntityNetwork \<Rightarrow> Some (Reusable_asset Network (ip_entity_id p) v f)
     | EntityCompany \<Rightarrow> Some (Reusable_asset Company (ip_entity_id p) v f)
     | EntityCollection \<Rightarrow> Some (Reusable_asset Collection (ip_entity_id p) v f))"

lemma ok_path_eq_Some [simp]: "ok_path r = Some x \<longleftrightarrow> r = Inr x"
  by (cases r) (auto simp: ok_path_def)

lemma semantic_path_asset:
  "semantic_path p mime = Some s \<longleftrightarrow>
     (\<exists>f a. image_mime_format mime = Some f \<and> payload_asset p f = Some a \<and> asset_path a = Inr s)"
  by (cases "ip_entity_type p") (auto simp: semantic_path_def payload_asset_def bind_eq_Some_conv)

lemma image_mime_format_inj:
  "image_mime_format m = Some f \<Longrightarrow> image_mime_format n = Some f \<Longrightarrow> m = n"
  by (auto simp: image_mime_format_def split: if_splits)

lemma payload_variant_index:
  "payload_variant p = Some v \<Longrightarrow> payload_variant q = Some v \<Longrightarrow> ip_asset_index p = ip_asset_index q"
  by (cases v)
     (auto simp: payload_variant_def Let_def bind_eq_Some_conv split: image_kind.splits if_splits)

text \<open>The directory an image belongs to: the title (of a season or an episode, its show) or the entity.\<close>

definition path_owner :: "image_payload \<Rightarrow> image_entity_type \<times> int option" where
  "path_owner p =
     (if tv_position (ip_entity_type p) then (EntityTv, ip_title_tmdb_id p)
      else (ip_entity_type p, Some (ip_entity_id p)))"

lemma payload_asset_inj:
  assumes "payload_asset p f = Some a" "payload_asset q g = Some a"
  shows "f = g \<and> path_owner p = path_owner q \<and> payload_variant p = payload_variant q"
  using assms
  by (cases "ip_entity_type p"; cases "ip_entity_type q")
     (auto simp: payload_asset_def path_owner_def tv_position_def bind_eq_Some_conv)

text \<open>A poster and an image of an unknown role of one owner have the same place.\<close>

lemma poster_and_other_share:
  "semantic_path (p\<lparr>ip_kind := KindPoster\<rparr>) mime = semantic_path (p\<lparr>ip_kind := KindOther\<rparr>) mime"
  by (cases "ip_entity_type p") (simp_all add: semantic_path_def payload_variant_def)

section \<open>Properties\<close>

text \<open>A payload the worker accepts is valid and its numbers fit their types; writing it back to the
  queue and reading it again gives the same payload.\<close>

theorem image_payload_round_trip:
  assumes "from_json urls v = Inr p"
  shows "validate urls p = Inr () \<and> payload_fits p \<and>
    (\<exists>w. to_json urls p = Inr w \<and> from_json urls w = Inr p)"
proof -
  have d: "de_image_payload v = Inr p" "validate urls p = Inr ()"
    using assms by (auto simp: from_json_def result_simps)
  then have "payload_fits p" using de_image_payload_fits by blast
  then show ?thesis using d de_ser_image_payload by (simp add: to_json_def from_json_def)
qed

definition demo_urls :: "string \<Rightarrow> url option" where
  "demo_urls s = Some \<lparr>url_scheme = ''https'', url_host = Some ''image.tmdb.org'', url_username = '''',
     url_password = None, url_path = s, url_query = None, url_fragment = None\<rparr>"

definition demo_image_job :: json where
  "demo_image_job = JObj
     [(''entityId'', JInt 9), (''entityType'', JStr ''episode''), (''episodeNumber'', JInt 3),
      (''kind'', JStr ''still''), (''schemaVersion'', JInt 1), (''seasonNumber'', JInt 0),
      (''sourceUrl'', JStr ''u''), (''titleTmdbId'', JInt 7), (''tmdbPath'', JStr ''/a.jpg'')]"

definition demo_payload :: image_payload where
  "demo_payload = \<lparr>ip_schema_version = 1, ip_entity_type = EntityEpisode, ip_entity_id = 9,
     ip_kind = KindStill, ip_tmdb_path = ''/a.jpg'', ip_source_url = ''u'', ip_language = None,
     ip_source_revision = None, ip_season_number = Some 0, ip_episode_number = Some 3,
     ip_title_tmdb_id = Some 7, ip_asset_index = 1\<rparr>"

lemma demo_image_job_accepted: "from_json demo_urls demo_image_job = Inr demo_payload"
proof -
  have "de_image_payload demo_image_job = Inr demo_payload"
    by (simp add: de_image_payload_def demo_image_job_def demo_payload_def struct_form_def need_def
        optional_def defaulted_def struct_field_def is_object_def de_option_def de_i32_def de_u16_def de_u32_def
        entity_type_of_def entity_types_def image_entity_type_name_def image_kind_of_def image_kinds_def
        image_kind_name_def)
  moreover have "validate demo_urls demo_payload = Inr ()" by code_simp
  ultimately show ?thesis by (simp add: from_json_def)
qed

theorem image_payload_round_trip_witness:
  "\<exists>w. to_json demo_urls demo_payload = Inr w \<and> from_json demo_urls w = Inr demo_payload"
  using image_payload_round_trip [OF demo_image_job_accepted] by blast



end
