(* ===== verification/Image_Download.thy ===== *)
theory Image_Download
  imports Image_Format Image_Job
begin

text \<open>
  The downloader of \<open>src/apps/tmdb-images/src/image.rs\<close>: the network policy, the direct request with
  its checked redirects, the challenge-only fallback through Trawl, and the validation of the
  response. The network, URL joining and rendering, JSON decoding, SHA-256 and the pixel decoder
  are the fields of \<open>image_env\<close>; what the downloader asks of the network is a log of requests.
\<close>

section \<open>Responses\<close>

datatype body_state = Complete | Limited | Body_failed

record http_response =
  hr_status :: nat
  hr_url :: url
  hr_content_type :: "string option"
  hr_content_length :: "nat option"
  hr_location :: "url option"
  hr_body :: string
  hr_body_state :: body_state

text \<open>What the HTTP client yields: the head of the response, the chunks, and how they end.\<close>

record raw_response =
  raw_status :: nat
  raw_url :: url
  raw_headers :: "(string \<times> string) list"
  raw_chunks :: "string list"
  raw_failure :: "transport_error option"

record image_env =
  send_get :: "nat \<Rightarrow> url \<Rightarrow> transport_error + raw_response"
  send_post :: "url \<Rightarrow> json \<Rightarrow> transport_error + raw_response"
  img_parse_url :: "string \<Rightarrow> url option"
  img_join :: "url \<Rightarrow> string \<Rightarrow> url option"
  url_text :: "url \<Rightarrow> string"
  decode_json :: "string \<Rightarrow> json option"
  img_sha256 :: "string \<Rightarrow> string"
  pixel_decoder :: decoder

fun read_chunks ::
    "nat \<Rightarrow> string \<Rightarrow> string list \<Rightarrow> transport_error option \<Rightarrow> transport_error + string \<times> body_state" where
  "read_chunks max_bytes body [] failure =
     (case failure of Some e \<Rightarrow> Inl e | None \<Rightarrow> Inr (body, Complete))"
| "read_chunks max_bytes body (c # cs) failure =
     (let remaining = max_bytes - length body in
      if length c > remaining then Inr (body @ take remaining c, Limited)
      else read_chunks max_bytes (body @ c) cs failure)"

definition read_response ::
    "image_env \<Rightarrow> raw_response \<Rightarrow> nat \<Rightarrow> transport_error + http_response" where
  "read_response env r max_bytes =
     (let header = (\<lambda>k. Option.bind (map_of (raw_headers r) k) header_text) in
      bindR (read_chunks max_bytes [] (raw_chunks r) (raw_failure r)) (\<lambda>(body, state).
      Inr \<lparr>hr_status = raw_status r, hr_url = raw_url r, hr_content_type = header ''content-type'',
           hr_content_length = Option.bind (header ''content-length'') (parse_uint u64_max),
           hr_location = Option.bind (header ''location'') (img_join env (raw_url r)),
           hr_body = body, hr_body_state = state\<rparr>))"

section \<open>Policy\<close>

record download_policy =
  dp_max_bytes :: nat
  dp_max_redirects :: nat
  dp_timeout :: duration
  dp_allowed_hosts :: "string list"

definition host_rejected :: "string \<Rightarrow> bool" where
  "host_rejected h \<longleftrightarrow> h = [] \<or> CHR ''/'' \<in> set h \<or> CHR 0x40 \<in> set h \<or> has_control h"

definition download_policy_new ::
    "nat \<Rightarrow> nat \<Rightarrow> duration \<Rightarrow> string list \<Rightarrow> image_error + download_policy" where
  "download_policy_new max_bytes max_redirects timeout hosts =
     (if max_bytes = 0 \<or> max_bytes > 1024 * 1024 * 1024 \<or> timeout = 0 then Inl InvalidPolicy else
      let allowed = map to_ascii_lowercase hosts in
      if allowed = [] \<or> list_ex host_rejected allowed then Inl InvalidPolicy
      else Inr \<lparr>dp_max_bytes = max_bytes, dp_max_redirects = max_redirects, dp_timeout = timeout,
                dp_allowed_hosts = allowed\<rparr>)"

definition policy_allows :: "download_policy \<Rightarrow> url \<Rightarrow> bool" where
  "policy_allows p u \<longleftrightarrow>
     (case url_host u of None \<Rightarrow> False | Some h \<Rightarrow> to_ascii_lowercase h \<in> set (dp_allowed_hosts p)) \<and>
     url_scheme u = ''https'' \<and> url_username u = '''' \<and> url_password u = None"

section \<open>Challenges\<close>

definition image_challenge_signatures :: "string list" where
  "image_challenge_signatures =
     [''cf-chl-'', ''challenge-platform'', ''just a moment'', ''attention required'', ''captcha'']"

text \<open>
  The lossy decoding of the source replaces invalid bytes by a character that is not ASCII, so it
  neither makes nor breaks an ASCII signature and is left out.
\<close>

definition detect_challenge :: "http_response \<Rightarrow> bool" where
  "detect_challenge r \<longleftrightarrow>
     hr_status r \<in> {403, 503} \<and>
     list_ex (contains (to_ascii_lowercase (hr_body r))) image_challenge_signatures"

section \<open>The Trawl fallback\<close>

definition max_trawl_json_bytes :: nat where "max_trawl_json_bytes = 512 * 1024 * 1024"

definition timeout_millis :: "duration \<Rightarrow> nat" where
  "timeout_millis d = (if d div 1000000 \<le> u64_max then d div 1000000 else u64_max)"

text \<open>\<open>usize\<close> is 64 bits wide; both operations saturate.\<close>

definition trawl_response_limit :: "nat \<Rightarrow> nat" where
  "trawl_response_limit max_bytes =
     min (min (min (max_bytes * 12) u64_max + 1024 * 1024) u64_max) max_trawl_json_bytes"

definition json_byte :: "json \<Rightarrow> transport_error + char" where
  "json_byte v =
     (case as_u64 v of None \<Rightarrow> Inl Request
      | Some n \<Rightarrow> if n \<le> 255 then Inr (char_of n) else Inl Request)"

definition parse_trawl_body :: "json \<Rightarrow> nat \<Rightarrow> transport_error + string" where
  "parse_trawl_body v max_bytes =
     (case v of
        JArr vs \<Rightarrow>
          if length vs > max_bytes then Inl Request else collectR (map json_byte vs)
      | JObj kvs \<Rightarrow>
          if length kvs > max_bytes then Inl Request
          else collectR (map (\<lambda>i. bindR (ok_or Request (map_of kvs (dec i))) json_byte) [0..<length kvs])
      | _ \<Rightarrow> Inl Request)"

record trawl_fallback =
  tf_base :: url

definition trawl_new :: "url \<Rightarrow> image_error + trawl_fallback" where
  "trawl_new base =
     (if url_scheme base \<notin> {''http'', ''https''} \<or> url_host base = None \<or> url_username base \<noteq> '''' \<or>
         url_password base \<noteq> None \<or> url_query base \<noteq> None \<or> url_fragment base \<noteq> None
      then Inl InvalidTrawlUrl else Inr \<lparr>tf_base = base\<rparr>)"

definition trawl_status :: "json \<Rightarrow> nat \<Rightarrow> nat" where
  "trawl_status envelope status =
     (case Option.bind (json_get envelope ''statusCode'') as_u64 of
        Some n \<Rightarrow> if n \<le> u16_max then n else status
      | None \<Rightarrow> status)"

definition trawl_content_type :: "json \<Rightarrow> string option" where
  "trawl_content_type envelope =
     (case Option.bind (json_get envelope ''contentType'') as_str of
        Some t \<Rightarrow> Some t
      | None \<Rightarrow> Option.bind (json_get envelope ''responseHeaders'') (\<lambda>h.
               Option.bind (json_get h ''content-type'') as_str))"

definition trawl_fetch ::
    "image_env \<Rightarrow> trawl_fallback \<Rightarrow> url \<Rightarrow> duration \<Rightarrow> nat \<Rightarrow> transport_error + http_response" where
  "trawl_fetch env fb target timeout max_bytes =
     bindR (ok_or Request (img_join env (tf_base fb) ''scrape'')) (\<lambda>endpoint.
     let request = JObj [(''maxTimeout'', JInt (int (timeout_millis timeout))),
                         (''url'', JStr (url_text env target))] in
     bindR (send_post env endpoint request) (\<lambda>raw.
     bindR (read_response env raw (trawl_response_limit max_bytes)) (\<lambda>response.
     if hr_body_state response \<noteq> Complete then Inl BodyRead_transport else
     bindR (ok_or Request (decode_json env (hr_body response))) (\<lambda>envelope.
     let status = trawl_status envelope (hr_status response);
         reply = \<lparr>hr_status = status, hr_url = target, hr_content_type = None,
           hr_content_length = None, hr_location = None, hr_body = [], hr_body_state = Complete\<rparr>
     in if \<not> (200 \<le> status \<and> status < 300) then Inr reply else
     bindR (ok_or Request (json_get envelope ''body'')) (\<lambda>b.
     bindR (parse_trawl_body b max_bytes) (\<lambda>body.
     Inr (reply\<lparr>hr_content_type := trawl_content_type envelope,
                hr_content_length := Some (length body), hr_body := body\<rparr>)))))))"

section \<open>Downloading\<close>

datatype image_source = Direct | Trawl

definition image_source_name :: "image_source \<Rightarrow> string" where
  "image_source_name s = (case s of Direct \<Rightarrow> ''direct'' | Trawl \<Rightarrow> ''trawl'')"

record downloaded_image =
  di_body :: string
  di_mime_type :: string
  di_final_url :: url
  di_source :: image_source
  di_digest :: string
  di_width :: "32 word"
  di_height :: "32 word"

datatype image_request = Get_direct url | Scrape url

type_synonym request_log = "image_request list"

definition transport_get ::
    "image_env \<Rightarrow> url \<Rightarrow> nat \<Rightarrow> request_log \<Rightarrow> transport_error + http_response" where
  "transport_get env u max_bytes log =
     bindR (send_get env (length log) u) (\<lambda>raw. read_response env raw max_bytes)"

text \<open>The loop over \<open>0..=max_redirects\<close>; the first argument counts the redirects that are left.\<close>

fun fetch_from ::
    "nat \<Rightarrow> image_env \<Rightarrow> download_policy \<Rightarrow> url \<Rightarrow> request_log \<Rightarrow>
     (image_error + http_response) \<times> request_log" where
  "fetch_from left env p u log =
     (case transport_get env u (dp_max_bytes p) log of
        Inl e \<Rightarrow> (Inl (Transport e), log @ [Get_direct u])
      | Inr response \<Rightarrow>
          let log = log @ [Get_direct u] in
          if 300 \<le> hr_status response \<and> hr_status response < 400 then
            (case left of
               0 \<Rightarrow> (Inl RedirectLimit, log)
             | Suc n \<Rightarrow>
                 (case hr_location response of
                    None \<Rightarrow> (Inl InvalidRedirect, log)
                  | Some next_url \<Rightarrow>
                      if \<not> policy_allows p next_url then (Inl DisallowedHost, log)
                      else fetch_from n env p next_url log))
          else if detect_challenge response then (Inl ChallengeDetected, log)
          else (Inr response, log))"

declare fetch_from.simps [simp del]

definition fetch_direct ::
    "image_env \<Rightarrow> download_policy \<Rightarrow> url \<Rightarrow> request_log \<Rightarrow> (image_error + http_response) \<times> request_log" where
  "fetch_direct env p u log = fetch_from (dp_max_redirects p) env p u log"

definition canonical_mime :: "string \<Rightarrow> string option" where
  "canonical_mime v =
     (case split_on (CHR '';'') v of [] \<Rightarrow> None
      | s # _ \<Rightarrow> if trim s \<noteq> [] then Some (trim s) else None)"

definition is_allowed_mime :: "string \<Rightarrow> bool" where
  "is_allowed_mime v \<longleftrightarrow> v \<in> {''image/jpeg'', ''image/png'', ''image/webp''}"

definition validate_success ::
    "image_env \<Rightarrow> download_policy \<Rightarrow> http_response \<Rightarrow> image_source \<Rightarrow>
     image_error fault + downloaded_image" where
  "validate_success env p r source =
     (if \<not> (200 \<le> hr_status r \<and> hr_status r < 300) then Inl (Err (HttpStatus (hr_status r))) else
      bindR (ok_or (Err UnsupportedMime) (Option.bind (hr_content_type r) canonical_mime)) (\<lambda>mime.
      if \<not> is_allowed_mime mime then Inl (Err UnsupportedMime)
      else if hr_body_state r = Limited \<or> length (hr_body r) > dp_max_bytes p then Inl (Err TooLarge)
      else if hr_body_state r = Body_failed then Inl (Err BodyRead)
      else if (case hr_content_length r of None \<Rightarrow> False | Some n \<Rightarrow> n > dp_max_bytes p)
      then Inl (Err TooLarge)
      else if (case hr_content_length r of None \<Rightarrow> False | Some n \<Rightarrow> n \<noteq> length (hr_body r))
      then Inl (Err Truncated)
      else bindR (validate_image_header (pixel_decoder env) mime (hr_body r)) (\<lambda>d.
      Inr \<lparr>di_body = hr_body r, di_mime_type = mime, di_final_url = hr_url r, di_source = source,
           di_digest = img_sha256 env (hr_body r), di_width = dim_width d,
           di_height = dim_height d\<rparr>)))"

definition download ::
    "image_env \<Rightarrow> download_policy \<Rightarrow> trawl_fallback option \<Rightarrow> image_payload \<Rightarrow>
     (image_error fault + downloaded_image) \<times> request_log" where
  "download env p fallback payload =
     (case source_url_of (img_parse_url env) payload of
        Inl _ \<Rightarrow> (Inl (Err DisallowedHost), [])
      | Inr u \<Rightarrow>
          if \<not> policy_allows p u then (Inl (Err DisallowedHost), []) else
          (case fetch_direct env p u [] of
             (Inr response, log) \<Rightarrow> (validate_success env p response Direct, log)
           | (Inl e, log) \<Rightarrow>
               if e \<noteq> ChallengeDetected then (Inl (Err e), log) else
               (case fallback of
                  None \<Rightarrow> (Inl (Err FallbackUnavailable), log)
                | Some fb \<Rightarrow>
                    let log = log @ [Scrape u] in
                    (case trawl_fetch env fb u (dp_timeout p) (dp_max_bytes p) of
                       Inl e \<Rightarrow> (Inl (Err (Transport e)), log)
                     | Inr response \<Rightarrow>
                         if detect_challenge response then (Inl (Err ChallengeDetected), log)
                         else (validate_success env p response Trawl, log)))))"

section \<open>Bodies\<close>

text \<open>How the body arrives in chunks does not matter: it is whole when it fits, and cut at the limit
  when it does not.\<close>

lemma read_chunks_spec:
  "length body \<le> m \<Longrightarrow>
   read_chunks m body cs failure =
     (if length (body @ concat cs) \<le> m
      then case failure of Some e \<Rightarrow> Inl e | None \<Rightarrow> Inr (body @ concat cs, Complete)
      else Inr (take m (body @ concat cs), Limited))"
proof (induction cs arbitrary: body)
  case (Cons c cs)
  show ?case
  proof (cases "length c > m - length body")
    case True
    then have "\<not> length (body @ concat (c # cs)) \<le> m" by simp
    with True Cons.prems show ?thesis by simp
  next
    case False
    then have "length (body @ c) \<le> m" using Cons.prems by simp
    then show ?thesis using Cons.IH [of "body @ c"] False by (simp split: option.split)
  qed
qed (simp split: option.split)

lemma read_response_ok:
  assumes "read_response env raw m = Inr r"
  shows "length (hr_body r) \<le> m \<and> hr_status r = raw_status raw \<and>
    (hr_body_state r = Complete \<or> hr_body_state r = Limited) \<and>
    (hr_body_state r \<noteq> Limited \<longrightarrow> hr_body r = concat (raw_chunks raw) \<and> raw_failure raw = None)"
  using assms
  by (auto simp: read_response_def Let_def result_simps read_chunks_spec split: if_splits option.splits)

section \<open>The direct request\<close>

lemma fetch_from_log:
  assumes "fetch_from left env p u log = (r, log')" "policy_allows p u"
  shows "\<exists>us. log' = log @ map Get_direct us \<and> us \<noteq> [] \<and> length us \<le> left + 1 \<and>
    (\<forall>v\<in>set us. policy_allows p v) \<and>
    (r = Inl ChallengeDetected \<longrightarrow> (\<exists>response.
       transport_get env (last us) (dp_max_bytes p) (log @ map Get_direct (butlast us)) = Inr response \<and>
       detect_challenge response)) \<and>
    (\<forall>response. r = Inr response \<longrightarrow>
       transport_get env (last us) (dp_max_bytes p) (log @ map Get_direct (butlast us)) = Inr response)"
  using assms
proof (induction left arbitrary: u log)
  case 0
  show ?case
    by (rule exI [of _ "[u]"])
       (use 0 in \<open>subst (asm) fetch_from.simps, auto simp: Let_def split: sum.splits if_splits option.splits\<close>)
next
  case (Suc n)
  show ?case
  proof (cases "\<exists>response v. transport_get env u (dp_max_bytes p) log = Inr response \<and>
      300 \<le> hr_status response \<and> hr_status response < 400 \<and> hr_location response = Some v \<and> policy_allows p v")
    case False
    then show ?thesis
      by (intro exI [of _ "[u]"])
         (use Suc.prems in \<open>subst (asm) fetch_from.simps,
           auto simp: Let_def split: sum.splits if_splits option.splits\<close>)
  next
    case True
    then obtain response v where v: "transport_get env u (dp_max_bytes p) log = Inr response"
        "300 \<le> hr_status response" "hr_status response < 400" "hr_location response = Some v" "policy_allows p v"
      by blast
    then have "fetch_from n env p v (log @ [Get_direct u]) = (r, log')"
      using Suc.prems(1) by (subst (asm) fetch_from.simps) (simp add: Let_def)
    from Suc.IH [OF this v(5)] obtain us where us: "log' = (log @ [Get_direct u]) @ map Get_direct us" "us \<noteq> []"
        "length us \<le> n + 1" "\<forall>v\<in>set us. policy_allows p v"
        "r = Inl ChallengeDetected \<longrightarrow> (\<exists>response. transport_get env (last us) (dp_max_bytes p)
           ((log @ [Get_direct u]) @ map Get_direct (butlast us)) = Inr response \<and> detect_challenge response)"
        "\<forall>response. r = Inr response \<longrightarrow> transport_get env (last us) (dp_max_bytes p)
           ((log @ [Get_direct u]) @ map Get_direct (butlast us)) = Inr response"
      by blast
    then show ?thesis using Suc.prems(2) by (intro exI [of _ "u # us"]) simp
  qed
qed

lemma fetch_direct_log:
  assumes "fetch_direct env p u [] = (r, log)" "policy_allows p u"
  obtains us where "log = map Get_direct us" "us \<noteq> []" "length us \<le> dp_max_redirects p + 1"
    "\<forall>v\<in>set us. policy_allows p v"
    "r = Inl ChallengeDetected \<Longrightarrow> \<exists>response.
       transport_get env (last us) (dp_max_bytes p) (map Get_direct (butlast us)) = Inr response \<and>
       detect_challenge response"
    "\<And>response. r = Inr response \<Longrightarrow>
       transport_get env (last us) (dp_max_bytes p) (map Get_direct (butlast us)) = Inr response"
  using fetch_from_log [OF assms(1) [unfolded fetch_direct_def] assms(2)] by auto

section \<open>Accepted responses\<close>

text \<open>What every downloaded image satisfies, whichever way it came.\<close>

definition image_within :: "image_env \<Rightarrow> download_policy \<Rightarrow> downloaded_image \<Rightarrow> bool" where
  "image_within env p i \<longleftrightarrow>
     length (di_body i) \<le> dp_max_bytes p \<and> is_allowed_mime (di_mime_type i) \<and>
     1 \<le> unat (di_width i) \<and> unat (di_width i) \<le> 16384 \<and>
     1 \<le> unat (di_height i) \<and> unat (di_height i) \<le> 16384 \<and>
     unat (di_width i) * unat (di_height i) \<le> 67108864 \<and>
     (\<exists>f. mime_format (di_mime_type i) = Some f \<and>
        pixel_decoder env (di_body i) f = Some \<lparr>dim_width = di_width i, dim_height = di_height i\<rparr>) \<and>
     di_digest i = img_sha256 env (di_body i)"

lemma validate_success_ok:
  assumes "validate_success env p r source = Inr i"
  shows "image_within env p i \<and> 200 \<le> hr_status r \<and> hr_status r < 300 \<and> di_body i = hr_body r \<and>
    di_source i = source \<and> hr_body_state r = Complete \<and>
    (case hr_content_length r of None \<Rightarrow> True | Some n \<Rightarrow> n = length (hr_body r))"
proof -
  obtain mime d where d: "validate_image_header (pixel_decoder env) mime (hr_body r) = Inr d"
      "is_allowed_mime mime" "length (hr_body r) \<le> dp_max_bytes p"
      "hr_body_state r \<noteq> Limited" "hr_body_state r \<noteq> Body_failed"
      "case hr_content_length r of None \<Rightarrow> True | Some n \<Rightarrow> n = length (hr_body r)"
      "200 \<le> hr_status r" "hr_status r < 300"
      "i = \<lparr>di_body = hr_body r, di_mime_type = mime, di_final_url = hr_url r, di_source = source,
            di_digest = img_sha256 env (hr_body r), di_width = dim_width d, di_height = dim_height d\<rparr>"
    using assms by (auto simp: validate_success_def result_simps split: if_splits option.splits)
  then have "hr_body_state r = Complete" by (cases "hr_body_state r") auto
  with d validate_image_header_ok [OF d(1)] show ?thesis by (cases d) (simp add: image_within_def)
qed

lemma validate_success_no_panic: "validate_success env p r source \<noteq> Inl Panic"
  using validate_image_header_no_panic
  by (auto simp: validate_success_def result_simps split: if_splits)

lemma download_no_panic: "fst (download env p fallback payload) \<noteq> Inl Panic"
  using validate_success_no_panic
  by (auto simp: download_def Let_def split: sum.splits prod.splits option.splits if_splits)

section \<open>Properties\<close>

text \<open>C16: a download asks only for URLs the policy allows (https, an allowed host, no credentials), at
  most one more than the configured redirects; Trawl is asked at most once, for such a URL, and only
  after the last direct response was a challenge; and no response can make the worker panic.\<close>

theorem download_requests_in_policy:
  assumes "download env p fallback payload = (r, log)"
  shows "\<exists>us ss. log = map Get_direct us @ map Scrape ss \<and> length us \<le> dp_max_redirects p + 1 \<and>
    length ss \<le> 1 \<and> (\<forall>u\<in>set us \<union> set ss. policy_allows p u) \<and>
    (ss \<noteq> [] \<longrightarrow> fallback \<noteq> None \<and> (\<exists>response.
       transport_get env (last us) (dp_max_bytes p) (map Get_direct (butlast us)) = Inr response \<and>
       detect_challenge response)) \<and>
    r \<noteq> Inl Panic"
proof -
  have r: "r \<noteq> Inl Panic" using download_no_panic [of env p fallback payload] assms by simp
  show ?thesis
  proof (cases "\<exists>u. source_url_of (img_parse_url env) payload = Inr u \<and> policy_allows p u")
    case False
    then have "log = []" using assms by (auto simp: download_def split: sum.splits if_splits)
    then show ?thesis using r by (intro exI [of _ "[]"]) simp
  next
    case True
    then obtain u where u: "source_url_of (img_parse_url env) payload = Inr u" "policy_allows p u" by blast
    obtain q l where q: "fetch_direct env p u [] = (q, l)" by (cases "fetch_direct env p u []") auto
    obtain us where us: "l = map Get_direct us" "us \<noteq> []" "length us \<le> dp_max_redirects p + 1"
        "\<forall>v\<in>set us. policy_allows p v"
        "q = Inl ChallengeDetected \<Longrightarrow> \<exists>response.
           transport_get env (last us) (dp_max_bytes p) (map Get_direct (butlast us)) = Inr response \<and>
           detect_challenge response"
      using fetch_direct_log [OF q u(2)] by metis
    have "log = l \<or> (log = l @ [Scrape u] \<and> q = Inl ChallengeDetected \<and> fallback \<noteq> None)"
      using assms u q by (auto simp: download_def Let_def split: sum.splits if_splits option.splits)
    then show ?thesis
    proof
      assume "log = l"
      then show ?thesis using us r by (intro exI [of _ us] exI [of _ "[]"]) simp
    next
      assume "log = l @ [Scrape u] \<and> q = Inl ChallengeDetected \<and> fallback \<noteq> None"
      then show ?thesis using us u(2) r by (intro exI [of _ us] exI [of _ "[u]"]) simp
    qed
  qed
qed

text \<open>A downloaded image is what the policy promises: at most the configured number of bytes, an
  allowed type, sides between 1 and 16384 pixels and at most 67108864 pixels, accepted by the full
  decoder with those dimensions, and the digest of its bytes; a direct image is the whole body of a
  successful response, never a part of one.\<close>

theorem downloaded_image_valid:
  assumes "download env p fallback payload = (Inr i, log)"
  shows "image_within env p i \<and>
    (di_source i = Direct \<longrightarrow> (\<exists>n u raw. send_get env n u = Inr raw \<and> 200 \<le> raw_status raw \<and>
       raw_status raw < 300 \<and> raw_failure raw = None \<and> di_body i = concat (raw_chunks raw)))"
proof -
  obtain u where u: "source_url_of (img_parse_url env) payload = Inr u" "policy_allows p u"
    using assms by (auto simp: download_def split: sum.splits if_splits)
  obtain q l where q: "fetch_direct env p u [] = (q, l)" by (cases "fetch_direct env p u []") auto
  consider (direct) r where "q = Inr r" "validate_success env p r Direct = Inr i"
    | (trawl) r where "validate_success env p r Trawl = Inr i"
    using assms u q by (auto simp: download_def Let_def split: sum.splits if_splits option.splits)
  then show ?thesis
  proof cases
    case direct
    from fetch_direct_log [OF q u(2)] direct(1) obtain v n where
      "transport_get env v (dp_max_bytes p) n = Inr r" by metis
    then obtain raw where raw: "send_get env (length n) v = Inr raw" "read_response env raw (dp_max_bytes p) = Inr r"
      by (auto simp: transport_get_def result_simps)
    note ok = validate_success_ok [OF direct(2)] read_response_ok [OF raw(2)]
    then have "200 \<le> raw_status raw" "raw_status raw < 300" "raw_failure raw = None"
        "di_body i = concat (raw_chunks raw)" "image_within env p i" by auto
    with raw(1) show ?thesis by blast
  next
    case trawl
    then show ?thesis using validate_success_ok by fastforce
  qed
qed

definition demo_host :: "string \<Rightarrow> url" where
  "demo_host path = \<lparr>url_scheme = ''https'', url_host = Some ''image.tmdb.org'', url_username = '''',
     url_password = None, url_path = path, url_query = None, url_fragment = None\<rparr>"

definition demo_png :: string where
  "demo_png = png_signature @ map char_of [0 :: nat, 0, 0, 13] @ ''IHDR'' @
     map char_of [0 :: nat, 0, 0, 1, 0, 0, 0, 1]"

text \<open>A network where \<open>u\<close> redirects to \<open>v\<close>, which has the image.\<close>

definition demo_image_env :: image_env where
  "demo_image_env = \<lparr>send_get = (\<lambda>n u.
       if url_path u = ''u'' then Inr \<lparr>raw_status = 302, raw_url = u, raw_headers = [(''location'', ''v'')],
         raw_chunks = [], raw_failure = None\<rparr>
       else Inr \<lparr>raw_status = 200, raw_url = u, raw_headers = [(''content-type'', ''image/png; q'')],
         raw_chunks = [demo_png], raw_failure = None\<rparr>),
     send_post = (\<lambda>u v. Inl Request), img_parse_url = demo_urls, img_join = (\<lambda>u s. Some (demo_host s)),
     url_text = url_path, decode_json = (\<lambda>s. None), img_sha256 = (\<lambda>s. ''dddddddddddddddddddddddddddddddd''),
     pixel_decoder = (\<lambda>s f. Some \<lparr>dim_width = 1, dim_height = 1\<rparr>)\<rparr>"

definition demo_policy :: download_policy where
  "demo_policy = \<lparr>dp_max_bytes = 100, dp_max_redirects = 3, dp_timeout = 1,
     dp_allowed_hosts = [''image.tmdb.org'']\<rparr>"

definition demo_image :: downloaded_image where
  "demo_image = \<lparr>di_body = demo_png, di_mime_type = ''image/png'', di_final_url = demo_host ''v'',
     di_source = Direct, di_digest = ''dddddddddddddddddddddddddddddddd'', di_width = 1, di_height = 1\<rparr>"

lemma demo_header: "validate_image_header (pixel_decoder demo_image_env) ''image/png'' demo_png =
    Inr \<lparr>dim_width = 1, dim_height = 1\<rparr>"
proof -
  have "\<not> contains demo_png ''acTL''" by code_simp
  moreover have "(parse_png_dimensions demo_png :: image_error fault + _) = Inr (Some \<lparr>dim_width = 1, dim_height = 1\<rparr>)"
    by (simp add: parse_png_dimensions_def demo_png_def png_signature_def from_be_bytes_def)
  ultimately show ?thesis
    by (simp add: validate_image_header_def header_dimensions_def dimensions_allowed_def
        max_image_dimension_def max_image_pixels_def mime_format_def demo_image_env_def)
qed

lemma demo_download:
  "download demo_image_env demo_policy None demo_payload =
     (Inr demo_image, [Get_direct (demo_host ''u''), Get_direct (demo_host ''v'')])"
proof -
  have "source_url_of (img_parse_url demo_image_env) demo_payload = Inr (demo_host ''u'')"
      "policy_allows demo_policy (demo_host ''u'')" by code_simp+
  moreover have "fetch_direct demo_image_env demo_policy (demo_host ''u'') [] =
      (Inr \<lparr>hr_status = 200, hr_url = demo_host ''v'', hr_content_type = Some ''image/png; q'',
         hr_content_length = None, hr_location = None, hr_body = demo_png, hr_body_state = Complete\<rparr>,
       [Get_direct (demo_host ''u''), Get_direct (demo_host ''v'')])"
    by code_simp
  moreover have "canonical_mime ''image/png; q'' = Some ''image/png''" by code_simp
  moreover have "length demo_png = 24" by (simp add: demo_png_def png_signature_def)
  moreover note demo_header
  ultimately show ?thesis
    by (simp add: download_def validate_success_def is_allowed_mime_def demo_policy_def demo_image_def)
       (simp add: demo_image_env_def)
qed

theorem download_requests_in_policy_witness:
  "policy_allows demo_policy (demo_host ''u'') \<and> policy_allows demo_policy (demo_host ''v'')"
  using download_requests_in_policy [OF demo_download] by (auto simp: map_eq_append_conv append_eq_map_conv Cons_eq_append_conv)

theorem downloaded_image_valid_witness:
  "length demo_png \<le> 100 \<and> (\<exists>n u raw. send_get demo_image_env n u = Inr raw \<and> demo_png = concat (raw_chunks raw))"
  using downloaded_image_valid [OF demo_download]
  by (auto simp: image_within_def demo_image_def demo_policy_def)

end
