(* ===== verification/Image_Store.thy ===== *)
theory Image_Store
  imports Image_Download
begin

text \<open>
  The image store of \<open>src/apps/tmdb-images/src/image.rs\<close>: publication through a temporary file beside
  the destination and a rename, in a directory whose components are all real directories. The file
  tree is that of \<open>Media_Layout\<close>; what the operating system answers at each path, the temporary
  name and the canonical paths are the fields of \<open>store_env\<close>. Other processes may change the tree
  while the temporary file is written: \<open>others\<close> is an arbitrary change at that point of every path
  but the temporary file, whose name (a fresh UUID) no other process uses.
\<close>

section \<open>Errors\<close>

datatype storage_operation =
    CheckDestination | ReadDestinationMetadata | VerifyExistingDigest | PrepareDestinationDirectory
  | CreateTemporaryFile | WriteTemporaryFile | SyncTemporaryFile | PublishDestination

definition operation_text :: "storage_operation \<Rightarrow> string" where
  "operation_text o1 =
     (case o1 of CheckDestination \<Rightarrow> ''check_destination''
      | ReadDestinationMetadata \<Rightarrow> ''read_destination_metadata''
      | VerifyExistingDigest \<Rightarrow> ''verify_existing_digest''
      | PrepareDestinationDirectory \<Rightarrow> ''prepare_destination_directory''
      | CreateTemporaryFile \<Rightarrow> ''create_temporary_file''
      | WriteTemporaryFile \<Rightarrow> ''write_temporary_file''
      | SyncTemporaryFile \<Rightarrow> ''sync_temporary_file''
      | PublishDestination \<Rightarrow> ''publish_destination'')"

datatype image_storage_error =
    InvalidRoot | Payload_invalid | DigestMismatch | Io storage_operation io_kind | DestinationConflict

record store_env =
  lstat_error :: "string \<Rightarrow> io_kind option"
  create_dir_error :: "string \<Rightarrow> io_kind option"
  canonical :: "string \<Rightarrow> io_kind + string"
  read_error :: "string \<Rightarrow> io_kind option"
  create_new_error :: "string \<Rightarrow> io_kind option"
  write_all_error :: "string \<Rightarrow> (io_kind \<times> string) option"
  sync_all_error :: "string \<Rightarrow> io_kind option"
  rename_error :: "string \<Rightarrow> io_kind option"
  remove_file_error :: "string \<Rightarrow> io_kind option"
  uuid_text :: string
  others :: "file_tree \<Rightarrow> file_tree"
  store_sha256 :: "string \<Rightarrow> string"

section \<open>Metadata\<close>

record image_metadata =
  md_entity_type :: image_entity_type
  md_entity_id :: int
  md_kind :: image_kind
  md_tmdb_path :: string
  md_language :: "string option"
  md_source_revision :: "string option"
  md_source_url :: string
  md_mime_type :: string
  md_byte_size :: nat
  md_width :: "32 word"
  md_height :: "32 word"
  md_sha256 :: string
  md_storage_path :: string
  md_source :: image_source

record stored_image =
  st_metadata :: image_metadata
  st_deduplicated :: bool

definition hex_chars :: string where "hex_chars = ''0123456789abcdef''"

definition as_hex :: "string \<Rightarrow> string" where
  "as_hex digest = concat (map (\<lambda>c. [hex_chars ! (byte c div 16), hex_chars ! (byte c mod 16)]) digest)"

section \<open>Directories\<close>

definition symlink_metadata :: "store_env \<Rightarrow> file_tree \<Rightarrow> string \<Rightarrow> io_kind + node" where
  "symlink_metadata env t p =
     (case lstat_error env p of Some k \<Rightarrow> Inl k | None \<Rightarrow> ok_or io_kind.NotFound (t p))"

definition io_failed :: "storage_operation \<Rightarrow> io_kind \<Rightarrow> image_storage_error" where
  "io_failed operation k = Io operation k"

definition create_safe_directory_component ::
    "store_env \<Rightarrow> string \<Rightarrow> file_tree \<Rightarrow> (image_storage_error + unit) \<times> file_tree" where
  "create_safe_directory_component env p t =
     (case (if t p \<noteq> None then Some AlreadyExists else create_dir_error env p) of
        Some k \<Rightarrow>
          if k \<noteq> AlreadyExists then (Inl (io_failed PrepareDestinationDirectory k), t)
          else (bindR (map_errR (io_failed PrepareDestinationDirectory) (symlink_metadata env t p))
                  (\<lambda>n. guardR (n = Dir) DestinationConflict), t)
      | None \<Rightarrow>
          let t = t(p \<mapsto> Dir) in
          (bindR (map_errR (io_failed PrepareDestinationDirectory) (symlink_metadata env t p))
             (\<lambda>n. guardR (n = Dir) DestinationConflict), t))"

text \<open>The check of one directory, which creates it when it is missing.\<close>

definition ensure_directory ::
    "store_env \<Rightarrow> string \<Rightarrow> file_tree \<Rightarrow> (image_storage_error + unit) \<times> file_tree" where
  "ensure_directory env p t =
     (case symlink_metadata env t p of
        Inr n \<Rightarrow> (guardR (n = Dir) DestinationConflict, t)
      | Inl k \<Rightarrow>
          if k = io_kind.NotFound then create_safe_directory_component env p t
          else (Inl (io_failed PrepareDestinationDirectory k), t))"

fun ensure_components ::
    "store_env \<Rightarrow> string \<Rightarrow> path_component list \<Rightarrow> file_tree \<Rightarrow>
     (image_storage_error + unit) \<times> file_tree" where
  "ensure_components env current [] t = (Inr (), t)"
| "ensure_components env current (c # cs) t =
     (case c of
        Normal name \<Rightarrow>
          (case ensure_directory env (path_push current name) t of
             (Inl e, t) \<Rightarrow> (Inl e, t)
           | (Inr _, t) \<Rightarrow> ensure_components env (path_push current name) cs t)
      | _ \<Rightarrow> (Inl InvalidRoot, t))"

fun strip_components :: "path_component list \<Rightarrow> path_component list \<Rightarrow> path_component list option" where
  "strip_components [] ds = Some ds"
| "strip_components (c # cs) (d # ds) = (if c = d then strip_components cs ds else None)"
| "strip_components _ _ = None"

definition prepare_safe_directory ::
    "store_env \<Rightarrow> string \<Rightarrow> string \<Rightarrow> file_tree \<Rightarrow> (image_storage_error + unit) \<times> file_tree" where
  "prepare_safe_directory env root directory t =
     (case strip_components (path_components root) (path_components directory) of
        None \<Rightarrow> (Inl InvalidRoot, t)
      | Some relative \<Rightarrow>
          (case ensure_directory env root t of
             (Inl e, t) \<Rightarrow> (Inl e, t)
           | (Inr _, t) \<Rightarrow>
               (case ensure_components env root relative t of
                  (Inl e, t) \<Rightarrow> (Inl e, t)
                | (Inr _, t) \<Rightarrow>
                    (bindR (map_errR (io_failed PrepareDestinationDirectory) (canonical env root)) (\<lambda>r.
                     bindR (map_errR (io_failed PrepareDestinationDirectory) (canonical env directory)) (\<lambda>d.
                     guardR (strip_components (path_components r) (path_components d) \<noteq> None)
                       DestinationConflict)), t))))"

section \<open>Publication\<close>

datatype publish_outcome = Published | AlreadyPresent

text \<open>\<open>Path::parent\<close> of a path without trailing or repeated slashes, as the layout builds them.\<close>

definition parent_path :: "string \<Rightarrow> string option" where
  "parent_path p =
     (case rev (split_on (CHR ''/'') p) of [] \<Rightarrow> None
      | name # ds \<Rightarrow> if p = [] then None else Some (join_with ''/'' (rev ds)))"

definition file_matches_digest ::
    "store_env \<Rightarrow> string \<Rightarrow> string \<Rightarrow> file_tree \<Rightarrow> image_storage_error + bool" where
  "file_matches_digest env p expected t =
     (case read_error env p of
        Some k \<Rightarrow> Inl (io_failed VerifyExistingDigest k)
      | None \<Rightarrow>
          (case t p of
             Some (Regular content) \<Rightarrow> Inr (store_sha256 env content = expected)
           | _ \<Rightarrow> Inl (io_failed VerifyExistingDigest Other_io)))"

text \<open>Whether the destination already holds the image: \<open>Some\<close> outcome, or a file must be written.\<close>

definition check_destination ::
    "store_env \<Rightarrow> string \<Rightarrow> string \<Rightarrow> file_tree \<Rightarrow> image_storage_error + publish_outcome option" where
  "check_destination env destination digest t =
     (case symlink_metadata env t destination of
        Inr (Regular _) \<Rightarrow>
          mapR (\<lambda>same. if same then Some AlreadyPresent else None)
            (file_matches_digest env destination digest t)
      | Inr _ \<Rightarrow> Inl DestinationConflict
      | Inl k \<Rightarrow> if k = io_kind.NotFound then Inr None else Inl (io_failed CheckDestination k))"

definition write_temporary ::
    "store_env \<Rightarrow> string \<Rightarrow> string \<Rightarrow> file_tree \<Rightarrow> (image_storage_error + unit) \<times> file_tree" where
  "write_temporary env temporary body t =
     (case (if t temporary \<noteq> None then Some AlreadyExists else create_new_error env temporary) of
        Some k \<Rightarrow> (Inl (io_failed CreateTemporaryFile k), t)
      | None \<Rightarrow>
          (case write_all_error env temporary of
             Some (k, part) \<Rightarrow> (Inl (io_failed WriteTemporaryFile k), t(temporary \<mapsto> Regular part))
           | None \<Rightarrow>
               (case sync_all_error env temporary of
                  Some k \<Rightarrow> (Inl (io_failed SyncTemporaryFile k), t(temporary \<mapsto> Regular body))
                | None \<Rightarrow> (Inr (), t(temporary \<mapsto> Regular body)))))"

definition remove_quietly :: "store_env \<Rightarrow> string \<Rightarrow> file_tree \<Rightarrow> file_tree" where
  "remove_quietly env p t =
     (case t p of
        None \<Rightarrow> t | Some Dir \<Rightarrow> t
      | Some _ \<Rightarrow> if remove_file_error env p = None then t(p := None) else t)"

text \<open>\<open>rename\<close> replaces a file or a link, atomically; a directory is not replaced.\<close>

definition rename_file ::
    "store_env \<Rightarrow> string \<Rightarrow> string \<Rightarrow> file_tree \<Rightarrow> (image_storage_error + unit) \<times> file_tree" where
  "rename_file env source target t =
     (case (case t source of None \<Rightarrow> Some io_kind.NotFound
            | Some _ \<Rightarrow> if t target = Some Dir then Some Other_io else rename_error env source) of
        Some k \<Rightarrow> (Inl (io_failed PublishDestination k), t)
      | None \<Rightarrow> (Inr (), t(target := t source, source := None)))"

text \<open>From the written temporary file to the destination; a failure removes the temporary file.\<close>

definition place_temporary ::
    "store_env \<Rightarrow> string \<Rightarrow> string \<Rightarrow> string \<Rightarrow> string \<Rightarrow> file_tree \<Rightarrow>
     (image_storage_error + publish_outcome) \<times> file_tree" where
  "place_temporary env root parent temporary destination t =
     (case (case prepare_safe_directory env root parent t of
              (Inl e, t) \<Rightarrow> (Inl e, t)
            | (Inr _, t) \<Rightarrow> rename_file env temporary destination t) of
        (Inl e, t) \<Rightarrow> (Inl e, remove_quietly env temporary t)
      | (Inr _, t) \<Rightarrow> (Inr Published, t))"

definition replace_destination ::
    "store_env \<Rightarrow> string \<Rightarrow> string \<Rightarrow> string \<Rightarrow> string \<Rightarrow> file_tree \<Rightarrow>
     (image_storage_error + publish_outcome) \<times> file_tree" where
  "replace_destination env root parent destination body t =
     (let temporary = path_push parent (''.'' @ uuid_text env @ ''.tmp'') in
      case write_temporary env temporary body t of
        (Inl e, t) \<Rightarrow> (Inl e, remove_quietly env temporary t)
      | (Inr _, t) \<Rightarrow>
          place_temporary env root parent temporary destination
            ((others env t)(temporary := t temporary)))"

definition publish_inner ::
    "store_env \<Rightarrow> string \<Rightarrow> string \<Rightarrow> string \<Rightarrow> string \<Rightarrow> file_tree \<Rightarrow>
     (image_storage_error + publish_outcome) \<times> file_tree" where
  "publish_inner env root destination body digest t =
     (case parent_path destination of
        None \<Rightarrow> (Inl InvalidRoot, t)
      | Some parent \<Rightarrow>
          (case prepare_safe_directory env root parent t of
             (Inl e, t) \<Rightarrow> (Inl e, t)
           | (Inr _, t) \<Rightarrow>
               (case check_destination env destination digest t of
                  Inl e \<Rightarrow> (Inl e, t)
                | Inr (Some outcome) \<Rightarrow> (Inr outcome, t)
                | Inr None \<Rightarrow> replace_destination env root parent destination body t)))"

definition backslash_to_slash :: "string \<Rightarrow> string" where
  "backslash_to_slash s = map (\<lambda>c. if c = CHR 0x5C then CHR ''/'' else c) s"

definition publish ::
    "store_env \<Rightarrow> (string \<Rightarrow> url option) \<Rightarrow> string \<Rightarrow> image_payload \<Rightarrow> downloaded_image \<Rightarrow> file_tree \<Rightarrow>
     (image_storage_error + stored_image) \<times> file_tree" where
  "publish env urls root p img t =
     (if \<not> is_ok (validate urls p) then (Inl Payload_invalid, t)
      else if store_sha256 env (di_body img) \<noteq> di_digest img then (Inl DigestMismatch, t)
      else case semantic_path p (di_mime_type img) of
        None \<Rightarrow> (Inl Payload_invalid, t)
      | Some relative \<Rightarrow>
          (case publish_inner env root (path_push root relative) (di_body img) (di_digest img) t of
             (Inl e, t) \<Rightarrow> (Inl e, t)
           | (Inr outcome, t) \<Rightarrow>
               (Inr \<lparr>st_metadata = \<lparr>md_entity_type = ip_entity_type p, md_entity_id = ip_entity_id p,
                  md_kind = ip_kind p, md_tmdb_path = ip_tmdb_path p, md_language = ip_language p,
                  md_source_revision = ip_source_revision p, md_source_url = ip_source_url p,
                  md_mime_type = di_mime_type img, md_byte_size = length (di_body img),
                  md_width = di_width img, md_height = di_height img,
                  md_sha256 = as_hex (di_digest img), md_storage_path = backslash_to_slash relative,
                  md_source = di_source img\<rparr>, st_deduplicated = (outcome = AlreadyPresent)\<rparr>, t)))"

section \<open>Roots\<close>

text \<open>The last test of the source compares the path with its own components, which are equal.\<close>

definition validate_root :: "string \<Rightarrow> image_storage_error + string" where
  "validate_root p =
     (if \<not> starts_with p ''/'' \<or> char_of (0 :: nat) \<in> set p then Inl InvalidRoot
      else if list_ex (\<lambda>c. c = CurDir \<or> c = ParentDir) (path_components p) then Inl InvalidRoot
      else if \<not> list_ex (\<lambda>c. case c of Normal _ \<Rightarrow> True | _ \<Rightarrow> False) (path_components p)
      then Inl InvalidRoot
      else Inr p)"

definition image_store_fixed :: "image_storage_error + string" where
  "image_store_fixed = validate_root ''/media''"

section \<open>What the steps change\<close>

text \<open>Directories are only added, and only below the root.\<close>

lemma symlink_metadata_ok: "symlink_metadata env t p = Inr n \<Longrightarrow> t p = Some n"
  by (auto simp: symlink_metadata_def result_simps split: option.splits)

lemma create_component_result:
  assumes "create_safe_directory_component env p t = (r, t')"
  shows "(t' = t \<or> t p = None \<and> t' = t(p \<mapsto> Dir)) \<and> (r = Inr u \<longrightarrow> t' p = Some Dir)"
  using assms
  by (auto simp: create_safe_directory_component_def Let_def result_simps split: option.splits if_splits
      dest!: symlink_metadata_ok)

lemma ensure_directory_result:
  assumes "ensure_directory env p t = (r, t')"
  shows "(t' = t \<or> t p = None \<and> t' = t(p \<mapsto> Dir)) \<and> (r = Inr u \<longrightarrow> t' p = Some Dir)"
  using assms create_component_result [of env p t r t' u]
  by (auto simp: ensure_directory_def result_simps split: sum.splits if_splits dest!: symlink_metadata_ok)

text \<open>The directories that the walk visits.\<close>

fun visited :: "string \<Rightarrow> path_component list \<Rightarrow> string list" where
  "visited current [] = []"
| "visited current (c # cs) =
     (case c of Normal name \<Rightarrow> path_push current name # visited (path_push current name) cs | _ \<Rightarrow> [])"

definition only_dirs_added :: "string set \<Rightarrow> file_tree \<Rightarrow> file_tree \<Rightarrow> bool" where
  "only_dirs_added ps t t' \<longleftrightarrow> (\<forall>x. t' x = t x \<or> x \<in> ps \<and> t x = None \<and> t' x = Some Dir)"

lemma only_dirs_added_simps [simp]: "only_dirs_added ps t t"
  by (simp add: only_dirs_added_def)

lemma only_dirs_added_trans:
  "only_dirs_added ps t t1 \<Longrightarrow> only_dirs_added qs t1 t2 \<Longrightarrow> only_dirs_added (ps \<union> qs) t t2"
  unfolding only_dirs_added_def by (metis UnCI option.distinct(1))

lemma only_dirs_added_Dir: "only_dirs_added ps t t' \<Longrightarrow> t x = Some Dir \<Longrightarrow> t' x = Some Dir"
  unfolding only_dirs_added_def by (metis option.distinct(1))

lemma only_dirs_added_file: "only_dirs_added ps t t' \<Longrightarrow> t x = Some n \<Longrightarrow> t' x = Some n"
  unfolding only_dirs_added_def by (metis option.distinct(1))

lemma ensure_directory_adds:
  assumes "ensure_directory env p t = (r, t')"
  shows "only_dirs_added {p} t t' \<and> (r = Inr u \<longrightarrow> t' p = Some Dir)"
  using ensure_directory_result [OF assms, of u] by (auto simp: only_dirs_added_def split: if_splits)

lemma ensure_components_adds:
  "ensure_components env current cs t = (r, t') \<Longrightarrow>
   only_dirs_added (set (visited current cs)) t t' \<and>
   (r = Inr u \<longrightarrow> (\<forall>p\<in>set (visited current cs). t' p = Some Dir))"
proof (induction cs arbitrary: current t)
  case (Cons c cs)
  show ?case
  proof (cases c)
    case (Normal name)
    let ?p = "path_push current name"
    obtain q t1 where q: "ensure_directory env ?p t = (q, t1)" by (cases "ensure_directory env ?p t") auto
    note first = ensure_directory_adds [OF q, of u]
    show ?thesis
    proof (cases q)
      case (Inl e)
      then have "t' = t1" "r = Inl e" using Cons.prems q Normal by auto
      then show ?thesis using first Normal by (auto simp: only_dirs_added_def)
    next
      case (Inr v)
      then have "ensure_components env ?p cs t1 = (r, t')" using Cons.prems q Normal by simp
      from Cons.IH [OF this] first Inr show ?thesis
        using only_dirs_added_trans [of "{?p}" t t1] only_dirs_added_Dir Normal by fastforce
    qed
  qed (use Cons.prems in auto)
qed simp

text \<open>The chain of directories from the root to \<open>directory\<close>.\<close>

definition directory_chain :: "string \<Rightarrow> string \<Rightarrow> string list" where
  "directory_chain root directory =
     root # (case strip_components (path_components root) (path_components directory) of
       None \<Rightarrow> [] | Some relative \<Rightarrow> visited root relative)"

lemma prepare_safe_directory_adds:
  assumes "prepare_safe_directory env root directory t = (r, t')"
  shows "only_dirs_added (set (directory_chain root directory)) t t' \<and>
    (r = Inr u \<longrightarrow> (\<forall>p\<in>set (directory_chain root directory). t' p = Some Dir))"
proof (cases "strip_components (path_components root) (path_components directory)")
  case None
  then show ?thesis using assms by (auto simp: prepare_safe_directory_def)
next
  case (Some relative)
  obtain q t1 where q: "ensure_directory env root t = (q, t1)" by (cases "ensure_directory env root t") auto
  obtain q2 t2 where q2: "ensure_components env root relative t1 = (q2, t2)"
    by (cases "ensure_components env root relative t1") auto
  note one = ensure_directory_adds [OF q, of u] and two = ensure_components_adds [OF q2, of u]
  have chain: "set (directory_chain root directory) = {root} \<union> set (visited root relative)"
    using Some by (simp add: directory_chain_def)
  have t': "t' = (if is_ok q then t2 else t1)"
    using assms q q2 Some by (auto simp: prepare_safe_directory_def split: sum.splits)
  have ok: "r = Inr u \<Longrightarrow> is_ok q \<and> q2 = Inr u"
    using assms q q2 Some by (auto simp: prepare_safe_directory_def split: sum.splits)
  show ?thesis
  proof (cases "is_ok q")
    case True
    then obtain v where "q = Inr v" by (auto simp: is_ok_iff)
    with one two t' True ok chain only_dirs_added_trans [of "{root}" t t1] only_dirs_added_Dir
    show ?thesis by fastforce
  next
    case False
    then have "r \<noteq> Inr u" using ok by blast
    then show ?thesis using False one t' chain by (auto simp: only_dirs_added_def)
  qed
qed

lemma write_temporary_result:
  assumes "write_temporary env tmp body t = (r, t')"
  shows "(\<forall>x. x \<noteq> tmp \<longrightarrow> t' x = t x) \<and> (r = Inr u \<longrightarrow> t' tmp = Some (Regular body)) \<and>
    (t' tmp = t tmp \<or> (\<exists>c. t' tmp = Some (Regular c)))"
  using assms by (auto simp: write_temporary_def split: option.splits if_splits)

lemma remove_quietly_other: "x \<noteq> p \<Longrightarrow> remove_quietly env p t x = t x"
  by (auto simp: remove_quietly_def split: option.splits node.splits)

lemma remove_quietly_gone:
  "remove_file_error env p = None \<Longrightarrow> t p \<noteq> Some Dir \<Longrightarrow> remove_quietly env p t p = None"
  by (auto simp: remove_quietly_def split: option.splits node.splits)

lemma rename_file_result:
  assumes "rename_file env src tgt t = (r, t')" "src \<noteq> tgt"
  shows "(r = Inr u \<longrightarrow> t src \<noteq> None \<and> t' = t(tgt := t src, src := None)) \<and> (\<not> is_ok r \<longrightarrow> t' = t)"
  using assms by (auto simp: rename_file_def split: option.splits if_splits)

text \<open>
  The outcome of a publication: what is at the destination, that the directories above it are
  directories, that the temporary file is gone, and that nothing else was touched (a path holds
  what it held, or what another process put there).
\<close>

definition publication ::
    "store_env \<Rightarrow> string list \<Rightarrow> string \<Rightarrow> string \<Rightarrow> string \<Rightarrow> file_tree \<Rightarrow>
     (image_storage_error + publish_outcome) \<Rightarrow> file_tree \<Rightarrow> bool" where
  "publication env chain tmp destination body t r t' \<longleftrightarrow>
     (case r of
        Inr outcome \<Rightarrow>
          (\<exists>b. t' destination = Some (Regular b) \<and> store_sha256 env b = store_sha256 env body \<and>
            (outcome = Published \<longrightarrow> b = body)) \<and>
          (\<forall>p\<in>set chain. t' p = Some Dir)
      | Inl e \<Rightarrow> t' destination = t destination \<or> (\<exists>u. t' destination = others env u destination)) \<and>
     (t tmp = None \<and> remove_file_error env tmp = None \<longrightarrow> t' tmp = None) \<and>
     (\<forall>x. x \<notin> set chain \<and> x \<noteq> tmp \<and> x \<noteq> destination \<longrightarrow> t' x = t x \<or> (\<exists>u. t' x = others env u x))"

lemma only_dirs_added_other: "only_dirs_added ps t t' \<Longrightarrow> x \<notin> ps \<Longrightarrow> t' x = t x"
  by (auto simp: only_dirs_added_def)

text \<open>A failed publication: everything but the temporary file is as it was.\<close>

lemma publication_failed:
  assumes "\<And>x. x \<notin> set chain \<Longrightarrow> x \<noteq> tmp \<Longrightarrow> t' x = t x \<or> (\<exists>u. t' x = others env u x)"
    and "t tmp = None \<Longrightarrow> remove_file_error env tmp = None \<Longrightarrow> t' tmp = None"
    and "tmp \<noteq> destination" "destination \<notin> set chain"
  shows "publication env chain tmp destination body t (Inl e) t'"
  using assms by (auto simp: publication_def)

text \<open>The contract of the publication, for the paths of one destination.\<close>

locale publication_paths =
  fixes env :: store_env and root parent destination tmp :: string and chain :: "string list"
  assumes parent: "parent_path destination = Some parent"
    and tmp: "tmp = path_push parent (''.'' @ uuid_text env @ ''.tmp'')"
    and chain: "chain = directory_chain root parent"
    and distinct: "tmp \<noteq> destination" "destination \<notin> set chain" "tmp \<notin> set chain"
begin

lemma prepare:
  assumes "prepare_safe_directory env root parent t = (q, t')"
  shows "(\<forall>x. x \<notin> set chain \<longrightarrow> t' x = t x) \<and> (q = Inr u \<longrightarrow> (\<forall>p\<in>set chain. t' p = Some Dir))"
  using prepare_safe_directory_adds [OF assms, of u] only_dirs_added_other chain by blast

lemma place:
  assumes "place_temporary env root parent tmp destination t = (r, t')" "t tmp = Some (Regular body)"
  shows "(\<forall>x. x \<notin> set chain \<and> x \<noteq> tmp \<and> x \<noteq> destination \<longrightarrow> t' x = t x) \<and>
    (remove_file_error env tmp = None \<or> is_ok r \<longrightarrow> t' tmp = None) \<and>
    (case r of Inr outcome \<Rightarrow> outcome = Published \<and> t' destination = Some (Regular body) \<and>
         (\<forall>p\<in>set chain. t' p = Some Dir)
     | Inl _ \<Rightarrow> t' destination = t destination)"
proof -
  obtain q t1 where q: "prepare_safe_directory env root parent t = (q, t1)"
    by (cases "prepare_safe_directory env root parent t") auto
  obtain q2 t2 where q2: "rename_file env tmp destination t1 = (q2, t2)"
    by (cases "rename_file env tmp destination t1") auto
  note p = prepare [OF q] and n = rename_file_result [OF q2 distinct(1)]
  have t1: "t1 tmp = Some (Regular body)" using p distinct assms(2) by auto
  note gone = remove_quietly_gone [of env tmp t1] and kept = remove_quietly_other [of _ tmp env t1]
  show ?thesis
  proof (cases "is_ok q \<and> is_ok q2")
    case False
    then have "\<exists>e. r = Inl e" "t' = remove_quietly env tmp t1"
      using assms(1) q q2 n by (auto simp: place_temporary_def split: sum.splits)
    then show ?thesis using p t1 gone kept distinct by (auto split: sum.splits)
  next
    case True
    then have "r = Inr Published" "t' = t2" "q = Inr ()" "q2 = Inr ()"
      using assms(1) q q2 by (auto simp: place_temporary_def is_ok_iff)
    then show ?thesis using p n t1 distinct by auto
  qed
qed

lemma replace:
  assumes "replace_destination env root parent destination body t = (r, t')"
    and "\<forall>x. x \<notin> set chain \<longrightarrow> t x = t0 x"
  shows "publication env chain tmp destination body t0 r t'"
proof -
  obtain q t1 where q: "write_temporary env tmp body t = (q, t1)" by (cases "write_temporary env tmp body t") auto
  note w = write_temporary_result [OF q]
  show ?thesis
  proof (cases q)
    case (Inl e)
    then have "r = Inl e" "t' = remove_quietly env tmp t1"
      using assms(1) q tmp by (auto simp: replace_destination_def Let_def)
    then show ?thesis
      using w assms(2) distinct remove_quietly_other [of _ tmp env t1] remove_quietly_gone [of env tmp t1]
      by (auto intro!: publication_failed)
  next
    case (Inr u)
    then have run: "place_temporary env root parent tmp destination ((others env t1)(tmp := t1 tmp)) = (r, t')"
      using assms(1) q tmp by (simp add: replace_destination_def Let_def)
    have "((others env t1)(tmp := t1 tmp)) tmp = Some (Regular body)" using w Inr by simp
    note p = place [OF run this]
    show ?thesis
    proof (cases r)
      case Inl
      then show ?thesis using p distinct by (auto intro!: publication_failed)
    next
      case Inr
      then show ?thesis using p distinct by (auto simp: publication_def)
    qed
  qed
qed

theorem inner:
  assumes "publish_inner env root destination body (store_sha256 env body) t = (r, t')"
  shows "publication env chain tmp destination body t r t'"
proof -
  obtain q t1 where q: "prepare_safe_directory env root parent t = (q, t1)"
    by (cases "prepare_safe_directory env root parent t") auto
  note p = prepare [OF q]
  have failed: "publication env chain tmp destination body t (Inl e) t1" for e
    using p distinct by (auto intro!: publication_failed)
  let ?check = "check_destination env destination (store_sha256 env body) t1"
  show ?thesis
  proof (cases q)
    case (Inl e)
    then have "r = Inl e" "t' = t1" using assms parent q by (simp_all add: publish_inner_def)
    then show ?thesis using failed by simp
  next
    case (Inr u)
    have run: "(case ?check of Inl e \<Rightarrow> (Inl e, t1) | Inr (Some outcome) \<Rightarrow> (Inr outcome, t1)
       | Inr None \<Rightarrow> replace_destination env root parent destination body t1) = (r, t')"
      using assms parent q Inr by (simp add: publish_inner_def)
    show ?thesis
    proof (cases ?check)
      case (Inl e)
      then show ?thesis using run failed by auto
    next
      case check: (Inr found)
      show ?thesis
      proof (cases found)
        case None
        then show ?thesis using run check replace p by simp
      next
        case (Some outcome)
        then have "outcome = AlreadyPresent \<and>
            (\<exists>b. t1 destination = Some (Regular b) \<and> store_sha256 env b = store_sha256 env body)"
          using check
          by (auto simp: check_destination_def file_matches_digest_def result_simps
              split: sum.splits node.splits option.splits if_splits dest!: symlink_metadata_ok)
        then show ?thesis using Some run check p Inr distinct by (auto simp: publication_def)
      qed
    qed
  qed
qed

end

section \<open>The paths of the layout\<close>

lemma split_on_not_Nil [simp]: "split_on d s \<noteq> []"
  by (induction s) (auto split: list.splits)

lemma split_on_append_sep: "split_on d (a @ d # b) = split_on d a @ split_on d b"
proof (induction a)
  case (Cons c cs)
  then show ?case by (cases "split_on d cs") auto
qed simp

lemma join_with_head: "join_with sep ((c # w) # ws) = c # join_with sep (w # ws)"
  by (cases ws) auto

lemma join_split [simp]: "join_with [d] (split_on d s) = s"
proof (induction s)
  case (Cons c cs)
  then show ?case by (cases "split_on d cs") (auto simp: join_with_head)
qed simp

definition slashed :: "string list \<Rightarrow> string" where
  "slashed ws = concat (map (\<lambda>w. CHR ''/'' # w) ws)"

definition segments_ok :: "string list \<Rightarrow> bool" where
  "segments_ok ws \<longleftrightarrow> list_all (\<lambda>w. w \<noteq> [] \<and> hd w \<noteq> CHR ''.'' \<and> CHR ''/'' \<notin> set w) ws"

lemma join_slashed: "join_with ''/'' (w # ws) = w @ slashed ws"
  by (induction ws arbitrary: w) (simp_all add: slashed_def)

lemma slashed_Nil [simp]: "slashed [] = []"
  by (simp add: slashed_def)

lemma slashed_append [simp]: "slashed (vs @ ws) = slashed vs @ slashed ws"
  by (simp add: slashed_def)

lemma split_slashed:
  "CHR ''/'' \<notin> set w \<Longrightarrow> segments_ok ws \<Longrightarrow> split_on (CHR ''/'') (w @ slashed ws) = w # ws"
  unfolding join_slashed [symmetric] by (rule split_on_join) (auto simp: segments_ok_def list_all_iff)

text \<open>Paths below the media root.\<close>

definition media_path :: "string list \<Rightarrow> string" where
  "media_path ws = ''/media'' @ slashed ws"

lemma split_media_path: "segments_ok ws \<Longrightarrow> split_on (CHR ''/'') (media_path ws) = [] # ''media'' # ws"
  using split_slashed [of "''media''" ws] by (simp add: media_path_def)

lemma media_path_components:
  assumes "segments_ok ws"
  shows "path_components (media_path ws) = [RootDir, Normal ''media''] @ map Normal ws"
proof -
  have ok: "\<And>w. w \<in> set ws \<Longrightarrow> classify w = Normal w \<and> w \<noteq> [] \<and> w \<noteq> ''.''"
    using assms by (auto simp: segments_ok_def list_all_iff classify_def)
  then have "filter (\<lambda>t. t \<noteq> [] \<and> t \<noteq> ''.'') ws = ws" by (auto simp: filter_id_conv)
  moreover have "map classify ws = map Normal ws" using ok by auto
  moreover have "starts_with (media_path ws) ''/''" by (simp add: media_path_def)
  ultimately show ?thesis
    by (simp add: path_components_def split_media_path [OF assms] classify_def)
qed

lemma strip_components_append [simp]: "strip_components cs (cs @ ds) = Some ds"
  by (induction cs) auto

lemma media_path_push:
  assumes "segments_ok ws" "w \<noteq> []" "hd w \<noteq> CHR ''/''"
  shows "path_push (media_path ws) w = media_path ws @ CHR ''/'' # w"
proof -
  have "last (media_path ws) \<noteq> CHR ''/''"
  proof (cases ws rule: rev_cases)
    case (snoc vs v)
    then have "v \<noteq> []" "CHR ''/'' \<notin> set v" using assms(1) by (auto simp: segments_ok_def)
    then show ?thesis using snoc by (auto simp: media_path_def slashed_def dest: last_no_sep)
  qed (simp add: media_path_def slashed_def)
  then have "\<not> suffix ''/'' (media_path ws)" by (auto simp: suffix_def)
  moreover have "\<not> prefix ''/'' w" using assms(2,3) by (cases w) auto
  moreover have "media_path ws \<noteq> []" by (simp add: media_path_def)
  ultimately show ?thesis by (simp add: path_push_def)
qed

lemma visited_media:
  "segments_ok (vs @ ws) \<Longrightarrow> x \<in> set (visited (media_path vs) (map Normal ws)) \<Longrightarrow>
   length x \<le> length (media_path (vs @ ws))"
proof (induction ws arbitrary: vs)
  case (Cons w ws)
  have w: "segments_ok vs" "w \<noteq> []" "hd w \<noteq> CHR ''/''"
    using Cons.prems(1) by (auto simp: segments_ok_def dest: hd_in_set)
  then have push: "path_push (media_path vs) w = media_path (vs @ [w])"
    by (simp add: media_path_push) (simp add: media_path_def slashed_def)
  show ?case
  proof (cases "x = media_path (vs @ [w])")
    case True
    then show ?thesis by (simp add: media_path_def slashed_def)
  next
    case False
    then have "x \<in> set (visited (media_path (vs @ [w])) (map Normal ws))" using Cons.prems(2) push by simp
    with Cons.IH [of "vs @ [w]"] Cons.prems(1) show ?thesis by simp
  qed
qed simp

lemma chain_shorter:
  assumes "segments_ok ws" "x \<in> set (directory_chain ''/media'' (media_path ws))"
  shows "length x \<le> length (media_path ws)"
proof -
  have root: "''/media'' = media_path []" by (simp add: media_path_def slashed_def)
  have "strip_components (path_components (media_path [])) (path_components (media_path ws)) = Some (map Normal ws)"
    using media_path_components [OF assms(1)] media_path_components [of "[]"]
    by (simp add: segments_ok_def)
  then have "x = media_path [] \<or> x \<in> set (visited (media_path []) (map Normal ws))"
    using assms(2) unfolding root directory_chain_def by simp
  then show ?thesis using visited_media [of "[]" ws x] assms(1) by (auto simp: media_path_def)
qed

lemma parent_media_path:
  assumes "segments_ok (ws @ [w])"
  shows "parent_path (media_path (ws @ [w])) = Some (media_path ws)"
proof -
  have "join_with ''/'' ([] # ''media'' # ws) = media_path ws"
    by (simp add: join_slashed media_path_def slashed_def)
  moreover have "media_path (ws @ [w]) \<noteq> []" by (simp add: media_path_def)
  ultimately show ?thesis by (simp add: parent_path_def split_media_path [OF assms])
qed

section \<open>Images are published below the media root\<close>

definition asset_directory :: "asset \<Rightarrow> string" where
  "asset_directory a = media_path (asset_dirs a)"

definition asset_destination :: "asset \<Rightarrow> string" where
  "asset_destination a = media_path (asset_dirs a @ [asset_name a])"

definition asset_temporary :: "store_env \<Rightarrow> asset \<Rightarrow> string" where
  "asset_temporary env a = path_push (asset_directory a) (''.'' @ uuid_text env @ ''.tmp'')"

definition asset_chain :: "asset \<Rightarrow> string list" where
  "asset_chain a = directory_chain ''/media'' (asset_directory a)"

lemma asset_segments_ok: "segments_ok (asset_dirs a @ [asset_name a])"
  using asset_segments_visible [of a] asset_segments [of a]
  by (auto simp: segments_ok_def list_all_iff)

lemma asset_dirs_ok: "segments_ok (asset_dirs a)"
  using asset_segments_ok [of a] by (simp add: segments_ok_def)

lemma asset_temporary_path: "asset_temporary env a = asset_directory a @ CHR ''/'' # (''.'' @ uuid_text env @ ''.tmp'')"
  by (simp add: asset_temporary_def asset_directory_def media_path_push [OF asset_dirs_ok])

lemma asset_destination_path: "asset_destination a = asset_directory a @ CHR ''/'' # asset_name a"
  by (simp add: asset_destination_def asset_directory_def media_path_def slashed_def)

interpretation media: publication_paths env "''/media''" "asset_directory a" "asset_destination a"
  "asset_temporary env a" "asset_chain a" for env a
proof
  show "parent_path (asset_destination a) = Some (asset_directory a)"
    unfolding asset_destination_def asset_directory_def by (rule parent_media_path) (rule asset_segments_ok)
  have "hd (asset_name a) \<noteq> CHR ''.''" "asset_name a \<noteq> []"
    using asset_segments_ok [of a] by (simp_all add: segments_ok_def)
  then show "asset_temporary env a \<noteq> asset_destination a"
    unfolding asset_temporary_path asset_destination_path by (auto dest!: sym [of _ "asset_name a"])
  have "length x \<le> length (asset_directory a)" if "x \<in> set (asset_chain a)" for x
    using chain_shorter [OF asset_dirs_ok] that by (simp add: asset_chain_def asset_directory_def)
  then show "asset_destination a \<notin> set (asset_chain a)" "asset_temporary env a \<notin> set (asset_chain a)"
    unfolding asset_temporary_path asset_destination_path by fastforce+
qed (simp_all add: asset_temporary_def asset_chain_def)

lemma asset_destination_push:
  assumes "asset_path a = Inr relative"
  shows "path_push ''/media'' relative = asset_destination a"
proof -
  obtain w ws where segs: "asset_dirs a @ [asset_name a] = w # ws"
    by (cases "asset_dirs a @ [asset_name a]") auto
  have rel: "relative = w @ slashed ws"
    using assms segs by (auto simp: asset_path_join join_slashed split: if_splits)
  have "w \<noteq> []" "hd w \<noteq> CHR ''/''"
    using asset_segments_ok [of a] unfolding segs by (auto simp: segments_ok_def dest: hd_in_set)
  then have "path_push (media_path []) relative = media_path [] @ CHR ''/'' # relative"
    unfolding rel by (intro media_path_push) (auto simp: segments_ok_def)
  then show ?thesis using segs rel by (simp add: asset_destination_def media_path_def slashed_def)
qed

lemma publish_cases:
  assumes "publish env urls ''/media'' p img t = (r, t')" "semantic_path p (di_mime_type img) = Some relative"
    and "asset_path a = Inr relative"
  obtains (refused) e where "r = Inl e" "t' = t"
  | (failed) e where "r = Inl e"
      "publication env (asset_chain a) (asset_temporary env a) (asset_destination a) (di_body img) t (Inl e) t'"
  | (stored) outcome s where "r = Inr s" "st_deduplicated s = (outcome = AlreadyPresent)"
      "md_sha256 (st_metadata s) = as_hex (di_digest img)" "store_sha256 env (di_body img) = di_digest img"
      "publication env (asset_chain a) (asset_temporary env a) (asset_destination a) (di_body img) t (Inr outcome) t'"
proof (cases "is_ok (validate urls p) \<and> store_sha256 env (di_body img) = di_digest img")
  case False
  then have "\<exists>e. r = Inl e" "t' = t" using assms(1) by (auto simp: publish_def split: if_splits)
  then show thesis using refused by blast
next
  case True
  obtain q u where q: "publish_inner env ''/media'' (asset_destination a) (di_body img) (di_digest img) t = (q, u)"
    by (cases "publish_inner env ''/media'' (asset_destination a) (di_body img) (di_digest img) t") auto
  then have pub: "publication env (asset_chain a) (asset_temporary env a) (asset_destination a) (di_body img) t q u"
    using media.inner [of env a "di_body img" t q u] True by simp
  show thesis
  proof (cases q)
    case (Inl e)
    then have "r = Inl e" "t' = u"
      using assms True q asset_destination_push [OF assms(3)] by (auto simp: publish_def)
    then show thesis using failed pub Inl by simp
  next
    case (Inr outcome)
    then have "\<exists>s. r = Inr s \<and> st_deduplicated s = (outcome = AlreadyPresent) \<and>
        md_sha256 (st_metadata s) = as_hex (di_digest img)" "t' = u"
      using assms True q asset_destination_push [OF assms(3)] by (auto simp: publish_def)
    then show thesis using stored pub Inr True by auto
  qed
qed

section \<open>A second publication\<close>

lemma ensure_directory_lstat: "ensure_directory env p t = (Inr u, t') \<Longrightarrow> lstat_error env p = None"
  by (auto simp: ensure_directory_def create_safe_directory_component_def symlink_metadata_def Let_def
      result_simps split: sum.splits option.splits if_splits)

lemma ensure_directory_again: "lstat_error env p = None \<Longrightarrow> t p = Some Dir \<Longrightarrow> ensure_directory env p t = (Inr (), t)"
  by (simp add: ensure_directory_def symlink_metadata_def)

lemma ensure_components_again:
  assumes "ensure_components env current cs t = (Inr u, t1)"
    and "\<forall>p\<in>set (visited current cs). t' p = Some Dir"
  shows "ensure_components env current cs t' = (Inr (), t')"
  using assms
proof (induction cs arbitrary: current t)
  case (Cons c cs)
  then obtain name where c: "c = Normal name" by (cases c) auto
  then obtain v t2 where v: "ensure_directory env (path_push current name) t = (Inr v, t2)"
      "ensure_components env (path_push current name) cs t2 = (Inr u, t1)"
    using Cons.prems(1) by (auto split: prod.splits sum.splits)
  then have "ensure_directory env (path_push current name) t' = (Inr (), t')"
    using Cons.prems(2) c by (intro ensure_directory_again) (auto dest: ensure_directory_lstat)
  then show ?case using Cons.IH [OF v(2)] Cons.prems(2) c by simp
qed simp

lemma prepare_safe_directory_again:
  assumes "prepare_safe_directory env root directory t = (Inr u, t1)"
    and "\<forall>p\<in>set (directory_chain root directory). t' p = Some Dir"
  shows "prepare_safe_directory env root directory t' = (Inr (), t')"
proof -
  obtain relative where rel: "strip_components (path_components root) (path_components directory) = Some relative"
    using assms(1) by (auto simp: prepare_safe_directory_def split: option.splits)
  then have dirs: "t' root = Some Dir" "\<forall>p\<in>set (visited root relative). t' p = Some Dir"
    using assms(2) by (auto simp: directory_chain_def)
  obtain v t2 where v: "ensure_directory env root t = (Inr v, t2)"
    using assms(1) rel by (auto simp: prepare_safe_directory_def split: prod.splits sum.splits)
  obtain w t3 where w: "ensure_components env root relative t2 = (Inr w, t3)"
    using assms(1) rel v by (auto simp: prepare_safe_directory_def split: prod.splits sum.splits)
  have "ensure_directory env root t' = (Inr (), t')"
    using ensure_directory_again ensure_directory_lstat [OF v] dirs(1) by blast
  moreover have "ensure_components env root relative t' = (Inr (), t')"
    using ensure_components_again [OF w dirs(2)] .
  ultimately show ?thesis
    using assms(1) rel v w by (simp add: prepare_safe_directory_def)
qed

lemma publish_prepared:
  assumes "publish env urls root p img t = (Inr s, t')" "semantic_path p (di_mime_type img) = Some relative"
    and "parent_path (path_push root relative) = Some parent"
  shows "\<exists>u t1. prepare_safe_directory env root parent t = (Inr u, t1)"
  using assms
  by (auto simp: publish_def publish_inner_def split: if_splits prod.splits sum.splits)

lemma publish_deduplicated:
  assumes "publish env urls root p img t = (Inr s, t')" "semantic_path p (di_mime_type img) = Some relative"
    and "publish_inner env root (path_push root relative) (di_body img) (di_digest img) t2 = (Inr AlreadyPresent, t2)"
  shows "publish env urls root p img t2 = (Inr (s\<lparr>st_deduplicated := True\<rparr>), t2)"
  using assms by (auto simp: publish_def split: if_splits prod.splits sum.splits)

section \<open>Properties\<close>


definition demo_store :: store_env where
  "demo_store = \<lparr>lstat_error = (\<lambda>p. None), create_dir_error = (\<lambda>p. None), canonical = Inr,
     read_error = (\<lambda>p. None), create_new_error = (\<lambda>p. None), write_all_error = (\<lambda>p. None),
     sync_all_error = (\<lambda>p. None), rename_error = (\<lambda>p. None), remove_file_error = (\<lambda>p. None),
     uuid_text = ''0'', others = (\<lambda>t. t(''/media/x'' \<mapsto> Dir)), store_sha256 = (\<lambda>s. ''dddddddddddddddddddddddddddddddd'')\<rparr>"

definition demo_relative :: string where
  "demo_relative = ''tv/7/thumbnails/season-specials-episode03-thumbnails.png''"

lemma demo_relative_path: "semantic_path demo_payload (di_mime_type demo_image) = Some demo_relative"
  by code_simp

lemma demo_publish:
  obtains s t' where "publish demo_store demo_urls ''/media'' demo_payload demo_image (\<lambda>x. None) = (Inr s, t')"
    "\<not> st_deduplicated s"
proof -
  have "(case publish demo_store demo_urls ''/media'' demo_payload demo_image (\<lambda>x. None) of
     (Inr s, t') \<Rightarrow> \<not> st_deduplicated s | _ \<Rightarrow> False)" by code_simp
  then show thesis using that by (auto split: prod.splits sum.splits)
qed


text \<open>Publishing an image a second time (a retried job) changes nothing: the store answers with the
  same metadata, marked as deduplicated, and the file tree stays as it is.\<close>

theorem republication_changes_nothing:
  assumes "publish env urls ''/media'' p img t = (Inr s, t')"
    and "semantic_path p (di_mime_type img) = Some relative"
    and "lstat_error env (path_push ''/media'' relative) = None"
    and "read_error env (path_push ''/media'' relative) = None"
  shows "publish env urls ''/media'' p img t' = (Inr (s\<lparr>st_deduplicated := True\<rparr>), t')"
proof -
  obtain a where a: "asset_path a = Inr relative" using assms(2) semantic_path_asset [of p] by blast
  note dest = asset_destination_push [OF a] and parent = media.parent [of a]
  obtain u t1 where "prepare_safe_directory env ''/media'' (asset_directory a) t = (Inr u, t1)"
    using publish_prepared [OF assms(1,2)] dest parent by auto
  moreover obtain b where b: "t' (asset_destination a) = Some (Regular b)" "store_sha256 env b = di_digest img"
      "\<forall>d\<in>set (asset_chain a). t' d = Some Dir"
    using assms(1,2) a by (cases rule: publish_cases) (auto simp: publication_def)
  ultimately have "prepare_safe_directory env ''/media'' (asset_directory a) t' = (Inr (), t')"
    using prepare_safe_directory_again by (simp add: asset_chain_def)
  then have "publish_inner env ''/media'' (asset_destination a) (di_body img) (di_digest img) t' = (Inr AlreadyPresent, t')"
    using assms(3,4) b dest parent
    by (simp add: publish_inner_def check_destination_def symlink_metadata_def file_matches_digest_def)
  then show ?thesis using publish_deduplicated [OF assms(1,2)] dest by simp
qed

theorem republication_changes_nothing_witness:
  "\<exists>s t'. publish demo_store demo_urls ''/media'' demo_payload demo_image t' = (Inr (s\<lparr>st_deduplicated := True\<rparr>), t')"
proof -
  obtain s t' where run: "publish demo_store demo_urls ''/media'' demo_payload demo_image (\<lambda>x. None) = (Inr s, t')"
    using demo_publish .
  from republication_changes_nothing [OF run demo_relative_path] show ?thesis by (auto simp: demo_store_def)
qed

end
