(* ===== verification/Image_Catalog.thy ===== *)
theory Image_Catalog
  imports Image_Store Job_Repository
begin

text \<open>
  The catalog rows of images: \<open>persist_ready\<close> of \<open>src/apps/tmdb-images/src/persistence.rs\<close> over the
  tables \<open>assets.image_assets\<close> and \<open>assets.pending_file_deletions\<close>, with the SQL functions of
  migration 0052 that it and the request coordinator call. Timestamps are microseconds; whether a
  statement fails is a field of \<open>persist_env\<close>.
\<close>

section \<open>Tables\<close>

record owner_title =
  tr_id :: int
  tr_media_type :: string
  tr_tmdb_id :: int
  tr_active :: bool

text \<open>A season or an episode: its identifier and its title.\<close>

type_synonym part_row = "int \<times> int"

record owner_tables =
  ot_titles :: "owner_title list"
  ot_people :: "int list"
  ot_companies :: "int list"
  ot_networks :: "int list"
  ot_collections :: "int list"
  ot_seasons :: "part_row list"
  ot_episodes :: "part_row list"
  ot_languages :: "string list"

record owner_ids =
  oi_title :: "int option"
  oi_person :: "int option"
  oi_company :: "int option"
  oi_network :: "int option"
  oi_collection :: "int option"
  oi_season :: "int option"
  oi_episode :: "int option"

definition owner_default :: owner_ids where
  "owner_default = \<lparr>oi_title = None, oi_person = None, oi_company = None, oi_network = None,
     oi_collection = None, oi_season = None, oi_episode = None\<rparr>"

text \<open>The generated columns \<open>owner_type\<close> and \<open>owner_id\<close> of migration 0018.\<close>

definition row_owner_type :: "owner_ids \<Rightarrow> int" where
  "row_owner_type o1 =
     (if oi_title o1 \<noteq> None then 1 else if oi_person o1 \<noteq> None then 2
      else if oi_company o1 \<noteq> None then 3 else if oi_network o1 \<noteq> None then 4
      else if oi_collection o1 \<noteq> None then 5 else if oi_season o1 \<noteq> None then 6
      else if oi_episode o1 \<noteq> None then 7 else 0)"

fun coalesce :: "'a option list \<Rightarrow> 'a \<Rightarrow> 'a" where
  "coalesce [] d = d"
| "coalesce (None # xs) d = coalesce xs d"
| "coalesce (Some x # xs) d = x"

definition row_owner_id :: "owner_ids \<Rightarrow> int" where
  "row_owner_id o1 =
     coalesce [oi_title o1, oi_person o1, oi_company o1, oi_network o1, oi_collection o1, oi_season o1,
       oi_episode o1] 0"

datatype asset_status = Asset_pending | Asset_downloading | Asset_ready | Asset_failed

record asset_row =
  ar_id :: nat
  ar_owner :: owner_ids
  ar_kind :: string
  ar_source :: string
  ar_key :: string
  ar_url :: "string option"
  ar_path :: "string option"
  ar_mime_type :: "string option"
  ar_width :: "int option"
  ar_height :: "int option"
  ar_bytes :: "int option"
  ar_sha256 :: "string option"
  ar_gallery :: int
  ar_status :: asset_status
  ar_language :: "string option"
  ar_downloaded_at :: "int option"
  ar_verified_at :: "int option"

record deletion_row =
  dl_id :: nat
  dl_item :: "int option"
  dl_owner :: "int \<times> int"
  dl_path :: string

record media_db =
  owners :: owner_tables
  asset_rows :: "asset_row list"
  next_asset :: nat
  deletions :: "deletion_row list"
  next_deletion :: nat

definition asset_owner :: "asset_row \<Rightarrow> int \<times> int" where
  "asset_owner r = (row_owner_type (ar_owner r), row_owner_id (ar_owner r))"

text \<open>The two unique constraints: a source of an owner, and a slot of its gallery.\<close>

definition source_identity :: "asset_row \<Rightarrow> string \<times> string \<times> int \<times> int" where
  "source_identity r = (ar_source r, ar_key r, asset_owner r)"

definition slot_identity :: "asset_row \<Rightarrow> (int \<times> int) \<times> string \<times> int" where
  "slot_identity r = (asset_owner r, ar_kind r, ar_gallery r)"

section \<open>Validation\<close>

datatype persist_error = Persist_invalid | OwnerNotFound | LanguageNotFound | Persist_database

definition is_obsolete_layout :: "string \<Rightarrow> bool" where
  "is_obsolete_layout p \<longleftrightarrow>
     starts_with p ''optimized/'' \<or> contains p ''/optimized/'' \<or> starts_with p ''.masters/'' \<or>
     contains p ''/.masters/''"

definition safe_storage_path :: "string \<Rightarrow> bool" where
  "safe_storage_path v \<longleftrightarrow>
     v \<noteq> [] \<and> char_count v \<le> 512 \<and> \<not> has_control v \<and> CHR 0x5C \<notin> set v \<and> \<not> starts_with v ''/'' \<and>
     list_all (\<lambda>c. case c of Normal s \<Rightarrow> \<not> starts_with s ''.'' | _ \<Rightarrow> False) (path_components v)"

definition digest_text_ok :: "string \<Rightarrow> bool" where
  "digest_text_ok s \<longleftrightarrow> length s = 64 \<and> list_all is_hexdigit s"

definition validate_metadata ::
    "(string \<Rightarrow> url option) \<Rightarrow> image_payload \<Rightarrow> image_metadata \<Rightarrow> persist_error + unit" where
  "validate_metadata urls p m =
     bindR (map_errR (\<lambda>_. Persist_invalid) (validate urls p)) (\<lambda>_.
     if md_entity_type m \<noteq> ip_entity_type p \<or> md_entity_id m \<noteq> ip_entity_id p \<or> md_kind m \<noteq> ip_kind p \<or>
        md_tmdb_path m \<noteq> ip_tmdb_path p \<or> md_language m \<noteq> ip_language p \<or>
        md_source_revision m \<noteq> ip_source_revision p \<or> md_source_url m \<noteq> ip_source_url p \<or>
        md_byte_size m = 0 \<or> md_width m = 0 \<or> md_height m = 0 \<or>
        md_mime_type m \<notin> {''image/jpeg'', ''image/png'', ''image/webp''} \<or>
        \<not> digest_text_ok (md_sha256 m) \<or> \<not> safe_storage_path (md_storage_path m) \<or>
        is_obsolete_layout (md_storage_path m)
     then Inl Persist_invalid else Inr ())"

section \<open>Owners\<close>

definition active_title :: "owner_tables \<Rightarrow> string \<Rightarrow> int \<Rightarrow> int option" where
  "active_title db media i =
     map_option tr_id (find (\<lambda>t. tr_media_type t = media \<and> tr_tmdb_id t = i \<and> tr_active t) (ot_titles db))"

text \<open>A season or an episode joined with its title, an active show with this TMDB identifier.\<close>

definition part_of_show :: "owner_tables \<Rightarrow> part_row list \<Rightarrow> int \<Rightarrow> int option \<Rightarrow> int option" where
  "part_of_show db parts i show_id =
     (case find (\<lambda>(part, title_key). part = i \<and>
        list_ex (\<lambda>t. tr_id t = title_key \<and> tr_media_type t = ''tv'' \<and> Some (tr_tmdb_id t) = show_id \<and>
          tr_active t) (ot_titles db)) parts of
        None \<Rightarrow> None | Some (part, _) \<Rightarrow> Some part)"

definition owner_row :: "owner_tables \<Rightarrow> image_payload \<Rightarrow> int option" where
  "owner_row db p =
     (let i = ip_entity_id p; member = (\<lambda>ids. find (\<lambda>j. j = i) ids) in
      case ip_entity_type p of
        EntityMovie \<Rightarrow> active_title db ''movie'' i
      | EntityTv \<Rightarrow> active_title db ''tv'' i
      | EntityPerson \<Rightarrow> member (ot_people db)
      | EntityCompany \<Rightarrow> member (ot_companies db)
      | EntityNetwork \<Rightarrow> member (ot_networks db)
      | EntityCollection \<Rightarrow> member (ot_collections db)
      | EntitySeason \<Rightarrow> part_of_show db (ot_seasons db) i (ip_title_tmdb_id p)
      | EntityEpisode \<Rightarrow> part_of_show db (ot_episodes db) i (ip_title_tmdb_id p))"

definition owner_ids_of :: "image_entity_type \<Rightarrow> int \<Rightarrow> owner_ids" where
  "owner_ids_of e i =
     (case e of
        EntityMovie \<Rightarrow> owner_default\<lparr>oi_title := Some i\<rparr>
      | EntityTv \<Rightarrow> owner_default\<lparr>oi_title := Some i\<rparr>
      | EntityPerson \<Rightarrow> owner_default\<lparr>oi_person := Some i\<rparr>
      | EntityCompany \<Rightarrow> owner_default\<lparr>oi_company := Some i\<rparr>
      | EntityNetwork \<Rightarrow> owner_default\<lparr>oi_network := Some i\<rparr>
      | EntityCollection \<Rightarrow> owner_default\<lparr>oi_collection := Some i\<rparr>
      | EntitySeason \<Rightarrow> owner_default\<lparr>oi_season := Some i\<rparr>
      | EntityEpisode \<Rightarrow> owner_default\<lparr>oi_episode := Some i\<rparr>)"

definition resolve_owner :: "bool \<Rightarrow> owner_tables \<Rightarrow> image_payload \<Rightarrow> persist_error + owner_ids" where
  "resolve_owner query_ok db p =
     bindR (guardR query_ok Persist_database) (\<lambda>_.
     bindR (ok_or OwnerNotFound (owner_row db p)) (\<lambda>i.
     Inr (owner_ids_of (ip_entity_type p) i)))"

definition owner_identity :: "image_entity_type \<Rightarrow> owner_ids \<Rightarrow> persist_error + int \<times> int" where
  "owner_identity e owner =
     (let (t, i) =
        (case e of
           EntityMovie \<Rightarrow> (1, oi_title owner) | EntityTv \<Rightarrow> (1, oi_title owner)
         | EntityPerson \<Rightarrow> (2, oi_person owner) | EntityCompany \<Rightarrow> (3, oi_company owner)
         | EntityNetwork \<Rightarrow> (4, oi_network owner) | EntityCollection \<Rightarrow> (5, oi_collection owner)
         | EntitySeason \<Rightarrow> (6, oi_season owner) | EntityEpisode \<Rightarrow> (7, oi_episode owner))
      in bindR (ok_or OwnerNotFound i) (\<lambda>i. Inr (t, i)))"

definition resolve_language :: "bool \<Rightarrow> owner_tables \<Rightarrow> string option \<Rightarrow> persist_error + string option" where
  "resolve_language query_ok db language =
     (case language of
        None \<Rightarrow> Inr None
      | Some l \<Rightarrow>
          if \<not> (2 \<le> char_count l \<and> char_count l \<le> 3) \<or> \<not> is_ascii l then Inl Persist_invalid
          else let l = to_ascii_lowercase l in
            bindR (guardR query_ok Persist_database) (\<lambda>_.
            mapR Some (ok_or LanguageNotFound (find (\<lambda>x. x = l) (ot_languages db)))))"

definition db_image_kind :: "image_kind \<Rightarrow> string" where
  "db_image_kind k =
     (case k of KindPoster \<Rightarrow> ''poster'' | KindBackdrop \<Rightarrow> ''backdrop'' | KindStill \<Rightarrow> ''still''
      | KindProfile \<Rightarrow> ''profile'' | KindLogo \<Rightarrow> ''logo'' | KindOther \<Rightarrow> ''other'')"

section \<open>Replacements\<close>

text \<open>The checks of the SQL functions on texts: allowed characters, length, no dot segments.\<close>

definition path_char :: "char \<Rightarrow> bool" where
  "path_char c \<longleftrightarrow> is_alpha c \<or> is_digit c \<or> c = CHR ''.'' \<or> c = CHR ''_'' \<or> c = CHR ''/'' \<or> c = CHR ''-''"

definition dot_segment :: "string \<Rightarrow> bool" where
  "dot_segment s \<longleftrightarrow> list_ex (\<lambda>w. w = ''.'' \<or> w = ''..'') (split_on (CHR ''/'') s)"

definition deletion_path_ok :: "string \<Rightarrow> bool" where
  "deletion_path_ok s \<longleftrightarrow>
     s \<noteq> [] \<and> list_all path_char s \<and> char_count s \<le> 512 \<and> \<not> dot_segment s"

definition source_key_ok :: "string \<Rightarrow> bool" where
  "source_key_ok s \<longleftrightarrow>
     starts_with s ''/'' \<and> 2 \<le> length s \<and> list_all path_char s \<and> char_count s \<le> 500"

definition media_kinds :: "string list" where
  "media_kinds = [''poster'', ''backdrop'', ''logo'', ''profile'', ''still'', ''other'']"

text \<open>An insertion \<open>ON CONFLICT (storage_path) DO NOTHING\<close>; the identity counts conflicts too.\<close>

definition queue_deletion :: "int option \<Rightarrow> int \<times> int \<Rightarrow> string \<Rightarrow> media_db \<Rightarrow> media_db" where
  "queue_deletion item owner path db =
     db\<lparr>next_deletion := Suc (next_deletion db),
        deletions := (if path \<in> dl_path ` set (deletions db) then deletions db
          else deletions db @ [\<lparr>dl_id = next_deletion db, dl_item = item, dl_owner = owner, dl_path = path\<rparr>])\<rparr>"

definition replaced_paths :: "int \<times> int \<Rightarrow> string \<Rightarrow> int \<Rightarrow> string \<Rightarrow> string \<Rightarrow> asset_row list \<Rightarrow> string list" where
  "replaced_paths owner kind index key new_path rows =
     concat (map (\<lambda>r. case ar_path r of
         None \<Rightarrow> []
       | Some path \<Rightarrow>
           if asset_owner r = owner \<and> path \<noteq> new_path \<and>
              ((ar_source r = ''tmdb'' \<and> ar_key r = key) \<or> (ar_kind r = kind \<and> ar_gallery r = index))
           then [path] else []) rows)"

text \<open>\<open>None\<close> is an exception, which aborts the transaction.\<close>

definition queue_image_asset_replacements ::
    "int \<Rightarrow> int \<Rightarrow> string \<Rightarrow> int \<Rightarrow> string \<Rightarrow> string \<Rightarrow> media_db \<Rightarrow> (bool \<times> media_db) option" where
  "queue_image_asset_replacements owner_type owner_key kind index key new_path db =
     (if \<not> (1 \<le> owner_type \<and> owner_type \<le> 7) \<or> owner_key \<le> 0 \<or> kind \<notin> set media_kinds \<or> index \<le> 0 \<or>
         \<not> source_key_ok key \<or> \<not> deletion_path_ok new_path
      then None
      else
        let paths = replaced_paths (owner_type, owner_key) kind index key new_path (asset_rows db) in
        if \<not> list_all deletion_path_ok paths then None
        else
          let db = fold (queue_deletion None (owner_type, owner_key)) paths db in
          Some (True, db\<lparr>asset_rows := filter (\<lambda>r. \<not> (slot_identity r = ((owner_type, owner_key), kind, index) \<and>
            \<not> (ar_source r = ''tmdb'' \<and> ar_key r = key))) (asset_rows db)\<rparr>))"

section \<open>Upserting the row\<close>

text \<open>The checks of the table on a row, and its two unique constraints.\<close>

definition row_check :: "asset_row \<Rightarrow> bool" where
  "row_check r \<longleftrightarrow>
     length (filter (\<lambda>i. i \<noteq> None) [oi_title (ar_owner r), oi_person (ar_owner r), oi_company (ar_owner r),
       oi_network (ar_owner r), oi_collection (ar_owner r), oi_season (ar_owner r), oi_episode (ar_owner r)]) = 1 \<and>
     ar_kind r \<in> set (''avatar'' # media_kinds) \<and> 0 < ar_gallery r \<and>
     pred_option (\<lambda>w. 0 < w) (ar_width r) \<and> pred_option (\<lambda>h. 0 < h) (ar_height r) \<and>
     pred_option (\<lambda>n. 0 \<le> n) (ar_bytes r) \<and> pred_option digest_text_ok (ar_sha256 r) \<and>
     (ar_status r = Asset_ready \<longrightarrow> ar_downloaded_at r \<noteq> None) \<and>
     pred_option (\<lambda>s. 1 \<le> char_count s \<and> char_count s \<le> 512 \<and> \<not> has_control s \<and> CHR 0x5C \<notin> set s \<and>
       \<not> list_ex (\<lambda>w. starts_with w ''.'' \<or> w = ''optimized'') (split_on (CHR ''/'') s)) (ar_path r)"

definition conflicts_slot :: "asset_row \<Rightarrow> asset_row list \<Rightarrow> bool" where
  "conflicts_slot r rows \<longleftrightarrow> list_ex (\<lambda>x. slot_identity x = slot_identity r) rows"

definition upsert_asset :: "asset_row \<Rightarrow> media_db \<Rightarrow> media_db option" where
  "upsert_asset r db =
     (let others = filter (\<lambda>x. source_identity x \<noteq> source_identity r) (asset_rows db) in
      if \<not> row_check r \<or> conflicts_slot r others then None
      else
        (case find (\<lambda>x. source_identity x = source_identity r) (asset_rows db) of
           None \<Rightarrow> Some (db\<lparr>asset_rows := asset_rows db @ [r\<lparr>ar_id := next_asset db\<rparr>],
                        next_asset := Suc (next_asset db)\<rparr>)
         | Some old \<Rightarrow>
             Some (db\<lparr>asset_rows := map (\<lambda>x. if source_identity x = source_identity r
                  then r\<lparr>ar_id := ar_id x\<rparr> else x) (asset_rows db),
                next_asset := Suc (next_asset db)\<rparr>)))"

record persist_env =
  pe_begin :: bool
  pe_owner :: bool
  pe_language :: bool
  pe_replacements :: bool
  pe_upsert :: bool
  pe_commit :: delivery
  pe_now :: int

definition ready_asset_row :: "persist_env \<Rightarrow> image_payload \<Rightarrow> image_metadata \<Rightarrow> owner_ids \<Rightarrow> string option \<Rightarrow> asset_row" where
  "ready_asset_row env p m owner language =
     \<lparr>ar_id = 0, ar_owner = owner, ar_kind = db_image_kind (ip_kind p), ar_source = ''tmdb'',
      ar_key = ip_tmdb_path p, ar_url = Some (ip_source_url p), ar_path = Some (md_storage_path m),
      ar_mime_type = Some (md_mime_type m), ar_width = Some (uint (md_width m)),
      ar_height = Some (uint (md_height m)), ar_bytes = Some (int (md_byte_size m)),
      ar_sha256 = Some (md_sha256 m), ar_gallery = int (ip_asset_index p), ar_status = Asset_ready,
      ar_language = language, ar_downloaded_at = Some (pe_now env), ar_verified_at = Some (pe_now env)\<rparr>"

definition persist_transaction ::
    "persist_env \<Rightarrow> image_payload \<Rightarrow> image_metadata \<Rightarrow> media_db \<Rightarrow> persist_error + media_db" where
  "persist_transaction env p m db =
     bindR (resolve_owner (pe_owner env) (owners db) p) (\<lambda>owner.
     bindR (owner_identity (ip_entity_type p) owner) (\<lambda>(owner_type, owner_key).
     bindR (resolve_language (pe_language env) (owners db) (ip_language p)) (\<lambda>language.
     if uint (md_width m) > 2147483647 \<or> uint (md_height m) > 2147483647 \<or> md_byte_size m > i64_max \<or>
        ip_asset_index p > 2147483647
     then Inl Persist_invalid
     else if \<not> pe_replacements env then Inl Persist_database
     else
       bindR (ok_or Persist_database (queue_image_asset_replacements owner_type owner_key
         (db_image_kind (ip_kind p)) (int (ip_asset_index p)) (ip_tmdb_path p) (md_storage_path m) db))
       (\<lambda>(queued, db).
       if \<not> queued \<or> \<not> pe_upsert env then Inl Persist_database
       else ok_or Persist_database (upsert_asset (ready_asset_row env p m owner language) db)))))"

definition persist_ready ::
    "persist_env \<Rightarrow> (string \<Rightarrow> url option) \<Rightarrow> image_payload \<Rightarrow> image_metadata \<Rightarrow> media_db \<Rightarrow>
     (persist_error + unit) \<times> media_db" where
  "persist_ready env urls p m db =
     (case validate_metadata urls p m of
        Inl e \<Rightarrow> (Inl e, db)
      | Inr _ \<Rightarrow>
          if \<not> pe_begin env then (Inl Persist_database, db)
          else
            (case persist_transaction env p m db of
               Inl e \<Rightarrow> (Inl e, db)
             | Inr db' \<Rightarrow>
                 (case pe_commit env of
                    Delivered \<Rightarrow> (Inr (), db')
                  | Failed _ \<Rightarrow> (Inl Persist_database, db)
                  | Reply_lost \<Rightarrow> (Inl Persist_database, db'))))"

section \<open>The invariant of the tables\<close>

definition media_db_ok :: "media_db \<Rightarrow> bool" where
  "media_db_ok db \<longleftrightarrow>
     distinct (map source_identity (asset_rows db)) \<and> distinct (map slot_identity (asset_rows db)) \<and>
     distinct (map dl_path (deletions db)) \<and> distinct (map dl_id (deletions db)) \<and>
     (\<forall>d\<in>set (deletions db). dl_id d < next_deletion db)"

definition stored_paths :: "media_db \<Rightarrow> string set" where
  "stored_paths db = {path. \<exists>r\<in>set (asset_rows db). ar_path r = Some path}"

definition pending_paths :: "media_db \<Rightarrow> string set" where
  "pending_paths db = dl_path ` set (deletions db)"

lemma queue_deletion_simps [simp]:
  "asset_rows (queue_deletion i w p db) = asset_rows db" "owners (queue_deletion i w p db) = owners db"
  "next_asset (queue_deletion i w p db) = next_asset db"
  "pending_paths (queue_deletion i w p db) = insert p (pending_paths db)"
  by (auto simp: queue_deletion_def pending_paths_def)

lemma fold_deletions [simp]:
  "asset_rows (fold (queue_deletion i w) ps db) = asset_rows db"
  "owners (fold (queue_deletion i w) ps db) = owners db"
  "next_asset (fold (queue_deletion i w) ps db) = next_asset db"
  "pending_paths (fold (queue_deletion i w) ps db) = set ps \<union> pending_paths db"
  by (induction ps arbitrary: db) auto

lemma queue_deletion_ok: "media_db_ok db \<Longrightarrow> media_db_ok (queue_deletion i w p db)"
  by (auto simp: media_db_ok_def queue_deletion_def less_Suc_eq)

lemma fold_deletions_ok: "media_db_ok db \<Longrightarrow> media_db_ok (fold (queue_deletion i w) ps db)"
  by (induction ps arbitrary: db) (auto intro: queue_deletion_ok)

lemma media_db_ok_rows:
  "media_db_ok (db\<lparr>asset_rows := rows\<rparr>) \<longleftrightarrow>
     distinct (map source_identity rows) \<and> distinct (map slot_identity rows) \<and>
     distinct (map dl_path (deletions db)) \<and> distinct (map dl_id (deletions db)) \<and>
     (\<forall>d\<in>set (deletions db). dl_id d < next_deletion db)"
  by (simp add: media_db_ok_def)

lemma replacements_result:
  assumes "queue_image_asset_replacements t i kind index key path db = Some (b, db')"
  shows "b" "owners db' = owners db" "next_asset db' = next_asset db"
    "asset_rows db' = filter (\<lambda>r. \<not> (slot_identity r = ((t, i), kind, index) \<and>
       \<not> (ar_source r = ''tmdb'' \<and> ar_key r = key))) (asset_rows db)"
    "pending_paths db' = set (replaced_paths (t, i) kind index key path (asset_rows db)) \<union> pending_paths db"
    "media_db_ok db \<Longrightarrow> media_db_ok db'"
proof -
  let ?ps = "replaced_paths (t, i) kind index key path (asset_rows db)"
  let ?db = "fold (queue_deletion None (t, i)) ?ps db"
  have db': "b" "db' = ?db\<lparr>asset_rows := filter (\<lambda>r. \<not> (slot_identity r = ((t, i), kind, index) \<and>
      \<not> (ar_source r = ''tmdb'' \<and> ar_key r = key))) (asset_rows db)\<rparr>"
    using assms by (auto simp: queue_image_asset_replacements_def Let_def split: if_splits)
  then show "b" "owners db' = owners db" "next_asset db' = next_asset db"
      "asset_rows db' = filter (\<lambda>r. \<not> (slot_identity r = ((t, i), kind, index) \<and>
        \<not> (ar_source r = ''tmdb'' \<and> ar_key r = key))) (asset_rows db)" by simp_all
  have "pending_paths db' = pending_paths ?db" using db' by (simp add: pending_paths_def)
  then show "pending_paths db' = set ?ps \<union> pending_paths db" by simp
  assume "media_db_ok db"
  moreover from this have "media_db_ok ?db" by (rule fold_deletions_ok)
  ultimately show "media_db_ok db'" using db'
    by (simp add: media_db_ok_rows distinct_map_filter) (simp add: media_db_ok_def distinct_map_filter)
qed

lemma replaced_paths_iff:
  "path \<in> set (replaced_paths owner kind index key new_path rows) \<longleftrightarrow>
     (\<exists>r\<in>set rows. ar_path r = Some path \<and> asset_owner r = owner \<and> path \<noteq> new_path \<and>
       ((ar_source r = ''tmdb'' \<and> ar_key r = key) \<or> (ar_kind r = kind \<and> ar_gallery r = index)))"
  unfolding replaced_paths_def
  by (simp only: set_concat set_map UN_iff bex_simps, rule bex_cong [OF refl]) (auto split: option.splits)

text \<open>The row a source of an owner has after an upsert; the others keep theirs.\<close>

lemma upsert_asset_rows:
  assumes "upsert_asset r db = Some db'" "distinct (map source_identity (asset_rows db))"
  obtains i where "r\<lparr>ar_id := i\<rparr> \<in> set (asset_rows db')"
    "set (asset_rows db') = insert (r\<lparr>ar_id := i\<rparr>) {x \<in> set (asset_rows db). source_identity x \<noteq> source_identity r}"
    "deletions db' = deletions db" "next_deletion db' = next_deletion db" "owners db' = owners db"
proof (cases "find (\<lambda>x. source_identity x = source_identity r) (asset_rows db)")
  case None
  then have "\<forall>x\<in>set (asset_rows db). source_identity x \<noteq> source_identity r" by (simp add: find_None_iff)
  then show thesis using assms(1) None
    by (intro that [of "next_asset db"]) (auto simp: upsert_asset_def Let_def split: if_splits)
next
  case (Some old)
  then have old: "old \<in> set (asset_rows db)" "source_identity old = source_identity r"
    by (auto simp: find_Some_iff)
  have only: "x \<in> set (asset_rows db) \<Longrightarrow> source_identity x = source_identity r \<longleftrightarrow> x = old" for x
    using assms(2) old by (auto simp: distinct_map inj_on_def)
  have "db' = db\<lparr>asset_rows := map (\<lambda>x. if source_identity x = source_identity r
      then r\<lparr>ar_id := ar_id x\<rparr> else x) (asset_rows db), next_asset := Suc (next_asset db)\<rparr>"
    using assms(1) Some by (simp add: upsert_asset_def Let_def split: if_splits)
  moreover have "(\<lambda>x. if source_identity x = source_identity r then r\<lparr>ar_id := ar_id x\<rparr> else x) ` set (asset_rows db) =
      insert (r\<lparr>ar_id := ar_id old\<rparr>) {x \<in> set (asset_rows db). source_identity x \<noteq> source_identity r}"
    using old(1) by (auto simp: only image_iff split: if_splits)
  ultimately show thesis by (intro that [of "ar_id old"]) simp_all
qed

lemma identity_update_id [simp]:
  "source_identity (r\<lparr>ar_id := i\<rparr>) = source_identity r" "slot_identity (r\<lparr>ar_id := i\<rparr>) = slot_identity r"
  by (simp_all add: source_identity_def slot_identity_def asset_owner_def)

lemma upsert_asset_ok:
  assumes "upsert_asset r db = Some db'" "media_db_ok db"
  shows "media_db_ok db'"
proof -
  have free: "\<forall>x\<in>set (asset_rows db). source_identity x \<noteq> source_identity r \<longrightarrow> slot_identity x \<noteq> slot_identity r"
    using assms(1) by (auto simp: upsert_asset_def Let_def conflicts_slot_def list_ex_iff split: if_splits)
  let ?f = "\<lambda>x. if source_identity x = source_identity r then r\<lparr>ar_id := ar_id x\<rparr> else x"
  consider (insert) "\<forall>x\<in>set (asset_rows db). source_identity x \<noteq> source_identity r"
      "asset_rows db' = asset_rows db @ [r\<lparr>ar_id := next_asset db\<rparr>]"
    | (update) "asset_rows db' = map ?f (asset_rows db)"
    using assms(1)
    by (auto simp: upsert_asset_def Let_def find_None_iff split: if_splits option.splits)
  then have "distinct (map source_identity (asset_rows db')) \<and> distinct (map slot_identity (asset_rows db'))"
  proof cases
    case insert
    then show ?thesis using assms(2) free by (auto simp: media_db_ok_def)
  next
    case update
    have "inj_on (slot_identity \<circ> ?f) (set (asset_rows db))"
      using assms(2) free by (auto simp: media_db_ok_def distinct_map inj_on_def)
    then have "distinct (map slot_identity (asset_rows db'))"
      using update assms(2) by (simp add: media_db_ok_def distinct_map)
    moreover have "source_identity (?f x) = source_identity x" for x by simp
    then have "map source_identity (asset_rows db') = map source_identity (asset_rows db)"
      unfolding update map_map comp_def by simp
    ultimately show ?thesis using assms(2) by (simp add: media_db_ok_def)
  qed
  moreover have "deletions db' = deletions db" "next_deletion db' = next_deletion db"
    using assms(1) by (auto simp: upsert_asset_def Let_def split: if_splits option.splits)
  ultimately show ?thesis using assms(2) by (simp add: media_db_ok_def)
qed

section \<open>What a persisted image changes\<close>

definition image_owner :: "image_entity_type \<Rightarrow> int \<Rightarrow> int \<times> int" where
  "image_owner e i = (row_owner_type (owner_ids_of e i), row_owner_id (owner_ids_of e i))"

lemma image_owner_identity: "owner_identity e (owner_ids_of e i) = Inr (image_owner e i)"
  by (cases e) (simp_all add: owner_identity_def owner_ids_of_def image_owner_def row_owner_type_def
      row_owner_id_def owner_default_def)

definition slot_of :: "media_db \<Rightarrow> image_payload \<Rightarrow> ((int \<times> int) \<times> string \<times> int) option" where
  "slot_of db p = map_option (\<lambda>i. (image_owner (ip_entity_type p) i, db_image_kind (ip_kind p), int (ip_asset_index p)))
     (owner_row (owners db) p)"

lemma slot_row:
  "asset_owner (ready_asset_row env p m (owner_ids_of e i) l) = image_owner e i"
  by (simp add: asset_owner_def ready_asset_row_def image_owner_def)

text \<open>
  A transaction that reaches its commit: the row of the source is in its slot, the rows that
  competed with it are gone, and a path no row holds any more is pending deletion.
\<close>

definition image_recorded :: "image_payload \<Rightarrow> image_metadata \<Rightarrow> media_db \<Rightarrow> media_db \<Rightarrow> bool" where
  "image_recorded p m db db' \<longleftrightarrow>
     (\<exists>row\<in>set (asset_rows db'). Some (slot_identity row) = slot_of db p \<and>
        ar_source row = ''tmdb'' \<and> ar_key row = ip_tmdb_path p \<and> ar_status row = Asset_ready \<and>
        ar_path row = Some (md_storage_path m) \<and> ar_sha256 row = Some (md_sha256 m) \<and>
        ar_bytes row = Some (int (md_byte_size m)) \<and> ar_mime_type row = Some (md_mime_type m) \<and>
        set (asset_rows db') = insert row {x \<in> set (asset_rows db).
          slot_identity x \<noteq> slot_identity row \<and> source_identity x \<noteq> source_identity row} \<and>
        (\<forall>x\<in>set (asset_rows db). \<forall>path. ar_path x = Some path \<and> path \<noteq> md_storage_path m \<and>
          (slot_identity x = slot_identity row \<or> source_identity x = source_identity row) \<longrightarrow>
          path \<in> pending_paths db')) \<and>
     pending_paths db \<subseteq> pending_paths db' \<and>
     owners db' = owners db"

lemma persist_transaction_parts:
  assumes "persist_transaction env p m db = Inr db'"
  obtains i language db1 where "owner_row (owners db) p = Some i"
    "resolve_language (pe_language env) (owners db) (ip_language p) = Inr language"
    "queue_image_asset_replacements (fst (image_owner (ip_entity_type p) i)) (snd (image_owner (ip_entity_type p) i))
       (db_image_kind (ip_kind p)) (int (ip_asset_index p)) (ip_tmdb_path p) (md_storage_path m) db = Some (True, db1)"
    "upsert_asset (ready_asset_row env p m (owner_ids_of (ip_entity_type p) i) language) db1 = Some db'"
proof -
  obtain owner where owner: "resolve_owner (pe_owner env) (owners db) p = Inr owner"
    using assms by (auto simp: persist_transaction_def result_simps)
  then obtain i where i: "owner_row (owners db) p = Some i" "owner = owner_ids_of (ip_entity_type p) i"
    by (auto simp: resolve_owner_def result_simps)
  have id: "owner_identity (ip_entity_type p) owner = Inr (image_owner (ip_entity_type p) i)"
    using i(2) image_owner_identity by simp
  obtain t j where tj: "image_owner (ip_entity_type p) i = (t, j)" by fastforce
  show thesis using assms owner id i that
    by (auto simp: persist_transaction_def result_simps tj split: if_splits)
qed

lemma persist_transaction_recorded:
  assumes "persist_transaction env p m db = Inr db'" "media_db_ok db"
  shows "image_recorded p m db db' \<and> media_db_ok db'"
proof -
  from assms(1) obtain i language db1 where i: "owner_row (owners db) p = Some i"
    and q: "queue_image_asset_replacements (fst (image_owner (ip_entity_type p) i))
       (snd (image_owner (ip_entity_type p) i)) (db_image_kind (ip_kind p)) (int (ip_asset_index p))
       (ip_tmdb_path p) (md_storage_path m) db = Some (True, db1)"
    and u: "upsert_asset (ready_asset_row env p m (owner_ids_of (ip_entity_type p) i) language) db1 = Some db'"
    by (rule persist_transaction_parts)
  let ?owner = "image_owner (ip_entity_type p) i" and ?kind = "db_image_kind (ip_kind p)"
  let ?index = "int (ip_asset_index p)" and ?key = "ip_tmdb_path p"
  let ?row = "ready_asset_row env p m (owner_ids_of (ip_entity_type p) i) language"
  note r = replacements_result [OF q, simplified]
  have ok1: "media_db_ok db1" using r(6) assms(2) by blast
  have distinct: "distinct (map source_identity (asset_rows db1))" using ok1 by (simp add: media_db_ok_def)
  from u distinct obtain k where u': "?row\<lparr>ar_id := k\<rparr> \<in> set (asset_rows db')"
      "set (asset_rows db') = insert (?row\<lparr>ar_id := k\<rparr>) {x \<in> set (asset_rows db1). source_identity x \<noteq> source_identity ?row}"
      "deletions db' = deletions db1" "owners db' = owners db1"
    by (rule upsert_asset_rows)
  have id: "slot_identity ?row = (?owner, ?kind, ?index)" "source_identity ?row = (''tmdb'', ?key, ?owner)"
    using slot_row [of env p m "ip_entity_type p" i language]
    by (simp_all add: slot_identity_def source_identity_def, simp_all add: ready_asset_row_def)
  have rows: "set (asset_rows db') = insert (?row\<lparr>ar_id := k\<rparr>) {x \<in> set (asset_rows db).
      slot_identity x \<noteq> slot_identity ?row \<and> source_identity x \<noteq> source_identity ?row}"
    unfolding u'(2) r(4) id
    by (auto simp: source_identity_def slot_identity_def)
  have pending: "pending_paths db' = pending_paths db1" using u'(3) by (simp add: pending_paths_def)
  obtain row where row: "row = ?row\<lparr>ar_id := k\<rparr>" by blast
  then have slot: "slot_identity row = slot_identity ?row" "source_identity row = source_identity ?row" by simp_all
  have paths: "\<forall>x\<in>set (asset_rows db). \<forall>path. ar_path x = Some path \<and> path \<noteq> md_storage_path m \<and>
      (slot_identity x = slot_identity row \<or> source_identity x = source_identity row) \<longrightarrow> path \<in> pending_paths db'"
    unfolding slot id pending r(5)
    by (auto simp: replaced_paths_iff slot_identity_def source_identity_def)
  have monotone: "pending_paths db \<subseteq> pending_paths db'" using pending r(5) by blast
  have fields: "ar_source row = ''tmdb''" "ar_key row = ?key" "ar_status row = Asset_ready"
      "ar_path row = Some (md_storage_path m)" "ar_sha256 row = Some (md_sha256 m)"
      "ar_bytes row = Some (int (md_byte_size m))" "ar_mime_type row = Some (md_mime_type m)"
    unfolding row by (simp_all add: ready_asset_row_def)
  have "Some (slot_identity row) = slot_of db p" using i id slot by (simp add: slot_of_def)
  with fields paths monotone u'(1) rows slot r(2) u'(4) have "image_recorded p m db db'"
    unfolding image_recorded_def row [symmetric] by (intro conjI bexI [of _ row]) simp_all
  then show ?thesis using upsert_asset_ok [OF u ok1] by blast
qed

lemma persist_ready_cases:
  assumes "persist_ready env urls p m db = (r, db')"
  obtains (kept) e where "r = Inl e" "db' = db"
  | (written) "validate_metadata urls p m = Inr ()" "persist_transaction env p m db = Inr db'"
      "r = Inr () \<or> (r = Inl Persist_database \<and> pe_commit env = Reply_lost)"
proof (cases "validate_metadata urls p m")
  case (Inr u)
  then show thesis using assms that
    by (cases "persist_transaction env p m db")
       (auto simp: persist_ready_def split: if_splits delivery.splits)
next
  case (Inl e)
  then have "r = Inl e" "db' = db" using assms by (simp_all add: persist_ready_def)
  then show thesis by (rule that)
qed

lemma image_recorded_forgets_nothing:
  assumes "image_recorded p m db db'"
  shows "stored_paths db \<subseteq> stored_paths db' \<union> pending_paths db'"
proof
  fix path assume "path \<in> stored_paths db"
  then obtain x where x: "x \<in> set (asset_rows db)" "ar_path x = Some path" by (auto simp: stored_paths_def)
  from assms obtain row where row: "row \<in> set (asset_rows db')" "ar_path row = Some (md_storage_path m)"
      "set (asset_rows db') = insert row {x \<in> set (asset_rows db).
         slot_identity x \<noteq> slot_identity row \<and> source_identity x \<noteq> source_identity row}"
      "\<forall>x\<in>set (asset_rows db). \<forall>path. ar_path x = Some path \<and> path \<noteq> md_storage_path m \<and>
        (slot_identity x = slot_identity row \<or> source_identity x = source_identity row) \<longrightarrow> path \<in> pending_paths db'"
    unfolding image_recorded_def by blast
  show "path \<in> stored_paths db' \<union> pending_paths db'"
  proof (cases "x \<in> set (asset_rows db')")
    case True
    then show ?thesis using x(2) by (auto simp: stored_paths_def)
  next
    case False
    then have "slot_identity x = slot_identity row \<or> source_identity x = source_identity row"
      using row(3) x(1) by blast
    then show ?thesis using row(1,2,4) x by (cases "path = md_storage_path m") (auto simp: stored_paths_def)
  qed
qed

section \<open>Properties\<close>

text \<open>A persisted image has exactly one row, in its slot, with the path, digest and size of the
  published file; rows that competed for the slot or the source are gone, and every path that lost
  its last row is queued for deletion. Both uniqueness constraints of the table and the identities
  of the queue are kept, and a failed transaction changes nothing unless only its reply was lost.\<close>

theorem persisted_image_recorded:
  assumes "persist_ready env urls p m db = (r, db')" "media_db_ok db"
  shows "media_db_ok db' \<and> stored_paths db \<subseteq> stored_paths db' \<union> pending_paths db' \<and>
    (r = Inr () \<longrightarrow> image_recorded p m db db') \<and> (is_ok r \<or> pe_commit env = Reply_lost \<or> db' = db)"
  using assms(1)
proof (cases rule: persist_ready_cases)
  case (kept e)
  then show ?thesis using assms(2) by auto
next
  case written
  then have "image_recorded p m db db' \<and> media_db_ok db'" using persist_transaction_recorded assms(2) by blast
  then show ?thesis using written(3) image_recorded_forgets_nothing by (metis is_ok_simps(2))
qed

definition demo_metadata :: "image_payload \<Rightarrow> string \<Rightarrow> image_metadata" where
  "demo_metadata p path = \<lparr>md_entity_type = ip_entity_type p, md_entity_id = ip_entity_id p, md_kind = ip_kind p,
     md_tmdb_path = ip_tmdb_path p, md_language = ip_language p, md_source_revision = ip_source_revision p,
     md_source_url = ip_source_url p, md_mime_type = ''image/png'', md_byte_size = 70, md_width = 1,
     md_height = 1, md_sha256 = replicate 64 (CHR ''a''), md_storage_path = path, md_source = Direct\<rparr>"

definition demo_owner_tables :: owner_tables where
  "demo_owner_tables = \<lparr>ot_titles = [\<lparr>tr_id = 1, tr_media_type = ''tv'', tr_tmdb_id = 7, tr_active = True\<rparr>],
     ot_people = [], ot_companies = [], ot_networks = [], ot_collections = [], ot_seasons = [],
     ot_episodes = [(9, 1)], ot_languages = []\<rparr>"

definition demo_media_db :: media_db where
  "demo_media_db = \<lparr>owners = demo_owner_tables, asset_rows = [], next_asset = 1, deletions = [], next_deletion = 1\<rparr>"

definition demo_persist_env :: persist_env where
  "demo_persist_env = \<lparr>pe_begin = True, pe_owner = True, pe_language = True, pe_replacements = True,
     pe_upsert = True, pe_commit = Delivered, pe_now = 0\<rparr>"

lemma demo_media_db_ok: "media_db_ok demo_media_db"
  by (simp add: media_db_ok_def demo_media_db_def)

lemma demo_persist_checks:
  "validate demo_urls demo_payload = Inr ()" "safe_storage_path demo_relative"
  "\<not> is_obsolete_layout demo_relative" "digest_text_ok (replicate 64 (CHR ''a''))"
  "deletion_path_ok demo_relative" "source_key_ok (ip_tmdb_path demo_payload)"
  "\<not> has_control demo_relative" "char_count demo_relative \<le> 512" "1 \<le> char_count demo_relative"
  "CHR 0x5C \<notin> set demo_relative"
  "\<not> list_ex (\<lambda>w. starts_with w ''.'' \<or> w = ''optimized'') (split_on (CHR ''/'') demo_relative)"
  by code_simp+

lemma demo_persist:
  "fst (persist_ready demo_persist_env demo_urls demo_payload (demo_metadata demo_payload demo_relative) demo_media_db) = Inr ()"
proof -
  have "validate_metadata demo_urls demo_payload (demo_metadata demo_payload demo_relative) = Inr ()"
    using demo_persist_checks by (simp add: validate_metadata_def demo_metadata_def)
  moreover have "owner_row demo_owner_tables demo_payload = Some 9" by code_simp
  ultimately show ?thesis using demo_persist_checks
    by (simp add: persist_ready_def persist_transaction_def demo_persist_env_def demo_media_db_def
        resolve_owner_def owner_identity_def owner_ids_of_def owner_default_def resolve_language_def
        queue_image_asset_replacements_def replaced_paths_def upsert_asset_def conflicts_slot_def row_check_def
        ready_asset_row_def demo_metadata_def db_image_kind_def media_kinds_def demo_payload_def Let_def)
qed

theorem persisted_image_recorded_witness:
  "\<exists>db'. persist_ready demo_persist_env demo_urls demo_payload (demo_metadata demo_payload demo_relative) demo_media_db
      = (Inr (), db') \<and> image_recorded demo_payload (demo_metadata demo_payload demo_relative) demo_media_db db'"
proof -
  obtain db' where run: "persist_ready demo_persist_env demo_urls demo_payload
      (demo_metadata demo_payload demo_relative) demo_media_db = (Inr (), db')"
    using demo_persist by (metis prod.collapse)
  from persisted_image_recorded [OF run demo_media_db_ok] run show ?thesis by blast
qed

end
