(* ===== verification/Request_Tables.thy ===== *)
theory Request_Tables
  imports Image_Catalog
begin

text \<open>
  The tables of on-demand media requests and the SQL functions of migration 0052 that the request
  coordinator of the image worker calls: claiming a request, locking the claim, linking a source,
  advancing the cursor, refreshing the status, queueing obsolete files and completing deletions.
  What other tables say (the operator's switch, row locks, catalog completeness) is an argument.
\<close>

section \<open>Rows\<close>

datatype request_status =
    Request_queued | Request_running | Request_succeeded | Request_partial | Request_failed | Request_cancelled

record request_row =
  rr_id :: nat
  rr_status :: request_status
  rr_cursor :: int
  rr_expanded :: bool
  rr_lease_owner :: "string option"
  rr_lease_expires :: "int option"
  rr_available_at :: int
  rr_requested_at :: int
  rr_started_at :: "int option"
  rr_finished_at :: "int option"

record item_row =
  im_id :: int
  im_request :: nat
  im_title :: int
  im_status :: request_status
  im_incomplete :: bool
  im_found :: nat
  im_queued :: nat
  im_ready :: nat
  im_reused :: nat
  im_deleted :: nat
  im_failed :: nat

record link_row =
  ln_item :: int
  ln_cursor :: int
  ln_owner :: "int \<times> int"
  ln_kind :: string
  ln_gallery :: int
  ln_key :: string
  ln_job :: "nat option"
  ln_reused :: bool

record request_db =
  requests :: "request_row list"
  items :: "item_row list"
  links :: "link_row list"

definition find_request :: "nat \<Rightarrow> request_db \<Rightarrow> request_row option" where
  "find_request i db = find (\<lambda>r. rr_id r = i) (requests db)"

definition update_request :: "nat \<Rightarrow> (request_row \<Rightarrow> request_row) \<Rightarrow> request_db \<Rightarrow> request_db" where
  "update_request i f db = db\<lparr>requests := map (\<lambda>r. if rr_id r = i then f r else r) (requests db)\<rparr>"

definition update_item :: "int \<Rightarrow> (item_row \<Rightarrow> item_row) \<Rightarrow> request_db \<Rightarrow> request_db" where
  "update_item i f db = db\<lparr>items := map (\<lambda>x. if im_id x = i then f x else x) (items db)\<rparr>"

section \<open>Claims\<close>

definition open_request :: "request_row \<Rightarrow> bool" where
  "open_request r \<longleftrightarrow> rr_status r \<in> {Request_queued, Request_running}"

definition request_claimable :: "int \<Rightarrow> (nat \<Rightarrow> bool) \<Rightarrow> request_row \<Rightarrow> bool" where
  "request_claimable now locked r \<longleftrightarrow>
     open_request r \<and> rr_available_at r \<le> now \<and>
     (case rr_lease_expires r of None \<Rightarrow> True | Some t \<Rightarrow> t \<le> now) \<and> \<not> locked (rr_id r)"

definition request_before :: "request_row \<Rightarrow> request_row \<Rightarrow> bool" where
  "request_before a b \<longleftrightarrow>
     rr_requested_at a < rr_requested_at b \<or> (rr_requested_at a = rr_requested_at b \<and> rr_id a < rr_id b)"

definition claim_media_request ::
    "bool \<Rightarrow> int \<Rightarrow> (nat \<Rightarrow> bool) \<Rightarrow> (item_row \<Rightarrow> bool) \<Rightarrow> string \<Rightarrow> int \<Rightarrow> request_db \<Rightarrow>
     (nat \<times> int) option \<times> request_db" where
  "claim_media_request enabled now locked incomplete worker lease db =
     (if \<not> (1 \<le> char_count worker \<and> char_count worker \<le> 128) \<or> has_control worker \<or>
         \<not> (1000000 \<le> lease \<and> lease \<le> 3600000000) \<or> \<not> enabled
      then (None, db)
      else
        (case least request_before (filter (request_claimable now locked) (requests db)) of
           None \<Rightarrow> (None, db)
         | Some r \<Rightarrow>
             (Some (rr_id r, rr_cursor r),
              (update_request (rr_id r) (\<lambda>r. r\<lparr>rr_status := Request_running,
                 rr_started_at := (case rr_started_at r of None \<Rightarrow> Some now | Some t \<Rightarrow> Some t),
                 rr_lease_owner := Some worker, rr_lease_expires := Some (now + lease)\<rparr>) db)
              \<lparr>items := map (\<lambda>x. if im_request x = rr_id r \<and> im_status x = Request_queued
                 then x\<lparr>im_status := Request_running, im_incomplete := im_incomplete x \<or> incomplete x\<rparr> else x)
                 (items db)\<rparr>)))"

text \<open>Whether the worker holds the request under a lease that has not expired.\<close>

definition holds_request :: "bool \<Rightarrow> int \<Rightarrow> string \<Rightarrow> request_row \<Rightarrow> bool" where
  "holds_request enabled now worker r \<longleftrightarrow>
     rr_status r = Request_running \<and> rr_lease_owner r = Some worker \<and>
     (case rr_lease_expires r of None \<Rightarrow> False | Some t \<Rightarrow> t > now) \<and> enabled"

definition lock_media_request_claim :: "bool \<Rightarrow> int \<Rightarrow> nat \<Rightarrow> string \<Rightarrow> request_db \<Rightarrow> bool" where
  "lock_media_request_claim enabled now i worker db \<longleftrightarrow>
     (case find_request i db of None \<Rightarrow> False | Some r \<Rightarrow> holds_request enabled now worker r)"

text \<open>\<open>None\<close>: the arguments are rejected with an exception.\<close>

definition advance_media_request ::
    "int \<Rightarrow> nat \<Rightarrow> string \<Rightarrow> int \<Rightarrow> bool \<Rightarrow> int \<Rightarrow> request_db \<Rightarrow> (bool \<times> request_db) option" where
  "advance_media_request now i worker cursor expanded delay_seconds db =
     (if cursor < 0 \<or> \<not> (0 \<le> delay_seconds \<and> delay_seconds \<le> 300) then None
      else
        let mine = (\<lambda>r. rr_id r = i \<and> rr_lease_owner r = Some worker \<and> rr_status r = Request_running) in
        Some (list_ex mine (requests db),
          db\<lparr>requests := map (\<lambda>r. if mine r then r\<lparr>rr_cursor := cursor, rr_expanded := expanded,
            rr_lease_owner := None, rr_lease_expires := None,
            rr_available_at := now + delay_seconds * 1000000\<rparr> else r) (requests db)\<rparr>))"

section \<open>Links\<close>

text \<open>The unique constraints of a link besides its cursor, on which a conflict is ignored.\<close>

definition link_conflict :: "link_row \<Rightarrow> link_row \<Rightarrow> bool" where
  "link_conflict a b \<longleftrightarrow>
     ln_item a = ln_item b \<and> ln_owner a = ln_owner b \<and> ln_kind a = ln_kind b \<and>
     (ln_gallery a = ln_gallery b \<or> ln_key a = ln_key b)"

definition link_check :: "link_row \<Rightarrow> bool" where
  "link_check l \<longleftrightarrow>
     0 < ln_cursor l \<and> 1 \<le> fst (ln_owner l) \<and> fst (ln_owner l) \<le> 7 \<and> 0 < snd (ln_owner l) \<and>
     ln_kind l \<in> set media_kinds \<and> 0 < ln_gallery l \<and> source_key_ok (ln_key l) \<and> \<not> dot_segment (ln_key l)"

definition count_links :: "(link_row \<Rightarrow> bool) \<Rightarrow> int \<Rightarrow> link_row list \<Rightarrow> nat" where
  "count_links P item ls = length (filter (\<lambda>l. ln_item l = item \<and> P l) ls)"

definition link_media_request_asset ::
    "bool \<Rightarrow> int \<Rightarrow> nat \<Rightarrow> string \<Rightarrow> link_row \<Rightarrow> bool \<Rightarrow> request_db \<Rightarrow> (bool \<times> request_db) option" where
  "link_media_request_asset enabled now i worker l incomplete db =
     (if \<not> (list_ex (\<lambda>x. im_id x = ln_item l \<and> im_request x = i) (items db) \<and>
            lock_media_request_claim enabled now i worker db)
      then Some (False, db)
      else if \<not> link_check l then None
      else
        let present = list_ex (\<lambda>x. ln_item x = ln_item l \<and> ln_cursor x = ln_cursor l) (links db) in
        if \<not> present \<and> list_ex (link_conflict l) (links db) then None
        else
          let ls = (if present then links db else links db @ [l]);
              db = db\<lparr>links := ls\<rparr>
          in Some (True, update_item (ln_item l) (\<lambda>x. x\<lparr>im_incomplete := im_incomplete x \<or> incomplete,
               im_found := count_links (\<lambda>_. True) (im_id x) ls,
               im_queued := count_links (\<lambda>l. ln_job l \<noteq> None) (im_id x) ls,
               im_reused := count_links ln_reused (im_id x) ls\<rparr>) db))"

definition media_image_job_source :: "nat \<Rightarrow> job_queue \<Rightarrow> string option" where
  "media_image_job_source i q =
     (case find_row i q of None \<Rightarrow> None
      | Some r \<Rightarrow> if jr_type r = ''image.download'' then
          (case jr_payload r of JObj kvs \<Rightarrow> (case map_of kvs ''tmdbPath'' of Some (JStr s) \<Rightarrow> Some s | _ \<Rightarrow> None)
           | _ \<Rightarrow> None) else None)"

section \<open>Status\<close>

definition link_job_status :: "job_queue \<Rightarrow> link_row \<Rightarrow> job_status option" where
  "link_job_status q l = Option.bind (ln_job l) (\<lambda>i. map_option jr_status (find_row i q))"

definition link_active :: "job_queue \<Rightarrow> link_row \<Rightarrow> bool" where
  "link_active q l \<longleftrightarrow> pred_option active (link_job_status q l) \<and> link_job_status q l \<noteq> None"

definition link_ready :: "media_db \<Rightarrow> link_row \<Rightarrow> bool" where
  "link_ready m l \<longleftrightarrow>
     list_ex (\<lambda>r. asset_owner r = ln_owner l \<and> ar_source r = ''tmdb'' \<and> ar_key r = ln_key l \<and>
       ar_status r = Asset_ready) (asset_rows m)"

definition link_failed :: "job_queue \<Rightarrow> media_db \<Rightarrow> link_row \<Rightarrow> bool" where
  "link_failed q m l \<longleftrightarrow>
     \<not> link_ready m l \<and> (case link_job_status q l of None \<Rightarrow> False | Some s \<Rightarrow> is_terminal s)"

definition refresh_item :: "job_queue \<Rightarrow> media_db \<Rightarrow> link_row list \<Rightarrow> bool \<Rightarrow> item_row \<Rightarrow> item_row" where
  "refresh_item q m ls expanded x =
     (let n = (\<lambda>P. count_links P (im_id x) ls);
          ready = n (\<lambda>l. link_ready m l \<and> \<not> ln_reused l); failed = n (link_failed q m);
          reused = n (\<lambda>l. link_ready m l \<and> ln_reused l)
      in if 0 < n (\<lambda>_. True) then
           x\<lparr>im_ready := ready, im_failed := failed, im_status :=
             (if 0 < n (link_active q) then Request_running
              else if 0 < failed \<and> ready = 0 \<and> reused = 0 then Request_failed
              else if im_incomplete x \<or> 0 < failed then Request_partial else Request_succeeded)\<rparr>
         else if expanded then x\<lparr>im_status := (if im_incomplete x then Request_partial else Request_succeeded)\<rparr>
         else x)"

definition request_outcome :: "bool \<Rightarrow> item_row list \<Rightarrow> request_status" where
  "request_outcome expanded xs =
     (if \<not> expanded \<or> list_ex (\<lambda>x. im_status x \<in> {Request_queued, Request_running}) xs then Request_running
      else if 0 < sum_list (map im_failed xs) \<and> sum_list (map (\<lambda>x. im_ready x + im_reused x) xs) = 0
      then Request_failed
      else if list_ex im_incomplete xs \<or> 0 < sum_list (map im_failed xs) then Request_partial
      else Request_succeeded)"

text \<open>\<open>None\<close>: the request does not exist, an exception.\<close>

definition refresh_media_request ::
    "int \<Rightarrow> job_queue \<Rightarrow> media_db \<Rightarrow> nat \<Rightarrow> request_db \<Rightarrow> (request_status \<times> request_db) option" where
  "refresh_media_request now q m i db =
     (case find_request i db of
        None \<Rightarrow> None
      | Some r \<Rightarrow>
          let xs = map (\<lambda>x. if im_request x = i then refresh_item q m (links db) (rr_expanded r) x else x) (items db);
              status = request_outcome (rr_expanded r) (filter (\<lambda>x. im_request x = i) xs)
          in Some (status,
            (update_request i (\<lambda>r. if rr_status r = Request_cancelled then r
               else r\<lparr>rr_status := status,
                 rr_finished_at := (if status = Request_running then None else Some now),
                 rr_lease_owner := None, rr_lease_expires := None,
                 rr_available_at := (if status = Request_running then now + 2000000 else rr_available_at r)\<rparr>) db)
            \<lparr>items := xs\<rparr>))"

section \<open>Obsolete files\<close>

text \<open>
  The owners of a request: those its titles have in the catalog (an argument, with the item that
  names them) and those of its links; \<open>min\<close> picks the item.
\<close>

definition desired_item :: "(int \<times> int \<times> int) list \<Rightarrow> int list \<Rightarrow> link_row list \<Rightarrow> int \<times> int \<Rightarrow> int option" where
  "desired_item current item_ids ls owner =
     (case map fst (filter (\<lambda>(item, w). w = owner) current) @
           map ln_item (filter (\<lambda>l. ln_item l \<in> set item_ids \<and> ln_owner l = owner) ls) of
        [] \<Rightarrow> None | x # xs \<Rightarrow> Some (fold min xs x))"

definition obsolete_rows ::
    "(int \<times> int \<times> int) list \<Rightarrow> int list \<Rightarrow> link_row list \<Rightarrow> asset_row list \<Rightarrow> (int \<times> asset_row \<times> string) list" where
  "obsolete_rows current item_ids ls rows =
     concat (map (\<lambda>r. case (ar_path r, desired_item current item_ids ls (asset_owner r)) of
         (Some path, Some item) \<Rightarrow>
           if list_ex (\<lambda>l. ln_item l \<in> set item_ids \<and> ln_owner l = asset_owner r \<and> ln_key l = ar_key r) ls
           then [] else [(item, r, path)]
       | _ \<Rightarrow> []) rows)"

definition queue_obsolete_media_request_files ::
    "bool \<Rightarrow> (int \<times> int \<times> int) list \<Rightarrow> job_queue \<Rightarrow> nat \<Rightarrow> request_db \<Rightarrow> media_db \<Rightarrow> (nat \<times> media_db) option" where
  "queue_obsolete_media_request_files incomplete current q i db m =
     (let item_ids = map im_id (filter (\<lambda>x. im_request x = i) (items db)) in
      if \<not> list_ex (\<lambda>r. rr_id r = i \<and> rr_expanded r \<and> rr_status r = Request_running) (requests db) \<or>
         list_ex (\<lambda>l. ln_item l \<in> set item_ids \<and> link_active q l) (links db) \<or>
         list_ex (\<lambda>x. im_request x = i \<and> im_incomplete x) (items db) \<or> incomplete
      then Some (0, m)
      else
        let obsolete = obsolete_rows current item_ids (links db) (asset_rows m) in
        if \<not> list_all (\<lambda>(item, r, path). deletion_path_ok path) obsolete then None
        else
          let m' = fold (\<lambda>(item, r, path). queue_deletion (Some item) (asset_owner r) path) obsolete m in
          Some (length (deletions m') - length (deletions m),
            m'\<lparr>asset_rows := filter (\<lambda>r. r \<notin> (\<lambda>(item, r, path). r) ` set obsolete) (asset_rows m')\<rparr>))"

section \<open>Deletions\<close>

definition title_of :: "owner_tables \<Rightarrow> int \<Rightarrow> owner_title option" where
  "title_of db i = find (\<lambda>t. tr_id t = i) (ot_titles db)"

definition show_directory :: "owner_tables \<Rightarrow> part_row list \<Rightarrow> int \<Rightarrow> string option" where
  "show_directory db parts i =
     Option.bind (find (\<lambda>(part, title). part = i) parts) (\<lambda>(part, title).
     map_option (\<lambda>t. ''tv/'' @ dec_int (tr_tmdb_id t) @ ''/'') (title_of db title))"

definition expected_directory :: "owner_tables \<Rightarrow> int \<times> int \<Rightarrow> string option" where
  "expected_directory db owner =
     (let (t, i) = owner in
      if t = 1 then map_option (\<lambda>r. (if tr_media_type r = ''movie'' then ''movies/'' else ''tv/'') @
        dec_int (tr_tmdb_id r) @ ''/'') (title_of db i)
      else if t = 2 then Some (''people/'' @ dec_int i @ ''/'')
      else if t = 3 then Some (''companies/'' @ dec_int i @ ''/'')
      else if t = 4 then Some (''networks/'' @ dec_int i @ ''/'')
      else if t = 5 then Some (''collections/'' @ dec_int i @ ''/'')
      else if t = 6 then show_directory db (ot_seasons db) i
      else if t = 7 then show_directory db (ot_episodes db) i else None)"

record pending_deletion =
  pd_id :: nat
  pd_path :: string
  pd_directory :: "string option"

text \<open>The rows are kept in the order of their identifiers.\<close>

definition pending_media_file_deletions :: "nat \<Rightarrow> media_db \<Rightarrow> pending_deletion list" where
  "pending_media_file_deletions limit m =
     (if 1 \<le> limit \<and> limit \<le> 250 then
        map (\<lambda>d. \<lparr>pd_id = dl_id d, pd_path = dl_path d, pd_directory = expected_directory (owners m) (dl_owner d)\<rparr>)
          (take limit (deletions m))
      else [])"

definition complete_media_file_deletion :: "nat \<Rightarrow> media_db \<Rightarrow> request_db \<Rightarrow> bool \<times> media_db \<times> request_db" where
  "complete_media_file_deletion i m db =
     (case find (\<lambda>d. dl_id d = i) (deletions m) of
        None \<Rightarrow> (False, m, db)
      | Some d \<Rightarrow> (True, m\<lparr>deletions := filter (\<lambda>d. dl_id d \<noteq> i) (deletions m)\<rparr>,
          (case dl_item d of None \<Rightarrow> db
           | Some item \<Rightarrow> update_item item (\<lambda>x. x\<lparr>im_deleted := im_deleted x + 1\<rparr>) db)))"

section \<open>A claim of a request\<close>

lemma claim_media_request_result:
  assumes "claim_media_request enabled now locked incomplete worker lease db = (Some (i, c), db')"
  obtains r where "r \<in> set (requests db)" "rr_id r = i" "rr_cursor r = c" "request_claimable now locked r"
    "enabled" "1000000 \<le> lease" "links db' = links db"
    "requests db' = map (\<lambda>x. if rr_id x = i then x\<lparr>rr_status := Request_running,
       rr_started_at := (case rr_started_at x of None \<Rightarrow> Some now | Some t \<Rightarrow> Some t),
       rr_lease_owner := Some worker, rr_lease_expires := Some (now + lease)\<rparr> else x) (requests db)"
proof -
  obtain r where r: "least request_before (filter (request_claimable now locked) (requests db)) = Some r" "enabled"
      "1000000 \<le> lease"
    using assms by (auto simp: claim_media_request_def split: if_splits option.splits)
  then have "r \<in> set (requests db)" "request_claimable now locked r" using least_mem by fastforce+
  moreover have "i = rr_id r" "c = rr_cursor r"
      "links db' = links db" "requests db' = map (\<lambda>x. if rr_id x = rr_id r then x\<lparr>rr_status := Request_running,
       rr_started_at := (case rr_started_at x of None \<Rightarrow> Some now | Some t \<Rightarrow> Some t),
       rr_lease_owner := Some worker, rr_lease_expires := Some (now + lease)\<rparr> else x) (requests db)"
    using assms r by (auto simp: claim_media_request_def update_request_def split: if_splits)
  ultimately show thesis using that r by blast
qed

end
