(* ===== verification/Media_Cleanup.thy ===== *)
theory Media_Cleanup
  imports Request_Tables
begin

text \<open>
  The file checks of the request coordinator, \<open>src/apps/tmdb-images/src/requests.rs\<close>: the walk to a
  regular file below the media root that follows no link, the verification of a file against its row,
  and the removal of files queued for deletion. The operating system's answers are the fields of
  \<open>store_env\<close>; the paths the code joins are looked up as they are written.
\<close>

section \<open>Walking to a file\<close>

definition normal_component :: "path_component \<Rightarrow> bool" where
  "normal_component c \<longleftrightarrow> (case c of Normal _ \<Rightarrow> True | _ \<Rightarrow> False)"

definition path_starts_with :: "string \<Rightarrow> string \<Rightarrow> bool" where
  "path_starts_with p q \<longleftrightarrow> prefix (path_components q) (path_components p)"

text \<open>The directories above the file: each must be a directory; a missing one means there is no file.\<close>

fun walk_directories ::
    "store_env \<Rightarrow> file_tree \<Rightarrow> string \<Rightarrow> path_component list \<Rightarrow> string + bool" where
  "walk_directories env t current [] = Inr True"
| "walk_directories env t current (c # cs) =
     (case c of
        Normal name \<Rightarrow>
          let current = path_push current name in
          (case symlink_metadata env t current of
             Inr Dir \<Rightarrow> walk_directories env t current cs
           | Inr _ \<Rightarrow> Inl ''unsafe_media_path''
           | Inl k \<Rightarrow> if k = io_kind.NotFound then Inr False else Inl ''media_path_unavailable'')
      | _ \<Rightarrow> Inl ''unsafe_media_path'')"

text \<open>\<open>parent\<close> of a path of normal components is the path without the last one, if there is one.\<close>

definition safe_regular_file ::
    "store_env \<Rightarrow> file_tree \<Rightarrow> string \<Rightarrow> string \<Rightarrow> string \<Rightarrow> string + string option" where
  "safe_regular_file env t root relative expected =
     (if \<not> path_starts_with relative expected \<or>
         \<not> list_all normal_component (path_components relative) \<or>
         \<not> list_all normal_component (path_components expected) \<or> path_components relative = []
      then Inl ''unsafe_media_path''
      else
        bindR (walk_directories env t root (butlast (path_components relative))) (\<lambda>found.
        if \<not> found then Inr None
        else
          let candidate = path_push root relative in
          (case symlink_metadata env t candidate of
             Inr (Regular _) \<Rightarrow> Inr (Some candidate)
           | Inr _ \<Rightarrow> Inl ''unsafe_media_path''
           | Inl k \<Rightarrow> if k = io_kind.NotFound then Inr None else Inl ''media_path_unavailable'')))"

section \<open>Verifying a file\<close>

record ready_asset =
  ra_id :: nat
  ra_path :: string
  ra_bytes :: int
  ra_sha256 :: string
  ra_recently_verified :: bool

definition file_sha256 :: "store_env \<Rightarrow> file_tree \<Rightarrow> string \<Rightarrow> string option" where
  "file_sha256 env t p =
     (if read_error env p \<noteq> None then None
      else (case t p of Some (Regular content) \<Rightarrow> Some (as_hex (store_sha256 env content)) | _ \<Rightarrow> None))"

text \<open>\<open>None\<close>: the root cannot be resolved. The parent is written with single slashes.\<close>

definition parent_text :: "string \<Rightarrow> string option" where
  "parent_text p =
     (if path_components p = [] then None
      else Some (join_with ''/'' (map (\<lambda>c. case c of Normal s \<Rightarrow> s | _ \<Rightarrow> []) (butlast (path_components p)))))"

definition verify_asset_file :: "store_env \<Rightarrow> file_tree \<Rightarrow> ready_asset \<Rightarrow> bool" where
  "verify_asset_file env t asset \<longleftrightarrow>
     is_public_relative (ra_path asset) \<and> 0 < ra_bytes asset \<and> digest_text_ok (ra_sha256 asset) \<and>
     (case canonical env ''/media'' of
        Inl _ \<Rightarrow> False
      | Inr root \<Rightarrow>
          (case parent_text (ra_path asset) of
             None \<Rightarrow> False
           | Some expected \<Rightarrow>
               (case safe_regular_file env t root (ra_path asset) expected of
                  Inr (Some p) \<Rightarrow>
                    (case t p of
                       Some (Regular content) \<Rightarrow>
                         int (length content) = ra_bytes asset \<and>
                         (ra_recently_verified asset \<or>
                          (case file_sha256 env t p of None \<Rightarrow> False
                           | Some digest \<Rightarrow> to_ascii_lowercase digest = to_ascii_lowercase (ra_sha256 asset)))
                     | _ \<Rightarrow> False)
                | _ \<Rightarrow> False)))"

section \<open>Removing files\<close>

record cleanup_env =
  cl_store :: store_env
  cl_pending :: bool
  cl_complete :: "nat \<Rightarrow> delivery"

type_synonym cleanup_state = "file_tree \<times> media_db \<times> request_db"

definition complete_deletion ::
    "delivery \<Rightarrow> nat \<Rightarrow> cleanup_state \<Rightarrow> (string + bool) \<times> cleanup_state" where
  "complete_deletion d i s =
     (case s of (t, m, db) \<Rightarrow>
      (case complete_media_file_deletion i m db of (found, m', db') \<Rightarrow>
       (case d of
          Delivered \<Rightarrow> (Inr found, t, m', db')
        | Failed _ \<Rightarrow> (Inl ''database_unavailable'', s)
        | Reply_lost \<Rightarrow> (Inl ''database_unavailable'', t, m', db'))))"

definition trim_slashes :: "string \<Rightarrow> string" where
  "trim_slashes s = rev (dropWhile (\<lambda>c. c = CHR ''/'') (rev s))"

definition deletion_allowed :: "string \<Rightarrow> string \<Rightarrow> bool" where
  "deletion_allowed path directory \<longleftrightarrow>
     is_public_relative path \<and> is_public_relative directory \<and> path_starts_with path directory"

definition remove_pending ::
    "cleanup_env \<Rightarrow> string \<Rightarrow> pending_deletion \<Rightarrow> string \<Rightarrow> file_tree \<Rightarrow> string + file_tree" where
  "remove_pending env root d directory t =
     (if \<not> deletion_allowed (pd_path d) directory then Inl ''unsafe_deletion_path''
      else bindR (safe_regular_file (cl_store env) t root (pd_path d) directory) (\<lambda>found.
        case found of
          None \<Rightarrow> Inr t
        | Some p \<Rightarrow> if remove_file_error (cl_store env) p \<noteq> None then Inl ''media_delete_failed''
                    else Inr (t(p := None))))"

fun drain_rows ::
    "cleanup_env \<Rightarrow> string \<Rightarrow> pending_deletion list \<Rightarrow> nat \<Rightarrow> nat \<Rightarrow> cleanup_state \<Rightarrow>
     (string + nat) \<times> cleanup_state" where
  "drain_rows env root [] k n s = (Inr n, s)"
| "drain_rows env root (d # ds) k n (t, m, db) =
     (case pd_directory d of
        None \<Rightarrow> drain_rows env root ds (Suc k) n (t, m, db)
      | Some directory \<Rightarrow>
          (case remove_pending env root d (trim_slashes directory) t of
             Inl e \<Rightarrow> (Inl e, t, m, db)
           | Inr t \<Rightarrow>
               (case complete_deletion (cl_complete env k) (pd_id d) (t, m, db) of
                  (Inl e, s) \<Rightarrow> (Inl e, s)
                | (Inr completed, s) \<Rightarrow>
                    drain_rows env root ds (Suc k) (if completed then min (n + 1) u64_max else n) s)))"

definition drain_pending_deletions ::
    "cleanup_env \<Rightarrow> cleanup_state \<Rightarrow> (string + nat) \<times> cleanup_state" where
  "drain_pending_deletions env s =
     (if \<not> cl_pending env then (Inl ''database_unavailable'', s)
      else
        let ds = pending_media_file_deletions 250 (fst (snd s)) in
        (case canonical (cl_store env) ''/media'' of
           Inl _ \<Rightarrow> (Inl ''media_root_unavailable'', s)
         | Inr root \<Rightarrow> drain_rows env root ds 0 0 s))"

section \<open>What a check has seen\<close>

text \<open>The directories a walk passes, from the root to the parent of the file.\<close>

fun walked :: "string \<Rightarrow> path_component list \<Rightarrow> string list" where
  "walked current [] = []"
| "walked current (Normal name # cs) = path_push current name # walked (path_push current name) cs"
| "walked current (c # cs) = []"

lemma walk_directories_found:
  "walk_directories env t current cs = Inr True \<Longrightarrow> \<forall>p\<in>set (walked current cs). t p = Some Dir"
proof (induction cs arbitrary: current)
  case (Cons c cs)
  then show ?case
    by (cases c) (auto simp: Let_def split: sum.splits node.splits if_splits dest: symlink_metadata_ok)
qed simp

definition plain_file :: "file_tree \<Rightarrow> string \<Rightarrow> string \<Rightarrow> string \<Rightarrow> bool" where
  "plain_file t root relative p \<longleftrightarrow>
     p = path_push root relative \<and> (\<exists>content. t p = Some (Regular content)) \<and>
     (\<forall>d\<in>set (walked root (butlast (path_components relative))). t d = Some Dir)"

lemma safe_regular_file_found:
  assumes "safe_regular_file env t root relative expected = Inr (Some p)"
  shows "plain_file t root relative p \<and> path_starts_with relative expected"
proof -
  have walk: "walk_directories env t root (butlast (path_components relative)) = Inr True"
      and start: "path_starts_with relative expected"
    using assms by (auto simp: safe_regular_file_def Let_def result_simps split: if_splits)
  then obtain content where found: "symlink_metadata env t (path_push root relative) = Inr (Regular content)"
      "p = path_push root relative"
    using assms by (auto simp: safe_regular_file_def Let_def result_simps split: if_splits sum.splits node.splits)
  show ?thesis using walk_directories_found [OF walk] start found symlink_metadata_ok [OF found(1)]
    by (simp add: plain_file_def)
qed

section \<open>What a clean-up changes\<close>

text \<open>
  A pending deletion may remove its file only: the path is public, below the directory of its owner,
  reached through directories, and a regular file.
\<close>

definition removable :: "string \<Rightarrow> pending_deletion \<Rightarrow> file_tree \<Rightarrow> string \<Rightarrow> bool" where
  "removable root d t p \<longleftrightarrow>
     plain_file t root (pd_path d) p \<and> is_public_relative (pd_path d) \<and>
     (\<exists>directory. pd_directory d = Some directory \<and> path_starts_with (pd_path d) (trim_slashes directory))"

definition shrinks :: "file_tree \<Rightarrow> file_tree \<Rightarrow> bool" where
  "shrinks t t' \<longleftrightarrow> (\<forall>x. t' x = t x \<or> t' x = None \<and> (\<exists>content. t x = Some (Regular content)))"

lemma shrinks_refl [simp]: "shrinks t t"
  by (simp add: shrinks_def)

lemma shrinks_trans: "shrinks t u \<Longrightarrow> shrinks u v \<Longrightarrow> shrinks t v"
  unfolding shrinks_def by (metis option.distinct(1))

lemma shrinks_some: "shrinks t t' \<Longrightarrow> t' x = Some n \<Longrightarrow> t x = Some n"
  unfolding shrinks_def by (metis option.distinct(1))

lemma removable_earlier: "removable root d u p \<Longrightarrow> shrinks t u \<Longrightarrow> removable root d t p"
  unfolding removable_def plain_file_def by (blast dest: shrinks_some)

lemma remove_pending_result:
  assumes "remove_pending env root d (trim_slashes directory) t = Inr u" "pd_directory d = Some directory"
  shows "u = t \<or> (\<exists>p. removable root d t p \<and> u = t(p := None))"
  using assms
  by (auto simp: remove_pending_def deletion_allowed_def removable_def result_simps
      split: if_splits option.splits dest!: safe_regular_file_found)

lemma complete_deletion_result:
  assumes "complete_deletion d i (t, m, db) = (r, t', m', db')"
  shows "t' = t" "asset_rows m' = asset_rows m" "owners m' = owners m"
    "deletions m' = deletions m \<or> deletions m' = filter (\<lambda>x. dl_id x \<noteq> i) (deletions m)"
    "links db' = links db" "requests db' = requests db"
  using assms
  by (auto simp: complete_deletion_def complete_media_file_deletion_def update_item_def
      split: delivery.splits option.splits prod.splits)

definition cleaned ::
    "string \<Rightarrow> pending_deletion list \<Rightarrow> cleanup_state \<Rightarrow> cleanup_state \<Rightarrow> bool" where
  "cleaned root ds s s' \<longleftrightarrow>
     (case (s, s') of ((t, m, db), (t', m', db')) \<Rightarrow>
       shrinks t t' \<and> (\<forall>x. t' x \<noteq> t x \<longrightarrow> (\<exists>d\<in>set ds. removable root d t x)) \<and>
       asset_rows m' = asset_rows m \<and> owners m' = owners m \<and> links db' = links db \<and> requests db' = requests db \<and>
       set (deletions m') \<subseteq> set (deletions m) \<and>
       (\<forall>x\<in>set (deletions m) - set (deletions m'). \<exists>d\<in>set ds. dl_id x = pd_id d))"

lemma cleaned_step:
  assumes "remove_pending env root d (trim_slashes directory) t = Inr u" "pd_directory d = Some directory"
    and "complete_deletion c (pd_id d) (u, m, db) = (r, s)"
  shows "cleaned root [d] (t, m, db) s"
proof -
  obtain t' m' db' where s: "s = (t', m', db')" by (cases s) auto
  note c = complete_deletion_result [OF assms(3) [unfolded s]]
  have "shrinks t u \<and> (\<forall>x. u x \<noteq> t x \<longrightarrow> removable root d t x)"
    using remove_pending_result [OF assms(1,2)] by (auto simp: shrinks_def removable_def plain_file_def split: if_splits)
  then show ?thesis using c unfolding s cleaned_def by auto
qed

lemma cleaned_trans:
  assumes "cleaned root ds s u" "cleaned root es u v"
  shows "cleaned root (ds @ es) s v"
proof -
  obtain t m db t1 m1 db1 t2 m2 db2 where s: "s = (t, m, db)" "u = (t1, m1, db1)" "v = (t2, m2, db2)"
    by (cases s, cases u, cases v)
  note first = assms(1) [unfolded s cleaned_def prod.case] and second = assms(2) [unfolded s cleaned_def prod.case]
  have "\<exists>d\<in>set (ds @ es). removable root d t x" if changed: "t2 x \<noteq> t x" for x
  proof (cases "t1 x = t x")
    case True
    then obtain d where "d \<in> set es" "removable root d t1 x" using second changed by metis
    then show ?thesis using removable_earlier [of root d t1 x t] first by auto
  next
    case False
    then show ?thesis using first by (metis UnI1 set_append)
  qed
  moreover have "\<exists>d\<in>set (ds @ es). dl_id x = pd_id d" if gone: "x \<in> set (deletions m) - set (deletions m2)" for x
  proof (cases "x \<in> set (deletions m1)")
    case True
    then show ?thesis using gone second by auto
  next
    case False
    then show ?thesis using gone first by auto
  qed
  moreover have "shrinks t t2" using first second shrinks_trans by blast
  moreover have "set (deletions m2) \<subseteq> set (deletions m)" using first second by blast
  ultimately show ?thesis using first second unfolding s cleaned_def prod.case by metis
qed

lemma cleaned_refl: "cleaned root [] s s"
  by (cases s) (simp add: cleaned_def)

lemma cleaned_mono: "cleaned root ds s u \<Longrightarrow> set ds \<subseteq> set es \<Longrightarrow> cleaned root es s u"
  unfolding cleaned_def by (auto split: prod.splits) blast+

lemma drain_rows_cleaned: "drain_rows env root ds k n s = (r, s') \<Longrightarrow> cleaned root ds s s'"
proof (induction env root ds k n s arbitrary: r rule: drain_rows.induct)
  case (1 env root k n s)
  then show ?case by (simp add: cleaned_refl)
next
  case (2 env root d ds k n t m db)
  show ?case
  proof (cases "pd_directory d")
    case None
    then have "cleaned root ds (t, m, db) s'" using 2 by simp
    then show ?thesis by (rule cleaned_mono) auto
  next
    case (Some directory)
    show ?thesis
    proof (cases "remove_pending env root d (trim_slashes directory) t")
      case (Inl e)
      then show ?thesis using 2(3) Some cleaned_mono [OF cleaned_refl] by simp
    next
      case (Inr u)
      obtain x s1 where x: "complete_deletion (cl_complete env k) (pd_id d) (u, m, db) = (x, s1)"
        by (cases "complete_deletion (cl_complete env k) (pd_id d) (u, m, db)")
      have step: "cleaned root [d] (t, m, db) s1" using cleaned_step [OF Inr Some x] .
      show ?thesis
      proof (cases x)
        case (Inl e)
        then have "s' = s1" using 2(3) Some Inr x by simp
        then show ?thesis using cleaned_mono [OF step] by simp
      next
        case finished: (Inr completed)
        then have "cleaned root ds s1 s'" using 2 Some Inr x by simp
        then show ?thesis using cleaned_trans [OF step] by fastforce
      qed
    qed
  qed
qed

text \<open>A clean-up that runs to its end has removed every file it could.\<close>

lemma walk_directories_all:
  assumes "\<And>p. lstat_error env p = None" "\<forall>p\<in>set (walked current cs). t p = Some Dir"
    and "list_all normal_component cs"
  shows "walk_directories env t current cs = Inr True"
  using assms(2,3)
proof (induction cs arbitrary: current)
  case (Cons c cs)
  then show ?case
    by (cases c) (auto simp: normal_component_def symlink_metadata_def assms(1))
qed simp

lemma public_components: "is_public_relative p \<Longrightarrow> list_all normal_component (path_components p)"
  by (auto simp: is_public_relative_def normal_component_def list_all_iff split: path_component.splits)

lemma public_nonempty: "is_public_relative p \<Longrightarrow> path_components p \<noteq> []"
  by (cases p) (auto simp: is_public_relative_def path_components_def split: list.splits if_splits)

lemma remove_pending_removes:
  assumes "remove_pending env root d (trim_slashes directory) t = Inr u" "pd_directory d = Some directory"
    and "\<And>p. lstat_error (cl_store env) p = None" "removable root d t p"
  shows "u p = None"
proof -
  obtain content where p: "p = path_push root (pd_path d)" "t p = Some (Regular content)"
      "\<forall>x\<in>set (walked root (butlast (path_components (pd_path d)))). t x = Some Dir"
      "is_public_relative (pd_path d)"
    using assms(4) by (auto simp: removable_def plain_file_def)
  have allowed: "deletion_allowed (pd_path d) (trim_slashes directory)"
    using assms(1) by (auto simp: remove_pending_def split: if_splits)
  have "list_all normal_component (butlast (path_components (pd_path d)))"
    using public_components [OF p(4)] by (auto simp: list_all_iff dest: in_set_butlastD)
  then have "walk_directories (cl_store env) t root (butlast (path_components (pd_path d))) = Inr True"
    using walk_directories_all assms(3) p(3) by blast
  moreover have "path_components (pd_path d) \<noteq> []"
    using p(4) by (rule public_nonempty)
  ultimately have "safe_regular_file (cl_store env) t root (pd_path d) (trim_slashes directory) = Inr (Some p)"
    using allowed p public_components assms(3)
    by (simp add: safe_regular_file_def deletion_allowed_def symlink_metadata_def)
  then show ?thesis using assms(1) allowed by (auto simp: remove_pending_def split: if_splits)
qed

lemma shrinks_keeps_removable: "removable root d t p \<Longrightarrow> shrinks t u \<Longrightarrow> u p = None \<or> removable root d u p"
  unfolding removable_def plain_file_def shrinks_def by (metis node.distinct(1) option.sel)

lemma drain_rows_removes:
  assumes "drain_rows env root ds k n s = (Inr r, s')" "\<And>p. lstat_error (cl_store env) p = None"
    and "d \<in> set ds" "removable root d (fst s) p"
  shows "fst s' p = None"
  using assms
proof (induction env root ds k n s rule: drain_rows.induct)
  case (2 env root x ds k n t m db)
  show ?case
  proof (cases "pd_directory x")
    case None
    then show ?thesis using 2 by (auto simp: removable_def)
  next
    case (Some directory)
    then obtain u where u: "remove_pending env root x (trim_slashes directory) t = Inr u"
      using 2(3) by (cases "remove_pending env root x (trim_slashes directory) t") auto
    then obtain completed s1 where c: "complete_deletion (cl_complete env k) (pd_id x) (u, m, db) = (Inr completed, s1)"
      using 2(3) Some by (auto split: prod.splits sum.splits)
    then have rest: "drain_rows env root ds (Suc k) (if completed then min (n + 1) u64_max else n) s1 = (Inr r, s')"
      using 2(3) Some u by simp
    have "fst s1 = u" using complete_deletion_result(1) c by (metis prod.collapse)
    moreover have clean: "shrinks (fst s1) (fst s')" "shrinks t u"
      using drain_rows_cleaned [OF rest] cleaned_step [OF u Some c] \<open>fst s1 = u\<close>
      by (auto simp: cleaned_def split: prod.splits)
    moreover have gone: "shrinks u v \<Longrightarrow> u p = None \<Longrightarrow> v p = None" for v
      unfolding shrinks_def by (metis option.distinct(1))
    moreover have "u p = None \<or> (d \<in> set ds \<and> removable root d (fst s1) p)"
    proof (cases "d = x")
      case True
      then show ?thesis using remove_pending_removes [OF u Some 2(4)] 2(6) by simp
    next
      case False
      then show ?thesis using 2(5,6) shrinks_keeps_removable clean(2) \<open>fst s1 = u\<close> by fastforce
    qed
    ultimately show ?thesis using 2(2) [OF Some u c [symmetric] refl rest 2(4)] by blast
  qed
qed simp

section \<open>Properties\<close>

lemma pending_member:
  "d \<in> set (pending_media_file_deletions n m) \<Longrightarrow>
     \<exists>x\<in>set (deletions m). pd_id d = dl_id x \<and> pd_path d = dl_path x \<and>
       pd_directory d = expected_directory (owners m) (dl_owner x)"
  by (auto simp: pending_media_file_deletions_def split: if_splits dest: in_set_takeD)

text \<open>C23: a clean-up only removes regular files, each the file of a pending deletion, at a public path
  below the directory its owner has in the catalog, reached from the media root through directories
  and no link; nothing else in the tree changes, no catalog row and no link of a request changes,
  and only rows of the deletion queue disappear.\<close>

theorem deletions_confined:
  assumes "drain_pending_deletions env (t, m, db) = (r, t', m', db')"
  shows "(\<forall>x. t' x \<noteq> t x \<longrightarrow> t' x = None \<and> (\<exists>content. t x = Some (Regular content)) \<and>
      (\<exists>root d directory. canonical (cl_store env) ''/media'' = Inr root \<and> d \<in> set (deletions m) \<and>
        x = path_push root (dl_path d) \<and> is_public_relative (dl_path d) \<and>
        expected_directory (owners m) (dl_owner d) = Some directory \<and>
        path_starts_with (dl_path d) (trim_slashes directory) \<and>
        (\<forall>w\<in>set (walked root (butlast (path_components (dl_path d)))). t w = Some Dir))) \<and>
    asset_rows m' = asset_rows m \<and> owners m' = owners m \<and> links db' = links db \<and>
    set (deletions m') \<subseteq> set (deletions m)"
proof (cases "cl_pending env \<and> (\<exists>root. canonical (cl_store env) ''/media'' = Inr root)")
  case True
  then obtain root where root: "canonical (cl_store env) ''/media'' = Inr root" by blast
  let ?ds = "pending_media_file_deletions 250 m"
  have "drain_rows env root ?ds 0 0 (t, m, db) = (r, t', m', db')"
    using assms True root by (simp add: drain_pending_deletions_def)
  then have clean: "cleaned root ?ds (t, m, db) (t', m', db')" by (rule drain_rows_cleaned)
  have "t' x = None \<and> (\<exists>content. t x = Some (Regular content)) \<and> (\<exists>d directory. d \<in> set (deletions m) \<and>
      x = path_push root (dl_path d) \<and> is_public_relative (dl_path d) \<and>
      expected_directory (owners m) (dl_owner d) = Some directory \<and>
      path_starts_with (dl_path d) (trim_slashes directory) \<and>
      (\<forall>w\<in>set (walked root (butlast (path_components (dl_path d)))). t w = Some Dir))" if changed: "t' x \<noteq> t x" for x
  proof -
    obtain d where d: "d \<in> set ?ds" "removable root d t x" "t' x = None"
      using clean changed unfolding cleaned_def shrinks_def prod.case by metis
    obtain y where "y \<in> set (deletions m)" "pd_path d = dl_path y" "pd_directory d = expected_directory (owners m) (dl_owner y)"
      using pending_member [OF d(1)] by blast
    then show ?thesis using d(2,3) by (auto simp: removable_def plain_file_def)
  qed
  then show ?thesis using clean root unfolding cleaned_def prod.case by blast
next
  case False
  then have "(t', m', db') = (t, m, db)"
    using assms by (auto simp: drain_pending_deletions_def split: if_splits sum.splits)
  then show ?thesis by simp
qed

text \<open>A file is only reused when it is there: a row passes verification only if its public path
  leads through directories to a regular file of the recorded size, whose digest is the recorded one
  unless it was verified recently.\<close>

theorem verified_file_present:
  assumes "verify_asset_file env t asset"
  shows "\<exists>root content. canonical env ''/media'' = Inr root \<and> is_public_relative (ra_path asset) \<and>
    t (path_push root (ra_path asset)) = Some (Regular content) \<and> int (length content) = ra_bytes asset \<and>
    (\<forall>w\<in>set (walked root (butlast (path_components (ra_path asset)))). t w = Some Dir) \<and>
    (ra_recently_verified asset \<or>
     to_ascii_lowercase (as_hex (store_sha256 env content)) = to_ascii_lowercase (ra_sha256 asset))"
proof -
  obtain root where root: "canonical env ''/media'' = Inr root"
    using assms by (cases "canonical env ''/media''") (auto simp: verify_asset_file_def)
  obtain expected where expected: "parent_text (ra_path asset) = Some expected"
    using assms root by (cases "parent_text (ra_path asset)") (auto simp: verify_asset_file_def)
  obtain p where p: "safe_regular_file env t root (ra_path asset) expected = Inr (Some p)"
    using assms root expected
    by (cases "safe_regular_file env t root (ra_path asset) expected") (auto simp: verify_asset_file_def split: option.splits)
  then have plain: "plain_file t root (ra_path asset) p" using safe_regular_file_found by blast
  then obtain content where content: "t p = Some (Regular content)" by (auto simp: plain_file_def)
  then show ?thesis using assms root expected p plain
    by (intro exI [of _ root] exI [of _ content])
       (auto simp: verify_asset_file_def file_sha256_def plain_file_def split: if_splits)
qed

lemma persist_ok_recorded:
  "persist_ready env urls p m db = (Inr (), db') \<Longrightarrow> media_db_ok db \<Longrightarrow> image_recorded p m db db' \<and> media_db_ok db'"
  by (auto elim!: persist_ready_cases dest: persist_transaction_recorded)

text \<open>C26: when the gallery of an owner is reordered so that an image moves away from a path and another
  image is then published there, the clean-up removes the new file although its row is ready: moving
  the first image queues the path for deletion, and publishing the second does not take it off the
  queue.\<close>

theorem gallery_swap_deletes_live_file:
  assumes moved: "persist_ready env1 urls p m1 db0 = (Inr (), db1)" "media_db_ok db0"
    and before: "x \<in> set (asset_rows db0)" "ar_path x = Some path" "ar_source x = ''tmdb''"
      "ar_key x = ip_tmdb_path p" "slot_of db0 p = Some (asset_owner x, kind, i)" "md_storage_path m1 \<noteq> path"
    and published: "persist_ready env2 urls q m2 db1 = (Inr (), db2)" "md_storage_path m2 = path"
    and placed: "plain_file t root path f" "is_public_relative path" "length (deletions db2) \<le> 250"
    and owner: "\<And>d. d \<in> set (deletions db2) \<Longrightarrow> dl_path d = path \<Longrightarrow> \<exists>directory.
        expected_directory (owners db2) (dl_owner d) = Some directory \<and> path_starts_with path (trim_slashes directory)"
    and clean: "drain_pending_deletions env (t, db2, db) = (Inr n, t', db3, db')" "\<And>p. lstat_error (cl_store env) p = None"
      "canonical (cl_store env) ''/media'' = Inr root"
  shows "\<exists>row\<in>set (asset_rows db3). ar_status row = Asset_ready \<and> ar_path row = Some path \<and>
    ar_key row = ip_tmdb_path q \<and> t' (path_push root path) = None"
proof -
  have first: "image_recorded p m1 db0 db1" "media_db_ok db1" using persist_ok_recorded [OF moved] by blast+
  have second: "image_recorded q m2 db1 db2" using persist_ok_recorded [OF published(1) first(2)] by blast
  from first(1) obtain row1 where row1: "Some (slot_identity row1) = slot_of db0 p" "ar_source row1 = ''tmdb''"
      "ar_key row1 = ip_tmdb_path p"
      "\<forall>x\<in>set (asset_rows db0). \<forall>path. ar_path x = Some path \<and> path \<noteq> md_storage_path m1 \<and>
         (slot_identity x = slot_identity row1 \<or> source_identity x = source_identity row1) \<longrightarrow> path \<in> pending_paths db1"
    unfolding image_recorded_def by blast
  have "source_identity x = source_identity row1"
    using before(3-5) row1(1-3) by (simp add: source_identity_def slot_identity_def)
  then have "path \<in> pending_paths db1" using row1(4) before(1,2,6) by blast
  then have "path \<in> pending_paths db2" using second unfolding image_recorded_def by blast
  then obtain y where y: "y \<in> set (deletions db2)" "dl_path y = path" by (auto simp: pending_paths_def)
  let ?d = "\<lparr>pd_id = dl_id y, pd_path = dl_path y, pd_directory = expected_directory (owners db2) (dl_owner y)\<rparr>"
  have d: "?d \<in> set (pending_media_file_deletions 250 db2)"
    using y placed(3) by (auto simp: pending_media_file_deletions_def)
  have "removable root ?d t f" using placed(1,2) owner [OF y] y(2) by (auto simp: removable_def)
  moreover have rows: "drain_rows env root (pending_media_file_deletions 250 db2) 0 0 (t, db2, db) = (Inr n, t', db3, db')"
    using clean(1,3) by (simp add: drain_pending_deletions_def split: if_splits)
  ultimately have "t' f = None" using drain_rows_removes [OF rows clean(2) d] by simp
  moreover have "f = path_push root path" using placed(1) by (simp add: plain_file_def)
  moreover have "asset_rows db3 = asset_rows db2" using drain_rows_cleaned [OF rows] by (simp add: cleaned_def)
  moreover obtain row where "row \<in> set (asset_rows db2)" "ar_status row = Asset_ready" "ar_path row = Some path"
      "ar_key row = ip_tmdb_path q"
    using second published(2) unfolding image_recorded_def by blast
  ultimately show ?thesis by auto
qed

definition demo_poster :: "string \<Rightarrow> nat \<Rightarrow> image_payload" where
  "demo_poster key i = \<lparr>ip_schema_version = 1, ip_entity_type = EntityMovie, ip_entity_id = 42,
     ip_kind = KindPoster, ip_tmdb_path = key, ip_source_url = ''u'', ip_language = None,
     ip_source_revision = None, ip_season_number = None, ip_episode_number = None,
     ip_title_tmdb_id = None, ip_asset_index = i\<rparr>"

definition demo_gallery_row :: asset_row where
  "demo_gallery_row = \<lparr>ar_id = 0, ar_owner = owner_ids_of EntityMovie 1, ar_kind = ''poster'', ar_source = ''tmdb'',
     ar_key = ''/b.jpg'', ar_url = Some ''u'', ar_path = Some ''movies/42/posters/poster-02.jpg'',
     ar_mime_type = Some ''image/jpeg'', ar_width = Some 1, ar_height = Some 1, ar_bytes = Some 70,
     ar_sha256 = Some (replicate 64 (CHR ''a'')), ar_gallery = 2, ar_status = Asset_ready, ar_language = None,
     ar_downloaded_at = Some 0, ar_verified_at = Some 0\<rparr>"

definition demo_gallery :: media_db where
  "demo_gallery = \<lparr>owners = demo_owner_tables\<lparr>ot_titles := [\<lparr>tr_id = 1, tr_media_type = ''movie'', tr_tmdb_id = 42,
     tr_active = True\<rparr>]\<rparr>, asset_rows = [demo_gallery_row], next_asset = 1, deletions = [], next_deletion = 1\<rparr>"

lemma demo_poster_checks:
  "validate demo_urls (demo_poster ''/a.jpg'' 2) = Inr ()" "validate demo_urls (demo_poster ''/b.jpg'' 1) = Inr ()"
  "safe_storage_path ''movies/42/posters/poster.jpg''" "safe_storage_path ''movies/42/posters/poster-02.jpg''"
  "\<not> is_obsolete_layout ''movies/42/posters/poster.jpg''" "\<not> is_obsolete_layout ''movies/42/posters/poster-02.jpg''"
  "deletion_path_ok ''movies/42/posters/poster.jpg''" "deletion_path_ok ''movies/42/posters/poster-02.jpg''"
  "source_key_ok ''/a.jpg''" "source_key_ok ''/b.jpg''" "digest_text_ok (replicate 64 (CHR ''a''))"
  "is_public_relative ''movies/42/posters/poster-02.jpg''"
  by code_simp+

definition demo_moved :: media_db where
  "demo_moved = demo_gallery\<lparr>asset_rows := [demo_gallery_row\<lparr>ar_path := Some ''movies/42/posters/poster.jpg'',
     ar_mime_type := Some ''image/png'', ar_gallery := 1\<rparr>], next_asset := 2,
     deletions := [\<lparr>dl_id = 1, dl_item = None, dl_owner = (1, 1), dl_path = ''movies/42/posters/poster-02.jpg''\<rparr>],
     next_deletion := 2\<rparr>"

lemma demo_row_paths:
  "1 \<le> char_count s \<and> char_count s \<le> 512 \<and> \<not> has_control s \<and> CHR 0x5C \<notin> set s \<and>
     \<not> list_ex (\<lambda>w. starts_with w ''.'' \<or> w = ''optimized'') (split_on (CHR ''/'') s)"
  if "s \<in> {''movies/42/posters/poster.jpg'', ''movies/42/posters/poster-02.jpg''}"
proof -
  have "\<forall>s\<in>{''movies/42/posters/poster.jpg'', ''movies/42/posters/poster-02.jpg''}.
     1 \<le> char_count s \<and> char_count s \<le> 512 \<and> \<not> has_control s \<and> CHR 0x5C \<notin> set s \<and>
     \<not> list_ex (\<lambda>w. starts_with w ''.'' \<or> w = ''optimized'') (split_on (CHR ''/'') s)" by code_simp
  then show ?thesis using that by blast
qed

lemmas demo_persist_defs = persist_ready_def persist_transaction_def demo_persist_env_def demo_gallery_def
  demo_moved_def validate_metadata_def owner_row_def active_title_def demo_owner_tables_def resolve_owner_def
  owner_identity_def owner_ids_of_def owner_default_def resolve_language_def queue_image_asset_replacements_def
  replaced_paths_def queue_deletion_def upsert_asset_def conflicts_slot_def row_check_def ready_asset_row_def
  demo_metadata_def db_image_kind_def media_kinds_def demo_poster_def Let_def demo_gallery_row_def
  source_identity_def slot_identity_def asset_owner_def row_owner_type_def row_owner_id_def

lemma demo_first:
  "persist_ready demo_persist_env demo_urls (demo_poster ''/b.jpg'' 1)
     (demo_metadata (demo_poster ''/b.jpg'' 1) ''movies/42/posters/poster.jpg'') demo_gallery = (Inr (), demo_moved)"
  using demo_poster_checks demo_row_paths [of "''movies/42/posters/poster.jpg''"]
  by (simp add: demo_persist_defs)

lemma demo_second:
  obtains db2 where
    "persist_ready demo_persist_env demo_urls (demo_poster ''/a.jpg'' 2)
       (demo_metadata (demo_poster ''/a.jpg'' 2) ''movies/42/posters/poster-02.jpg'') demo_moved = (Inr (), db2)"
    "deletions db2 = deletions demo_moved" "owners db2 = owners demo_moved"
proof -
  have "\<exists>db2. persist_ready demo_persist_env demo_urls (demo_poster ''/a.jpg'' 2)
      (demo_metadata (demo_poster ''/a.jpg'' 2) ''movies/42/posters/poster-02.jpg'') demo_moved = (Inr (), db2) \<and>
    deletions db2 = deletions demo_moved \<and> owners db2 = owners demo_moved"
    using demo_poster_checks demo_row_paths [of "''movies/42/posters/poster-02.jpg''"]
    by (simp add: demo_persist_defs)
  then show thesis using that by blast
qed

definition demo_tree :: file_tree where
  "demo_tree x =
     (if x \<in> {''/media/movies'', ''/media/movies/42'', ''/media/movies/42/posters''} then Some Dir
      else if x = ''/media/movies/42/posters/poster-02.jpg'' then Some (Regular ''jpg'') else None)"

definition demo_cleanup :: cleanup_env where
  "demo_cleanup = \<lparr>cl_store = demo_store, cl_pending = True, cl_complete = (\<lambda>k. Delivered)\<rparr>"

definition demo_requests :: request_db where
  "demo_requests = \<lparr>requests = [], items = [], links = []\<rparr>"

lemma demo_safe_file:
  "safe_regular_file demo_store demo_tree ''/media'' ''movies/42/posters/poster-02.jpg'' ''movies/42'' =
     Inr (Some ''/media/movies/42/posters/poster-02.jpg'')"
  by code_simp

lemma demo_drain:
  assumes "deletions m = deletions demo_moved" "owners m = owners demo_moved"
  obtains m' where "drain_pending_deletions demo_cleanup (demo_tree, m, demo_requests) =
    (Inr 1, demo_tree(''/media/movies/42/posters/poster-02.jpg'' := None), m', demo_requests)"
proof -
  have facts: "deletion_allowed ''movies/42/posters/poster-02.jpg'' ''movies/42''" "trim_slashes ''movies/42/'' = ''movies/42''"
    "dec_int 42 = ''42''" by code_simp+
  have store: "canonical demo_store ''/media'' = Inr ''/media''" "remove_file_error demo_store p = None" for p
    by (simp_all add: demo_store_def)
  have "\<exists>m'. drain_pending_deletions demo_cleanup (demo_tree, m, demo_requests) =
    (Inr 1, demo_tree(''/media/movies/42/posters/poster-02.jpg'' := None), m', demo_requests)"
    using assms facts demo_safe_file store
    by (simp add: drain_pending_deletions_def demo_cleanup_def pending_media_file_deletions_def demo_moved_def
        demo_gallery_def expected_directory_def title_of_def remove_pending_def complete_deletion_def
        complete_media_file_deletion_def)
  then show thesis using that by blast
qed

theorem deletions_confined_witness:
  "\<exists>d\<in>set (deletions demo_moved). path_push ''/media'' (dl_path d) = ''/media/movies/42/posters/poster-02.jpg''"
proof -
  obtain m' where run: "drain_pending_deletions demo_cleanup (demo_tree, demo_moved, demo_requests) =
    (Inr 1, demo_tree(''/media/movies/42/posters/poster-02.jpg'' := None), m', demo_requests)"
    using demo_drain [OF refl refl] .
  have "(demo_tree(''/media/movies/42/posters/poster-02.jpg'' := None)) ''/media/movies/42/posters/poster-02.jpg''
      \<noteq> demo_tree ''/media/movies/42/posters/poster-02.jpg''" by (simp add: demo_tree_def)
  moreover have "canonical (cl_store demo_cleanup) ''/media'' = Inr ''/media''"
    by (simp add: demo_cleanup_def demo_store_def)
  ultimately show ?thesis using deletions_confined [OF run] by (metis sum.inject(2))
qed

theorem verified_file_present_witness:
  "\<exists>content. demo_tree ''/media/movies/42/posters/poster-02.jpg'' = Some (Regular content) \<and> length content = 3"
proof -
  have "verify_asset_file demo_store demo_tree \<lparr>ra_id = 0, ra_path = ''movies/42/posters/poster-02.jpg'', ra_bytes = 3,
      ra_sha256 = replicate 64 (CHR ''a''), ra_recently_verified = True\<rparr>" by code_simp
  moreover have "canonical demo_store ''/media'' = Inr ''/media''" by (simp add: demo_store_def)
  moreover have "path_push ''/media'' ''movies/42/posters/poster-02.jpg'' = ''/media/movies/42/posters/poster-02.jpg''"
    by code_simp
  ultimately show ?thesis using verified_file_present by fastforce
qed

theorem gallery_swap_deletes_live_file_witness:
  "\<exists>db2 m' row. persist_ready demo_persist_env demo_urls (demo_poster ''/a.jpg'' 2)
       (demo_metadata (demo_poster ''/a.jpg'' 2) ''movies/42/posters/poster-02.jpg'') demo_moved = (Inr (), db2) \<and>
     drain_pending_deletions demo_cleanup (demo_tree, db2, demo_requests) =
       (Inr 1, demo_tree(''/media/movies/42/posters/poster-02.jpg'' := None), m', demo_requests) \<and>
     row \<in> set (asset_rows m') \<and> ar_status row = Asset_ready \<and> ar_path row = Some ''movies/42/posters/poster-02.jpg''"
proof -
  let ?path = "''movies/42/posters/poster-02.jpg''"
  obtain db2 where db2: "persist_ready demo_persist_env demo_urls (demo_poster ''/a.jpg'' 2)
       (demo_metadata (demo_poster ''/a.jpg'' 2) ?path) demo_moved = (Inr (), db2)"
    "deletions db2 = deletions demo_moved" "owners db2 = owners demo_moved" using demo_second .
  obtain m' where run: "drain_pending_deletions demo_cleanup (demo_tree, db2, demo_requests) =
    (Inr 1, demo_tree(''/media/movies/42/posters/poster-02.jpg'' := None), m', demo_requests)"
    using demo_drain [OF db2(2,3)] .
  have comps: "path_components ?path = [Normal ''movies'', Normal ''42'', Normal ''posters'', Normal ''poster-02.jpg'']"
      "path_push ''/media'' ?path = ''/media/movies/42/posters/poster-02.jpg''"
      "path_push ''/media'' ''movies'' = ''/media/movies''" "path_push ''/media/movies'' ''42'' = ''/media/movies/42''"
      "path_push ''/media/movies/42'' ''posters'' = ''/media/movies/42/posters''"
      "path_starts_with ?path (trim_slashes ''movies/42/'')" "dec_int 42 = ''42''" by code_simp+
  have plain: "plain_file demo_tree ''/media'' ?path ''/media/movies/42/posters/poster-02.jpg''"
    by (simp add: plain_file_def comps) (simp add: demo_tree_def)
  have owner: "expected_directory (owners db2) (dl_owner d) = Some ''movies/42/''" if "d \<in> set (deletions db2)" for d
    using that db2(2,3) comps(7)
    by (simp add: demo_moved_def demo_gallery_def expected_directory_def title_of_def)
  have ok: "media_db_ok demo_gallery" by (simp add: media_db_ok_def demo_gallery_def)
  have "\<exists>row\<in>set (asset_rows m'). ar_status row = Asset_ready \<and> ar_path row = Some ?path \<and> ar_key row = ip_tmdb_path (demo_poster ''/a.jpg'' 2) \<and>
      (demo_tree(''/media/movies/42/posters/poster-02.jpg'' := None)) (path_push ''/media'' ?path) = None"
    by (rule gallery_swap_deletes_live_file [OF demo_first ok _ _ _ _ _ _ db2(1) _ plain _ _ _ run,
          where x = demo_gallery_row])
       (use db2 owner comps demo_poster_checks in \<open>auto simp: demo_gallery_def demo_gallery_row_def demo_poster_def
          demo_metadata_def demo_moved_def slot_of_def owner_row_def active_title_def asset_owner_def image_owner_def
          demo_cleanup_def demo_store_def\<close>)
  then show ?thesis using db2 run by blast
qed

end
