(* ===== verification/Image_Worker.thy ===== *)
theory Image_Worker
  imports Image_Catalog Worker
begin

text \<open>
  The executor of the image worker, \<open>src/apps/tmdb-images/src/runtime.rs\<close>: which jobs it accepts, the
  pipeline from download through publication to the catalog row, how each failure is reported to the
  queue, and the workers and waits around it. Log calls are left out; the texts they log are modelled.
\<close>

section \<open>Jobs\<close>

datatype image_worker_job = Noop | Download image_payload

definition image_job_types :: "string list" where
  "image_job_types = [image_job_type, ''system.noop'']"

definition parse_image_worker_job ::
    "(string \<Rightarrow> url option) \<Rightarrow> string \<Rightarrow> int \<Rightarrow> json \<Rightarrow> job_execution_error + image_worker_job" where
  "parse_image_worker_job urls job_type version payload =
     (if job_type = ''system.noop'' \<and> version = 1 then Inr Noop
      else if job_type \<noteq> image_job_type \<or> version \<noteq> image_job_payload_version
      then Inl (job_retry ''invalid_payload'' (from_secs 5))
      else map_errR (\<lambda>_. job_retry ''invalid_payload'' (from_secs 5)) (mapR Download (from_json urls payload)))"

section \<open>Failures\<close>

definition map_persist_error :: "persist_error \<Rightarrow> job_execution_error" where
  "map_persist_error e =
     (case e of
        Persist_invalid \<Rightarrow> job_dead_letter ''invalid_payload''
      | OwnerNotFound \<Rightarrow> job_retry ''entity_not_ready'' (from_secs 5)
      | LanguageNotFound \<Rightarrow> job_retry ''entity_not_ready'' (from_secs 5)
      | Persist_database \<Rightarrow> job_retry ''execution_failed'' (from_secs 5))"

definition download_error_code :: "image_error \<Rightarrow> string" where
  "download_error_code e =
     (case e of
        HttpStatus status \<Rightarrow>
          if status = 429 then ''rate_limited''
          else if 400 \<le> status \<and> status \<le> 499 then ''invalid_payload'' else ''upstream_unavailable''
      | InvalidPolicy \<Rightarrow> ''invalid_payload'' | InvalidTrawlUrl \<Rightarrow> ''invalid_payload''
      | DisallowedHost \<Rightarrow> ''invalid_payload'' | InvalidRedirect \<Rightarrow> ''invalid_payload''
      | RedirectLimit \<Rightarrow> ''invalid_payload'' | UnsupportedMime \<Rightarrow> ''invalid_payload''
      | InvalidImage \<Rightarrow> ''invalid_payload'' | ImageTooLarge \<Rightarrow> ''invalid_payload''
      | TooLarge \<Rightarrow> ''invalid_payload'' | Truncated \<Rightarrow> ''invalid_payload''
      | ChallengeDetected \<Rightarrow> ''upstream_unavailable'' | FallbackUnavailable \<Rightarrow> ''upstream_unavailable''
      | BodyRead \<Rightarrow> ''upstream_unavailable'' | Transport _ \<Rightarrow> ''upstream_unavailable'')"

definition map_download_error :: "image_error \<Rightarrow> job_execution_error" where
  "map_download_error e = job_retry (download_error_code e) (from_secs 5)"

definition map_image_storage_error :: "image_storage_error \<Rightarrow> job_execution_error" where
  "map_image_storage_error e = job_retry ''execution_failed'' (from_secs 5)"

text \<open>The texts of the log events.\<close>

definition image_download_reason :: "image_error \<Rightarrow> string" where
  "image_download_reason e =
     (case e of
        InvalidPolicy \<Rightarrow> ''invalid_policy'' | InvalidTrawlUrl \<Rightarrow> ''invalid_trawl_url''
      | DisallowedHost \<Rightarrow> ''disallowed_host'' | InvalidRedirect \<Rightarrow> ''invalid_redirect''
      | RedirectLimit \<Rightarrow> ''redirect_limit'' | ChallengeDetected \<Rightarrow> ''challenge_detected''
      | FallbackUnavailable \<Rightarrow> ''trawl_unavailable'' | HttpStatus _ \<Rightarrow> ''http_status''
      | UnsupportedMime \<Rightarrow> ''unsupported_mime'' | InvalidImage \<Rightarrow> ''invalid_image''
      | ImageTooLarge \<Rightarrow> ''image_too_large'' | TooLarge \<Rightarrow> ''body_too_large''
      | Truncated \<Rightarrow> ''body_truncated'' | BodyRead \<Rightarrow> ''body_read_failed''
      | Transport _ \<Rightarrow> ''transport_failed'')"

definition image_http_status :: "image_error \<Rightarrow> nat" where
  "image_http_status e = (case e of HttpStatus status \<Rightarrow> status | _ \<Rightarrow> 0)"

definition image_storage_reason :: "image_storage_error \<Rightarrow> string" where
  "image_storage_reason e =
     (case e of InvalidRoot \<Rightarrow> ''invalid_root'' | Payload_invalid \<Rightarrow> ''invalid_payload''
      | DigestMismatch \<Rightarrow> ''digest_mismatch'' | Io _ _ \<Rightarrow> ''io''
      | DestinationConflict \<Rightarrow> ''destination_conflict'')"

definition image_storage_io_kind :: "image_storage_error \<Rightarrow> string option" where
  "image_storage_io_kind e =
     (case e of
        Io _ k \<Rightarrow> Some
          (case k of PermissionDenied \<Rightarrow> ''permission_denied'' | ReadOnlyFilesystem \<Rightarrow> ''read_only_filesystem''
           | StorageFull \<Rightarrow> ''storage_full'' | QuotaExceeded \<Rightarrow> ''quota_exceeded''
           | io_kind.NotFound \<Rightarrow> ''not_found'' | AlreadyExists \<Rightarrow> ''already_exists''
           | Other_io \<Rightarrow> ''io_error'')
      | _ \<Rightarrow> None)"

definition image_storage_operation :: "image_storage_error \<Rightarrow> string" where
  "image_storage_operation e = (case e of Io operation _ \<Rightarrow> operation_text operation | _ \<Rightarrow> ''not_applicable'')"

definition persist_error_reason :: "persist_error \<Rightarrow> string" where
  "persist_error_reason e =
     (case e of Persist_invalid \<Rightarrow> ''invalid_payload'' | OwnerNotFound \<Rightarrow> ''owner_not_found''
      | LanguageNotFound \<Rightarrow> ''language_not_found'' | Persist_database \<Rightarrow> ''database'')"

section \<open>The pipeline\<close>

definition ser_image_metadata :: "image_metadata \<Rightarrow> json" where
  "ser_image_metadata m = JObj
     [(''byteSize'', json_nat (md_byte_size m)),
      (''entityId'', JInt (md_entity_id m)),
      (''entityType'', JStr (image_entity_type_name (md_entity_type m))),
      (''height'', JInt (uint (md_height m))),
      (''kind'', JStr (image_kind_name (md_kind m))),
      (''language'', json_option JStr (md_language m)),
      (''mimeType'', JStr (md_mime_type m)),
      (''sha256'', JStr (md_sha256 m)),
      (''source'', JStr (image_source_name (md_source m))),
      (''sourceRevision'', json_option JStr (md_source_revision m)),
      (''sourceUrl'', JStr (md_source_url m)),
      (''storagePath'', JStr (md_storage_path m)),
      (''tmdbPath'', JStr (md_tmdb_path m)),
      (''width'', JInt (uint (md_width m)))]"

record image_executor =
  ix_image :: image_env
  ix_policy :: download_policy
  ix_fallback :: "trawl_fallback option"
  ix_store :: store_env
  ix_root :: string
  ix_persist :: persist_env
  ix_allow_local_media :: bool

record image_site =
  is_requests :: request_log
  is_files :: file_tree
  is_media :: media_db

definition image_result :: "stored_image \<Rightarrow> json" where
  "image_result s = JObj [(''deduplicated'', JBool (st_deduplicated s)), (''metadata'', ser_image_metadata (st_metadata s))]"

definition execute_download ::
    "image_executor \<Rightarrow> image_payload \<Rightarrow> image_site \<Rightarrow> (job_execution_error fault + json) \<times> image_site" where
  "execute_download ex p site =
     (case download (ix_image ex) (ix_policy ex) (ix_fallback ex) p of (downloaded, log) \<Rightarrow>
      let site = site\<lparr>is_requests := is_requests site @ log\<rparr> in
      case downloaded of
        Inl Panic \<Rightarrow> (Inl Panic, site)
      | Inl (Err e) \<Rightarrow> (Inl (Err (map_download_error e)), site)
      | Inr img \<Rightarrow>
          (case publish (ix_store ex) (img_parse_url (ix_image ex)) (ix_root ex) p img (is_files site) of
             (Inl e, t) \<Rightarrow> (Inl (Err (map_image_storage_error e)), site\<lparr>is_files := t\<rparr>)
           | (Inr stored, t) \<Rightarrow>
               let site = site\<lparr>is_files := t\<rparr> in
               (case persist_ready (ix_persist ex) (img_parse_url (ix_image ex)) p (st_metadata stored)
                       (is_media site) of
                  (Inl e, db) \<Rightarrow> (Inl (Err (map_persist_error e)), site\<lparr>is_media := db\<rparr>)
                | (Inr _, db) \<Rightarrow> (Inr (image_result stored), site\<lparr>is_media := db\<rparr>))))"

definition execute_image_job ::
    "image_executor \<Rightarrow> claimed_job \<Rightarrow> image_site \<Rightarrow> (job_execution_error fault + json) \<times> image_site" where
  "execute_image_job ex job site =
     (case parse_image_worker_job (img_parse_url (ix_image ex)) (cj_type job) (cj_version job)
             (cj_payload job) of
        Inl e \<Rightarrow> (Inl (Err e), site)
      | Inr Noop \<Rightarrow> (Inr (JObj [(''ok'', JBool True)]), site)
      | Inr (Download p) \<Rightarrow>
          if \<not> ix_allow_local_media ex then (Inl (Err (job_dead_letter ''local_media_disabled'')), site)
          else execute_download ex p site)"

section \<open>Workers\<close>

text \<open>The functions the worker needs before it starts.\<close>

definition image_job_queue_ready :: "(string \<Rightarrow> bool) \<Rightarrow> bool" where
  "image_job_queue_ready exists_function \<longleftrightarrow>
     list_all exists_function
       [''ops.claim_job_for_types(text,bigint,text[])'', ''ops.record_component_heartbeat(text,text)'',
        ''ops.claim_media_request(text,bigint)'', ''assets.select_media_request_sources(uuid,bigint,integer)'']"

text \<open>
  One poll per element: the answer, if the query succeeded, and whether cancellation came before the
  pause was over. \<open>None\<close>: still polling.
\<close>

fun wait_for_image_job_queue :: "(bool option \<times> bool) list \<Rightarrow> bool option" where
  "wait_for_image_job_queue [] = None"
| "wait_for_image_job_queue ((answer, cancelled) # polls) =
     (if answer = Some True then Some True
      else if cancelled then Some False
      else wait_for_image_job_queue polls)"

datatype worker_join = Worker_stopped | Worker_error worker_error | Worker_task_failed

datatype workers_failure = Stopped_unexpectedly | Worker_failed worker_error | Task_failed

text \<open>The workers in the order they end, with the state of the cancellation token at that moment.\<close>

fun run_workers :: "(worker_join \<times> bool) list \<Rightarrow> workers_failure + unit" where
  "run_workers [] = Inr ()"
| "run_workers ((join, cancelled) # rest) =
     (case join of
        Worker_stopped \<Rightarrow> if cancelled then run_workers rest else Inl Stopped_unexpectedly
      | Worker_error e \<Rightarrow> Inl (Worker_failed e)
      | Worker_task_failed \<Rightarrow> Inl Task_failed)"

datatype worker_setup_error = Setup_id validation_error | Setup_timing worker_config_error

definition image_worker_configs :: "worker_config \<Rightarrow> nat \<Rightarrow> worker_setup_error + worker_config list" where
  "image_worker_configs base concurrency =
     (if concurrency = 1 then Inr [base]
      else collectR (map (\<lambda>i.
        bindR (map_errR Setup_id (worker_id_new (wc_worker_id base @ ''-'' @ dec (i + 1)))) (\<lambda>w.
        map_errR Setup_timing (worker_config_try_new w (wc_lease_duration base) (wc_heartbeat_interval base)
          (wc_idle_poll_interval base)))) [0..<concurrency]))"

lemma config_worker: "worker_config_try_new w lease beat idle = Inr cfg \<Longrightarrow> wc_worker_id cfg = w"
  by (auto simp: worker_config_try_new_def split: if_splits)

text \<open>Workers of one process never share the identity of their leases.\<close>

lemma image_worker_ids_distinct:
  assumes "image_worker_configs base n = Inr cfgs"
  shows "length cfgs = n \<and> distinct (map wc_worker_id cfgs)"
proof (cases "n = 1")
  case False
  let ?f = "\<lambda>i. bindR (map_errR Setup_id (worker_id_new (wc_worker_id base @ ''-'' @ dec (i + 1)))) (\<lambda>w.
      map_errR Setup_timing (worker_config_try_new w (wc_lease_duration base) (wc_heartbeat_interval base)
        (wc_idle_poll_interval base)))"
  have "collectR (map ?f [0..<n]) = Inr cfgs" using assms False by (simp add: image_worker_configs_def)
  then have all: "list_all2 (\<lambda>i y. ?f i = Inr y) [0..<n] cfgs" by (simp add: collectR_Inr_iff)
  then have len: "length cfgs = n" by (auto dest: list_all2_lengthD)
  have "wc_worker_id (cfgs ! i) = wc_worker_id base @ ''-'' @ dec (i + 1)" if "i < n" for i
  proof -
    have "?f i = Inr (cfgs ! i)" using list_all2_nthD [OF all, of i] that by simp
    then show ?thesis by (auto simp: result_simps worker_id_new_def dest: config_worker)
  qed
  then have "distinct (map wc_worker_id cfgs)" using len by (auto simp: distinct_conv_nth)
  then show ?thesis using len by blast
qed (use assms in \<open>auto simp: image_worker_configs_def\<close>)

lemma run_workers_ok: "run_workers js = Inr () \<longleftrightarrow> list_all (\<lambda>j. j = (Worker_stopped, True)) js"
  by (induction js rule: run_workers.induct) (auto split: worker_join.splits)

section \<open>Published paths\<close>

lemma join_with_all: "list_all P sep \<Longrightarrow> list_all (list_all P) ws \<Longrightarrow> list_all P (join_with sep ws)"
  by (induction sep ws rule: join_with.induct) auto

lemma path_char_name: "name_char c \<Longrightarrow> path_char c" "int_text c \<Longrightarrow> path_char c" "is_digit c \<Longrightarrow> path_char c"
  by (auto simp: path_char_def name_char_def int_text_def is_alpha_def)

lemma path_char_letter: "97 \<le> byte c \<Longrightarrow> byte c \<le> 122 \<Longrightarrow> path_char c"
  by (simp add: path_char_def is_alpha_def is_lower_def)

lemma asset_segment_chars: "list_all (list_all path_char) (asset_dirs a @ [asset_name a])"
proof -
  have "list_all path_char (stem v)" "list_all path_char (dec_int i)" for v i
    using stem_name [of v] dec_int_text [of i] by (auto simp: list_all_iff path_char_name)
  moreover have "list_all path_char (extension f)" for f
    by (cases f) (simp_all add: extension_def path_char_letter)
  moreover have "list_all path_char (title_subdirectory v)" for v
    by (cases v) (simp_all add: title_subdirectory_def path_char_letter)
  ultimately show ?thesis
    by (cases a)
       (auto simp: asset_name_def path_char_def is_alpha_def is_lower_def split: title_scope.splits reusable_entity.splits)
qed

lemma asset_path_chars: "asset_path a = Inr s \<Longrightarrow> list_all path_char s"
  using asset_segment_chars [of a]
  by (auto simp: asset_path_join path_char_def split: if_splits intro!: join_with_all)

lemma path_char_no_backslash: "\<not> path_char (CHR 0x5C)"
  by (simp add: path_char_def is_alpha_def is_upper_def is_lower_def is_digit_def)

lemma asset_path_no_backslash: "asset_path a = Inr s \<Longrightarrow> backslash_to_slash s = s"
  using asset_path_chars [of a s] path_char_no_backslash
  by (auto simp: backslash_to_slash_def list_all_iff intro!: map_idI)

section \<open>What the executor reports\<close>

lemma download_code_canonical: "download_error_code e \<in> set canonical_failure_codes"
  by (cases e) (simp_all add: download_error_code_def canonical_failure_codes_def)

lemma disabled_recordable: "recordable_code ''local_media_disabled''"
proof -
  have "trim ''local_media_disabled'' = ''local_media_disabled''" by (rule trim_graphic) (simp_all add: graphic_def)
  then show ?thesis
    by (auto simp: recordable_code_def validate_failure_code_def validate_legacy_failure_message_def
        message_ok_def char_count_def is_cont_def btrim_def max_failure_message_chars_def)
qed

text \<open>The reports of the executor: the codes that end a job, and a retry after five seconds.\<close>

definition image_report_ok :: "job_execution_error \<Rightarrow> bool" where
  "image_report_ok e \<longleftrightarrow>
     recordable_code (code e) \<and>
     (if terminal e then code e \<in> {''local_media_disabled'', ''invalid_payload''} else retry_delay e = from_secs 5)"

lemma report_ok_intros:
  "c \<in> set canonical_failure_codes \<Longrightarrow> image_report_ok (job_retry c (from_secs 5))"
  "image_report_ok (job_dead_letter ''invalid_payload'')"
  "image_report_ok (job_dead_letter ''local_media_disabled'')"
  by (simp_all add: image_report_ok_def job_retry_def job_dead_letter_def canonical_recordable
      canonical_failure_codes_def disabled_recordable)

lemma map_errors_report:
  "image_report_ok (map_download_error e)" "image_report_ok (map_image_storage_error s)"
  "image_report_ok (map_persist_error x)"
  subgoal using download_code_canonical report_ok_intros(1) by (simp add: map_download_error_def)
  subgoal by (simp add: map_image_storage_error_def report_ok_intros canonical_failure_codes_def)
  subgoal by (cases x) (simp_all add: map_persist_error_def report_ok_intros canonical_failure_codes_def)
  done

lemma parse_error_report: "parse_image_worker_job urls t v p = Inl e \<Longrightarrow> image_report_ok e"
  by (auto simp: parse_image_worker_job_def result_simps report_ok_intros canonical_failure_codes_def split: if_splits)

lemma image_report_wf: "image_report_ok e \<Longrightarrow> wf_result env (Inl e)"
  by (auto simp: image_report_ok_def wf_result_def duration_microseconds_def as_micros_def from_secs_def
      max_retry_micros_def split: if_splits)

section \<open>From the download to the row\<close>

text \<open>A stored image: the file at its path has the digest of the metadata.\<close>

lemma publish_stored:
  assumes "publish env urls ''/media'' p img t = (Inr s, t')"
  obtains relative b where "semantic_path p (di_mime_type img) = Some relative" "is_public_relative relative"
    "md_storage_path (st_metadata s) = relative" "md_sha256 (st_metadata s) = as_hex (di_digest img)"
    "md_byte_size (st_metadata s) = length (di_body img)" "md_mime_type (st_metadata s) = di_mime_type img"
    "t' (path_push ''/media'' relative) = Some (Regular b)" "store_sha256 env b = di_digest img"
    "st_deduplicated s \<or> b = di_body img"
proof -
  obtain relative where rel: "semantic_path p (di_mime_type img) = Some relative"
      and md: "md_storage_path (st_metadata s) = backslash_to_slash relative"
        "md_byte_size (st_metadata s) = length (di_body img)" "md_mime_type (st_metadata s) = di_mime_type img"
    using assms by (auto simp: publish_def split: if_splits option.splits prod.splits sum.splits)
  obtain a where a: "asset_path a = Inr relative" using rel semantic_path_asset [of p] by blast
  from assms rel a show thesis
  proof (cases rule: publish_cases)
    case (stored outcome s')
    then obtain b where "t' (asset_destination a) = Some (Regular b)" "store_sha256 env b = di_digest img"
        "st_deduplicated s \<or> b = di_body img"
      by (cases outcome) (auto simp: publication_def)
    then show thesis using that rel md a stored asset_path_public [OF a] asset_path_no_backslash [OF a]
      by (simp add: asset_destination_push [OF a])
  qed auto
qed

lemma execute_download_parts:
  assumes "execute_download ex p site = (r, site')"
  obtains (download_failed) e where "r = Inl (Err (map_download_error e))" "is_media site' = is_media site"
  | (publish_failed) e where "r = Inl (Err (map_image_storage_error e))" "is_media site' = is_media site"
  | (persisted) img stored x where
      "publish (ix_store ex) (img_parse_url (ix_image ex)) (ix_root ex) p img (is_files site) = (Inr stored, is_files site')"
      "persist_ready (ix_persist ex) (img_parse_url (ix_image ex)) p (st_metadata stored) (is_media site) = (x, is_media site')"
      "r = (case x of Inl e \<Rightarrow> Inl (Err (map_persist_error e)) | Inr _ \<Rightarrow> Inr (image_result stored))"
proof -
  obtain d log where d: "download (ix_image ex) (ix_policy ex) (ix_fallback ex) p = (d, log)" by fastforce
  have no_panic: "d \<noteq> Inl Panic" using download_no_panic [of "ix_image ex"] d by (metis fst_conv)
  show thesis
  proof (cases d)
    case (Inl f)
    then obtain e where "f = Err e" using no_panic by (cases f) auto
    then show thesis using assms d Inl by (intro download_failed [of e]) (auto simp: execute_download_def)
  next
    case (Inr img)
    obtain y t where y: "publish (ix_store ex) (img_parse_url (ix_image ex)) (ix_root ex) p img (is_files site) = (y, t)"
      by fastforce
    show thesis
    proof (cases y)
      case (Inl e)
      then show thesis using assms d Inr y by (intro publish_failed [of e]) (auto simp: execute_download_def)
    next
      case stored: (Inr stored)
      obtain x db where x: "persist_ready (ix_persist ex) (img_parse_url (ix_image ex)) p (st_metadata stored)
          (is_media site) = (x, db)" by fastforce
      then show thesis using assms d Inr y stored
        by (intro persisted [of img stored x]) (cases x; auto simp: execute_download_def)+
    qed
  qed
qed

section \<open>Properties\<close>


definition demo_executor :: image_executor where
  "demo_executor = \<lparr>ix_image = demo_image_env, ix_policy = demo_policy, ix_fallback = None, ix_store = demo_store,
     ix_root = ''/media'', ix_persist = demo_persist_env, ix_allow_local_media = True\<rparr>"

definition demo_claimed :: claimed_job where
  "demo_claimed = \<lparr>cj_id = 3, cj_type = ''image.download'', cj_version = 1, cj_payload = demo_image_job,
     cj_attempts = 1, cj_max_attempts = 8, cj_lease_expires_at = 9, cj_cancellation_requested = False\<rparr>"

definition demo_image_site :: image_site where
  "demo_image_site = \<lparr>is_requests = [], is_files = (\<lambda>x. None), is_media = demo_media_db\<rparr>"

lemma demo_stored:
  obtains s t' where "publish demo_store demo_urls ''/media'' demo_payload demo_image (\<lambda>x. None) = (Inr s, t')"
    "st_metadata s = (demo_metadata demo_payload demo_relative)\<lparr>md_byte_size := length demo_png,
       md_sha256 := as_hex (replicate 32 (CHR ''d''))\<rparr>"
proof -
  obtain s t' where run: "publish demo_store demo_urls ''/media'' demo_payload demo_image (\<lambda>x. None) = (Inr s, t')"
    using demo_publish .
  have "replicate 32 (CHR ''d'') = di_digest demo_image" "backslash_to_slash demo_relative = demo_relative"
    by code_simp+
  then have "st_metadata s = (demo_metadata demo_payload demo_relative)\<lparr>md_byte_size := length demo_png,
      md_sha256 := as_hex (replicate 32 (CHR ''d''))\<rparr>"
    using run demo_relative_path
    by (auto simp: publish_def demo_metadata_def split: if_splits prod.splits sum.splits)
       (simp_all add: demo_image_def)
  then show thesis using run that by blast
qed

lemma demo_execute:
  obtains v site' where "execute_image_job demo_executor demo_claimed demo_image_site = (Inr v, site')"
proof -
  obtain s t' where s: "publish demo_store demo_urls ''/media'' demo_payload demo_image (\<lambda>x. None) = (Inr s, t')"
    "st_metadata s = (demo_metadata demo_payload demo_relative)\<lparr>md_byte_size := length demo_png,
       md_sha256 := as_hex (replicate 32 (CHR ''d''))\<rparr>" using demo_stored .
  have hex: "digest_text_ok (as_hex (replicate 32 (CHR ''d'')))" by code_simp
  have "0 < length demo_png" by (simp add: demo_png_def png_signature_def)
  then have "validate_metadata demo_urls demo_payload (st_metadata s) = Inr ()"
    using demo_persist_checks hex unfolding s(2) by (simp add: validate_metadata_def demo_metadata_def)
  moreover have "owner_row demo_owner_tables demo_payload = Some 9" by code_simp
  moreover have "length demo_png \<le> i64_max" by (simp add: demo_png_def png_signature_def)
  ultimately have "fst (persist_ready demo_persist_env demo_urls demo_payload (st_metadata s) demo_media_db) = Inr ()"
    using demo_persist_checks hex unfolding s(2)
    by (simp add: persist_ready_def persist_transaction_def demo_persist_env_def demo_media_db_def
        resolve_owner_def owner_identity_def owner_ids_of_def owner_default_def resolve_language_def
        queue_image_asset_replacements_def replaced_paths_def upsert_asset_def conflicts_slot_def row_check_def
        ready_asset_row_def demo_metadata_def db_image_kind_def media_kinds_def demo_payload_def Let_def)
  then obtain db' where "persist_ready demo_persist_env demo_urls demo_payload (st_metadata s) demo_media_db = (Inr (), db')"
    by (metis prod.collapse)
  moreover have "img_parse_url demo_image_env = demo_urls" by (simp add: demo_image_env_def)
  moreover have "parse_image_worker_job demo_urls ''image.download'' 1 demo_image_job = Inr (Download demo_payload)"
    by (simp add: parse_image_worker_job_def image_job_type_def image_job_payload_version_def demo_image_job_accepted)
  ultimately show thesis using that s(1) demo_download
    by (auto simp: execute_image_job_def execute_download_def demo_executor_def demo_claimed_def demo_image_site_def)
qed


text \<open>A failed image job never panics and reports a code the queue can record: it is retried after five
  seconds, except when local media is switched off or the catalog rejects the payload, which end the
  job. The catalog is as it was unless only the reply of its commit was lost, and nothing at all
  happens while local media is switched off. So no image job stops the worker.\<close>

theorem image_failures_reported:
  assumes "execute_image_job ex job site = (Inl x, site')"
  shows "(\<exists>e. x = Err e \<and> wf_result env (Inl e) \<and>
      (if terminal e then code e \<in> {''local_media_disabled'', ''invalid_payload''} else retry_delay e = from_secs 5)) \<and>
    (pe_commit (ix_persist ex) = Reply_lost \<or> is_media site' = is_media site) \<and>
    (ix_allow_local_media ex \<or> site' = site)"
proof -
  let ?parsed = "parse_image_worker_job (img_parse_url (ix_image ex)) (cj_type job) (cj_version job) (cj_payload job)"
  consider (parse) e where "?parsed = Inl e" "x = Err e" "site' = site"
    | (disabled) "x = Err (job_dead_letter ''local_media_disabled'')" "site' = site" "\<not> ix_allow_local_media ex"
    | (run) p where "execute_download ex p site = (Inl x, site')" "ix_allow_local_media ex"
  proof (cases ?parsed)
    case (Inl e)
    then show thesis using assms parse by (simp add: execute_image_job_def)
  next
    case (Inr j)
    with assms have j: "(case j of Noop \<Rightarrow> (Inr (JObj [(''ok'', JBool True)]), site)
        | Download p \<Rightarrow> if \<not> ix_allow_local_media ex then (Inl (Err (job_dead_letter ''local_media_disabled'')), site)
            else execute_download ex p site) = (Inl x, site')"
      by (simp only: execute_image_job_def sum.case)
    show thesis
    proof (cases j)
      case (Download p)
      show thesis
      proof (cases "ix_allow_local_media ex")
        case True
        then show thesis using j Download by (intro run) simp_all
      next
        case False
        then show thesis using j Download by (intro disabled) simp_all
      qed
    qed (use j in simp)
  qed
  then have "(\<exists>e. x = Err e \<and> image_report_ok e) \<and>
      (pe_commit (ix_persist ex) = Reply_lost \<or> is_media site' = is_media site) \<and> (ix_allow_local_media ex \<or> site' = site)"
  proof cases
    case parse
    then show ?thesis using parse_error_report by auto
  next
    case disabled
    then show ?thesis using report_ok_intros(3) by auto
  next
    case (run p)
    from run(1) show ?thesis
    proof (cases rule: execute_download_parts)
      case (persisted img stored y)
      then obtain e where e: "y = Inl e" "x = Err (map_persist_error e)" by (auto split: sum.splits)
      then have "pe_commit (ix_persist ex) = Reply_lost \<or> is_media site' = is_media site"
        using persisted(2) by (auto elim: persist_ready_cases)
      then show ?thesis using e(2) map_errors_report run(2) by blast
    qed (use run(2) map_errors_report in auto)
  qed
  then show ?thesis using image_report_wf by (auto simp: image_report_ok_def)
qed

theorem image_failures_reported_witness:
  "\<exists>e. fst (execute_image_job (demo_executor\<lparr>ix_allow_local_media := False\<rparr>) demo_claimed demo_image_site) = Inl (Err e) \<and>
     code e = ''local_media_disabled'' \<and> wf_result (demo_env (\<lambda>n. Delivered)) (Inl e)"
proof -
  have "parse_image_worker_job demo_urls ''image.download'' 1 demo_image_job = Inr (Download demo_payload)"
    by (simp add: parse_image_worker_job_def image_job_type_def image_job_payload_version_def demo_image_job_accepted)
  then have run: "execute_image_job (demo_executor\<lparr>ix_allow_local_media := False\<rparr>) demo_claimed demo_image_site =
      (Inl (Err (job_dead_letter ''local_media_disabled'')), demo_image_site)"
    by (simp add: execute_image_job_def demo_executor_def demo_claimed_def demo_image_env_def)
  from image_failures_reported [OF run] run show ?thesis by (auto simp: job_dead_letter_def)
qed

text \<open>The queue does not keep the reason of a disabled worker: it stores a general failure.\<close>

lemma disabled_cause_lost: "job_failure_code (code (job_dead_letter ''local_media_disabled'')) = ''execution_failed''"
  by (simp add: job_failure_code_def stored_failure_codes_def job_dead_letter_def)

end
