(* ===== verification/Media_Requests.thy ===== *)
theory Media_Requests
  imports Media_Cleanup Image_Worker Ingest_Submission
begin

text \<open>
  The request coordinator of the image worker, \<open>src/apps/tmdb-images/src/requests.rs\<close>: it claims an
  on-demand request, expands it source by source into image jobs or reused files, releases it and
  cleans up. Each source is admitted in one transaction. What the database answers at each statement
  is a field of the environments; the sources that \<open>select_media_request_sources\<close> yields and the
  \<open>url\<close> functions are parameters.
\<close>

section \<open>Sources and payloads\<close>

record selected_source =
  ss_cursor :: int
  ss_item :: int
  ss_entity_type :: string
  ss_entity_id :: int
  ss_owner_id :: int
  ss_title_tmdb_id :: int
  ss_season :: "int option"
  ss_episode :: "int option"
  ss_kind :: string
  ss_path :: string
  ss_language :: "string option"
  ss_gallery :: int
  ss_incomplete :: bool

record image_configuration =
  ic_secure_base_url :: string
  ic_poster_sizes :: "string list"
  ic_backdrop_sizes :: "string list"
  ic_still_sizes :: "string list"
  ic_profile_sizes :: "string list"
  ic_logo_sizes :: "string list"

definition expansion_batch_size :: nat where "expansion_batch_size = 250"
definition capacity_retry :: duration where "capacity_retry = from_secs 2"
definition database_retry_delay :: duration where "database_retry_delay = from_secs 5"
definition recent_verification_hours :: int where "recent_verification_hours = 24"

text \<open>The derived reader of the configuration: names or positions, every field required.\<close>

definition de_strings :: "json \<Rightarrow> string list option" where
  "de_strings v = (case v of JArr xs \<Rightarrow> if list_all (\<lambda>x. as_str x \<noteq> None) xs then Some (map (\<lambda>x. the (as_str x)) xs) else None
     | _ \<Rightarrow> None)"

definition de_image_configuration :: "json \<Rightarrow> image_configuration option" where
  "de_image_configuration v =
     (let need = (\<lambda>i k. Option.bind (struct_field v i k) de_strings) in
      if \<not> struct_form v 6 then None else
      Option.bind (Option.bind (struct_field v 0 ''secure_base_url'') as_str) (\<lambda>base.
      Option.bind (need 1 ''poster_sizes'') (\<lambda>posters.
      Option.bind (need 2 ''backdrop_sizes'') (\<lambda>backdrops.
      Option.bind (need 3 ''still_sizes'') (\<lambda>stills.
      Option.bind (need 4 ''profile_sizes'') (\<lambda>profiles.
      Option.bind (need 5 ''logo_sizes'') (\<lambda>logos.
      Some \<lparr>ic_secure_base_url = base, ic_poster_sizes = posters, ic_backdrop_sizes = backdrops,
        ic_still_sizes = stills, ic_profile_sizes = profiles, ic_logo_sizes = logos\<rparr>)))))))"

text \<open>The answer of the query: \<open>None\<close> when it fails, and the optional document.\<close>

definition load_image_configuration :: "json option option \<Rightarrow> string + image_configuration" where
  "load_image_configuration answer =
     bindR (ok_or ''database_unavailable'' answer) (\<lambda>v.
     bindR (ok_or ''image_configuration_unavailable'' v) (\<lambda>v.
     ok_or ''image_configuration_invalid'' (de_image_configuration v)))"

definition rendition_width :: "string \<Rightarrow> nat option" where
  "rendition_width v = (case v of c # s \<Rightarrow> if c = CHR ''w'' then parse_uint u32_max s else None | [] \<Rightarrow> None)"

definition rendition_sizes :: "image_configuration \<Rightarrow> image_kind \<Rightarrow> string list \<times> nat" where
  "rendition_sizes c k =
     (case k of
        KindPoster \<Rightarrow> (ic_poster_sizes c, 500) | KindOther \<Rightarrow> (ic_poster_sizes c, 500)
      | KindBackdrop \<Rightarrow> (ic_backdrop_sizes c, 1280) | KindStill \<Rightarrow> (ic_still_sizes c, 300)
      | KindProfile \<Rightarrow> (ic_profile_sizes c, 185) | KindLogo \<Rightarrow> (ic_logo_sizes c, 185))"

text \<open>\<open>max_by_key\<close>: the last of the widest.\<close>

fun last_widest :: "(nat \<times> string) list \<Rightarrow> (nat \<times> string) option" where
  "last_widest [] = None"
| "last_widest (x # xs) =
     (case last_widest xs of None \<Rightarrow> Some x | Some y \<Rightarrow> Some (if fst x > fst y then x else y))"

definition sized :: "string list \<Rightarrow> nat \<Rightarrow> (nat \<times> string) list" where
  "sized sizes maximum =
     filter (\<lambda>(w, s). w \<le> maximum)
       (concat (map (\<lambda>s. case rendition_width s of None \<Rightarrow> [] | Some w \<Rightarrow> [(w, s)]) sizes))"

definition rendition :: "image_configuration \<Rightarrow> image_kind \<Rightarrow> string + string" where
  "rendition c k =
     (case rendition_sizes c k of (sizes, maximum) \<Rightarrow>
        mapR snd (ok_or ''bounded_rendition_unavailable'' (last_widest (sized sizes maximum))))"

definition cdn_path :: "image_kind \<Rightarrow> string \<Rightarrow> string" where
  "cdn_path k path =
     (if k = KindLogo \<and> ends_with (to_ascii_lowercase path) ''.svg''
      then take (length path - 4) path @ ''.png'' else path)"

definition source_entity_type :: "string \<Rightarrow> string + image_entity_type" where
  "source_entity_type v = ok_or ''catalog_source_invalid'' (entity_type_of v)"

definition source_owner_type :: "string \<Rightarrow> string + int" where
  "source_owner_type v =
     (if v = ''movie'' \<or> v = ''tv'' then Inr 1 else if v = ''person'' then Inr 2
      else if v = ''company'' then Inr 3 else if v = ''network'' then Inr 4
      else if v = ''collection'' then Inr 5 else if v = ''season'' then Inr 6
      else if v = ''episode'' then Inr 7 else Inl ''catalog_source_invalid'')"

definition source_image_kind :: "string \<Rightarrow> string + image_kind" where
  "source_image_kind v = ok_or ''catalog_source_invalid'' (image_kind_of v)"

definition invalid_source :: "'e + 'a \<Rightarrow> string + 'a" where
  "invalid_source r = map_errR (\<lambda>_. ''catalog_source_invalid'') r"

definition as_unsigned :: "nat \<Rightarrow> int \<Rightarrow> nat option" where
  "as_unsigned m i = (if 0 \<le> i \<and> i \<le> int m then Some (nat i) else None)"

definition build_payload ::
    "image_env \<Rightarrow> selected_source \<Rightarrow> image_configuration \<Rightarrow> string + image_payload" where
  "build_payload env s c =
     bindR (source_entity_type (ss_entity_type s)) (\<lambda>e.
     bindR (source_image_kind (ss_kind s)) (\<lambda>k.
     bindR (rendition c k) (\<lambda>size.
     bindR (ok_or ''image_configuration_invalid'' (img_parse_url env (ic_secure_base_url c))) (\<lambda>base.
     bindR (ok_or ''image_configuration_invalid'' (img_join env base
       (size @ ''/'' @ dropWhile (\<lambda>c. c = CHR ''/'') (cdn_path k (ss_path s))))) (\<lambda>source_url.
     bindR (invalid_source (payload_new (img_parse_url env) e (ss_entity_id s) k (ss_path s)
       (url_text env source_url) (ss_language s) None)) (\<lambda>p.
     bindR (if tv_position e then
         bindR (ok_or ''catalog_source_invalid'' (Option.bind (ss_season s) (as_unsigned u32_max))) (\<lambda>season.
         bindR (case ss_episode s of None \<Rightarrow> Inr None
                | Some n \<Rightarrow> mapR Some (ok_or ''catalog_source_invalid'' (as_unsigned u16_max n))) (\<lambda>episode.
         invalid_source (with_tv_position (img_parse_url env) p (ss_title_tmdb_id s) season episode)))
       else Inr p) (\<lambda>p.
     bindR (ok_or ''catalog_source_invalid'' (as_unsigned u32_max (ss_gallery s))) (\<lambda>index.
     invalid_source (with_asset_index (img_parse_url env) p index)))))))))"

definition source_job_key :: "int \<Rightarrow> selected_source \<Rightarrow> string" where
  "source_job_key owner_type s =
     ''image:'' @ dec_int owner_type @ '':'' @ dec_int (ss_owner_id s) @ '':'' @ ss_kind s @ '':'' @ dec_int (ss_gallery s)"

definition image_job ::
    "(json \<Rightarrow> string option) \<Rightarrow> image_env \<Rightarrow> selected_source \<Rightarrow> image_payload \<Rightarrow> string + new_job" where
  "image_job render env s p =
     bindR (invalid_source (to_json (img_parse_url env) p)) (\<lambda>v.
     bindR (source_owner_type (ss_entity_type s)) (\<lambda>t.
     invalid_source
       (bindR (bindR (new_job_new render image_job_type image_job_payload_version v (source_job_key t s))
          (\<lambda>j. with_priority j 50)) (\<lambda>j. with_max_attempts j 8))))"

section \<open>Reuse\<close>

record coordinator_site =
  co_queue :: job_queue
  co_media :: media_db
  co_requests :: request_db
  co_files :: file_tree

text \<open>The row of a ready image of this source and slot with everything recorded.\<close>

definition reusable_row :: "int \<Rightarrow> selected_source \<Rightarrow> string \<Rightarrow> asset_row \<Rightarrow> bool" where
  "reusable_row owner_type s source_url r \<longleftrightarrow>
     asset_owner r = (owner_type, ss_owner_id s) \<and> ar_source r = ''tmdb'' \<and> ar_key r = ss_path s \<and>
     ar_url r = Some source_url \<and> ar_status r = Asset_ready \<and> ar_path r \<noteq> None \<and> ar_bytes r \<noteq> None \<and>
     ar_sha256 r \<noteq> None \<and> ar_gallery r = ss_gallery s"

text \<open>A missing verification time is a value the reader of the row refuses.\<close>

definition ready_asset_of :: "int \<Rightarrow> asset_row \<Rightarrow> ready_asset option" where
  "ready_asset_of now r =
     (case (ar_path r, ar_bytes r, ar_sha256 r, ar_verified_at r) of
        (Some path, Some bytes, Some sha, Some verified) \<Rightarrow>
          Some \<lparr>ra_id = ar_id r, ra_path = path, ra_bytes = bytes, ra_sha256 = sha,
            ra_recently_verified = (verified > now - recent_verification_hours * 3600 * 1000000)\<rparr>
      | _ \<Rightarrow> None)"

record reuse_env =
  re_query :: bool
  re_update :: delivery
  re_now :: int

definition ready_asset_is_valid ::
    "store_env \<Rightarrow> reuse_env \<Rightarrow> selected_source \<Rightarrow> string \<Rightarrow> coordinator_site \<Rightarrow> (string + bool) \<times> coordinator_site" where
  "ready_asset_is_valid store env s source_url site =
     (case source_owner_type (ss_entity_type s) of
        Inl e \<Rightarrow> (Inl e, site)
      | Inr t \<Rightarrow>
          if \<not> re_query env then (Inl ''database_unavailable'', site)
          else
            (case find (reusable_row t s source_url) (asset_rows (co_media site)) of
               None \<Rightarrow> (Inr False, site)
             | Some r \<Rightarrow>
                 (case ready_asset_of (re_now env) r of
                    None \<Rightarrow> (Inl ''database_unavailable'', site)
                  | Some asset \<Rightarrow>
                      if \<not> verify_asset_file store (co_files site) asset then (Inr False, site)
                      else if ra_recently_verified asset then (Inr True, site)
                      else
                        let touched = site\<lparr>co_media := (co_media site)\<lparr>asset_rows := map (\<lambda>x.
                              if ar_id x = ra_id asset then x\<lparr>ar_verified_at := Some (re_now env)\<rparr> else x)
                              (asset_rows (co_media site))\<rparr>\<rparr>
                        in (case re_update env of
                              Delivered \<Rightarrow> (Inr True, touched)
                            | Failed _ \<Rightarrow> (Inl ''database_unavailable'', site)
                            | Reply_lost \<Rightarrow> (Inl ''database_unavailable'', touched)))))"

section \<open>Admission\<close>

datatype source_admission = Linked | CapacityWait | Admission_cancelled

record admit_env =
  ad_begin :: bool
  ad_lock :: bool
  ad_mark :: bool
  ad_repo :: repo_env
  ad_job_source :: bool
  ad_link :: bool
  ad_rollback :: bool
  ad_commit :: delivery
  ad_enabled :: bool
  ad_now :: int

definition mark_existing_asset_pending :: "int \<Rightarrow> selected_source \<Rightarrow> media_db \<Rightarrow> media_db" where
  "mark_existing_asset_pending t s m =
     m\<lparr>asset_rows := map (\<lambda>r. if asset_owner r = (t, ss_owner_id s) \<and> ar_source r = ''tmdb'' \<and> ar_key r = ss_path s
       then r\<lparr>ar_status := Asset_pending, ar_verified_at := None\<rparr> else r) (asset_rows m)\<rparr>"

definition source_link :: "int \<Rightarrow> selected_source \<Rightarrow> nat option \<Rightarrow> bool \<Rightarrow> link_row" where
  "source_link t s job reused =
     \<lparr>ln_item = ss_item s, ln_cursor = ss_cursor s, ln_owner = (t, ss_owner_id s), ln_kind = ss_kind s,
      ln_gallery = ss_gallery s, ln_key = ss_path s, ln_job = job, ln_reused = reused\<rparr>"

definition roll_back :: "admit_env \<Rightarrow> source_admission \<Rightarrow> string + source_admission" where
  "roll_back env a = (if ad_rollback env then Inr a else Inl ''database_unavailable'')"

text \<open>The job of a source inside the transaction: \<open>Inl\<close> ends the transaction with this answer.\<close>

definition admit_job ::
    "admit_env \<Rightarrow> int \<Rightarrow> selected_source \<Rightarrow> new_job \<Rightarrow> job_queue \<Rightarrow>
     (string + source_admission) + nat \<times> job_queue" where
  "admit_job env t s job q =
     (if \<not> ad_mark env then Inl (Inl ''database_unavailable'')
      else
        (case repo_submit_many_in_transaction (ad_repo env) [job] q of
           (Inl e, _) \<Rightarrow> Inl (case e of
               Capacity \<Rightarrow> roll_back env CapacityWait
             | Validation _ \<Rightarrow> Inl ''catalog_source_invalid''
             | _ \<Rightarrow> Inl ''database_unavailable'')
         | (Inr outcomes, q') \<Rightarrow>
             if outcomes = [] then Inl (Inl ''database_unavailable'')
             else
               let out = last outcomes in
               if so_duplicate out then
                 if \<not> ad_job_source env then Inl (Inl ''database_unavailable'')
                 else if media_image_job_source (so_job_id out) q' \<noteq> Some (ss_path s)
                 then Inl (roll_back env CapacityWait)
                 else Inr (so_job_id out, q')
               else Inr (so_job_id out, q')))"

definition admit_source ::
    "admit_env \<Rightarrow> string \<Rightarrow> nat \<Rightarrow> selected_source \<Rightarrow> new_job option \<Rightarrow> bool \<Rightarrow> coordinator_site \<Rightarrow>
     (string + source_admission) \<times> coordinator_site" where
  "admit_source env worker request s job reused site =
     (if \<not> ad_begin env \<or> \<not> ad_lock env then (Inl ''database_unavailable'', site)
      else if \<not> lock_media_request_claim (ad_enabled env) (ad_now env) request worker (co_requests site)
      then (roll_back env Admission_cancelled, site)
      else
        (case source_owner_type (ss_entity_type s) of
           Inl e \<Rightarrow> (Inl e, site)
         | Inr t \<Rightarrow>
             (case (case job of None \<Rightarrow> Inr (None, co_queue site, co_media site)
                    | Some j \<Rightarrow> mapR (\<lambda>(i, q). (Some i, q, mark_existing_asset_pending t s (co_media site)))
                        (admit_job env t s j (co_queue site))) of
                Inl answer \<Rightarrow> (answer, site)
              | Inr (job_id, q, m) \<Rightarrow>
                  if \<not> ad_link env then (Inl ''database_unavailable'', site)
                  else
                    (case link_media_request_asset (ad_enabled env) (ad_now env) request worker
                            (source_link t s job_id reused) (ss_incomplete s) (co_requests site) of
                       None \<Rightarrow> (Inl ''database_unavailable'', site)
                     | Some (linked, db) \<Rightarrow>
                         if \<not> linked then (roll_back env Admission_cancelled, site)
                         else
                           let after = site\<lparr>co_queue := q, co_media := m, co_requests := db\<rparr> in
                           (case ad_commit env of
                              Delivered \<Rightarrow> (Inr Linked, after)
                            | Failed _ \<Rightarrow> (Inl ''database_unavailable'', site)
                            | Reply_lost \<Rightarrow> (Inl ''database_unavailable'', after))))))"

section \<open>Expansion\<close>

record expansion =
  ec_cursor :: int
  ec_found :: nat
  ec_queued :: nat
  ec_reused :: nat
  ec_capacity_wait :: bool

record expand_env =
  ee_image :: image_env
  ee_store :: store_env
  ee_reuse :: "nat \<Rightarrow> reuse_env"
  ee_admit :: "nat \<Rightarrow> admit_env"
  ee_render :: "json \<Rightarrow> string option"

definition admit_outcome :: "source_admission \<Rightarrow> expansion \<Rightarrow> bool \<Rightarrow> selected_source \<Rightarrow> string + expansion" where
  "admit_outcome a x reused s =
     (case a of
        Linked \<Rightarrow> Inr (x\<lparr>ec_cursor := ss_cursor s, ec_found := ec_found x + 1,
          ec_queued := ec_queued x + (if reused then 0 else 1),
          ec_reused := ec_reused x + (if reused then 1 else 0)\<rparr>)
      | CapacityWait \<Rightarrow> Inr (x\<lparr>ec_capacity_wait := True\<rparr>)
      | Admission_cancelled \<Rightarrow> Inl ''request_cancelled'')"

definition expand_source ::
    "expand_env \<Rightarrow> nat \<Rightarrow> image_configuration \<Rightarrow> string \<Rightarrow> nat \<Rightarrow> selected_source \<Rightarrow> expansion \<Rightarrow> coordinator_site \<Rightarrow>
     (string + expansion) \<times> coordinator_site" where
  "expand_source env k c worker request s x site =
     (case build_payload (ee_image env) s c of
        Inl e \<Rightarrow> (Inl e, site)
      | Inr p \<Rightarrow>
          (case ready_asset_is_valid (ee_store env) (ee_reuse env k) s (ip_source_url p) site of
             (Inl e, site) \<Rightarrow> (Inl e, site)
           | (Inr True, site) \<Rightarrow>
               (case admit_source (ee_admit env k) worker request s None True site of
                  (a, site) \<Rightarrow> (bindR a (\<lambda>a. admit_outcome a x True s), site))
           | (Inr False, site) \<Rightarrow>
               (case image_job (ee_render env) (ee_image env) s p of
                  Inl e \<Rightarrow> (Inl e, site)
                | Inr job \<Rightarrow>
                    (case admit_source (ee_admit env k) worker request s (Some job) False site of
                       (a, site) \<Rightarrow> (bindR a (\<lambda>a. admit_outcome a x False s), site)))))"

fun expand_sources ::
    "expand_env \<Rightarrow> nat \<Rightarrow> image_configuration \<Rightarrow> string \<Rightarrow> nat \<Rightarrow> selected_source list \<Rightarrow> expansion \<Rightarrow>
     coordinator_site \<Rightarrow> (string + expansion) \<times> coordinator_site" where
  "expand_sources env k c worker request [] x site = (Inr x, site)"
| "expand_sources env k c worker request (s # ss) x site =
     (case expand_source env k c worker request s x site of
        (Inl e, site) \<Rightarrow> (Inl e, site)
      | (Inr x, site) \<Rightarrow>
          if ec_capacity_wait x then (Inr x, site)
          else expand_sources env (Suc k) c worker request ss x site)"

section \<open>One request\<close>

record release_env =
  rl_delivery :: delivery
  rl_now :: int

definition release_request ::
    "release_env \<Rightarrow> string \<Rightarrow> nat \<Rightarrow> int \<Rightarrow> bool \<Rightarrow> duration \<Rightarrow> coordinator_site \<Rightarrow> bool \<times> coordinator_site" where
  "release_request env worker request cursor complete delay site =
     (let secs = as_secs delay; secs = min (if secs \<le> 2147483647 then secs else 300) 300 in
      case advance_media_request (rl_now env) request worker cursor complete (int secs) (co_requests site) of
        None \<Rightarrow> (False, site)
      | Some (found, db) \<Rightarrow>
          (case rl_delivery env of
             Delivered \<Rightarrow> (found, site\<lparr>co_requests := db\<rparr>)
           | Failed _ \<Rightarrow> (False, site)
           | Reply_lost \<Rightarrow> (False, site\<lparr>co_requests := db\<rparr>)))"

record request_env =
  rq_configuration :: "json option option"
  rq_sources :: "selected_source list option"
  rq_expand :: expand_env
  rq_release :: release_env
  rq_obsolete :: delivery
  rq_incomplete :: bool
  rq_owners :: "(int \<times> int \<times> int) list"
  rq_cleanup :: cleanup_env
  rq_refresh :: delivery
  rq_refresh_now :: int

record coordinator_config =
  cc_worker_id :: string
  cc_lease_duration :: duration
  cc_idle_poll_interval :: duration

definition queue_obsolete_step :: "request_env \<Rightarrow> nat \<Rightarrow> coordinator_site \<Rightarrow> (string + unit) \<times> coordinator_site" where
  "queue_obsolete_step env request site =
     (case queue_obsolete_media_request_files (rq_incomplete env) (rq_owners env) (co_queue site) request
             (co_requests site) (co_media site) of
        None \<Rightarrow> (Inl ''database_unavailable'', site)
      | Some (_, m) \<Rightarrow>
          (case rq_obsolete env of
             Delivered \<Rightarrow> (Inr (), site\<lparr>co_media := m\<rparr>)
           | Failed _ \<Rightarrow> (Inl ''database_unavailable'', site)
           | Reply_lost \<Rightarrow> (Inl ''database_unavailable'', site\<lparr>co_media := m\<rparr>)))"

definition clean_up ::
    "request_env \<Rightarrow> nat \<Rightarrow> coordinator_site \<Rightarrow> (string + nat) \<times> coordinator_site" where
  "clean_up env request site =
     (case queue_obsolete_step env request site of
        (Inl e, site) \<Rightarrow> (Inl e, site)
      | (Inr _, site) \<Rightarrow>
          (case drain_pending_deletions (rq_cleanup env) (co_files site, co_media site, co_requests site) of
             (r, t, m, db) \<Rightarrow> (r, site\<lparr>co_files := t, co_media := m, co_requests := db\<rparr>)))"

definition refresh_step :: "request_env \<Rightarrow> nat \<Rightarrow> coordinator_site \<Rightarrow> (string + request_status) \<times> coordinator_site" where
  "refresh_step env request site =
     (case refresh_media_request (rq_refresh_now env) (co_queue site) (co_media site) request (co_requests site) of
        None \<Rightarrow> (Inl ''database_unavailable'', site)
      | Some (status, db) \<Rightarrow>
          (case rq_refresh env of
             Delivered \<Rightarrow> (Inr status, site\<lparr>co_requests := db\<rparr>)
           | Failed _ \<Rightarrow> (Inl ''database_unavailable'', site)
           | Reply_lost \<Rightarrow> (Inl ''database_unavailable'', site\<lparr>co_requests := db\<rparr>)))"

definition finish_request ::
    "request_env \<Rightarrow> coordinator_config \<Rightarrow> nat \<Rightarrow> nat \<Rightarrow> expansion \<Rightarrow> coordinator_site \<Rightarrow>
     (string + request_status) \<times> coordinator_site" where
  "finish_request env cfg request n x site =
     (let exhausted = \<not> ec_capacity_wait x \<and> n < expansion_batch_size;
          delay = (if ec_capacity_wait x then capacity_retry else if exhausted then 0 else cc_idle_poll_interval cfg)
      in case release_request (rq_release env) (cc_worker_id cfg) request (ec_cursor x) exhausted delay site of
           (False, site) \<Rightarrow> (Inl ''lease_lost'', site)
         | (True, site) \<Rightarrow>
             (case (if exhausted then clean_up env request site else (Inr 0, site)) of
                (Inl e, site) \<Rightarrow> (Inl e, site)
              | (Inr _, site) \<Rightarrow> refresh_step env request site))"

definition process_request ::
    "request_env \<Rightarrow> coordinator_config \<Rightarrow> nat \<Rightarrow> int \<Rightarrow> coordinator_site \<Rightarrow>
     (string + request_status) \<times> coordinator_site" where
  "process_request env cfg request cursor site =
     (case load_image_configuration (rq_configuration env) of
        Inl e \<Rightarrow> (Inl e, site)
      | Inr c \<Rightarrow>
          (case rq_sources env of
             None \<Rightarrow> (Inl ''database_unavailable'', site)
           | Some sources \<Rightarrow>
               (case expand_sources (rq_expand env) 0 c (cc_worker_id cfg) request sources
                       \<lparr>ec_cursor = cursor, ec_found = 0, ec_queued = 0, ec_reused = 0, ec_capacity_wait = False\<rparr> site of
                  (Inl e, site) \<Rightarrow> (Inl e, site)
                | (Inr x, site) \<Rightarrow> finish_request env cfg request (length sources) x site)))"

section \<open>The loop\<close>

text \<open>
  One round of the loop: whether cancellation comes first (the claim it drops may have been made), the
  claim, the request, the release after an error, and whether cancellation ends the pause.
\<close>

record round_env =
  rd_cancelled :: bool
  rd_claim :: delivery
  rd_now :: int
  rd_enabled :: bool
  rd_locked :: "nat \<Rightarrow> bool"
  rd_incomplete :: "item_row \<Rightarrow> bool"
  rd_request :: request_env
  rd_release :: release_env
  rd_pause_cancelled :: bool

definition claim_request ::
    "round_env \<Rightarrow> coordinator_config \<Rightarrow> coordinator_site \<Rightarrow> (unit + (nat \<times> int) option) \<times> coordinator_site" where
  "claim_request env cfg site =
     (let micros = as_micros (cc_lease_duration cfg) in
      if micros > i64_max then (Inl (), site)
      else
        (case claim_media_request (rd_enabled env) (rd_now env) (rd_locked env) (rd_incomplete env)
                (cc_worker_id cfg) (int micros) (co_requests site) of (claim, db) \<Rightarrow>
         (case rd_claim env of
            Delivered \<Rightarrow> (Inr claim, site\<lparr>co_requests := db\<rparr>)
          | Failed _ \<Rightarrow> (Inl (), site)
          | Reply_lost \<Rightarrow> (Inl (), site\<lparr>co_requests := db\<rparr>))))"

definition coordinator_round ::
    "round_env \<Rightarrow> coordinator_config \<Rightarrow> coordinator_site \<Rightarrow> bool \<times> coordinator_site" where
  "coordinator_round env cfg site =
     (case claim_request env cfg site of (claim, claimed) \<Rightarrow>
      if rd_cancelled env then (True, if rd_claim env = Reply_lost then claimed else site)
      else
        (case claim of
           Inl _ \<Rightarrow> (rd_pause_cancelled env, claimed)
         | Inr None \<Rightarrow> (rd_pause_cancelled env, claimed)
         | Inr (Some (request, cursor)) \<Rightarrow>
             (case process_request (rd_request env) cfg request cursor claimed of
                (Inr _, site) \<Rightarrow> (False, site)
              | (Inl _, site) \<Rightarrow>
                  (False, snd (release_request (rd_release env) (cc_worker_id cfg) request cursor False
                     database_retry_delay site)))))"

fun coordinator_run :: "coordinator_config \<Rightarrow> round_env list \<Rightarrow> coordinator_site \<Rightarrow> bool \<times> coordinator_site" where
  "coordinator_run cfg [] site = (False, site)"
| "coordinator_run cfg (env # envs) site =
     (case coordinator_round env cfg site of
        (True, site) \<Rightarrow> (True, site)
      | (False, site) \<Rightarrow> coordinator_run cfg envs site)"

section \<open>Renditions\<close>

lemma last_widest_max:
  "last_widest xs = Some x \<Longrightarrow> x \<in> set xs \<and> (\<forall>y\<in>set xs. fst y \<le> fst x)"
proof (induction xs arbitrary: x)
  case (Cons y ys)
  show ?case
  proof (cases "last_widest ys")
    case None
    then have "ys = []" by (cases ys) (auto split: option.splits)
    then show ?thesis using Cons.prems by simp
  next
    case (Some z)
    then show ?thesis using Cons.prems Cons.IH [OF Some] by (cases "fst y > fst z") auto
  qed
qed simp

lemma sized_iff: "(w, s) \<in> set (sized sizes m) \<longleftrightarrow> s \<in> set sizes \<and> rendition_width s = Some w \<and> w \<le> m"
  by (auto simp: sized_def split: option.splits)

section \<open>Admission\<close>

lemma link_result:
  assumes "link_media_request_asset enabled now i worker l incomplete db = Some (linked, db')"
  shows "requests db' = requests db"
    "links db' = links db \<or> links db' = links db @ [l]"
    "linked \<longleftrightarrow> list_ex (\<lambda>x. im_id x = ln_item l \<and> im_request x = i) (items db) \<and> lock_media_request_claim enabled now i worker db"
    "linked \<Longrightarrow> \<exists>x\<in>set (links db'). ln_item x = ln_item l \<and> ln_cursor x = ln_cursor l"
    "linked \<Longrightarrow> (\<forall>x\<in>set (links db). ln_item x = ln_item l \<longrightarrow> ln_cursor x \<noteq> ln_cursor l) \<Longrightarrow> links db' = links db @ [l]"
    "linked \<Longrightarrow> \<exists>x\<in>set (links db). ln_item x = ln_item l \<and> ln_cursor x = ln_cursor l \<Longrightarrow> links db' = links db"
proof -
  let ?p = "list_ex (\<lambda>x. im_id x = ln_item l \<and> im_request x = i) (items db) \<and>
      lock_media_request_claim enabled now i worker db"
  let ?present = "list_ex (\<lambda>x. ln_item x = ln_item l \<and> ln_cursor x = ln_cursor l) (links db)"
  have linked: "linked \<longleftrightarrow> ?p"
    using assms unfolding link_media_request_asset_def by (cases ?p) (simp_all only: Let_def split: if_splits, simp_all)
  have ls: "requests db' = requests db" "links db' = (if linked \<and> \<not> ?present then links db @ [l] else links db)"
    using assms linked unfolding link_media_request_asset_def
    by (cases ?p; cases ?present; force simp: Let_def update_item_def simp del: list_ex_iff split: if_splits)+
  have ex: "?present \<longleftrightarrow> (\<exists>x\<in>set (links db). ln_item x = ln_item l \<and> ln_cursor x = ln_cursor l)"
    by (simp add: list_ex_iff)
  show "requests db' = requests db" "links db' = links db \<or> links db' = links db @ [l]" "linked \<longleftrightarrow> ?p"
    using linked ls by simp_all
  show "linked \<Longrightarrow> \<exists>x\<in>set (links db'). ln_item x = ln_item l \<and> ln_cursor x = ln_cursor l"
    using ls(2) ex by (cases ?present) auto
  show "linked \<Longrightarrow> (\<forall>x\<in>set (links db). ln_item x = ln_item l \<longrightarrow> ln_cursor x \<noteq> ln_cursor l) \<Longrightarrow> links db' = links db @ [l]"
    using ls(2) ex by (cases ?present) auto
  show "linked \<Longrightarrow> \<exists>x\<in>set (links db). ln_item x = ln_item l \<and> ln_cursor x = ln_cursor l \<Longrightarrow> links db' = links db"
    using ls(2) ex by simp
qed

text \<open>The job of a link: none for a reused file, else the active job of the key.\<close>

definition linked_job :: "new_job option \<Rightarrow> nat option \<Rightarrow> job_queue \<Rightarrow> bool" where
  "linked_job job n q \<longleftrightarrow>
     (case (job, n) of (None, None) \<Rightarrow> True
      | (Some j, Some n) \<Rightarrow> submitted_as (nj_type j) (nj_dedup_key j) n q | _ \<Rightarrow> False)"

lemma linked_job_none: "linked_job job n q \<Longrightarrow> n = None \<longleftrightarrow> job = None"
  by (simp add: linked_job_def split: option.splits)

lemma admit_job_recorded:
  assumes "admit_job env t s j q = Inr (n, q')"
  shows "submitted_as (nj_type j) (nj_dedup_key j) n q'"
proof -
  obtain outs where outs: "repo_submit_many_in_transaction (ad_repo env) [j] q = (Inr outs, q')" "outs \<noteq> []"
      "n = so_job_id (last outs)"
    using assms by (auto simp: admit_job_def Let_def split: if_splits prod.splits sum.splits)
  have "list_all2 (\<lambda>j out. submitted_as (nj_type j) (nj_dedup_key j) (so_job_id out) q') [j] outs"
    using tx_submit_outcomes [OF outs(1)] by (simp add: batch_recorded_def)
  then show ?thesis using outs(3) by (auto simp: list_all2_Cons1)
qed

lemma admit_source_cases:
  assumes "admit_source env worker i s job reused site = (r, site')"
  obtains (kept) "r \<noteq> Inr Linked" "site' = site"
  | (written) t j db where "source_owner_type (ss_entity_type s) = Inr t"
      "link_media_request_asset (ad_enabled env) (ad_now env) i worker (source_link t s j reused) (ss_incomplete s)
         (co_requests site) = Some (True, db)" "co_requests site' = db" "co_files site' = co_files site"
      "linked_job job j (co_queue site')"
      "r = Inr Linked \<or> (r = Inl ''database_unavailable'' \<and> ad_commit env = Reply_lost)"
proof -
  have quiet: "roll_back env Admission_cancelled \<noteq> Inr Linked" "roll_back env CapacityWait \<noteq> Inr Linked"
    by (simp_all add: roll_back_def)
  show thesis
  proof (cases "ad_begin env \<and> ad_lock env \<and> lock_media_request_claim (ad_enabled env) (ad_now env) i worker (co_requests site)")
    case False
    then have "r \<noteq> Inr Linked" "site' = site"
      using assms quiet by (auto simp: admit_source_def split: if_splits)
    then show thesis by (rule kept)
  next
    case begun: True
    show thesis
    proof (cases "source_owner_type (ss_entity_type s)")
      case (Inl e)
      then have "r \<noteq> Inr Linked" "site' = site" using assms begun by (auto simp: admit_source_def)
      then show thesis by (rule kept)
    next
      case owner: (Inr t)
      obtain prepared where prepared: "(case job of None \<Rightarrow> Inr (None, co_queue site, co_media site)
          | Some j \<Rightarrow> mapR (\<lambda>(i, q). (Some i, q, mark_existing_asset_pending t s (co_media site)))
              (admit_job env t s j (co_queue site))) = prepared" by blast
      show thesis
      proof (cases prepared)
        case (Inl answer)
        then have "answer \<noteq> Inr Linked"
          using prepared quiet
          by (auto simp: admit_job_def result_simps Let_def split: option.splits if_splits prod.splits sum.splits job_error.splits)
        moreover have "r = answer" "site' = site" using assms begun owner prepared Inl by (simp_all add: admit_source_def)
        ultimately show thesis using kept by blast
      next
        case (Inr x)
        obtain j q m where x: "x = (j, q, m)" by (cases x)
        have some: "linked_job job j q"
          using prepared Inr x
          by (auto simp: result_simps linked_job_def admit_job_recorded split: option.splits sum.splits)
        let ?link = "link_media_request_asset (ad_enabled env) (ad_now env) i worker (source_link t s j reused)
            (ss_incomplete s) (co_requests site)"
        have step: "(r, site') = (if \<not> ad_link env then (Inl ''database_unavailable'', site)
            else (case ?link of None \<Rightarrow> (Inl ''database_unavailable'', site)
              | Some (linked, db) \<Rightarrow> if \<not> linked then (roll_back env Admission_cancelled, site)
                  else let after = site\<lparr>co_queue := q, co_media := m, co_requests := db\<rparr> in
                    (case ad_commit env of Delivered \<Rightarrow> (Inr Linked, after)
                     | Failed _ \<Rightarrow> (Inl ''database_unavailable'', site)
                     | Reply_lost \<Rightarrow> (Inl ''database_unavailable'', after))))"
          using assms begun owner prepared Inr x by (simp add: admit_source_def)
        show thesis
        proof (cases "ad_link env \<and> (\<exists>db. ?link = Some (True, db)) \<and> (\<forall>e. ad_commit env \<noteq> Failed e)")
          case True
          then obtain db where "?link = Some (True, db)" by blast
          then show thesis using step True owner some
            by (intro written [of t j db]) (auto simp: Let_def split: delivery.splits)
        next
          case False
          then have "r \<noteq> Inr Linked \<and> site' = site"
            using step quiet by (auto simp: Let_def split: if_splits option.splits delivery.splits)
          then show thesis using kept by blast
        qed
      qed
    qed
  qed
qed

lemma ready_asset_is_valid_requests:
  "ready_asset_is_valid store env s url site = (r, site') \<Longrightarrow> co_requests site' = co_requests site"
  by (auto simp: ready_asset_is_valid_def Let_def split: sum.splits if_splits option.splits delivery.splits)

section \<open>Expansion\<close>

text \<open>The link a source gets: its item, cursor, owner, slot and path, and a job unless a file is reused.\<close>

definition links_source :: "link_row \<Rightarrow> selected_source \<Rightarrow> bool" where
  "links_source l s \<longleftrightarrow> (\<exists>t j. source_owner_type (ss_entity_type s) = Inr t \<and> l = source_link t s j (j = None))"

lemma admit_source_linked:
  assumes "admit_source env worker i s job (job = None) site = (Inr Linked, site')"
    and "\<forall>l\<in>set (links (co_requests site)). ln_item l = ss_item s \<longrightarrow> ln_cursor l \<noteq> ss_cursor s"
  obtains l where "links (co_requests site') = links (co_requests site) @ [l]" "links_source l s"
      "ln_job l = None \<longleftrightarrow> job = None"
  using assms(1)
proof (cases rule: admit_source_cases)
  case (written t j db)
  have "links (co_requests site') = links (co_requests site) @ [source_link t s j (job = None)]"
    using link_result(5) [OF written(2)] written(3) assms(2) by (simp add: source_link_def)
  then show thesis using that [of "source_link t s j (job = None)"] written(1) linked_job_none [OF written(5)]
    by (auto simp: links_source_def source_link_def)
qed simp

lemma expand_source_cases:
  assumes "expand_source env k c worker i s x site = (Inr x', site')" "\<not> ec_capacity_wait x"
    and "\<forall>l\<in>set (links (co_requests site)). ln_item l = ss_item s \<longrightarrow> ln_cursor l \<noteq> ss_cursor s"
  obtains (wait) "x' = x\<lparr>ec_capacity_wait := True\<rparr>" "co_requests site' = co_requests site"
  | (linked) l where "x' = x\<lparr>ec_cursor := ss_cursor s, ec_found := ec_found x + 1,
          ec_queued := ec_queued x + (if ln_job l = None then 0 else 1),
          ec_reused := ec_reused x + (if ln_job l = None then 1 else 0)\<rparr>"
      "links (co_requests site') = links (co_requests site) @ [l]" "links_source l s"
proof -
  obtain p where p: "build_payload (ee_image env) s c = Inr p"
    using assms(1) by (auto simp: expand_source_def split: sum.splits)
  obtain v s1 where valid: "ready_asset_is_valid (ee_store env) (ee_reuse env k) s (ip_source_url p) site = (v, s1)"
    by (cases "ready_asset_is_valid (ee_store env) (ee_reuse env k) s (ip_source_url p) site")
  have same: "co_requests s1 = co_requests site" using valid by (rule ready_asset_is_valid_requests)
  obtain job a where admit: "admit_source (ee_admit env k) worker i s job (job = None) s1 = (a, site')"
      "bindR a (\<lambda>a. admit_outcome a x (job = None) s) = Inr x'"
  proof (cases v)
    case (Inl e)
    then show thesis using assms(1) p valid by (simp add: expand_source_def)
  next
    case (Inr reused)
    show thesis
    proof (cases reused)
      case True
      then show thesis using that [of None] assms(1) p valid Inr
        by (auto simp: expand_source_def split: prod.splits)
    next
      case False
      then obtain job where "image_job (ee_render env) (ee_image env) s p = Inr job"
        using assms(1) p valid Inr by (auto simp: expand_source_def split: sum.splits)
      then show thesis using that [of "Some job"] assms(1) p valid Inr False
        by (auto simp: expand_source_def split: prod.splits)
    qed
  qed
  obtain o' where o': "a = Inr o'" using admit(2) by (cases a) (simp_all add: bindR_def)
  show thesis
  proof (cases o')
    case Linked
    obtain l where "links (co_requests site') = links (co_requests s1) @ [l]" "links_source l s" "ln_job l = None \<longleftrightarrow> job = None"
      using admit_source_linked [OF admit(1) [unfolded o' Linked]] assms(3) same by auto
    then show thesis using linked [of l] admit(2) o' Linked same by (simp add: bindR_def admit_outcome_def)
  next
    case CapacityWait
    have "site' = s1" using admit(1) o' CapacityWait by (cases rule: admit_source_cases) auto
    then show thesis using wait admit(2) o' CapacityWait same by (simp add: bindR_def admit_outcome_def)
  next
    case Admission_cancelled
    then show thesis using admit(2) o' by (simp add: bindR_def admit_outcome_def)
  qed
qed

text \<open>What a pass has done: the first \<open>n\<close> sources, each with its own link, in order.\<close>

definition expanded_prefix ::
    "selected_source list \<Rightarrow> expansion \<Rightarrow> coordinator_site \<Rightarrow> expansion \<Rightarrow> coordinator_site \<Rightarrow> nat \<Rightarrow> bool" where
  "expanded_prefix ss x site x' site' n \<longleftrightarrow>
     n \<le> length ss \<and> (ec_capacity_wait x' \<longleftrightarrow> n < length ss) \<and>
     ec_cursor x' = (if n = 0 then ec_cursor x else ss_cursor (ss ! (n - 1))) \<and>
     ec_found x' = ec_found x + n \<and> ec_queued x' + ec_reused x' = ec_queued x + ec_reused x + n \<and>
     (\<exists>ls. links (co_requests site') = links (co_requests site) @ ls \<and> list_all2 links_source ls (take n ss))"

lemma expand_sources_prefix:
  assumes "expand_sources env k c worker i ss x site = (Inr x', site')" "\<not> ec_capacity_wait x"
    and "\<forall>l\<in>set (links (co_requests site)). ln_cursor l \<le> ec_cursor x"
    and "sorted_wrt (<) (ec_cursor x # map ss_cursor ss)"
  shows "\<exists>n. expanded_prefix ss x site x' site' n"
  using assms
proof (induction ss arbitrary: k x site)
  case Nil
  then show ?case by (auto simp: expanded_prefix_def)
next
  case (Cons s ss)
  obtain y s1 where y: "expand_source env k c worker i s x site = (Inr y, s1)"
    using Cons.prems(1) by (auto split: prod.splits sum.splits)
  have fresh: "\<forall>l\<in>set (links (co_requests site)). ln_item l = ss_item s \<longrightarrow> ln_cursor l \<noteq> ss_cursor s"
    using Cons.prems(3,4) by fastforce
  from y Cons.prems(2) fresh show ?case
  proof (cases rule: expand_source_cases)
    case wait
    then have "x' = y" "site' = s1" using Cons.prems(1) y by simp_all
    then have "expanded_prefix (s # ss) x site x' site' 0" using wait by (simp add: expanded_prefix_def)
    then show ?thesis ..
  next
    case (linked l)
    have rest: "expand_sources env (Suc k) c worker i ss y s1 = (Inr x', site')"
      using Cons.prems(1,2) y linked(1) by simp
    have cur: "ec_cursor y = ss_cursor s" "\<not> ec_capacity_wait y" using linked(1) Cons.prems(2) by simp_all
    have seen: "\<forall>l\<in>set (links (co_requests s1)). ln_cursor l \<le> ec_cursor y"
      using Cons.prems(3,4) linked(2,3) cur(1) by (fastforce simp: links_source_def source_link_def)
    obtain n where n: "expanded_prefix ss y s1 x' site' n"
      using Cons.IH [OF rest cur(2) seen] Cons.prems(4) cur(1) by auto
    have "expanded_prefix (s # ss) x site x' site' (Suc n)"
      using n linked cur by (auto simp: expanded_prefix_def nth_Cons' split: if_splits)
    then show ?thesis ..
  qed
qed

section \<open>Releases\<close>

text \<open>What the database holds after the worker's lease of the request has been given up.\<close>

definition unleased :: "string \<Rightarrow> nat \<Rightarrow> request_db \<Rightarrow> bool" where
  "unleased worker i db \<longleftrightarrow>
     (\<forall>r\<in>set (requests db). rr_id r = i \<and> rr_status r = Request_running \<longrightarrow> rr_lease_owner r \<noteq> Some worker)"

lemma advance_unleased:
  assumes "advance_media_request now i worker cursor expanded delay db = Some (found, db')"
  shows "unleased worker i db'"
proof -
  let ?mine = "\<lambda>r. rr_id r = i \<and> rr_lease_owner r = Some worker \<and> rr_status r = Request_running"
  let ?f = "\<lambda>r. if ?mine r then r\<lparr>rr_cursor := cursor, rr_expanded := expanded, rr_lease_owner := None,
      rr_lease_expires := None, rr_available_at := now + delay * 1000000\<rparr> else r"
  have "cursor \<ge> 0 \<and> 0 \<le> delay \<and> delay \<le> 300"
    using assms unfolding advance_media_request_def by (auto split: if_splits)
  then have "db' = db\<lparr>requests := map ?f (requests db)\<rparr>"
    using assms unfolding advance_media_request_def Let_def by simp
  then have rows: "set (requests db') = ?f ` set (requests db)" by simp
  have not_mine: "\<not> ?mine (?f r)" for r by (cases "?mine r") simp_all
  have "\<not> ?mine r" if "r \<in> set (requests db')" for r
    using that unfolding rows by (elim imageE) (simp only: not_mine not_False_eq_True)
  then show ?thesis unfolding unleased_def by (intro ballI impI notI) blast
qed

lemma advance_nothing:
  assumes "unleased worker i db" "advance_media_request now i worker cursor expanded delay db = Some (found, db')"
  shows "db' = db" "\<not> found"
proof -
  let ?mine = "\<lambda>r. rr_id r = i \<and> rr_lease_owner r = Some worker \<and> rr_status r = Request_running"
  have idle: "\<not> ?mine r" if "r \<in> set (requests db)" for r
    using assms(1) that by (auto simp: unleased_def)
  have same: "map (\<lambda>r. if ?mine r then f r else r) (requests db) = requests db" for f
    by (rule map_idI) (simp only: idle if_False)
  have none: "\<not> list_ex ?mine (requests db)" using idle by (simp add: list_ex_iff)
  have "cursor \<ge> 0 \<and> 0 \<le> delay \<and> delay \<le> 300"
    using assms(2) unfolding advance_media_request_def by (auto split: if_splits)
  then have "Some (False, db\<lparr>requests := requests db\<rparr>) = Some (found, db')"
    using assms(2) unfolding advance_media_request_def Let_def same by (simp only: none) simp
  then show "db' = db" "\<not> found" by simp_all
qed

lemma release_nothing:
  assumes "unleased worker i (co_requests site)"
  shows "release_request env worker i cursor complete delay site = (False, site)"
proof -
  have "(case advance_media_request now i worker cursor complete secs (co_requests site) of
      None \<Rightarrow> (False, site)
    | Some (found, db) \<Rightarrow>
        (case rl_delivery env of Delivered \<Rightarrow> (found, site\<lparr>co_requests := db\<rparr>)
         | Failed _ \<Rightarrow> (False, site) | Reply_lost \<Rightarrow> (False, site\<lparr>co_requests := db\<rparr>))) = (False, site)" for now secs
  proof (cases "advance_media_request now i worker cursor complete secs (co_requests site)")
    case (Some x)
    obtain found db where x: "x = (found, db)" by (cases x)
    show ?thesis using advance_nothing [OF assms Some [unfolded x]] Some x by (simp split: delivery.splits)
  qed simp
  then show ?thesis by (simp add: release_request_def Let_def)
qed

lemma drain_requests:
  "drain_pending_deletions env (t, m, db) = (r, t', m', db') \<Longrightarrow> requests db' = requests db"
  by (auto simp: drain_pending_deletions_def Let_def split: if_splits sum.splits dest!: drain_rows_cleaned
      simp: cleaned_def)

lemma clean_up_requests:
  assumes "clean_up env i site = (r, site')"
  shows "requests (co_requests site') = requests (co_requests site)"
proof -
  obtain a s1 where q: "queue_obsolete_step env i site = (a, s1)" by (cases "queue_obsolete_step env i site")
  have s1: "co_requests s1 = co_requests site"
    using q by (auto simp: queue_obsolete_step_def split: option.splits delivery.splits)
  show ?thesis
  proof (cases a)
    case (Inr u)
    obtain r' t m db where d: "drain_pending_deletions (rq_cleanup env) (co_files s1, co_media s1, co_requests s1) = (r', t, m, db)"
      by (metis prod_cases4)
    have "site' = s1\<lparr>co_files := t, co_media := m, co_requests := db\<rparr>"
      using assms q Inr d by (simp add: clean_up_def)
    then show ?thesis using drain_requests [OF d] s1 by simp
  qed (use assms q s1 in \<open>simp add: clean_up_def\<close>)
qed

lemma refresh_step_failed:
  assumes "refresh_step env i site = (Inl e, site')" "rq_refresh env \<noteq> Reply_lost"
  shows "site' = site"
  using assms by (auto simp: refresh_step_def split: option.splits delivery.splits)

text \<open>The row of a request that a released worker can be given again at once.\<close>

lemma released_row:
  assumes "release_request env worker i cursor complete 0 site = (True, site')"
  obtains r where "r \<in> set (requests (co_requests site'))" "rr_id r = i" "rr_status r = Request_running"
    "rr_available_at r = rl_now env" "rr_lease_owner r = None" "rr_lease_expires r = None" "rr_expanded r = complete"
proof -
  obtain db where a: "advance_media_request (rl_now env) i worker cursor complete 0 (co_requests site) = Some (True, db)"
      "co_requests site' = db"
    using assms by (auto simp: release_request_def Let_def as_secs_def split: option.splits delivery.splits)
  then obtain x where x: "x \<in> set (requests (co_requests site))"
      "rr_id x = i \<and> rr_lease_owner x = Some worker \<and> rr_status x = Request_running"
    by (auto simp: advance_media_request_def Let_def list_ex_iff split: if_splits)
  let ?r = "x\<lparr>rr_cursor := cursor, rr_expanded := complete, rr_lease_owner := None, rr_lease_expires := None,
      rr_available_at := rl_now env\<rparr>"
  have "?r \<in> set (requests db)"
    using a(1) x by (force simp: advance_media_request_def Let_def split: if_splits)
  then show thesis using that [of ?r] x a(2) by simp
qed

section \<open>Properties\<close>

text \<open>The rendition chosen for an image is one of the configured sizes of its kind, of the form
  \<open>w\<close> and a number (so never the unbounded \<open>original\<close>), within the bound of the kind, and the widest such.\<close>

theorem rendition_bounded:
  assumes "rendition c k = Inr s0"
  shows "\<exists>w. rendition_width s0 = Some w \<and> s0 \<in> set (fst (rendition_sizes c k)) \<and>
      w \<le> snd (rendition_sizes c k) \<and> s0 \<noteq> ''original'' \<and>
      (\<forall>s v. s \<in> set (fst (rendition_sizes c k)) \<longrightarrow> rendition_width s = Some v \<longrightarrow>
         v \<le> snd (rendition_sizes c k) \<longrightarrow> v \<le> w)"
proof -
  obtain sizes m where sm: "rendition_sizes c k = (sizes, m)" by (cases "rendition_sizes c k")
  obtain w where w: "last_widest (sized sizes m) = Some (w, s0)"
    using assms sm by (cases "last_widest (sized sizes m)") (auto simp: rendition_def ok_or_def mapR_def)
  note widest = last_widest_max [OF w]
  have sz: "s0 \<in> set sizes" "rendition_width s0 = Some w" "w \<le> m"
    using widest by (auto simp: sized_iff)
  moreover have "s0 \<noteq> ''original''" using sz(2) by (auto simp: rendition_width_def)
  moreover have "v \<le> w" if "s \<in> set sizes" "rendition_width s = Some v" "v \<le> m" for s v
    using widest that sized_iff [of v s sizes m] by fastforce
  ultimately show ?thesis using sm by auto
qed

text \<open>C22: The admission of a source is atomic and happens under the lease: when \<open>admit_source\<close> does not
  answer \<open>Linked\<close>, nothing has changed unless the reply of the commit was lost; when it does, the worker held an
  unexpired lease of a running request, a link is at the cursor of the source (the link of this source when
  the cursor was free), and a link with a job names the active job of the source's deduplication key.\<close>

theorem admission_atomic:
  assumes "admit_source env worker i s job reused site = (r, site')"
  shows "(r \<noteq> Inr Linked \<and> site' = site) \<or>
    ((r = Inr Linked \<or> ad_commit env = Reply_lost) \<and>
     lock_media_request_claim (ad_enabled env) (ad_now env) i worker (co_requests site) \<and>
     (\<exists>l\<in>set (links (co_requests site')). ln_item l = ss_item s \<and> ln_cursor l = ss_cursor s) \<and>
     (\<exists>t n. source_owner_type (ss_entity_type s) = Inr t \<and> linked_job job n (co_queue site') \<and>
        ((\<exists>l\<in>set (links (co_requests site)). ln_item l = ss_item s \<and> ln_cursor l = ss_cursor s) \<or>
         links (co_requests site') = links (co_requests site) @ [source_link t s n reused])))"
  using assms
proof (cases rule: admit_source_cases)
  case (written t j db)
  note link = link_result [OF written(2)]
  have "\<exists>l\<in>set (links db). ln_item l = ss_item s \<and> ln_cursor l = ss_cursor s"
    using link(4) by (simp add: source_link_def)
  moreover have "links db = links (co_requests site) @ [source_link t s j reused]"
    if "\<not> (\<exists>l\<in>set (links (co_requests site)). ln_item l = ss_item s \<and> ln_cursor l = ss_cursor s)"
    using link(5) that by (simp add: source_link_def)
  ultimately show ?thesis using link(3) written by blast
qed simp



text \<open>C28: When the clean-up of an exhausted request fails, the release that follows (with the retry delay of five
  seconds) changes nothing: the lease is already gone. The request stays running, without a lease and available
  from the moment of the first release, so it can be claimed again at once.\<close>

theorem failed_cleanup_not_delayed:
  assumes "finish_request env cfg i n x site = (Inl e, failed)" "e \<noteq> ''lease_lost''"
    and "\<not> ec_capacity_wait x" "n < expansion_batch_size" "rq_refresh env \<noteq> Reply_lost"
  shows "release_request renv (cc_worker_id cfg) i cursor False database_retry_delay failed = (False, failed) \<and>
    (\<exists>r\<in>set (requests (co_requests failed)). rr_id r = i \<and> rr_lease_owner r = None \<and>
      request_claimable (rl_now (rq_release env)) (\<lambda>j. False) r)"
proof -
  obtain found s1 where rel: "release_request (rq_release env) (cc_worker_id cfg) i (ec_cursor x) True 0 site = (found, s1)"
    by (cases "release_request (rq_release env) (cc_worker_id cfg) i (ec_cursor x) True 0 site")
  have found: "found" using assms(1-4) rel by (cases found) (auto simp: finish_request_def Let_def)
  obtain a s2 where clean: "clean_up env i s1 = (a, s2)" by (cases "clean_up env i s1")
  have "(case a of Inl e \<Rightarrow> (Inl e, s2) | Inr _ \<Rightarrow> refresh_step env i s2) = (Inl e, failed)"
    using assms(1,3,4) rel found clean by (simp add: finish_request_def Let_def)
  then have "failed = s2" using refresh_step_failed [OF _ assms(5)] by (cases a) auto
  then have same: "requests (co_requests failed) = requests (co_requests s1)" using clean_up_requests [OF clean] by simp
  obtain db where "advance_media_request (rl_now (rq_release env)) i (cc_worker_id cfg) (ec_cursor x) True 0
      (co_requests site) = Some (True, db)" "co_requests s1 = db"
    using rel found by (auto simp: release_request_def Let_def as_secs_def split: option.splits delivery.splits)
  then have "unleased (cc_worker_id cfg) i (co_requests failed)"
    using advance_unleased same unfolding unleased_def by metis
  then have idle: "release_request renv (cc_worker_id cfg) i cursor False database_retry_delay failed = (False, failed)"
    by (rule release_nothing)
  obtain r where r: "r \<in> set (requests (co_requests s1))" "rr_id r = i" "rr_status r = Request_running"
      "rr_available_at r = rl_now (rq_release env)" "rr_lease_owner r = None" "rr_lease_expires r = None"
    using rel [unfolded eqTrueI [OF found]] by (rule released_row)
  then have "request_claimable (rl_now (rq_release env)) (\<lambda>j. False) r"
    by (simp add: request_claimable_def open_request_def)
  then have "\<exists>r\<in>set (requests (co_requests failed)). rr_id r = i \<and> rr_lease_owner r = None \<and>
      request_claimable (rl_now (rq_release env)) (\<lambda>j. False) r" using r same by auto
  with idle show ?thesis by blast
qed

section \<open>Concrete runs\<close>

definition demo_running_request :: request_db where
  "demo_running_request =
     \<lparr>requests = [\<lparr>rr_id = 1, rr_status = Request_running, rr_cursor = 0, rr_expanded = False,
        rr_lease_owner = Some ''w'', rr_lease_expires = Some 10, rr_available_at = 0, rr_requested_at = 0,
        rr_started_at = Some 0, rr_finished_at = None\<rparr>],
      items = [\<lparr>im_id = 7, im_request = 1, im_title = 1, im_status = Request_running, im_incomplete = False,
        im_found = 0, im_queued = 0, im_ready = 0, im_reused = 0, im_deleted = 0, im_failed = 0\<rparr>], links = []\<rparr>"

definition demo_source :: "string \<Rightarrow> selected_source" where
  "demo_source path = \<lparr>ss_cursor = 1, ss_item = 7, ss_entity_type = ''movie'', ss_entity_id = 42, ss_owner_id = 1,
     ss_title_tmdb_id = 42, ss_season = None, ss_episode = None, ss_kind = ''poster'', ss_path = path,
     ss_language = None, ss_gallery = 2, ss_incomplete = False\<rparr>"

definition demo_configuration :: image_configuration where
  "demo_configuration = \<lparr>ic_secure_base_url = ''https://image.tmdb.org/t/p/'', ic_poster_sizes = [''w92'', ''w500'', ''w780'', ''original''],
     ic_backdrop_sizes = [], ic_still_sizes = [], ic_profile_sizes = [], ic_logo_sizes = []\<rparr>"

definition demo_coordinator_site :: "request_db \<Rightarrow> coordinator_site" where
  "demo_coordinator_site db = \<lparr>co_queue = empty_queue,
     co_media = demo_gallery\<lparr>asset_rows := [demo_gallery_row\<lparr>ar_url := Some ''w500/b.jpg'', ar_bytes := Some 3\<rparr>]\<rparr>,
     co_requests = db, co_files = demo_tree\<rparr>"

definition demo_admit :: admit_env where
  "demo_admit = \<lparr>ad_begin = True, ad_lock = True, ad_mark = True, ad_repo = demo_env (\<lambda>n. Delivered), ad_job_source = True,
     ad_link = True, ad_rollback = True, ad_commit = Delivered, ad_enabled = True, ad_now = 5\<rparr>"

definition demo_expand :: expand_env where
  "demo_expand = \<lparr>ee_image = demo_image_env, ee_store = demo_store,
     ee_reuse = (\<lambda>k. \<lparr>re_query = True, re_update = Delivered, re_now = 5\<rparr>), ee_admit = (\<lambda>k. demo_admit),
     ee_render = (\<lambda>v. Some [])\<rparr>"

lemma demo_digits: "parse_digits ''92'' = Some 92" "parse_digits ''500'' = Some 500" "parse_digits ''780'' = Some 780"
  by code_simp+

lemma demo_rendition: "rendition demo_configuration KindPoster = Inr ''w500''"
proof -
  have "rendition_width ''w92'' = Some 92" "rendition_width ''w500'' = Some 500" "rendition_width ''w780'' = Some 780"
      "rendition_width ''original'' = None"
    by (simp_all add: rendition_width_def parse_uint_def demo_digits)
  then show ?thesis
    by (simp add: rendition_def demo_configuration_def rendition_sizes_def sized_def result_simps)
qed

lemma demo_payload_built:
  "build_payload demo_image_env (demo_source ''/b.jpg'') demo_configuration =
     Inr ((demo_poster ''/b.jpg'' 2)\<lparr>ip_source_url := ''w500/b.jpg''\<rparr>)"
proof -
  have checks: "validate demo_urls ((demo_poster ''/b.jpg'' 1)\<lparr>ip_source_url := ''w500/b.jpg''\<rparr>) = Inr ()"
      "validate demo_urls ((demo_poster ''/b.jpg'' 2)\<lparr>ip_source_url := ''w500/b.jpg''\<rparr>) = Inr ()" by code_simp+
  have names: "entity_type_of ''movie'' = Some EntityMovie" "image_kind_of ''poster'' = Some KindPoster"
      "cdn_path KindPoster ''/b.jpg'' = ''/b.jpg''" by code_simp+
  show ?thesis using checks names demo_rendition
    by (simp add: build_payload_def source_entity_type_def source_image_kind_def demo_source_def result_simps
        demo_image_env_def demo_urls_def demo_host_def demo_configuration_def payload_new_def with_asset_index_def
        invalid_source_def as_unsigned_def tv_position_def demo_poster_def validate_def Let_def
        image_job_payload_version_def)
qed

lemma demo_reused:
  "ready_asset_is_valid demo_store \<lparr>re_query = True, re_update = Delivered, re_now = 5\<rparr> (demo_source ''/b.jpg'') ''w500/b.jpg''
     (demo_coordinator_site demo_running_request) = (Inr True, demo_coordinator_site demo_running_request)"
proof -
  have "verify_asset_file demo_store demo_tree \<lparr>ra_id = 0, ra_path = ''movies/42/posters/poster-02.jpg'', ra_bytes = 3,
      ra_sha256 = replicate 64 (CHR ''a''), ra_recently_verified = True\<rparr>" by code_simp
  moreover have "owner_ids_of EntityMovie 1 = owner_ids_of EntityMovie 1" ..
  ultimately show ?thesis
    by (simp add: ready_asset_is_valid_def demo_source_def source_owner_type_def demo_coordinator_site_def
        reusable_row_def demo_gallery_row_def ready_asset_of_def recent_verification_hours_def
        asset_owner_def row_owner_type_def row_owner_id_def owner_ids_of_def Let_def)
qed

definition demo_linked :: request_db where
  "demo_linked = demo_running_request\<lparr>items := map (\<lambda>x. x\<lparr>im_found := 1, im_reused := 1\<rparr>) (items demo_running_request),
     links := [source_link 1 (demo_source ''/b.jpg'') None True]\<rparr>"

lemma demo_link_checks: "link_check (source_link 1 (demo_source ''/b.jpg'') None True)"
    "link_check (source_link 1 (demo_source ''/c.jpg'') None True)"
  by code_simp+

lemmas demo_admit_defs = admit_source_def demo_admit_def demo_coordinator_site_def lock_media_request_claim_def
  holds_request_def find_request_def source_owner_type_def link_media_request_asset_def update_item_def
  count_links_def demo_running_request_def demo_source_def source_link_def Let_def

lemma demo_admitted:
  "admit_source demo_admit ''w'' 1 (demo_source ''/b.jpg'') None True (demo_coordinator_site demo_running_request) =
     (Inr Linked, demo_coordinator_site demo_linked)"
  using demo_link_checks(1) by (simp add: demo_admit_defs demo_linked_def)

lemma demo_readmitted:
  "admit_source demo_admit ''w'' 1 (demo_source ''/c.jpg'') None True (demo_coordinator_site demo_linked) =
     (Inr Linked, demo_coordinator_site demo_linked)"
  using demo_link_checks(2) by (simp add: demo_admit_defs demo_linked_def)

theorem rendition_bounded_witness: "\<exists>w. rendition_width ''w500'' = Some w \<and> w \<le> 500"
  using rendition_bounded [OF demo_rendition] by (auto simp: rendition_sizes_def)

theorem admission_atomic_witness:
  "\<exists>l\<in>set (links (co_requests (demo_coordinator_site demo_linked))). ln_item l = 7 \<and> ln_cursor l = 1"
  using admission_atomic [OF demo_admitted] by (auto simp: demo_source_def)

lemma demo_expanded:
  "expand_sources demo_expand 0 demo_configuration ''w'' 1 [demo_source ''/b.jpg'']
     \<lparr>ec_cursor = 0, ec_found = 0, ec_queued = 0, ec_reused = 0, ec_capacity_wait = False\<rparr>
     (demo_coordinator_site demo_running_request) =
   (Inr \<lparr>ec_cursor = 1, ec_found = 1, ec_queued = 0, ec_reused = 1, ec_capacity_wait = False\<rparr>,
     demo_coordinator_site demo_linked)"
proof -
  have env: "ee_image demo_expand = demo_image_env" "ee_store demo_expand = demo_store"
      "ee_reuse demo_expand 0 = \<lparr>re_query = True, re_update = Delivered, re_now = 5\<rparr>" "ee_admit demo_expand 0 = demo_admit"
    by (simp_all add: demo_expand_def)
  have cursor: "ss_cursor (demo_source ''/b.jpg'') = 1" by (simp add: demo_source_def)
  show ?thesis
    using env cursor demo_payload_built demo_reused demo_admitted
    by (simp add: expand_source_def result_simps admit_outcome_def)
qed



definition demo_release :: release_env where
  "demo_release = \<lparr>rl_delivery = Delivered, rl_now = 5\<rparr>"

definition demo_request_env :: request_env where
  "demo_request_env = \<lparr>rq_configuration = None, rq_sources = None, rq_expand = demo_expand, rq_release = demo_release,
     rq_obsolete = Delivered, rq_incomplete = True, rq_owners = [], rq_cleanup = demo_cleanup\<lparr>cl_pending := False\<rparr>,
     rq_refresh = Delivered, rq_refresh_now = 5\<rparr>"

definition demo_coordinator :: coordinator_config where
  "demo_coordinator = \<lparr>cc_worker_id = ''w'', cc_lease_duration = from_secs 60, cc_idle_poll_interval = from_secs 1\<rparr>"

lemma demo_failed_finish:
  "\<exists>failed. finish_request demo_request_env demo_coordinator 1 0
     \<lparr>ec_cursor = 0, ec_found = 0, ec_queued = 0, ec_reused = 0, ec_capacity_wait = False\<rparr>
     (demo_coordinator_site demo_running_request) = (Inl ''database_unavailable'', failed)"
  by (simp add: finish_request_def expansion_batch_size_def release_request_def advance_media_request_def as_secs_def
      Let_def demo_request_env_def demo_coordinator_def demo_coordinator_site_def demo_running_request_def demo_release_def
      clean_up_def queue_obsolete_step_def queue_obsolete_media_request_files_def drain_pending_deletions_def)

theorem failed_cleanup_not_delayed_witness:
  "\<exists>failed. finish_request demo_request_env demo_coordinator 1 0
     \<lparr>ec_cursor = 0, ec_found = 0, ec_queued = 0, ec_reused = 0, ec_capacity_wait = False\<rparr>
     (demo_coordinator_site demo_running_request) = (Inl ''database_unavailable'', failed) \<and>
     (\<exists>r\<in>set (requests (co_requests failed)). rr_id r = 1 \<and> request_claimable 5 (\<lambda>j. False) r)"
proof -
  obtain failed where failed: "finish_request demo_request_env demo_coordinator 1 0
     \<lparr>ec_cursor = 0, ec_found = 0, ec_queued = 0, ec_reused = 0, ec_capacity_wait = False\<rparr>
     (demo_coordinator_site demo_running_request) = (Inl ''database_unavailable'', failed)" using demo_failed_finish ..
  have now: "rl_now (rq_release demo_request_env) = 5" by (simp add: demo_request_env_def demo_release_def)
  have "\<exists>r\<in>set (requests (co_requests failed)). rr_id r = 1 \<and> rr_lease_owner r = None \<and>
      request_claimable (rl_now (rq_release demo_request_env)) (\<lambda>j. False) r"
    by (rule failed_cleanup_not_delayed [OF failed, THEN conjunct2])
      (simp_all add: expansion_batch_size_def demo_request_env_def)
  with failed now show ?thesis by auto
qed

end
