(* ===== verification/Media_Server.thy ===== *)
theory Media_Server
  imports Media_Cleanup
begin

text \<open>
  The embedded media server, \<open>src/apps/tmdb-images/src/media_server.rs\<close>: the handler of \<open>/media/{*path}\<close>
  with its path test, the containment test on canonical paths, the weak validator and the conditional
  answer. The path arrives percent-decoded; routing and the HTTP transport are the framework's. What the
  operating system answers (\<open>canonicalize\<close>, the modification times, read errors) are fields of the
  environment, and the tree may change between the look at the metadata and the read.
\<close>

section \<open>Hexadecimal numbers\<close>

definition lower_hex :: "nat \<Rightarrow> char" where
  "lower_hex d = (if d < 10 then char_of (48 + d) else char_of (87 + d))"

text \<open>The format specifier \<open>{:x}\<close>.\<close>

fun hex :: "nat \<Rightarrow> string" where
  "hex n = (if n < 16 then [lower_hex n] else hex (n div 16) @ [lower_hex (n mod 16)])"

declare hex.simps [simp del]

definition hex_value :: "string \<Rightarrow> nat" where
  "hex_value s = foldl (\<lambda>a c. 16 * a + (if byte c < 58 then byte c - 48 else byte c - 87)) 0 s"

section \<open>Responses\<close>

record server_env =
  sv_canonical :: "string \<Rightarrow> io_kind + string"
  sv_metadata_error :: "string \<Rightarrow> io_kind option"
  sv_modified :: "string \<Rightarrow> nat option"
  sv_read_error :: "string \<Rightarrow> io_kind option"

record media_response =
  rs_status :: nat
  rs_headers :: "(string \<times> string) list"
  rs_body :: string

definition not_found :: media_response where
  "not_found = \<lparr>rs_status = 404, rs_headers = [], rs_body = []\<rparr>"

definition health :: media_response where
  "health = \<lparr>rs_status = 204, rs_headers = [], rs_body = []\<rparr>"

text \<open>The size and the nanoseconds of the modification time since the epoch; zero when there is none.\<close>

definition etag_for_metadata :: "nat \<Rightarrow> nat option \<Rightarrow> string" where
  "etag_for_metadata len modified =
     ''W/'' @ [CHR 0x22] @ hex len @ ''-'' @ hex (case modified of None \<Rightarrow> 0 | Some n \<Rightarrow> n) @ [CHR 0x22]"

text \<open>The first header of the name, when it is visible ASCII.\<close>

definition if_none_match :: "(string \<times> string) list \<Rightarrow> string \<Rightarrow> bool" where
  "if_none_match headers etag \<longleftrightarrow>
     (case Option.bind (map_of headers ''if-none-match'') header_text of
        None \<Rightarrow> False
      | Some v \<Rightarrow> list_ex (\<lambda>c. c = ''*'' \<or> c = etag) (map trim (split_on (CHR '','') v)))"

text \<open>\<open>Path::extension\<close>: what follows the last dot of the file name, unless the name starts with its only dot.\<close>

definition name_extension :: "string \<Rightarrow> string option" where
  "name_extension name =
     (case dropWhile (\<lambda>c. c \<noteq> CHR ''.'') (rev name) of
        [] \<Rightarrow> None
      | _ # before \<Rightarrow> if before = [] then None else Some (rev (takeWhile (\<lambda>c. c \<noteq> CHR ''.'') (rev name))))"

definition file_extension :: "string \<Rightarrow> string option" where
  "file_extension p =
     (case rev (path_components p) of Normal name # _ \<Rightarrow> name_extension name | _ \<Rightarrow> None)"

definition served_content_type :: "string \<Rightarrow> string" where
  "served_content_type p =
     (case Option.bind (file_extension p) (\<lambda>e. if utf8_valid e then Some (to_ascii_lowercase e) else None) of
        None \<Rightarrow> ''application/octet-stream''
      | Some e \<Rightarrow>
          if e = ''jpg'' \<or> e = ''jpeg'' then ''image/jpeg''
          else if e = ''webp'' then ''image/webp''
          else if e = ''png'' then ''image/png''
          else if e = ''gif'' then ''image/gif''
          else ''application/octet-stream'')"

definition cache_control :: string where
  "cache_control = ''public, max-age=31536000, immutable''"

section \<open>The handler\<close>

text \<open>The size of a regular file; a canonical path is no link.\<close>

definition file_length :: "server_env \<Rightarrow> file_tree \<Rightarrow> string \<Rightarrow> nat option" where
  "file_length env t p =
     (if sv_metadata_error env p \<noteq> None then None
      else case t p of Some (Regular content) \<Rightarrow> Some (length content) | _ \<Rightarrow> None)"

definition read_content :: "server_env \<Rightarrow> file_tree \<Rightarrow> string \<Rightarrow> string option" where
  "read_content env t p =
     (if sv_read_error env p \<noteq> None then None
      else case t p of Some (Regular content) \<Rightarrow> Some content | _ \<Rightarrow> None)"

text \<open>The file a path names: the public-path test, the canonical root and the canonical file below it.\<close>

definition resolve_media :: "server_env \<Rightarrow> string \<Rightarrow> string \<Rightarrow> string option" where
  "resolve_media env root path =
     (if \<not> is_public_relative path then None
      else case sv_canonical env root of
        Inl _ \<Rightarrow> None
      | Inr canonical_root \<Rightarrow>
          (case sv_canonical env (path_push root path) of
             Inl _ \<Rightarrow> None
           | Inr p \<Rightarrow> if path_starts_with p canonical_root then Some p else None))"

definition media_file ::
    "server_env \<Rightarrow> file_tree \<Rightarrow> file_tree \<Rightarrow> string \<Rightarrow> string \<Rightarrow> (string \<times> string) list \<Rightarrow> media_response" where
  "media_file env t t' root path headers =
     (case resolve_media env root path of
        None \<Rightarrow> not_found
      | Some p \<Rightarrow>
          (case file_length env t p of
             None \<Rightarrow> not_found
           | Some len \<Rightarrow>
               let etag = etag_for_metadata len (sv_modified env p) in
               if if_none_match headers etag
               then \<lparr>rs_status = 304, rs_headers = [(''etag'', etag), (''cache-control'', cache_control)], rs_body = []\<rparr>
               else
                 (case read_content env t' p of
                    None \<Rightarrow> not_found
                  | Some content \<Rightarrow>
                      \<lparr>rs_status = 200,
                        rs_headers = [(''content-type'', served_content_type p), (''content-length'', dec (length content)),
                          (''etag'', etag), (''cache-control'', cache_control)],
                        rs_body = content\<rparr>)))"

section \<open>Validators identify size and time\<close>

lemma lower_hex_text: "d < 16 \<Longrightarrow> is_digit (lower_hex d) \<or> is_lower (lower_hex d)"
  by (auto simp: lower_hex_def is_digit_def is_lower_def)

lemma hex_text: "list_all (\<lambda>c. is_digit c \<or> is_lower c) (hex n)"
proof (induction n rule: hex.induct)
  case (1 n)
  then show ?case by (subst hex.simps) (auto simp: lower_hex_text)
qed

lemma hex_value_snoc:
  "hex_value (s @ [c]) = 16 * hex_value s + (if byte c < 58 then byte c - 48 else byte c - 87)"
  by (simp add: hex_value_def)

lemma lower_hex_value: "d < 16 \<Longrightarrow> (if byte (lower_hex d) < 58 then byte (lower_hex d) - 48 else byte (lower_hex d) - 87) = d"
  by (simp add: lower_hex_def)

lemma hex_value_hex: "hex_value (hex n) = n"
proof (induction n rule: hex.induct)
  case (1 n)
  show ?case
  proof (cases "n < 16")
    case True
    then show ?thesis using lower_hex_value [of n] by (subst hex.simps) (simp add: hex_value_def)
  next
    case False
    with "1.IH" show ?thesis using lower_hex_value [of "n mod 16"] by (subst hex.simps) (simp add: hex_value_snoc)
  qed
qed

definition hex_char :: "char \<Rightarrow> bool" where
  "hex_char c \<longleftrightarrow> is_digit c \<or> is_lower c"

interpretation hex_codec: text_codec hex hex_char
proof unfold_locales
  show "hex x = hex y \<Longrightarrow> x = y" for x y by (metis hex_value_hex)
  show "list_all hex_char (hex x)" for x using hex_text [of x] by (simp add: list_all_iff hex_char_def)
qed

lemma hex_char_sep: "\<not> hex_char (CHR ''-'')" "\<not> hex_char (CHR 0x22)" "\<not> hex_char (CHR '','')"
  by (simp_all add: hex_char_def is_digit_def is_lower_def)

definition nanos :: "nat option \<Rightarrow> nat" where
  "nanos m = (case m of None \<Rightarrow> 0 | Some n \<Rightarrow> n)"

lemma etag_unfold: "etag_for_metadata l m = CHR ''W'' # CHR ''/'' # CHR 0x22 # (hex l @ CHR ''-'' # (hex (nanos m) @ [CHR 0x22]))"
  by (simp add: etag_for_metadata_def nanos_def)

lemma etag_iff: "etag_for_metadata l m = etag_for_metadata l' m' \<longleftrightarrow> l = l' \<and> nanos m = nanos m'"
  by (simp add: etag_unfold hex_codec.enc_sep hex_codec.enc_iff hex_char_sep)

lemma hex_char_graphic: "hex_char c \<Longrightarrow> graphic c"
  by (auto simp: hex_char_def is_digit_def is_lower_def graphic_def)

lemma etag_chars: "list_all (\<lambda>c. graphic c \<and> c \<noteq> CHR '','') (etag_for_metadata l m)"
proof -
  have "list_all (\<lambda>c. graphic c \<and> c \<noteq> CHR '','') (hex n)" for n
    using hex_codec.enc_alphabet [of n] hex_char_graphic hex_char_sep(3) by (auto simp: list_all_iff)
  then show ?thesis by (simp add: etag_unfold graphic_def)
qed

lemma etag_header: "header_text (etag_for_metadata l m) = Some (etag_for_metadata l m)"
  using etag_chars [of l m] by (force simp: header_text_def graphic_def list_all_iff)

lemma etag_trim: "trim (etag_for_metadata l m) = etag_for_metadata l m"
  by (rule trim_graphic) (simp_all add: etag_unfold graphic_def)

lemma split_on_absent: "d \<notin> set s \<Longrightarrow> split_on d s = [s]"
  by (induction s) auto

lemma etag_split: "split_on (CHR '','') (etag_for_metadata l m) = [etag_for_metadata l m]"
  using etag_chars [of l m] by (intro split_on_absent) (auto simp: list_all_iff)

lemma if_none_match_etag:
  "if_none_match [(''if-none-match'', etag_for_metadata l m)] (etag_for_metadata l' m') \<longleftrightarrow> l = l' \<and> nanos m = nanos m'"
  by (simp add: if_none_match_def etag_header etag_split etag_trim etag_iff) (simp add: etag_unfold)

section \<open>What is served\<close>

lemma media_file_cases:
  obtains (missing) "media_file env t t' root path headers = not_found"
  | (unchanged) p len where "resolve_media env root path = Some p" "file_length env t p = Some len"
      "if_none_match headers (etag_for_metadata len (sv_modified env p))"
      "rs_status (media_file env t t' root path headers) = 304" "rs_body (media_file env t t' root path headers) = []"
      "map_of (rs_headers (media_file env t t' root path headers)) ''etag'' = Some (etag_for_metadata len (sv_modified env p))"
  | (content) p len body where "resolve_media env root path = Some p" "file_length env t p = Some len"
      "\<not> if_none_match headers (etag_for_metadata len (sv_modified env p))" "read_content env t' p = Some body"
      "media_file env t t' root path headers =
         \<lparr>rs_status = 200,
            rs_headers = [(''content-type'', served_content_type p), (''content-length'', dec (length body)),
              (''etag'', etag_for_metadata len (sv_modified env p)), (''cache-control'', cache_control)],
            rs_body = body\<rparr>"
proof (cases "resolve_media env root path")
  case None
  then show thesis using missing by (simp add: media_file_def)
next
  case p: (Some p)
  show thesis
  proof (cases "file_length env t p")
    case None
    then show thesis using missing p by (simp add: media_file_def)
  next
    case len: (Some len)
    show thesis
    proof (cases "if_none_match headers (etag_for_metadata len (sv_modified env p))")
      case True
      then show thesis using unchanged [OF p len True] p len by (simp add: media_file_def)
    next
      case False
      show thesis
      proof (cases "read_content env t' p")
        case None
        then show thesis using missing p len False by (simp add: media_file_def)
      next
        case (Some body)
        then show thesis using content [OF p len False Some] p len False by (simp add: media_file_def)
      qed
    qed
  qed
qed

lemma resolve_media_Some:
  "resolve_media env root path = Some p \<longleftrightarrow>
     is_public_relative path \<and> (\<exists>r. sv_canonical env root = Inr r \<and> sv_canonical env (path_push root path) = Inr p \<and>
       path_starts_with p r)"
  by (auto simp: resolve_media_def split: sum.splits if_splits)

lemma media_file_ok:
  assumes "resolve_media env root path = Some p" "file_length env t p = Some len" "read_content env t' p = Some body"
  shows "rs_status (media_file env t t' root path headers) =
      (if if_none_match headers (etag_for_metadata len (sv_modified env p)) then 304 else 200)"
    and "map_of (rs_headers (media_file env t t' root path headers)) ''etag'' = Some (etag_for_metadata len (sv_modified env p))"
  using assms by (simp_all add: media_file_def Let_def)

lemma name_extension_dot:
  assumes "CHR ''.'' \<notin> set e" "s \<noteq> []" "CHR ''.'' \<notin> set s"
  shows "name_extension (s @ CHR ''.'' # e) = Some e"
proof -
  have "dropWhile (\<lambda>c. c \<noteq> CHR ''.'') (rev e @ CHR ''.'' # rev s) = CHR ''.'' # rev s"
      "takeWhile (\<lambda>c. c \<noteq> CHR ''.'') (rev e @ CHR ''.'' # rev s) = rev e"
    using assms(1) by (auto simp: dropWhile_append takeWhile_append)
  then show ?thesis using assms(2) by (simp add: name_extension_def)
qed

lemma payload_asset_format: "payload_asset p f = Some a \<Longrightarrow> asset_format_of a = f"
  by (cases "ip_entity_type p") (auto simp: payload_asset_def bind_eq_Some_conv)

lemma asset_content_type:
  assumes "image_mime_format mime = Some (asset_format_of a)"
  shows "served_content_type (asset_destination a) = mime"
proof -
  have ext: "CHR ''.'' \<notin> set (extension (asset_format_of a))" "utf8_valid (extension (asset_format_of a))"
    by (cases "asset_format_of a"; simp add: extension_def)+
  have "file_extension (asset_destination a) = Some (extension (asset_format_of a))"
    using name_extension_dot [OF ext(1), of "stem (asset_variant_of a)"] media_path_components [OF asset_segments_ok [of a]]
    by (simp add: file_extension_def asset_destination_def asset_name_def stem_no_slash)
  then have "served_content_type (asset_destination a) =
      (let e = to_ascii_lowercase (extension (asset_format_of a)) in
       if e = ''jpg'' \<or> e = ''jpeg'' then ''image/jpeg'' else if e = ''webp'' then ''image/webp''
       else if e = ''png'' then ''image/png'' else if e = ''gif'' then ''image/gif'' else ''application/octet-stream'')"
    using ext(2) by (simp add: served_content_type_def Let_def)
  then show ?thesis using assms
    by (cases "asset_format_of a") (auto simp: extension_def image_mime_format_def lower_char_def is_upper_def Let_def split: if_splits)
qed

section \<open>Properties\<close>

text \<open>C24: The media server answers 200, 304 or 404, and serves only what is public: with 200 the requested path
  has no hidden, empty, absolute or parent component, the canonical file lies below the canonical media root and is
  a regular file, and body, length and content type are those of that file; a 304 has no body.\<close>

theorem served_files_public:
  assumes "media_file env t t' root path headers = r" "rs_status r \<noteq> 404"
  shows "is_public_relative path \<and> (\<exists>p top. sv_canonical env root = Inr top \<and> sv_canonical env (path_push root path) = Inr p \<and>
      path_starts_with p top \<and> (\<exists>c. t p = Some (Regular c)) \<and>
      (rs_status r = 304 \<and> rs_body r = [] \<or>
       rs_status r = 200 \<and> t' p = Some (Regular (rs_body r)) \<and>
       map_of (rs_headers r) ''content-length'' = Some (dec (length (rs_body r))) \<and>
       map_of (rs_headers r) ''content-type'' = Some (served_content_type p)))"
proof (cases rule: media_file_cases [of env t t' root path headers])
  case missing
  then show ?thesis using assms by (simp add: not_found_def)
next
  case (unchanged p len)
  then show ?thesis using assms
    by (auto simp: resolve_media_Some file_length_def split: option.splits node.splits if_splits)
next
  case (content p len body)
  then show ?thesis using assms
    by (auto simp: resolve_media_Some file_length_def read_content_def split: option.splits node.splits if_splits)
qed


text \<open>What the image store publishes the media server serves: after \<open>publish\<close> has succeeded at the path of the
  image, a request for that path is answered with the bytes in the store, which have the digest that
  was recorded and are those downloaded unless an equal file was there, under the MIME type of the image. (The canonical form
  of the link-free path of the image and of the media root is the path itself.)\<close>

theorem published_image_is_served:
  assumes "publish env urls ''/media'' p img t = (Inr s, t')" "semantic_path p (di_mime_type img) = Some relative"
    and "sv_canonical sv ''/media'' = Inr ''/media''"
    and "sv_canonical sv (path_push ''/media'' relative) = Inr (path_push ''/media'' relative)"
    and "sv_metadata_error sv (path_push ''/media'' relative) = None" "sv_read_error sv (path_push ''/media'' relative) = None"
  shows "\<exists>r. media_file sv t' t' ''/media'' relative [] = r \<and> rs_status r = 200 \<and>
     store_sha256 env (rs_body r) = di_digest img \<and> (st_deduplicated s \<or> rs_body r = di_body img) \<and>
     map_of (rs_headers r) ''content-type'' = Some (di_mime_type img) \<and>
     map_of (rs_headers r) ''content-length'' = Some (dec (length (rs_body r)))"
proof -
  obtain f a where a: "image_mime_format (di_mime_type img) = Some f" "payload_asset p f = Some a" "asset_path a = Inr relative"
    using assms(2) semantic_path_asset [of p] by blast
  note dest = asset_destination_push [OF a(3)]
  have format: "asset_format_of a = f" using a(2) by (rule payload_asset_format)
  obtain b where b: "t' (asset_destination a) = Some (Regular b)" "store_sha256 env b = di_digest img"
      "st_deduplicated s \<or> b = di_body img"
    using assms(1,2) a(3)
  proof (cases rule: publish_cases)
    case (stored outcome s')
    then show thesis using that by (cases outcome) (auto simp: publication_def)
  qed auto
  have below: "path_starts_with (asset_destination a) ''/media''"
    using media_path_components [OF asset_segments_ok [of a]] media_path_components [of "[]"]
    by (simp add: path_starts_with_def asset_destination_def segments_ok_def media_path_def)
  have "resolve_media sv ''/media'' relative = Some (asset_destination a)"
    using assms(3,4) dest below asset_path_public [OF a(3)] by (simp add: resolve_media_Some)
  then have "media_file sv t' t' ''/media'' relative [] =
      \<lparr>rs_status = 200, rs_headers = [(''content-type'', served_content_type (asset_destination a)),
         (''content-length'', dec (length b)), (''etag'', etag_for_metadata (length b) (sv_modified sv (asset_destination a))),
         (''cache-control'', cache_control)], rs_body = b\<rparr>"
    using b(1) assms(5,6) dest
    by (simp add: media_file_def file_length_def read_content_def if_none_match_def Let_def)
  then show ?thesis using b asset_content_type [of "di_mime_type img" a] a(1) format by simp
qed

section \<open>Concrete runs\<close>

definition demo_server :: server_env where
  "demo_server = \<lparr>sv_canonical = Inr, sv_metadata_error = (\<lambda>p. None), sv_modified = (\<lambda>p. Some 5),
     sv_read_error = (\<lambda>p. None)\<rparr>"

lemma demo_server_facts:
  "is_public_relative ''movies/42/posters/poster-02.jpg''"
  "path_push ''/media'' ''movies/42/posters/poster-02.jpg'' = ''/media/movies/42/posters/poster-02.jpg''"
  "path_starts_with ''/media/movies/42/posters/poster-02.jpg'' ''/media''"
  by code_simp+

lemma demo_resolved:
  "resolve_media demo_server ''/media'' ''movies/42/posters/poster-02.jpg'' = Some ''/media/movies/42/posters/poster-02.jpg''"
  using demo_server_facts by (simp add: resolve_media_def demo_server_def)

lemma demo_file:
  "file_length demo_server demo_tree ''/media/movies/42/posters/poster-02.jpg'' = Some 3"
  "read_content demo_server demo_tree ''/media/movies/42/posters/poster-02.jpg'' = Some ''jpg''"
  by (simp_all add: file_length_def read_content_def demo_server_def demo_tree_def)

theorem served_files_public_witness:
  "rs_status (media_file demo_server demo_tree demo_tree ''/media'' ''movies/42/posters/poster-02.jpg'' []) = 200 \<and>
   (\<exists>p. path_starts_with p ''/media'' \<and> demo_tree p = Some (Regular ''jpg''))"
proof -
  have ok: "rs_status (media_file demo_server demo_tree demo_tree ''/media'' ''movies/42/posters/poster-02.jpg'' []) = 200"
      "rs_body (media_file demo_server demo_tree demo_tree ''/media'' ''movies/42/posters/poster-02.jpg'' []) = ''jpg''"
    using demo_resolved demo_file by (simp_all add: media_file_def if_none_match_def Let_def)
  moreover have "sv_canonical demo_server ''/media'' = Inr ''/media''" by (simp add: demo_server_def)
  ultimately show ?thesis using served_files_public [OF refl, of demo_server demo_tree demo_tree "''/media''"
      "''movies/42/posters/poster-02.jpg''" "[]"] by auto
qed


theorem published_image_is_served_witness:
  "\<exists>s t'. publish demo_store demo_urls ''/media'' demo_payload demo_image (\<lambda>x. None) = (Inr s, t') \<and>
     rs_body (media_file demo_server t' t' ''/media'' demo_relative []) = demo_png"
proof -
  obtain s t' where run: "publish demo_store demo_urls ''/media'' demo_payload demo_image (\<lambda>x. None) = (Inr s, t')"
      "\<not> st_deduplicated s" using demo_publish .
  have "rs_body (media_file demo_server t' t' ''/media'' demo_relative []) = di_body demo_image"
    using published_image_is_served [OF run(1) demo_relative_path, of demo_server] run(2) by (simp add: demo_server_def)
  then show ?thesis using run(1) by (auto simp: demo_image_def)
qed

end
