(* ===== verification/Config.thy ===== *)
theory Config
  imports Media_Cleanup
begin

text \<open>
  The configuration library, \<open>src/crates/tmdb-config/src/\<close>: secrets given directly or by a file
  (\<open>secret.rs\<close>), the validated process configuration (\<open>settings.rs\<close>) and the storage roots
  (\<open>path.rs\<close>). A source (\<open>source.rs\<close>) maps names to values of the operating system, which are byte
  strings; \<open>into_string\<close> succeeds on UTF-8. The contents of files and the parsers of socket addresses and of
  \<open>http::Uri\<close> are fields of the environment.
\<close>

section \<open>Errors and sources\<close>

datatype config_error =
    Config_missing string | Config_conflict string | Config_unicode string | Config_invalid string
  | Config_unsupported string | Config_secret_read string | Config_secret_large string
  | Config_secret_invalid string | Config_inline_secret string | Config_example_secret string
  | Config_storage_root string | Config_roots_overlap string string

datatype socket_address = Socket "nat list" nat

record http_uri =
  hu_scheme :: "string option"
  hu_authority :: "string option"
  hu_path :: string
  hu_query :: "string option"

text \<open>\<open>cf_file\<close>: the content of a file, \<open>None\<close> when it cannot be opened or read.\<close>

record config_env =
  cf_get :: "string \<Rightarrow> string option"
  cf_file :: "string \<Rightarrow> string option"
  cf_address :: "string \<Rightarrow> socket_address option"
  cf_uri :: "string \<Rightarrow> http_uri option"

definition into_string :: "string \<Rightarrow> string \<Rightarrow> config_error + string" where
  "into_string name v = (if utf8_valid v then Inr v else Inl (Config_unicode name))"

section \<open>Secrets\<close>

datatype secret_origin = Origin_direct | Origin_file

definition max_secret_bytes :: nat where "max_secret_bytes = 64 * 1024"

definition nul :: char where "nul = CHR 0x00"
definition line_feed :: char where "line_feed = CHR 0x0A"
definition carriage_return :: char where "carriage_return = CHR 0x0D"

definition trim_one_line_ending :: "string \<Rightarrow> string" where
  "trim_one_line_ending s =
     (if s \<noteq> [] \<and> last s = line_feed
      then let s = butlast s in if s \<noteq> [] \<and> last s = carriage_return then butlast s else s
      else s)"

definition validate_secret :: "string \<Rightarrow> string \<Rightarrow> config_error + string" where
  "validate_secret s name =
     (if s = [] \<or> nul \<in> set s then Inl (Config_secret_invalid name)
      else if \<not> utf8_valid s then Inl (Config_secret_invalid name)
      else Inr s)"

definition config_read_bounded :: "string \<Rightarrow> string \<Rightarrow> config_error + string" where
  "config_read_bounded content name =
     (let s = take (max_secret_bytes + 1) content in
      if length s > max_secret_bytes then Inl (Config_secret_large name) else Inr s)"

definition secret_file_name :: "string \<Rightarrow> string" where
  "secret_file_name name = name @ ''_FILE''"

definition load_secret_with_origin :: "config_env \<Rightarrow> string \<Rightarrow> config_error + string \<times> secret_origin" where
  "load_secret_with_origin env name =
     (case (cf_get env name, cf_get env (secret_file_name name)) of
        (Some _, Some _) \<Rightarrow> Inl (Config_conflict name)
      | (None, None) \<Rightarrow> Inl (Config_missing name)
      | (Some v, None) \<Rightarrow>
          bindR (into_string name v) (\<lambda>v. mapR (\<lambda>s. (s, Origin_direct)) (validate_secret v name))
      | (None, Some path) \<Rightarrow>
          bindR (ok_or (Config_secret_read name) (cf_file env path)) (\<lambda>content.
          bindR (config_read_bounded content name) (\<lambda>s.
          mapR (\<lambda>s. (s, Origin_file)) (validate_secret (trim_one_line_ending s) name))))"

definition load_secret :: "config_env \<Rightarrow> string \<Rightarrow> config_error + string" where
  "load_secret env name = mapR fst (load_secret_with_origin env name)"

section \<open>Storage roots\<close>

record storage_roots =
  sr_images :: string
  sr_raw_archive :: string
  sr_backups :: string

definition storage_roots_fixed :: storage_roots where
  "storage_roots_fixed = \<lparr>sr_images = ''/media'', sr_raw_archive = ''/config/raw'', sr_backups = ''/config/backups''\<rparr>"

definition component_text :: "path_component \<Rightarrow> string" where
  "component_text c = (case c of RootDir \<Rightarrow> ''/'' | CurDir \<Rightarrow> ''.'' | ParentDir \<Rightarrow> ''..'' | Normal s \<Rightarrow> s)"

text \<open>\<open>components().collect()\<close> pushes the components one after the other.\<close>

definition collect_components :: "path_component list \<Rightarrow> string" where
  "collect_components cs = foldl (\<lambda>p c. path_push p (component_text c)) [] cs"

definition validate_storage_root :: "string \<Rightarrow> string \<Rightarrow> config_error + string" where
  "validate_storage_root name p =
     (if \<not> starts_with p ''/'' \<or> nul \<in> set p then Inl (Config_storage_root name)
      else if list_ex (\<lambda>c. c = ParentDir \<or> c = CurDir) (path_components p) then Inl (Config_storage_root name)
      else if \<not> list_ex normal_component (path_components p) then Inl (Config_storage_root name)
      else if p \<noteq> collect_components (path_components p) then Inl (Config_storage_root name)
      else Inr p)"

definition roots_overlap :: "string \<times> string \<Rightarrow> string \<times> string \<Rightarrow> config_error + unit" where
  "roots_overlap a b =
     guardR (\<not> (path_starts_with (snd a) (snd b) \<or> path_starts_with (snd b) (snd a)))
       (Config_roots_overlap (fst a) (fst b))"

definition storage_roots_try_new :: "string \<Rightarrow> string \<Rightarrow> string \<Rightarrow> config_error + storage_roots" where
  "storage_roots_try_new images raw backups =
     bindR (validate_storage_root ''images'' images) (\<lambda>images.
     bindR (validate_storage_root ''raw_archive'' raw) (\<lambda>raw.
     bindR (validate_storage_root ''backups'' backups) (\<lambda>backups.
     bindR (roots_overlap (''images'', images) (''raw_archive'', raw)) (\<lambda>_.
     bindR (roots_overlap (''images'', images) (''backups'', backups)) (\<lambda>_.
     bindR (roots_overlap (''raw_archive'', raw) (''backups'', backups)) (\<lambda>_.
     Inr \<lparr>sr_images = images, sr_raw_archive = raw, sr_backups = backups\<rparr>))))))"

section \<open>Settings\<close>

datatype environment = Development | Test_environment | Production

definition environment_from_str :: "string \<Rightarrow> environment option" where
  "environment_from_str s =
     (if s = ''development'' then Some Development else if s = ''test'' then Some Test_environment
      else if s = ''production'' then Some Production else None)"

record database_config =
  db_host :: string
  db_port :: nat
  db_database :: string
  db_username :: string
  db_password :: string

record app_config =
  ac_environment :: environment
  ac_api_bind :: socket_address
  ac_admin_bind :: socket_address
  ac_database :: database_config
  ac_storage_roots :: storage_roots
  ac_trawl_base_url :: "http_uri option"
  ac_media_base_url :: "http_uri option"
  ac_admin_api_key :: "string option"

definition legacy_database_settings :: "string list" where
  "legacy_database_settings =
     [''DATABASE_HOST'', ''DATABASE_PORT'', ''DATABASE_NAME'', ''DATABASE_USER'', ''DATABASE_PASSWORD'',
      ''TMDB_DB_HOST'', ''TMDB_DB_PORT'', ''TMDB_DB_NAME'', ''TMDB_DB_USER'', ''TMDB_DB_PASSWORD'',
      ''TMDB_DIRECT_DB_HOST'', ''TMDB_DIRECT_DB_PORT'', ''TMDB_DIRECT_DB_NAME'', ''TMDB_DIRECT_DB_USER'',
      ''TMDB_DIRECT_DB_PASSWORD'', ''TMDB_POOLED_DB_HOST'', ''TMDB_POOLED_DB_PORT'', ''TMDB_POOLED_DB_NAME'',
      ''TMDB_POOLED_DB_USER'', ''TMDB_POOLED_DB_PASSWORD'']"

fun reject_settings :: "config_env \<Rightarrow> string list \<Rightarrow> config_error + unit" where
  "reject_settings env [] = Inr ()"
| "reject_settings env (name # names) =
     (if cf_get env name \<noteq> None then Inl (Config_unsupported name)
      else if cf_get env (secret_file_name name) \<noteq> None then Inl (Config_unsupported (secret_file_name name))
      else reject_settings env names)"

definition reject_legacy_database_settings :: "config_env \<Rightarrow> config_error + unit" where
  "reject_legacy_database_settings env = reject_settings env legacy_database_settings"

definition has_secret_source :: "config_env \<Rightarrow> string \<Rightarrow> bool" where
  "has_secret_source env name \<longleftrightarrow> cf_get env name \<noteq> None \<or> cf_get env (secret_file_name name) \<noteq> None"

definition is_known_example :: "string \<Rightarrow> bool" where
  "is_known_example s \<longleftrightarrow>
     to_ascii_lowercase s \<in> {''password'', ''changeme'', ''example'', ''secret'', ''pw''}"

definition required_string :: "config_env \<Rightarrow> string \<Rightarrow> config_error + string" where
  "required_string env name =
     bindR (ok_or (Config_missing name) (cf_get env name)) (\<lambda>v.
     bindR (into_string name v) (\<lambda>v.
     if v = [] \<or> nul \<in> set v then Inl (Config_invalid name) else Inr v))"

definition config_parse_required :: "config_env \<Rightarrow> (string \<Rightarrow> 'a option) \<Rightarrow> string \<Rightarrow> config_error + 'a" where
  "config_parse_required env parse name =
     bindR (required_string env name) (\<lambda>v. ok_or (Config_invalid name) (parse v))"

definition config_parse_or :: "config_env \<Rightarrow> (string \<Rightarrow> 'a option) \<Rightarrow> string \<Rightarrow> 'a \<Rightarrow> config_error + 'a" where
  "config_parse_or env parse name fallback =
     (if cf_get env name \<noteq> None then config_parse_required env parse name else Inr fallback)"

definition uri_refused :: "http_uri \<Rightarrow> bool" where
  "uri_refused u \<longleftrightarrow>
     hu_scheme u \<notin> {Some ''http'', Some ''https''} \<or> hu_authority u = None \<or> hu_query u \<noteq> None \<or>
     (case hu_authority u of None \<Rightarrow> False | Some a \<Rightarrow> CHR 0x40 \<in> set a)"

definition optional_uri :: "config_env \<Rightarrow> string \<Rightarrow> config_error + http_uri option" where
  "optional_uri env name =
     (case cf_get env name of
        None \<Rightarrow> Inr None
      | Some v \<Rightarrow>
          bindR (into_string name v) (\<lambda>v.
          let v = trim v in
          if v = [] then Inr None
          else if nul \<in> set v then Inl (Config_invalid name)
          else bindR (ok_or (Config_invalid name) (cf_uri env v)) (\<lambda>u.
          if uri_refused u then Inl (Config_invalid name) else Inr (Some u))))"

definition load_optional_secret :: "config_env \<Rightarrow> environment \<Rightarrow> string \<Rightarrow> config_error + string option" where
  "load_optional_secret env mode name =
     (if cf_get env name = None \<and> cf_get env (secret_file_name name) = None then Inr None
      else
        bindR (load_secret_with_origin env name) (\<lambda>(s, _).
        if name \<in> {''TMDB_API_KEY'', ''TMDB_ADMIN_API_KEY''} \<and> length s < 32 then Inl (Config_invalid name)
        else if mode \<noteq> Production \<and> is_known_example s then Inl (Config_example_secret name)
        else Inr (Some s)))"

definition load_shared_database :: "config_env \<Rightarrow> environment \<Rightarrow> config_error + database_config" where
  "load_shared_database env mode =
     bindR (reject_legacy_database_settings env) (\<lambda>_.
     bindR (required_string env ''POSTGRES_DB'') (\<lambda>database.
     bindR (required_string env ''POSTGRES_USER'') (\<lambda>username.
     bindR (load_secret_with_origin env ''POSTGRES_PASSWORD'') (\<lambda>(password, _).
     if mode \<noteq> Production \<and> is_known_example password then Inl (Config_example_secret ''POSTGRES_PASSWORD'')
     else Inr \<lparr>db_host = ''tmdb-mirror-postgres'', db_port = 5432, db_database = database,
       db_username = username, db_password = password\<rparr>))))"

definition load_database_for_role :: "config_env \<Rightarrow> environment \<Rightarrow> string \<Rightarrow> config_error + database_config" where
  "load_database_for_role env mode role =
     mapR (\<lambda>shared. shared\<lparr>db_username := role\<rparr>) (load_shared_database env mode)"

definition admin_key_name :: "config_env \<Rightarrow> string" where
  "admin_key_name env = (if has_secret_source env ''TMDB_ADMIN_API_KEY'' then ''TMDB_ADMIN_API_KEY'' else ''TMDB_API_KEY'')"

definition app_config_load :: "config_env \<Rightarrow> config_error + app_config" where
  "app_config_load env =
     bindR (config_parse_required env environment_from_str ''TMDB_ENVIRONMENT'') (\<lambda>mode.
     bindR (config_parse_or env (cf_address env) ''TMDB_API_BIND'' (Socket [0, 0, 0, 0] 9000)) (\<lambda>api.
     bindR (config_parse_or env (cf_address env) ''TMDB_ADMIN_BIND'' (Socket [0, 0, 0, 0] 9001)) (\<lambda>admin.
     bindR (load_shared_database env mode) (\<lambda>database.
     bindR (optional_uri env ''TMDB_TRAWL_BASE_URL'') (\<lambda>trawl.
     bindR (optional_uri env ''TMDB_MEDIA_BASE_URL'') (\<lambda>media.
     bindR (load_optional_secret env mode (admin_key_name env)) (\<lambda>key.
     if mode = Production \<and> key = None then Inl (Config_missing ''TMDB_ADMIN_API_KEY'')
     else Inr \<lparr>ac_environment = mode, ac_api_bind = api, ac_admin_bind = admin, ac_database = database,
       ac_storage_roots = storage_roots_fixed, ac_trawl_base_url = trawl, ac_media_base_url = media,
       ac_admin_api_key = key\<rparr>)))))))"

section \<open>Secrets are what the file holds\<close>

lemma load_secret_cases:
  assumes "load_secret_with_origin env name = Inr (s, origin)"
  shows "s \<noteq> [] \<and> nul \<notin> set s \<and> utf8_valid s \<and>
    (case origin of
       Origin_direct \<Rightarrow> cf_get env name = Some s \<and> cf_get env (secret_file_name name) = None
     | Origin_file \<Rightarrow> cf_get env name = None \<and>
         (\<exists>path content. cf_get env (secret_file_name name) = Some path \<and> cf_file env path = Some content \<and>
            length content \<le> max_secret_bytes \<and> s = trim_one_line_ending content))"
  using assms
  by (auto simp: load_secret_with_origin_def result_simps validate_secret_def into_string_def config_read_bounded_def
      Let_def split: option.splits if_splits)

lemma trim_one_line_ending_simps:
  "trim_one_line_ending [] = []"
  "trim_one_line_ending (s @ [carriage_return, line_feed]) = s"
  "s = [] \<or> last s \<noteq> carriage_return \<Longrightarrow> trim_one_line_ending (s @ [line_feed]) = s"
  "s = [] \<or> last s \<noteq> line_feed \<Longrightarrow> trim_one_line_ending s = s"
  by (auto simp: trim_one_line_ending_def Let_def line_feed_def carriage_return_def butlast_append)

section \<open>Storage roots do not overlap\<close>

lemma roots_overlap_ok:
  "roots_overlap (m, a) (n, b) = Inr u \<longleftrightarrow> \<not> path_starts_with a b \<and> \<not> path_starts_with b a"
  by (auto simp: roots_overlap_def guardR_def)

lemma path_below_both: "path_starts_with p a \<Longrightarrow> path_starts_with p b \<Longrightarrow> path_starts_with a b \<or> path_starts_with b a"
  unfolding path_starts_with_def by (blast dest: prefix_same_cases)

definition root_ok :: "string \<Rightarrow> bool" where
  "root_ok p \<longleftrightarrow> starts_with p ''/'' \<and> nul \<notin> set p \<and> ParentDir \<notin> set (path_components p) \<and>
     CurDir \<notin> set (path_components p) \<and> (\<exists>s. Normal s \<in> set (path_components p)) \<and>
     p = collect_components (path_components p)"

lemma normal_component_iff: "normal_component c \<longleftrightarrow> (\<exists>s. c = Normal s)"
  by (cases c) (simp_all add: normal_component_def)

lemma validate_storage_root_ok: "validate_storage_root name p = Inr q \<longleftrightarrow> q = p \<and> root_ok p"
  by (auto simp: validate_storage_root_def root_ok_def normal_component_iff list_ex_iff split: if_splits)

lemma storage_roots_ok:
  assumes "storage_roots_try_new i r b = Inr roots"
  shows "roots = \<lparr>sr_images = i, sr_raw_archive = r, sr_backups = b\<rparr> \<and> root_ok i \<and> root_ok r \<and> root_ok b \<and>
    \<not> path_starts_with i r \<and> \<not> path_starts_with r i \<and> \<not> path_starts_with i b \<and> \<not> path_starts_with b i \<and>
    \<not> path_starts_with r b \<and> \<not> path_starts_with b r"
  using assms
  by (auto simp: storage_roots_try_new_def result_simps validate_storage_root_ok roots_overlap_ok)

lemma fixed_roots: "storage_roots_try_new ''/media'' ''/config/raw'' ''/config/backups'' = Inr storage_roots_fixed"
  by code_simp

section \<open>What a loaded configuration satisfies\<close>

definition config_error_fields :: "config_error \<Rightarrow> string list" where
  "config_error_fields e =
     (case e of
        Config_missing n \<Rightarrow> [n] | Config_conflict n \<Rightarrow> [n] | Config_unicode n \<Rightarrow> [n] | Config_invalid n \<Rightarrow> [n]
      | Config_unsupported n \<Rightarrow> [n] | Config_secret_read n \<Rightarrow> [n] | Config_secret_large n \<Rightarrow> [n]
      | Config_secret_invalid n \<Rightarrow> [n] | Config_inline_secret n \<Rightarrow> [n] | Config_example_secret n \<Rightarrow> [n]
      | Config_storage_root n \<Rightarrow> [n] | Config_roots_overlap m n \<Rightarrow> [m, n])"

definition setting_names :: "string list" where
  "setting_names =
     [''TMDB_ENVIRONMENT'', ''TMDB_API_BIND'', ''TMDB_ADMIN_BIND'', ''POSTGRES_DB'', ''POSTGRES_USER'',
      ''POSTGRES_PASSWORD'', ''TMDB_TRAWL_BASE_URL'', ''TMDB_MEDIA_BASE_URL'', ''TMDB_ADMIN_API_KEY'', ''TMDB_API_KEY''] @
     legacy_database_settings @ map secret_file_name legacy_database_settings"

text \<open>The computation can only fail with an error that names nothing but these fields.\<close>

definition names_only :: "string list \<Rightarrow> config_error + 'a \<Rightarrow> bool" where
  "names_only ns r \<longleftrightarrow> (case r of Inl e \<Rightarrow> set (config_error_fields e) \<subseteq> set ns | Inr _ \<Rightarrow> True)"

lemma names_only_Inl: "names_only ns (Inl e) \<longleftrightarrow> set (config_error_fields e) \<subseteq> set ns"
  by (simp add: names_only_def)

lemma names_only_Inr [simp]: "names_only ns (Inr x)"
  by (simp add: names_only_def)

lemma names_only_bind: "names_only ns r \<Longrightarrow> (\<And>x. names_only ns (f x)) \<Longrightarrow> names_only ns (bindR r f)"
  by (cases r) (simp_all add: names_only_def)

lemma names_only_map: "names_only ns r \<Longrightarrow> names_only ns (mapR f r)"
  by (cases r) (simp_all add: names_only_def)

lemma names_only_ok_or: "set (config_error_fields e) \<subseteq> set ns \<Longrightarrow> names_only ns (ok_or e x)"
  by (cases x) (simp_all add: names_only_def)

lemma names_only_if: "names_only ns r \<Longrightarrow> names_only ns s \<Longrightarrow> names_only ns (if b then r else s)"
  by simp

lemmas names_only_intros = names_only_bind names_only_map names_only_ok_or names_only_if names_only_Inr

lemma into_string_names: "n \<in> set ns \<Longrightarrow> names_only ns (into_string n v)"
  by (simp add: into_string_def names_only_Inl config_error_fields_def)

lemma load_secret_names: "n \<in> set ns \<Longrightarrow> names_only ns (load_secret_with_origin env n)"
  by (auto simp: load_secret_with_origin_def names_only_Inl config_error_fields_def validate_secret_def
      config_read_bounded_def Let_def split: option.splits intro!: names_only_intros into_string_names)

lemma required_string_names: "n \<in> set ns \<Longrightarrow> names_only ns (required_string env n)"
  by (auto simp: required_string_def names_only_Inl config_error_fields_def intro!: names_only_intros into_string_names)

lemma config_parse_names:
  "n \<in> set ns \<Longrightarrow> names_only ns (config_parse_required env f n)"
  "n \<in> set ns \<Longrightarrow> names_only ns (config_parse_or env f n d)"
  by (auto simp: config_parse_or_def config_parse_required_def config_error_fields_def
      intro!: names_only_intros required_string_names)

lemma optional_uri_names: "n \<in> set ns \<Longrightarrow> names_only ns (optional_uri env n)"
  by (auto simp: optional_uri_def names_only_Inl config_error_fields_def Let_def split: option.splits
      intro!: names_only_intros into_string_names)

lemma load_optional_secret_names: "n \<in> set ns \<Longrightarrow> names_only ns (load_optional_secret env mode n)"
  by (auto simp: load_optional_secret_def names_only_Inl config_error_fields_def
      intro!: names_only_intros load_secret_names)

lemma reject_settings_names:
  "set names \<subseteq> set ns \<Longrightarrow> set (map secret_file_name names) \<subseteq> set ns \<Longrightarrow> names_only ns (reject_settings env names)"
  by (induction env names rule: reject_settings.induct) (auto simp: names_only_Inl config_error_fields_def)

lemma load_shared_database_names:
  assumes "{''POSTGRES_DB'', ''POSTGRES_USER'', ''POSTGRES_PASSWORD''} \<subseteq> set ns" "set legacy_database_settings \<subseteq> set ns"
    and "set (map secret_file_name legacy_database_settings) \<subseteq> set ns"
  shows "names_only ns (load_shared_database env mode)"
  unfolding load_shared_database_def reject_legacy_database_settings_def
  using assms
  by (auto simp: names_only_Inl config_error_fields_def
      intro!: names_only_intros reject_settings_names required_string_names load_secret_names)

lemma app_config_names: "names_only setting_names (app_config_load env)"
proof -
  have "names_only setting_names (load_shared_database env mode)" for mode
    by (rule load_shared_database_names) (auto simp: setting_names_def)
  then show ?thesis unfolding app_config_load_def
    by (auto simp: names_only_Inl config_error_fields_def admin_key_name_def setting_names_def
        intro!: names_only_intros config_parse_names optional_uri_names load_optional_secret_names)
qed

lemma optional_uri_ok:
  assumes "optional_uri env n = Inr (Some u)"
  shows "hu_scheme u \<in> {Some ''http'', Some ''https''} \<and> (\<exists>a. hu_authority u = Some a \<and> CHR 0x40 \<notin> set a) \<and> hu_query u = None"
  using assms
  by (auto simp: optional_uri_def result_simps Let_def uri_refused_def split: option.splits if_splits)

lemma load_optional_secret_ok:
  assumes "load_optional_secret env mode n = Inr (Some k)" "n \<in> {''TMDB_API_KEY'', ''TMDB_ADMIN_API_KEY''}"
  shows "32 \<le> length k \<and> nul \<notin> set k \<and> utf8_valid k \<and> (mode \<noteq> Production \<longrightarrow> \<not> is_known_example k)"
proof -
  obtain origin where "load_secret_with_origin env n = Inr (k, origin)" "\<not> length k < 32"
      "mode \<noteq> Production \<longrightarrow> \<not> is_known_example k"
    using assms by (auto simp: load_optional_secret_def result_simps split: if_splits)
  then show ?thesis using load_secret_cases by auto
qed

lemma reject_settings_ok:
  "reject_settings env names = Inr u \<Longrightarrow> n \<in> set names \<Longrightarrow> cf_get env n = None \<and> cf_get env (secret_file_name n) = None"
  by (induction env names rule: reject_settings.induct) (auto split: if_splits)

lemma required_string_ok: "required_string env n = Inr s \<Longrightarrow> s \<noteq> [] \<and> nul \<notin> set s \<and> utf8_valid s \<and> cf_get env n = Some s"
  by (auto simp: required_string_def result_simps into_string_def split: if_splits)

definition database_ok :: "config_env \<Rightarrow> environment \<Rightarrow> database_config \<Rightarrow> bool" where
  "database_ok env mode d \<longleftrightarrow>
     db_host d = ''tmdb-mirror-postgres'' \<and> db_port d = 5432 \<and> db_database d \<noteq> [] \<and> nul \<notin> set (db_database d) \<and>
     db_username d \<noteq> [] \<and> nul \<notin> set (db_username d) \<and> db_password d \<noteq> [] \<and> nul \<notin> set (db_password d) \<and>
     (mode \<noteq> Production \<longrightarrow> \<not> is_known_example (db_password d)) \<and>
     (\<forall>n\<in>set legacy_database_settings. cf_get env n = None \<and> cf_get env (secret_file_name n) = None)"

lemma load_shared_database_ok:
  assumes "load_shared_database env mode = Inr d"
  shows "database_ok env mode d"
proof -
  obtain database username password origin where parts:
      "reject_settings env legacy_database_settings = Inr ()"
      "required_string env ''POSTGRES_DB'' = Inr database" "required_string env ''POSTGRES_USER'' = Inr username"
      "load_secret_with_origin env ''POSTGRES_PASSWORD'' = Inr (password, origin)"
      "mode \<noteq> Production \<longrightarrow> \<not> is_known_example password"
      "d = \<lparr>db_host = ''tmdb-mirror-postgres'', db_port = 5432, db_database = database, db_username = username,
         db_password = password\<rparr>"
    using assms by (auto simp: load_shared_database_def reject_legacy_database_settings_def result_simps split: if_splits)
  show ?thesis
    using required_string_ok [OF parts(2)] required_string_ok [OF parts(3)] load_secret_cases [OF parts(4)]
      reject_settings_ok [OF parts(1)] parts(5,6)
    by (simp add: database_ok_def)
qed

section \<open>Properties\<close>

text \<open>C35: A configuration that \<open>AppConfig::load\<close> accepts is safe to start with: in production there is an
  administrative key, and any such key has at least 32 bytes, no NUL, and is no example outside production; the
  base URLs are HTTP or HTTPS with an authority, without credentials and query; the database is the fixed internal
  one, with a name, user and password that are not empty, and none of the legacy settings is present; the storage
  roots are ones \<open>StorageRoots::try_new\<close> accepts.\<close>

theorem loaded_config_safe:
  assumes "app_config_load env = Inr c"
  shows "(ac_environment c = Production \<longrightarrow> ac_admin_api_key c \<noteq> None) \<and>
    (\<forall>k. ac_admin_api_key c = Some k \<longrightarrow>
       32 \<le> length k \<and> nul \<notin> set k \<and> utf8_valid k \<and> (ac_environment c \<noteq> Production \<longrightarrow> \<not> is_known_example k)) \<and>
    (\<forall>u. ac_trawl_base_url c = Some u \<or> ac_media_base_url c = Some u \<longrightarrow>
       hu_scheme u \<in> {Some ''http'', Some ''https''} \<and> (\<exists>a. hu_authority u = Some a \<and> CHR 0x40 \<notin> set a) \<and> hu_query u = None) \<and>
    database_ok env (ac_environment c) (ac_database c) \<and>
    (\<exists>i r b. storage_roots_try_new i r b = Inr (ac_storage_roots c))"
proof -
  obtain mode api admin database trawl media key where parts:
      "load_shared_database env mode = Inr database" "optional_uri env ''TMDB_TRAWL_BASE_URL'' = Inr trawl"
      "optional_uri env ''TMDB_MEDIA_BASE_URL'' = Inr media" "load_optional_secret env mode (admin_key_name env) = Inr key"
      "\<not> (mode = Production \<and> key = None)"
      "c = \<lparr>ac_environment = mode, ac_api_bind = api, ac_admin_bind = admin, ac_database = database,
         ac_storage_roots = storage_roots_fixed, ac_trawl_base_url = trawl, ac_media_base_url = media, ac_admin_api_key = key\<rparr>"
    using assms by (auto simp: app_config_load_def result_simps split: if_splits)
  have "admin_key_name env \<in> {''TMDB_API_KEY'', ''TMDB_ADMIN_API_KEY''}" by (simp add: admin_key_name_def)
  then have key: "32 \<le> length k \<and> nul \<notin> set k \<and> utf8_valid k \<and> (mode \<noteq> Production \<longrightarrow> \<not> is_known_example k)" if "key = Some k" for k
    using load_optional_secret_ok parts(4) that by blast
  have uri: "hu_scheme u \<in> {Some ''http'', Some ''https''} \<and> (\<exists>a. hu_authority u = Some a \<and> CHR 0x40 \<notin> set a) \<and> hu_query u = None"
    if "trawl = Some u \<or> media = Some u" for u
    using optional_uri_ok [of env _ u] parts(2,3) that by blast
  show ?thesis using parts(5,6) key uri load_shared_database_ok [OF parts(1)] fixed_roots by auto
qed

text \<open>A secret kept in a file is read back exactly: one final line ending (LF or CR LF), which editors add, is
  removed and nothing else, for every secret of at most 64 KiB that is not empty, holds no NUL and is UTF-8.\<close>

theorem secret_file_round_trip:
  assumes "cf_get env name = None" "cf_get env (secret_file_name name) = Some path" "cf_file env path = Some (s @ e)"
    and "e \<in> {[], [line_feed], [carriage_return, line_feed]}" "last s \<notin> {line_feed, carriage_return}"
    and "s \<noteq> []" "nul \<notin> set s" "utf8_valid s" "length (s @ e) \<le> max_secret_bytes"
  shows "load_secret env name = Inr s"
proof -
  have "trim_one_line_ending (s @ e) = s"
    using assms(4,5) trim_one_line_ending_simps(2-4) by auto
  moreover have "config_read_bounded (s @ e) name = Inr (s @ e)"
    using assms(9) by (simp add: config_read_bounded_def Let_def)
  moreover have "validate_secret s name = Inr s" using assms(6-8) by (simp add: validate_secret_def)
  ultimately show ?thesis using assms(1-3)
    by (simp add: load_secret_def load_secret_with_origin_def result_simps)
qed

text \<open>Three accepted storage roots are absolute and normalized, and no path lies below two of them.\<close>

theorem storage_roots_disjoint:
  assumes "storage_roots_try_new i r b = Inr roots"
  shows "root_ok (sr_images roots) \<and> root_ok (sr_raw_archive roots) \<and> root_ok (sr_backups roots) \<and>
    \<not> (path_starts_with p (sr_images roots) \<and> path_starts_with p (sr_raw_archive roots)) \<and>
    \<not> (path_starts_with p (sr_images roots) \<and> path_starts_with p (sr_backups roots)) \<and>
    \<not> (path_starts_with p (sr_raw_archive roots) \<and> path_starts_with p (sr_backups roots))"
  using storage_roots_ok [OF assms] path_below_both [of p] by auto

text \<open>An error of the loader names settings and never carries a configured value.\<close>

theorem config_errors_name_settings:
  assumes "app_config_load env = Inl e"
  shows "set (config_error_fields e) \<subseteq> set setting_names"
  using app_config_names [of env] assms by (simp add: names_only_def)

section \<open>Concrete runs\<close>

definition demo_config_env :: config_env where
  "demo_config_env =
     \<lparr>cf_get = map_of [(''TMDB_ENVIRONMENT'', ''production''), (''POSTGRES_DB'', ''tmdb''), (''POSTGRES_USER'', ''owner''),
        (''POSTGRES_PASSWORD'', ''hunter''), (''SECRET_FILE'', ''/run/secret''), (''TMDB_API_KEY'', replicate 32 (CHR ''k''))],
      cf_file = (\<lambda>p. if p = ''/run/secret'' then Some (''hunter'' @ [line_feed]) else None),
      cf_address = (\<lambda>s. None), cf_uri = (\<lambda>s. None)\<rparr>"

lemma demo_config_loaded: "is_ok (app_config_load demo_config_env)"
  by code_simp

theorem loaded_config_safe_witness:
  "\<exists>c k. app_config_load demo_config_env = Inr c \<and> ac_admin_api_key c = Some k \<and> 32 \<le> length k"
proof -
  obtain c where c: "app_config_load demo_config_env = Inr c" using demo_config_loaded by (auto simp: is_ok_iff)
  have "(case app_config_load demo_config_env of Inr c \<Rightarrow> ac_environment c = Production | _ \<Rightarrow> False)" by code_simp
  then have "ac_environment c = Production" using c by simp
  then show ?thesis using loaded_config_safe [OF c] c by auto
qed

theorem secret_file_round_trip_witness: "load_secret demo_config_env ''SECRET'' = Inr ''hunter''"
proof -
  have facts: "cf_get demo_config_env ''SECRET'' = None" "secret_file_name ''SECRET'' = ''SECRET_FILE''"
      "cf_get demo_config_env ''SECRET_FILE'' = Some ''/run/secret''"
      "cf_file demo_config_env ''/run/secret'' = Some (''hunter'' @ [line_feed])"
    by (simp_all add: demo_config_env_def secret_file_name_def)
  have "utf8_valid ''hunter''" by code_simp
  then show ?thesis
    by (intro secret_file_round_trip [OF facts(1) facts(3) [folded facts(2)] facts(4)])
      (simp_all add: line_feed_def carriage_return_def nul_def max_secret_bytes_def)
qed

end
