(* ===== verification/Runtime_Config.thy ===== *)
theory Runtime_Config
  imports Config Media_Requests Http_Client
begin

text \<open>
  What the worker processes read at start-up, \<open>src/apps/tmdb-ingest/src/runtime.rs\<close> and
  \<open>src/apps/tmdb-images/src/runtime.rs\<close>: fields with defaults, the client, the workers with their identities, the
  downloader and the coordinator. The generated identifier \<open>Uuid::now_v7()\<close>, URL parsing and the construction of the HTTP
  client are arguments. Spawning, signals and connections are left out.
\<close>

section \<open>Fields\<close>

datatype setup_error =
    Setup_missing string | Setup_unicode string | Setup_invalid string | Setup_config config_error
  | Setup_policy policy_error | Setup_client client_error | Setup_worker worker_setup_error
  | Setup_concurrency | Setup_download_policy | Setup_root | Setup_export_bytes

definition field_text :: "string \<Rightarrow> string \<Rightarrow> setup_error + string" where
  "field_text name v = (if utf8_valid v then Inr v else Inl (Setup_unicode name))"

definition field_required :: "config_env \<Rightarrow> string \<Rightarrow> setup_error + string" where
  "field_required env name = bindR (ok_or (Setup_missing name) (cf_get env name)) (field_text name)"

definition field_or :: "config_env \<Rightarrow> (string \<Rightarrow> 'a option) \<Rightarrow> string \<Rightarrow> 'a \<Rightarrow> setup_error + 'a" where
  "field_or env parse name fallback =
     (case cf_get env name of
        Some v \<Rightarrow> bindR (field_text name v) (\<lambda>v. ok_or (Setup_invalid name) (parse v))
      | None \<Rightarrow> Inr fallback)"

definition field_optional_or :: "config_env \<Rightarrow> string \<Rightarrow> string \<Rightarrow> setup_error + string" where
  "field_optional_or env name fallback =
     (case cf_get env name of Some v \<Rightarrow> field_text name v | None \<Rightarrow> Inr fallback)"

definition parse_bool :: "string \<Rightarrow> bool option" where
  "parse_bool s = (if s = ''true'' then Some True else if s = ''false'' then Some False else None)"

definition load_environment :: "config_env \<Rightarrow> setup_error + environment" where
  "load_environment env =
     bindR (field_required env ''TMDB_ENVIRONMENT'') (\<lambda>v.
     ok_or (Setup_invalid ''TMDB_ENVIRONMENT'') (environment_from_str v))"

section \<open>The ingest worker\<close>

definition load_tmdb_client :: "config_env \<Rightarrow> client_lib \<Rightarrow> setup_error + client" where
  "load_tmdb_client env lib =
     bindR (field_required env ''TMDB_API_BASE_URL'') (\<lambda>base.
     bindR (map_errR Setup_config (load_secret env ''TMDB_READ_ACCESS_TOKEN'')) (\<lambda>token.
     bindR (field_or env (parse_uint u32_max) ''TMDB_RATE_LIMIT'' 35) (\<lambda>rate.
     bindR (field_or env (parse_uint u32_max) ''TMDB_MAX_CONNECTIONS'' 20) (\<lambda>concurrency.
     bindR (field_or env (parse_uint 255) ''TMDB_MAX_ATTEMPTS'' 4) (\<lambda>attempts.
     bindR (field_or env (parse_uint u64_max) ''TMDB_REQUEST_TIMEOUT_SECONDS'' 30) (\<lambda>timeout.
     bindR (map_errR Setup_policy (rate_limit_try_new rate concurrency)) (\<lambda>limit.
     bindR (map_errR Setup_policy (retry_try_new attempts limit (from_secs timeout) (from_millis 250) (from_secs 15)
       (16 * 1024 * 1024))) (\<lambda>p.
     map_errR Setup_client (client_new lib base token p)))))))))"

definition worker_timing :: "config_env \<Rightarrow> string \<Rightarrow> setup_error + worker_config" where
  "worker_timing env worker_id =
     bindR (field_or env (parse_uint u64_max) ''TMDB_WORKER_LEASE_SECONDS'' 60) (\<lambda>lease.
     bindR (field_or env (parse_uint u64_max) ''TMDB_WORKER_HEARTBEAT_SECONDS'' 15) (\<lambda>heartbeat.
     bindR (field_or env (parse_uint u64_max) ''TMDB_WORKER_IDLE_POLL_MS'' 500) (\<lambda>poll.
     bindR (map_errR (\<lambda>e. Setup_worker (Setup_id e)) (worker_id_new worker_id)) (\<lambda>w.
     map_errR (\<lambda>e. Setup_worker (Setup_timing e))
       (worker_config_try_new w (from_secs lease) (from_secs heartbeat) (from_millis poll))))))"

definition ingest_worker_config :: "config_env \<Rightarrow> string \<Rightarrow> string \<Rightarrow> setup_error + worker_config" where
  "ingest_worker_config env uuid default_id =
     bindR (case cf_get env ''TMDB_WORKER_ID'' of
              Some v \<Rightarrow> field_text ''TMDB_WORKER_ID'' v
            | None \<Rightarrow> Inr (default_id @ ''-'' @ uuid)) (worker_timing env)"

definition max_ingest_worker_concurrency :: nat where "max_ingest_worker_concurrency = 64"

definition load_ingest_worker_concurrency :: "config_env \<Rightarrow> setup_error + nat" where
  "load_ingest_worker_concurrency env =
     mapR (\<lambda>n. max 1 (min n max_ingest_worker_concurrency))
       (field_or env (parse_uint u32_max) ''TMDB_MAX_CONNECTIONS'' 64)"

definition ingest_worker_configs :: "worker_config \<Rightarrow> nat \<Rightarrow> worker_setup_error + worker_config list" where
  "ingest_worker_configs base concurrency =
     (if concurrency = 1 then Inr [base]
      else collectR (map (\<lambda>i.
        bindR (map_errR Setup_id (worker_id_new (wc_worker_id base @ ''-'' @ dec (i + 1)))) (\<lambda>w.
        map_errR Setup_timing (worker_config_try_new w (wc_lease_duration base) (wc_heartbeat_interval base)
          (wc_idle_poll_interval base)))) [0..<concurrency]))"

definition run_ingest_workers :: "(worker_join \<times> bool) list \<Rightarrow> workers_failure + unit" where
  "run_ingest_workers joins = run_workers joins"

text \<open>The workers of the consolidated process, \<open>run_worker\<close>, up to the first connection for jobs.\<close>

definition ingest_workers :: "config_env \<Rightarrow> client_lib \<Rightarrow> string \<Rightarrow> setup_error + client \<times> worker_config list" where
  "ingest_workers env lib uuid =
     bindR (load_environment env) (\<lambda>mode.
     bindR (map_errR Setup_config (load_database_for_role env mode ''migrator'')) (\<lambda>_.
     bindR (map_errR Setup_config (load_database_for_role env mode ''ingest_writer'')) (\<lambda>_.
     bindR (load_tmdb_client env lib) (\<lambda>client.
     bindR (field_or env (parse_uint u64_max) ''TMDB_DAILY_EXPORT_MAX_BYTES'' (8 * 1024 * 1024 * 1024)) (\<lambda>bytes.
     bindR (guardR (0 < bytes \<and> bytes \<le> 8 * 1024 * 1024 * 1024) Setup_export_bytes) (\<lambda>_.
     bindR (ingest_worker_config env uuid ''tmdb-worker'') (\<lambda>base.
     bindR (load_ingest_worker_concurrency env) (\<lambda>n.
     bindR (map_errR Setup_worker (ingest_worker_configs base n)) (\<lambda>workers.
     Inr (client, workers))))))))))"

section \<open>The image worker\<close>

definition image_worker_config :: "config_env \<Rightarrow> string \<Rightarrow> string \<Rightarrow> setup_error + worker_config" where
  "image_worker_config env uuid default_id =
     bindR (case (case cf_get env ''TMDB_IMAGE_WORKER_ID'' of None \<Rightarrow> cf_get env ''TMDB_WORKER_ID'' | Some v \<Rightarrow> Some v) of
              Some v \<Rightarrow> field_text ''TMDB_WORKER_ID'' v
            | None \<Rightarrow> Inr (default_id @ ''-'' @ uuid)) (worker_timing env)"

definition load_image_worker_concurrency :: "config_env \<Rightarrow> setup_error + nat" where
  "load_image_worker_concurrency env =
     bindR (field_or env (parse_uint u64_max) ''TMDB_IMAGE_WORKER_CONCURRENCY'' 4) (\<lambda>n.
     if 1 \<le> n \<and> n \<le> 32 then Inr n else Inl Setup_concurrency)"

definition allowed_hosts :: "config_env \<Rightarrow> setup_error + string list" where
  "allowed_hosts env =
     (case cf_get env ''TMDB_IMAGE_ALLOWED_HOSTS'' of
        Some v \<Rightarrow> mapR (\<lambda>v. filter (\<lambda>h. h \<noteq> []) (map trim (split_on (CHR '','') v)))
                    (field_text ''TMDB_IMAGE_ALLOWED_HOSTS'' v)
      | None \<Rightarrow> Inr [''image.tmdb.org'', ''media.themoviedb.org''])"

definition load_downloader ::
    "config_env \<Rightarrow> (string \<Rightarrow> url option) \<Rightarrow> bool \<Rightarrow> setup_error + download_policy \<times> trawl_fallback option" where
  "load_downloader env parse transport_built =
     bindR (field_or env (parse_uint u64_max) ''TMDB_IMAGE_MAX_BYTES'' (20 * 1024 * 1024)) (\<lambda>max_bytes.
     bindR (field_or env (parse_uint u64_max) ''TMDB_IMAGE_MAX_REDIRECTS'' 3) (\<lambda>max_redirects.
     bindR (field_or env (parse_uint u64_max) ''TMDB_IMAGE_TIMEOUT_SECONDS'' 30) (\<lambda>timeout.
     bindR (allowed_hosts env) (\<lambda>hosts.
     bindR (map_errR (\<lambda>_. Setup_download_policy) (download_policy_new max_bytes max_redirects (from_secs timeout) hosts)) (\<lambda>p.
     bindR (guardR transport_built Setup_download_policy) (\<lambda>_.
     bindR (case cf_get env ''TMDB_TRAWL_BASE_URL'' of None \<Rightarrow> Inr None
            | Some v \<Rightarrow> mapR Some (field_text ''TMDB_TRAWL_BASE_URL'' v)) (\<lambda>v.
     case (case v of None \<Rightarrow> None | Some v \<Rightarrow> if trim v = [] then None else Some (trim v)) of
       None \<Rightarrow> Inr (p, None)
     | Some v \<Rightarrow>
         bindR (ok_or (Setup_invalid ''TMDB_TRAWL_BASE_URL'') (parse v)) (\<lambda>base.
         bindR (map_errR (\<lambda>_. Setup_invalid ''TMDB_TRAWL_BASE_URL'') (trawl_new base)) (\<lambda>fallback.
         Inr (p, Some fallback))))))))))"

definition coordinator_config_of :: "worker_config \<Rightarrow> coordinator_config" where
  "coordinator_config_of base =
     \<lparr>cc_worker_id = wc_worker_id base @ ''-requests'', cc_lease_duration = wc_lease_duration base,
       cc_idle_poll_interval = wc_idle_poll_interval base\<rparr>"

record image_setup =
  is_workers :: "worker_config list"
  is_coordinator :: coordinator_config
  is_policy :: download_policy
  is_fallback :: "trawl_fallback option"
  is_allow_local_media :: bool
  is_bind :: socket_address

text \<open>The start of the image worker, \<open>run\<close>, up to the connection of its pool, and its workers.\<close>

definition image_workers_setup :: "config_env \<Rightarrow> (string \<Rightarrow> url option) \<Rightarrow> bool \<Rightarrow> string \<Rightarrow> setup_error + image_setup" where
  "image_workers_setup env parse transport_built uuid =
     bindR (load_environment env) (\<lambda>mode.
     bindR (map_errR Setup_config (load_database_for_role env mode ''image_writer'')) (\<lambda>_.
     bindR (image_worker_config env uuid ''tmdb-images'') (\<lambda>base.
     bindR (load_image_worker_concurrency env) (\<lambda>n.
     bindR (map_errR (\<lambda>_. Setup_root) image_store_fixed) (\<lambda>_.
     bindR (load_downloader env parse transport_built) (\<lambda>(p, fallback).
     bindR (field_or env parse_bool ''ALLOW_LOCAL_MEDIA'' False) (\<lambda>allow.
     bindR (field_or env Some ''TMDB_MEDIA_BIND'' ''0.0.0.0:9002'') (\<lambda>bind.
     bindR (ok_or (Setup_invalid ''TMDB_MEDIA_BIND'') (cf_address env bind)) (\<lambda>address.
     bindR (map_errR Setup_worker (image_worker_configs base n)) (\<lambda>workers.
     Inr \<lparr>is_workers = workers, is_coordinator = coordinator_config_of base, is_policy = p, is_fallback = fallback,
       is_allow_local_media = allow, is_bind = address\<rparr>))))))))))"

section \<open>Workers start valid and distinct\<close>

lemma worker_id_exact: "worker_id_new s = Inr w \<Longrightarrow> w = s"
  by (auto simp: worker_id_new_def result_simps)

text \<open>A configuration whose worker stays in service: a valid identity and valid timing.\<close>

definition worker_ready :: "worker_config \<Rightarrow> bool" where
  "worker_ready cfg \<longleftrightarrow> worker_id_new (wc_worker_id cfg) = Inr (wc_worker_id cfg) \<and>
     worker_config_try_new (wc_worker_id cfg) (wc_lease_duration cfg) (wc_heartbeat_interval cfg)
       (wc_idle_poll_interval cfg) = Inr cfg"

lemma worker_config_fields:
  "worker_config_try_new w lease beat idle = Inr cfg \<Longrightarrow>
   cfg = \<lparr>wc_worker_id = w, wc_lease_duration = lease, wc_heartbeat_interval = beat, wc_idle_poll_interval = idle\<rparr>"
  by (auto simp: worker_config_try_new_def split: if_splits)

lemma worker_ready_new:
  assumes "worker_id_new s = Inr w" "worker_config_try_new w lease beat idle = Inr cfg"
  shows "worker_ready cfg"
  using assms worker_id_exact [OF assms(1)] worker_config_fields [OF assms(2)] by (simp add: worker_ready_def)

lemma worker_timing_ready: "worker_timing env s = Inr cfg \<Longrightarrow> worker_ready cfg \<and> wc_worker_id cfg = s"
  by (auto simp: worker_timing_def result_simps dest: worker_ready_new config_worker worker_id_exact)

lemma ingest_worker_configs_eq: "ingest_worker_configs = image_worker_configs"
  by (intro ext) (simp add: ingest_worker_configs_def image_worker_configs_def)

lemma worker_configs_ready:
  assumes "image_worker_configs base n = Inr cfgs" "worker_ready base"
  shows "list_all worker_ready cfgs"
proof (cases "n = 1")
  case False
  then have "collectR (map (\<lambda>i. bindR (map_errR Setup_id (worker_id_new (wc_worker_id base @ ''-'' @ dec (i + 1)))) (\<lambda>w.
      map_errR Setup_timing (worker_config_try_new w (wc_lease_duration base) (wc_heartbeat_interval base)
        (wc_idle_poll_interval base)))) [0..<n]) = Inr cfgs"
    using assms(1) by (simp add: image_worker_configs_def)
  then show ?thesis
    by (auto simp: collectR_Inr_iff list_all2_conv_all_nth list_all_length result_simps intro: worker_ready_new)
qed (use assms in \<open>auto simp: image_worker_configs_def\<close>)

lemma client_new_policy: "client_new lib base tok p = Inr c \<Longrightarrow> policy c = p"
  by (auto simp: client_new_def result_simps Let_def split: if_splits)

lemma field_or_set: "field_or env parse name fallback = Inr x \<Longrightarrow> cf_get env name = Some v \<Longrightarrow> parse v = Some x"
  by (auto simp: field_or_def result_simps field_text_def split: if_splits)

lemma field_or_unset [simp]: "cf_get env name = None \<Longrightarrow> field_or env parse name fallback = Inr fallback"
  by (simp add: field_or_def)

lemma load_tmdb_client_policy:
  assumes "load_tmdb_client env lib = Inr c"
  shows "wf_retry (policy c) \<and> field_or env (parse_uint u32_max) ''TMDB_MAX_CONNECTIONS'' 20 = Inr (max_concurrency (rate_limit (policy c)))"
proof -
  obtain rate conc attempts timeout limit p base token where parts:
      "field_or env (parse_uint u32_max) ''TMDB_MAX_CONNECTIONS'' 20 = Inr conc"
      "rate_limit_try_new rate conc = Inr limit"
      "retry_try_new attempts limit (from_secs timeout) (from_millis 250) (from_secs 15) (16 * 1024 * 1024) = Inr p"
      "client_new lib base token p = Inr c"
    using assms by (auto simp: load_tmdb_client_def result_simps)
  have limit: "wf_rate_limit limit" "max_concurrency limit = conc"
    using parts(2) by (auto simp: rate_limit_try_new_def wf_rate_limit_def split: if_splits)
  have p: "rate_limit p = limit" "wf_retry p"
    using parts(3) limit(1)
    by (auto simp: retry_try_new_def wf_retry_def from_millis_def from_secs_def duration_max_def split: if_splits)
  show ?thesis using parts(1) limit(2) p client_new_policy [OF parts(4)] by simp
qed

section \<open>A long identity\<close>

lemma claim_with_long_id:
  assumes "char_count (cc_worker_id cfg) > 128"
  shows "snd (claim_request env cfg site) = site \<and> (\<exists>e. fst (claim_request env cfg site) = Inl e \<or> fst (claim_request env cfg site) = Inr None)"
proof -
  have "claim_media_request enabled now locked incomplete (cc_worker_id cfg) lease db = (None, db)" for enabled now locked incomplete lease db
    using assms by (simp add: claim_media_request_def)
  then show ?thesis by (simp add: claim_request_def Let_def split: delivery.splits)
qed

lemma round_with_long_id:
  assumes "char_count (cc_worker_id cfg) > 128"
  shows "snd (coordinator_round env cfg site) = site"
proof -
  obtain claim claimed where c: "claim_request env cfg site = (claim, claimed)" by (cases "claim_request env cfg site")
  then have "claimed = site" "(\<exists>e. claim = Inl e) \<or> claim = Inr None"
    using claim_with_long_id [OF assms, of env site] by auto
  then show ?thesis using c by (auto simp: coordinator_round_def)
qed

lemma run_with_long_id:
  assumes "char_count (cc_worker_id cfg) > 128"
  shows "snd (coordinator_run cfg envs site) = site"
proof (induction envs)
  case (Cons env envs)
  obtain stop s where "coordinator_round env cfg site = (stop, s)" by (cases "coordinator_round env cfg site")
  then show ?case using round_with_long_id [OF assms, of env site] Cons.IH by (cases stop) simp_all
qed simp

section \<open>Properties\<close>

text \<open>C36: The ingest process starts workers that can run: between one and 64, each with a valid identity and timing,
  no two with the same identity, and a client whose policy is within the documented limits. With
  \<open>TMDB_MAX_CONNECTIONS\<close> set there are as many as the client has permits, at most 64; without it there are 64 workers for a
  client of 20 permits.\<close>

theorem ingest_workers_valid:
  assumes "ingest_workers env lib uuid = Inr (client, workers)"
  shows "1 \<le> length workers \<and> length workers \<le> 64 \<and> list_all worker_ready workers \<and> distinct (map wc_worker_id workers) \<and>
    wf_retry (policy client) \<and>
    (case cf_get env ''TMDB_MAX_CONNECTIONS'' of
       Some _ \<Rightarrow> length workers = min (max_concurrency (rate_limit (policy client))) 64
     | None \<Rightarrow> length workers = 64 \<and> max_concurrency (rate_limit (policy client)) = 20)"
proof -
  obtain base n where parts: "load_tmdb_client env lib = Inr client" "ingest_worker_config env uuid ''tmdb-worker'' = Inr base"
      "load_ingest_worker_concurrency env = Inr n" "image_worker_configs base n = Inr workers"
    using assms by (auto simp: ingest_workers_def result_simps ingest_worker_configs_eq)
  have base: "worker_ready base" using parts(2) by (auto simp: ingest_worker_config_def result_simps dest: worker_timing_ready)
  note ids = image_worker_ids_distinct [OF parts(4)] and policy = load_tmdb_client_policy [OF parts(1)]
  obtain m where m: "field_or env (parse_uint u32_max) ''TMDB_MAX_CONNECTIONS'' 64 = Inr m" "n = max 1 (min m 64)"
    using parts(3) by (auto simp: load_ingest_worker_concurrency_def result_simps max_ingest_worker_concurrency_def)
  have "(case cf_get env ''TMDB_MAX_CONNECTIONS'' of
       Some _ \<Rightarrow> n = min (max_concurrency (rate_limit (policy client))) 64
     | None \<Rightarrow> n = 64 \<and> max_concurrency (rate_limit (policy client)) = 20)"
  proof (cases "cf_get env ''TMDB_MAX_CONNECTIONS''")
    case None
    then show ?thesis using m policy by simp
  next
    case (Some v)
    then have "m = max_concurrency (rate_limit (policy client))"
      using field_or_set [OF m(1) Some] field_or_set [OF conjunct2 [OF policy] Some] by simp
    then show ?thesis using Some m(2) policy by (simp add: wf_retry_def wf_rate_limit_def)
  qed
  then show ?thesis using ids m(2) policy worker_configs_ready [OF parts(4) base] by (simp split: option.splits)
qed

text \<open>C37: A worker identity that is valid but longer than 119 characters silently switches the on-demand requests off: the
  coordinator appends \<open>-requests\<close>, \<open>claim_media_request\<close> answers an identity of more than 128 characters with no
  row, and whatever the loop does, nothing in the database or on disk ever changes.\<close>

theorem long_worker_id_starves_requests:
  assumes "image_workers_setup env parse built uuid = Inr s"
    and "cf_get env ''TMDB_IMAGE_WORKER_ID'' = Some w" "char_count w > 119"
  shows "snd (coordinator_run (is_coordinator s) envs site) = site"
proof -
  obtain base where base: "image_worker_config env uuid ''tmdb-images'' = Inr base" "is_coordinator s = coordinator_config_of base"
    using assms(1) by (auto simp: image_workers_setup_def result_simps)
  then have "wc_worker_id base = w"
    using assms(2) worker_timing_ready by (auto simp: image_worker_config_def result_simps field_text_def split: if_splits)
  then have "char_count (cc_worker_id (is_coordinator s)) > 128"
    using base(2) assms(3) by (simp add: coordinator_config_of_def char_count_append) (simp add: char_count_def is_cont_def)
  then show ?thesis by (rule run_with_long_id)
qed

section \<open>Concrete runs\<close>

definition demo_runtime_env :: config_env where
  "demo_runtime_env =
     \<lparr>cf_get = map_of [(''TMDB_ENVIRONMENT'', ''production''), (''POSTGRES_DB'', ''tmdb''), (''POSTGRES_USER'', ''owner''),
        (''POSTGRES_PASSWORD'', ''hunter''), (''TMDB_API_BASE_URL'', ''u''), (''TMDB_READ_ACCESS_TOKEN'', ''t''),
        (''TMDB_MAX_CONNECTIONS'', ''1''), (''TMDB_WORKER_ID'', ''w''), (''TMDB_IMAGE_WORKER_CONCURRENCY'', ''1''),
        (''TMDB_IMAGE_WORKER_ID'', replicate 120 (CHR ''w''))],
      cf_file = (\<lambda>p. None), cf_address = (\<lambda>s. Some (Socket [0, 0, 0, 0] 9002)), cf_uri = (\<lambda>s. None)\<rparr>"

lemma demo_runtime_fields:
  "cf_get demo_runtime_env ''TMDB_ENVIRONMENT'' = Some ''production''" "cf_get demo_runtime_env ''TMDB_API_BASE_URL'' = Some ''u''"
  "cf_get demo_runtime_env ''TMDB_MAX_CONNECTIONS'' = Some ''1''" "cf_get demo_runtime_env ''TMDB_WORKER_ID'' = Some ''w''"
  "cf_get demo_runtime_env ''TMDB_IMAGE_WORKER_CONCURRENCY'' = Some ''1''"
  "cf_get demo_runtime_env ''TMDB_IMAGE_WORKER_ID'' = Some (replicate 120 (CHR ''w''))"
  "cf_get demo_runtime_env ''TMDB_RATE_LIMIT'' = None" "cf_get demo_runtime_env ''TMDB_MAX_ATTEMPTS'' = None"
  "cf_get demo_runtime_env ''TMDB_REQUEST_TIMEOUT_SECONDS'' = None" "cf_get demo_runtime_env ''TMDB_WORKER_LEASE_SECONDS'' = None"
  "cf_get demo_runtime_env ''TMDB_WORKER_HEARTBEAT_SECONDS'' = None" "cf_get demo_runtime_env ''TMDB_WORKER_IDLE_POLL_MS'' = None"
  "cf_get demo_runtime_env ''TMDB_DAILY_EXPORT_MAX_BYTES'' = None" "cf_get demo_runtime_env ''TMDB_IMAGE_MAX_BYTES'' = None"
  "cf_get demo_runtime_env ''TMDB_IMAGE_MAX_REDIRECTS'' = None" "cf_get demo_runtime_env ''TMDB_IMAGE_TIMEOUT_SECONDS'' = None"
  "cf_get demo_runtime_env ''TMDB_IMAGE_ALLOWED_HOSTS'' = None" "cf_get demo_runtime_env ''TMDB_TRAWL_BASE_URL'' = None"
  "cf_get demo_runtime_env ''ALLOW_LOCAL_MEDIA'' = None" "cf_get demo_runtime_env ''TMDB_MEDIA_BIND'' = None"
  "cf_address demo_runtime_env s = Some (Socket [0, 0, 0, 0] 9002)"
  by (simp_all add: demo_runtime_env_def)

lemma demo_runtime_texts:
  "utf8_valid ''1''" "utf8_valid ''w''" "utf8_valid ''u''" "utf8_valid ''production''" "parse_digits ''1'' = Some 1"
  "environment_from_str ''production'' = Some Production" "utf8_valid (replicate 120 (CHR ''w''))"
  "is_ok (load_shared_database demo_runtime_env Production)" "load_secret demo_runtime_env ''TMDB_READ_ACCESS_TOKEN'' = Inr ''t''"
  "image_store_fixed = Inr ''/media''" "list_ex host_rejected [''image.tmdb.org'', ''media.themoviedb.org''] = False"
  by code_simp+

lemma demo_field_one: "parse_uint m ''1'' = (if 1 \<le> m then Some 1 else None)"
  by (simp add: parse_uint_def demo_runtime_texts(5))

lemma demo_worker_timing:
  assumes "worker_id_new w = Inr w"
  shows "worker_timing demo_runtime_env w = Inr \<lparr>wc_worker_id = w, wc_lease_duration = from_secs 60,
     wc_heartbeat_interval = from_secs 15, wc_idle_poll_interval = from_millis 500\<rparr>"
  using assms
  by (simp add: worker_timing_def demo_runtime_fields result_simps worker_config_try_new_def from_secs_def from_millis_def
      max_lease_duration_def)

lemma demo_databases: "is_ok (load_database_for_role demo_runtime_env Production role)"
  using demo_runtime_texts(8) by (auto simp: load_database_for_role_def is_ok_iff result_simps)

lemma demo_client: "is_ok (load_tmdb_client demo_runtime_env demo_lib)"
  by (simp add: load_tmdb_client_def field_required_def demo_runtime_fields demo_runtime_texts field_text_def field_or_def
      demo_field_one result_simps rate_limit_try_new_def max_documented_requests_per_second_def retry_try_new_def
      from_secs_def from_millis_def client_new_def demo_lib_def demo_url_def usable_url_def Let_def is_ok_iff)

theorem ingest_workers_valid_witness:
  "\<exists>c ws. ingest_workers demo_runtime_env demo_lib ''0'' = Inr (c, ws) \<and> length ws = min (max_concurrency (rate_limit (policy c))) 64 \<and>
     distinct (map wc_worker_id ws)"
proof -
  have w: "worker_id_new ''w'' = Inr ''w''" by (rule demo_config_ok(1))
  obtain c where c: "load_tmdb_client demo_runtime_env demo_lib = Inr c" using demo_client by (auto simp: is_ok_iff)
  obtain d1 d2 where d: "load_database_for_role demo_runtime_env Production ''migrator'' = Inr d1"
      "load_database_for_role demo_runtime_env Production ''ingest_writer'' = Inr d2"
    using demo_databases by (meson is_ok_iff)
  obtain ws where run: "ingest_workers demo_runtime_env demo_lib ''0'' = Inr (c, ws)"
    using c d demo_worker_timing [OF w]
    by (simp add: ingest_workers_def load_environment_def field_required_def demo_runtime_fields demo_runtime_texts field_text_def
        result_simps ingest_worker_config_def load_ingest_worker_concurrency_def field_or_def demo_field_one
        max_ingest_worker_concurrency_def ingest_worker_configs_def)
  show ?thesis using ingest_workers_valid [OF run] run by (simp add: demo_runtime_fields)
qed

lemma demo_long_id: "worker_id_new (replicate 120 (CHR ''w'')) = Inr (replicate 120 (CHR ''w''))"
  by (simp add: worker_id_new_def max_worker_id_chars_def)
    (subst validate_text_graphic; simp add: list_all_iff graphic_def)

lemma demo_image_setup: "is_ok (image_workers_setup demo_runtime_env (\<lambda>s. None) True ''0'')"
proof -
  obtain d where d: "load_database_for_role demo_runtime_env Production ''image_writer'' = Inr d"
    using demo_databases by (meson is_ok_iff)
  have downloader: "\<exists>p. load_downloader demo_runtime_env (\<lambda>s. None) True = Inr (p, None)"
    using demo_runtime_texts(11)
    by (simp add: load_downloader_def demo_runtime_fields result_simps allowed_hosts_def download_policy_new_def from_secs_def
        lower_char_def is_upper_def guardR_def Let_def)
  then show ?thesis
    using d demo_worker_timing [OF demo_long_id]
    by (auto simp: image_workers_setup_def load_environment_def field_required_def demo_runtime_fields demo_runtime_texts field_text_def
        result_simps image_worker_config_def load_image_worker_concurrency_def field_or_def demo_field_one
        image_worker_configs_def is_ok_iff)
qed

theorem long_worker_id_starves_requests_witness:
  "\<exists>s. image_workers_setup demo_runtime_env (\<lambda>s. None) True ''0'' = Inr s \<and>
     (\<forall>envs. snd (coordinator_run (is_coordinator s) envs (demo_coordinator_site demo_running_request)) = demo_coordinator_site demo_running_request)"
proof -
  obtain s where s: "image_workers_setup demo_runtime_env (\<lambda>s. None) True ''0'' = Inr s"
    using demo_image_setup by (auto simp: is_ok_iff)
  have "char_count (replicate 120 (CHR ''w'')) > 119" by (simp add: char_count_def is_cont_def)
  then show ?thesis using long_worker_id_starves_requests [OF s demo_runtime_fields(6)] s by blast
qed

end
