(* ===== verification/Scheduler.thy ===== *)
theory Scheduler
  imports Catalog_Start Runtime_Config
begin

text \<open>
  The catalog scheduler, \<open>src/apps/tmdb-ingest/src/scheduler.rs\<close>, with the table \<open>ops.catalog_schedule_slots\<close> and
  \<open>ops.submit_scheduled_catalog_scan\<close> of \<open>0052_on_demand_media_requests.sql\<close>. The rules of a time zone
  (\<open>chrono-tz\<close>) and cron expressions (\<open>croner\<close>) are arguments: a zone gives its offset at an instant and the instant
  of a local time that occurs exactly once; an expression is a test of zoned times. Every call to the database may
  fail or lose its reply, and other sessions may act before it. Instants are nanoseconds in the process and
  microseconds in the database.
\<close>

section \<open>Zoned times\<close>

record zoned =
  z_utc :: int
  z_offset :: int

record tz_rules =
  tz_offset :: "int \<Rightarrow> int"
  tz_single :: "int \<Rightarrow> int option"

abbreviation ns_per_second :: int where "ns_per_second \<equiv> 1000000000"

definition naive_local :: "zoned \<Rightarrow> int" where
  "naive_local z = z_utc z + z_offset z * ns_per_second"

definition with_timezone :: "tz_rules \<Rightarrow> int \<Rightarrow> zoned" where
  "with_timezone tz u = \<lparr>z_utc = u, z_offset = tz_offset tz u\<rparr>"

text \<open>\<open>with_second\<close> and \<open>with_nanosecond\<close> answer \<open>None\<close> when the changed local time is ambiguous or does not exist.\<close>

definition with_second_0 :: "tz_rules \<Rightarrow> zoned \<Rightarrow> zoned option" where
  "with_second_0 tz z =
     (let l = naive_local z
      in map_option (with_timezone tz) (tz_single tz (l - l div ns_per_second mod 60 * ns_per_second)))"

definition with_nanosecond_0 :: "tz_rules \<Rightarrow> zoned \<Rightarrow> zoned option" where
  "with_nanosecond_0 tz z =
     (let l = naive_local z in map_option (with_timezone tz) (tz_single tz (l - l mod ns_per_second)))"

definition minute_slot :: "tz_rules \<Rightarrow> zoned \<Rightarrow> zoned" where
  "minute_slot tz z =
     (case Option.bind (with_second_0 tz z) (with_nanosecond_0 tz) of Some v \<Rightarrow> v | None \<Rightarrow> z)"

definition date_naive :: "zoned \<Rightarrow> int" where
  "date_naive z = naive_local z div (86400 * ns_per_second)"

section \<open>Configuration\<close>

type_synonym cron = "zoned \<Rightarrow> unit + bool"

record catalog_schedule =
  cs_mode :: string
  cs_expression :: string
  cs_cron :: cron

record scheduler_config =
  sc_timezone :: tz_rules
  sc_schedules :: "catalog_schedule list"

definition scheduler_is_empty :: "scheduler_config \<Rightarrow> bool" where
  "scheduler_is_empty c \<longleftrightarrow> sc_schedules c = []"

text \<open>\<open>split_ascii_whitespace().count()\<close>: the number of maximal runs of other characters.\<close>

fun count_words :: "bool \<Rightarrow> string \<Rightarrow> nat" where
  "count_words inside [] = 0"
| "count_words inside (c # cs) =
     (if is_ascii_whitespace c then count_words False cs
      else (if inside then 0 else 1) + count_words True cs)"

fun load_schedules ::
    "(string \<Rightarrow> cron option) \<Rightarrow> (string \<times> string) list \<Rightarrow> setup_error + catalog_schedule list" where
  "load_schedules parse_cron [] = Inr []"
| "load_schedules parse_cron ((mode, expression) # rest) =
     (let e = trim expression
      in if e = [] then load_schedules parse_cron rest
         else if count_words False e \<noteq> 5 then Inl (Setup_invalid mode)
         else bindR (ok_or (Setup_invalid mode) (parse_cron e)) (\<lambda>c.
              mapR (Cons \<lparr>cs_mode = mode, cs_expression = e, cs_cron = c\<rparr>) (load_schedules parse_cron rest)))"

definition catalog_scheduler_config_new ::
    "(string \<Rightarrow> tz_rules option) \<Rightarrow> (string \<Rightarrow> cron option) \<Rightarrow> string \<Rightarrow> string \<Rightarrow> string \<Rightarrow> string \<Rightarrow>
     setup_error + scheduler_config" where
  "catalog_scheduler_config_new parse_tz parse_cron timezone daily_sync missing_only reconcile =
     bindR (ok_or (Setup_invalid ''TZ'') (parse_tz timezone)) (\<lambda>tz.
     mapR (\<lambda>ss. \<lparr>sc_timezone = tz, sc_schedules = ss\<rparr>)
       (load_schedules parse_cron
         [(''daily_sync'', daily_sync), (''missing_only'', missing_only), (''reconcile'', reconcile)]))"

definition load_catalog_scheduler_config ::
    "(string \<Rightarrow> tz_rules option) \<Rightarrow> (string \<Rightarrow> cron option) \<Rightarrow> config_env \<Rightarrow> setup_error + scheduler_config" where
  "load_catalog_scheduler_config parse_tz parse_cron env =
     bindR (field_optional_or env ''TZ'' ''UTC'') (\<lambda>tz.
     bindR (field_optional_or env ''TMDB_DAILY_SYNC_CRON'' ''0 * * * *'') (\<lambda>d.
     bindR (field_optional_or env ''TMDB_MISSING_ONLY_CRON'' ''0 3 * * *'') (\<lambda>m.
     bindR (field_optional_or env ''TMDB_RECONCILE_CRON'' ''0 4 1,15 * *'') (\<lambda>r.
     catalog_scheduler_config_new parse_tz parse_cron tz d m r))))"

section \<open>Slots\<close>

record sched_slot =
  ss_mode :: string
  ss_at :: int
  ss_job :: "nat option"
  ss_outcome :: string
  ss_start :: "int option"
  ss_end :: "int option"

record sched_world =
  sw_slots :: "sched_slot list"
  sw_queue :: job_queue
  sw_sync :: "string \<Rightarrow> sync_row option"

text \<open>The \<open>k\<close>-th call of a tick has its own reply, clock and generated identifier; \<open>others\<close> is what other sessions commit
  before it. \<open>jsonb_text\<close> and \<open>instant_text\<close> are the casts of the database to text.\<close>

record sched_env = repo_env +
  sched_lib :: ingest_lib
  jsonb_text :: "json \<Rightarrow> string"
  instant_text :: "int \<Rightarrow> string"
  others :: "nat \<Rightarrow> sched_world \<Rightarrow> sched_world"

definition slot_is :: "string \<Rightarrow> int \<Rightarrow> sched_slot \<Rightarrow> bool" where
  "slot_is mode at s \<longleftrightarrow> ss_mode s = mode \<and> ss_at s = at"

text \<open>\<open>INSERT ... ON CONFLICT (mode, scheduled_for) DO UPDATE SET outcome, job_id\<close>.\<close>

definition put_slot ::
    "string \<Rightarrow> int \<Rightarrow> nat option \<Rightarrow> string \<Rightarrow> int option \<Rightarrow> int option \<Rightarrow> sched_slot list \<Rightarrow> sched_slot list" where
  "put_slot mode at job result a b slots =
     (if list_ex (slot_is mode at) slots
      then map (\<lambda>s. if slot_is mode at s then s\<lparr>ss_job := job, ss_outcome := result\<rparr> else s) slots
      else slots @ [\<lparr>ss_mode = mode, ss_at = at, ss_job = job, ss_outcome = result, ss_start = a, ss_end = b\<rparr>])"

definition schedule_rejected :: "string \<Rightarrow> int \<Rightarrow> int option \<Rightarrow> int option \<Rightarrow> bool" where
  "schedule_rejected mode at a b \<longleftrightarrow>
     mode \<notin> {''daily_sync'', ''missing_only'', ''reconcile''} \<or>
     at mod 60000000 \<noteq> 0 \<or>
     (mode = ''daily_sync'' \<and> (case (a, b) of (Some s, Some e) \<Rightarrow> s > e \<or> e - s > 13 | _ \<Rightarrow> True)) \<or>
     (mode \<noteq> ''daily_sync'' \<and> (a \<noteq> None \<or> b \<noteq> None))"

definition catalog_busy :: "job_queue \<Rightarrow> bool" where
  "catalog_busy q \<longleftrightarrow>
     list_ex (\<lambda>r. active (jr_status r) \<and> (jr_type r = ''admin.scan'' \<or> prefix ''ingest.'' (jr_type r))) (q_rows q)"

text \<open>The payload, with its members in the order \<open>jsonb\<close> keeps them.\<close>

definition scheduled_payload :: "ingest_lib \<Rightarrow> string \<Rightarrow> int option \<Rightarrow> int option \<Rightarrow> json" where
  "scheduled_payload lib mode a b =
     (let media = JArr [JStr ''movie'', JStr ''tv'']
      in if mode = ''daily_sync''
         then JObj [(''mode'', JStr mode), (''windowEnd'', date_json lib b), (''mediaTypes'', media),
                    (''windowStart'', date_json lib a)]
         else JObj [(''mode'', JStr mode), (''mediaTypes'', media)])"

record scheduled_submission =
  su_job_id :: "nat option"
  su_outcome :: string
  su_full_sweep_required :: bool

text \<open>The part of the function behind the answers for a slot that is settled.\<close>

definition submit_open_slot ::
    "sched_env \<Rightarrow> nat \<Rightarrow> string \<Rightarrow> int \<Rightarrow> int option \<Rightarrow> int option \<Rightarrow> sched_world \<Rightarrow>
     (string + scheduled_submission) \<times> sched_world" where
  "submit_open_slot env k mode at a b w =
     (let put = (\<lambda>job result. put_slot mode at job result a b (sw_slots w))
      in if mode = ''daily_sync'' \<and> (case sw_sync w mode of Some r \<Rightarrow> sweep_required r | None \<Rightarrow> False)
         then (Inr \<lparr>su_job_id = None, su_outcome = ''full_sweep_required'', su_full_sweep_required = True\<rparr>,
               w\<lparr>sw_slots := put None ''full_sweep_required''\<rparr>)
         else if catalog_busy (sw_queue w)
         then (Inr \<lparr>su_job_id = None, su_outcome = ''pending'', su_full_sweep_required = False\<rparr>,
               w\<lparr>sw_slots := put None ''pending''\<rparr>)
         else case submit_job (registry env) (to_jsonb env) (year_of env) (clock env k) (fresh_id env k) ''admin.scan'' 1
                     (jsonb_text env (scheduled_payload (sched_lib env) mode a b)) 100 100 None
                     (''catalog-schedule:'' @ mode @ '':'' @ instant_text env at) (sw_queue w) of
             (Inl e, _) \<Rightarrow> (Inl e, w)
           | (Inr (job, _), q) \<Rightarrow>
               (Inr \<lparr>su_job_id = Some job, su_outcome = ''submitted'', su_full_sweep_required = False\<rparr>,
                w\<lparr>sw_slots := put (Some job) ''submitted'', sw_queue := q\<rparr>))"

definition submit_scheduled_catalog_scan ::
    "sched_env \<Rightarrow> nat \<Rightarrow> string \<Rightarrow> int \<Rightarrow> int option \<Rightarrow> int option \<Rightarrow> sched_world \<Rightarrow>
     (string + scheduled_submission) \<times> sched_world" where
  "submit_scheduled_catalog_scan env k mode at a b w =
     (if schedule_rejected mode at a b then (Inl ''22023'', w)
      else case find (slot_is mode at) (sw_slots w) of
        None \<Rightarrow> submit_open_slot env k mode at a b w
      | Some s \<Rightarrow>
          if ss_start s \<noteq> a \<or> ss_end s \<noteq> b then (Inl ''P0003'', w)
          else if ss_outcome s \<noteq> ''pending''
          then (Inr \<lparr>su_job_id = ss_job s, su_outcome = ss_outcome s,
                     su_full_sweep_required = (ss_outcome s = ''full_sweep_required'')\<rparr>, w)
          else submit_open_slot env k mode at a b w)"

section \<open>The process\<close>

type_synonym sched_state = "nat \<times> sched_world"

datatype submission_origin = CurrentSlot | PendingRetry

datatype sched_event =
    Slot_logged bool string int scheduled_submission
  | Submission_failed string
  | Pending_read_failed
  | Evaluation_failed string string

definition sched_call ::
    "sched_env \<Rightarrow> (nat \<Rightarrow> sched_world \<Rightarrow> (string + 'a) \<times> sched_world) \<Rightarrow> sched_state \<Rightarrow>
     (string option + 'a) \<times> sched_state" where
  "sched_call env f s =
     (case s of (k, w) \<Rightarrow>
      case db_call (network env k) (f k) (others env k w) of (r, w') \<Rightarrow> (r, (Suc k, w')))"

definition is_unchanged_pending_retry :: "submission_origin \<Rightarrow> string \<Rightarrow> bool" where
  "is_unchanged_pending_retry origin result \<longleftrightarrow> origin = PendingRetry \<and> result = ''pending''"

text \<open>The event is at debug level when the flag is set, at info level otherwise.\<close>

definition submit_database_slot ::
    "sched_env \<Rightarrow> string \<Rightarrow> int \<Rightarrow> int option \<Rightarrow> int option \<Rightarrow> submission_origin \<Rightarrow> sched_state \<Rightarrow>
     sched_event \<times> sched_state" where
  "submit_database_slot env mode at a b origin s =
     (case sched_call env (\<lambda>k. submit_scheduled_catalog_scan env k mode at a b) s of
        (Inr r, s') \<Rightarrow> (Slot_logged (is_unchanged_pending_retry origin (su_outcome r)) mode at r, s')
      | (Inl _, s') \<Rightarrow> (Submission_failed mode, s'))"

definition mark_full_sweep_required :: "sched_env \<Rightarrow> sched_state \<Rightarrow> (unit + unit) \<times> sched_state" where
  "mark_full_sweep_required env s =
     (case sched_call env (\<lambda>k w. case mark_catalog_full_sweep_required (sw_sync w) of
                                  (r, sync) \<Rightarrow> (r, w\<lparr>sw_sync := sync\<rparr>)) s of
        (Inr _, s') \<Rightarrow> (Inr (), s') | (Inl _, s') \<Rightarrow> (Inl (), s'))"

definition daily_window :: "sched_env \<Rightarrow> int \<Rightarrow> sched_state \<Rightarrow> (unit + int \<times> int) \<times> sched_state" where
  "daily_window env day s =
     (case sched_call env (\<lambda>k w. (Inr (sw_sync w ''daily_sync''), w)) s of
        (Inl _, s') \<Rightarrow> (Inl (), s')
      | (Inr None, s') \<Rightarrow> (Inl (), s')
      | (Inr (Some state), s') \<Rightarrow>
          let sweep = (case mark_full_sweep_required env s' of (r, s2) \<Rightarrow> (mapR (\<lambda>_. (day, day)) r, s2))
          in if sweep_required state then (Inr (day, day), s')
             else case sync_end state of
               None \<Rightarrow> sweep
             | Some start \<Rightarrow> if day - start > 13 then sweep else (Inr (start, day), s'))"

definition submit_slot :: "sched_env \<Rightarrow> catalog_schedule \<Rightarrow> zoned \<Rightarrow> sched_state \<Rightarrow> sched_event \<times> sched_state" where
  "submit_slot env c slot s =
     (let at = z_utc slot div 1000
      in if cs_mode c = ''daily_sync''
         then case daily_window env (date_naive slot) s of
             (Inl _, s') \<Rightarrow> (Submission_failed (cs_mode c), s')
           | (Inr (a, b), s') \<Rightarrow> submit_database_slot env (cs_mode c) at (Some a) (Some b) CurrentSlot s'
         else submit_database_slot env (cs_mode c) at None None CurrentSlot s)"

text \<open>\<open>ORDER BY scheduled_for, mode LIMIT 10\<close>; \<open>sort_key\<close> is stable.\<close>

definition mode_rank :: "string \<Rightarrow> nat" where
  "mode_rank mode = (if mode = ''daily_sync'' then 0 else if mode = ''missing_only'' then 1 else 2)"

definition pending_slots :: "sched_slot list \<Rightarrow> sched_slot list" where
  "pending_slots slots =
     take 10 (sort_key ss_at (sort_key (\<lambda>s. mode_rank (ss_mode s)) (filter (\<lambda>s. ss_outcome s = ''pending'') slots)))"

fun retry_rows :: "sched_env \<Rightarrow> sched_slot list \<Rightarrow> sched_state \<Rightarrow> sched_event list \<times> sched_state" where
  "retry_rows env [] s = ([], s)"
| "retry_rows env (r # rs) s =
     (case submit_database_slot env (ss_mode r) (ss_at r) (ss_start r) (ss_end r) PendingRetry s of
        (e, s') \<Rightarrow> (case retry_rows env rs s' of (es, s2) \<Rightarrow> (e # es, s2)))"

definition retry_pending_slots :: "sched_env \<Rightarrow> sched_state \<Rightarrow> sched_event list \<times> sched_state" where
  "retry_pending_slots env s =
     (case sched_call env (\<lambda>k w. (Inr (pending_slots (sw_slots w)), w)) s of
        (Inl _, s') \<Rightarrow> ([Pending_read_failed], s')
      | (Inr rows, s') \<Rightarrow> retry_rows env rows s')"

fun run_schedules :: "sched_env \<Rightarrow> zoned \<Rightarrow> catalog_schedule list \<Rightarrow> sched_state \<Rightarrow> sched_event list \<times> sched_state" where
  "run_schedules env slot [] s = ([], s)"
| "run_schedules env slot (c # cs) s =
     (let (es, s') = (case cs_cron c slot of
            Inr True \<Rightarrow> (case submit_slot env c slot s of (e, s1) \<Rightarrow> ([e], s1))
          | Inr False \<Rightarrow> ([], s)
          | Inl _ \<Rightarrow> ([Evaluation_failed (cs_mode c) (cs_expression c)], s));
          (es2, s2) = run_schedules env slot cs s'
      in (es @ es2, s2))"

text \<open>One tick of the interval in \<open>run\<close>; \<open>now\<close> is the clock after the retries.\<close>

definition scheduler_tick ::
    "scheduler_config \<Rightarrow> sched_env \<Rightarrow> int \<Rightarrow> sched_world \<Rightarrow> sched_event list \<times> sched_world" where
  "scheduler_tick c env now w =
     (let (es, s) = retry_pending_slots env (0, w);
          slot = minute_slot (sc_timezone c) (with_timezone (sc_timezone c) now);
          (es2, s2) = run_schedules env slot (sc_schedules c) s
      in (es @ es2, snd s2))"

text \<open>\<open>run\<close> until its cancellation, one environment and clock for each tick.\<close>

fun scheduler_run ::
    "scheduler_config \<Rightarrow> (sched_env \<times> int) list \<Rightarrow> sched_world \<Rightarrow> sched_event list \<times> sched_world" where
  "scheduler_run c [] w = ([], w)"
| "scheduler_run c ((env, now) # ticks) w =
     (case scheduler_tick c env now w of (es, w') \<Rightarrow>
      case scheduler_run c ticks w' of (es2, w2) \<Rightarrow> (es @ es2, w2))"

section \<open>Slots of a table\<close>

abbreviation slot_key :: "sched_slot \<Rightarrow> string \<times> int" where
  "slot_key s \<equiv> (ss_mode s, ss_at s)"

text \<open>The checks of the table, and that a slot names a job exactly when it is submitted.\<close>

definition slot_ok :: "sched_slot \<Rightarrow> bool" where
  "slot_ok s \<longleftrightarrow>
     \<not> schedule_rejected (ss_mode s) (ss_at s) (ss_start s) (ss_end s) \<and>
     ss_outcome s \<in> {''submitted'', ''pending'', ''full_sweep_required''} \<and>
     (ss_outcome s = ''submitted'' \<longleftrightarrow> ss_job s \<noteq> None)"

definition slots_ok :: "sched_slot list \<Rightarrow> bool" where
  "slots_ok slots \<longleftrightarrow> distinct (map slot_key slots) \<and> list_all slot_ok slots"

definition settled :: "sched_slot list \<Rightarrow> sched_slot set" where
  "settled slots = {s \<in> set slots. ss_outcome s \<noteq> ''pending''}"

lemma slot_is_key: "slot_is mode at s \<longleftrightarrow> slot_key s = (mode, at)"
  by (simp add: slot_is_def)

lemma find_slot:
  "distinct (map slot_key slots) \<Longrightarrow> s \<in> set slots \<Longrightarrow> slot_is mode at s \<Longrightarrow> find (slot_is mode at) slots = Some s"
proof (induction slots)
  case (Cons x xs)
  show ?case
  proof (cases "slot_is mode at x")
    case True
    have "slot_key s \<notin> slot_key ` set xs" using True Cons.prems(1,3) by (simp add: slot_is_key)
    then have "s = x" using Cons.prems(2) by auto
    then show ?thesis using True by simp
  next
    case False
    then show ?thesis using Cons.IH Cons.prems by auto
  qed
qed simp

lemma find_slot_None: "find (slot_is mode at) slots = None \<longleftrightarrow> \<not> list_ex (slot_is mode at) slots"
  by (auto simp: find_None_iff list_ex_iff)

lemma find_slot_Some:
  "find (slot_is mode at) slots = Some s \<Longrightarrow> s \<in> set slots \<and> slot_is mode at s"
  by (auto simp: find_Some_iff)

lemma put_slot_keys:
  "map slot_key (put_slot mode at job result a b slots) =
     (if list_ex (slot_is mode at) slots then map slot_key slots else map slot_key slots @ [(mode, at)])"
  by (auto simp: put_slot_def slot_is_def)

lemma put_slot_distinct:
  "distinct (map slot_key slots) \<Longrightarrow> distinct (map slot_key (put_slot mode at job result a b slots))"
  by (auto simp: put_slot_keys list_ex_iff slot_is_key)

lemma find_put_slot:
  "\<exists>s. find (slot_is mode at) (put_slot mode at job result a b slots) = Some s \<and>
     ss_job s = job \<and> ss_outcome s = result"
proof (cases "list_ex (slot_is mode at) slots")
  case True
  have "find (slot_is mode at) (map (\<lambda>s. if slot_is mode at s then s\<lparr>ss_job := job, ss_outcome := result\<rparr> else s) slots) =
      map_option (\<lambda>s. s\<lparr>ss_job := job, ss_outcome := result\<rparr>) (find (slot_is mode at) slots)"
    by (induction slots) (auto simp: slot_is_def)
  then show ?thesis using True by (cases "find (slot_is mode at) slots") (auto simp: put_slot_def find_slot_None)
next
  case False
  have "find (slot_is mode at) (slots @ [x]) = Some x" if "slot_is mode at x" for x
    using False that by (induction slots) auto
  then show ?thesis using False by (simp add: put_slot_def slot_is_def)
qed

section \<open>What a call does to the table\<close>

text \<open>A call changes nothing, or settles or holds one slot that was absent or pending with the same window.\<close>

definition open_slot :: "string \<Rightarrow> int \<Rightarrow> int option \<Rightarrow> int option \<Rightarrow> sched_slot list \<Rightarrow> bool" where
  "open_slot mode at a b slots \<longleftrightarrow>
     \<not> schedule_rejected mode at a b \<and>
     (case find (slot_is mode at) slots of None \<Rightarrow> True
      | Some s \<Rightarrow> ss_start s = a \<and> ss_end s = b \<and> ss_outcome s = ''pending'')"

lemma submit_cases:
  assumes "submit_scheduled_catalog_scan env k mode at a b w = (r, w')"
  obtains "w' = w" "(\<exists>e. r = Inl e) \<or> (\<exists>s. find (slot_is mode at) (sw_slots w) = Some s \<and> ss_outcome s \<noteq> ''pending'' \<and>
      r = Inr \<lparr>su_job_id = ss_job s, su_outcome = ss_outcome s,
               su_full_sweep_required = (ss_outcome s = ''full_sweep_required'')\<rparr>)"
  | "open_slot mode at a b (sw_slots w)" "submit_open_slot env k mode at a b w = (r, w')"
  using assms
  by (fastforce simp: submit_scheduled_catalog_scan_def open_slot_def split: if_splits option.splits)

lemma open_slot_call:
  assumes "submit_open_slot env k mode at a b w = (r, w')"
  obtains e where "r = Inl e" "w' = w"
  | s where "r = Inr s" "sw_slots w' = put_slot mode at (su_job_id s) (su_outcome s) a b (sw_slots w)"
      "su_outcome s \<in> {''submitted'', ''pending'', ''full_sweep_required''}"
      "su_outcome s = ''submitted'' \<longleftrightarrow> su_job_id s \<noteq> None"
  using assms by (fastforce simp: submit_open_slot_def Let_def split: if_splits prod.splits sum.splits)

lemma put_slot_ok:
  assumes "slots_ok slots" "open_slot mode at a b slots"
    and "result \<in> {''submitted'', ''pending'', ''full_sweep_required''}" "result = ''submitted'' \<longleftrightarrow> job \<noteq> None"
  shows "slots_ok (put_slot mode at job result a b slots)"
proof -
  have d: "distinct (map slot_key slots)" and ok: "\<And>s. s \<in> set slots \<Longrightarrow> slot_ok s"
    using assms(1) by (auto simp: slots_ok_def list_all_iff)
  have "slot_ok s" if "s \<in> set (put_slot mode at job result a b slots)" for s
  proof (cases "list_ex (slot_is mode at) slots")
    case True
    then obtain t where t: "t \<in> set slots" "s = (if slot_is mode at t then t\<lparr>ss_job := job, ss_outcome := result\<rparr> else t)"
      using \<open>s \<in> _\<close> by (auto simp: put_slot_def)
    show ?thesis using ok [OF t(1)] t(2) assms(3,4) by (auto simp: slot_ok_def)
  next
    case False
    then show ?thesis using \<open>s \<in> _\<close> ok assms(2-4) by (auto simp: put_slot_def slot_ok_def open_slot_def)
  qed
  then show ?thesis using put_slot_distinct [OF d] by (simp add: slots_ok_def list_all_iff)
qed

lemma put_slot_keeps_settled:
  assumes "distinct (map slot_key slots)" "open_slot mode at a b slots"
  shows "settled slots \<subseteq> settled (put_slot mode at job result a b slots)"
proof
  fix s
  assume s: "s \<in> settled slots"
  have "\<not> slot_is mode at s"
    using find_slot [OF assms(1), of s mode at] s assms(2) by (auto simp: settled_def open_slot_def)
  then show "s \<in> settled (put_slot mode at job result a b slots)"
    using s by (force simp: settled_def put_slot_def)
qed

section \<open>Steps of the scheduler and of other sessions\<close>

inductive sched_step :: "sched_world \<Rightarrow> sched_world \<Rightarrow> bool" where
  submit: "submit_scheduled_catalog_scan env k mode at a b w = (r, w') \<Longrightarrow> sched_step w w'"
| elsewhere: "sw_slots w' = sw_slots w \<Longrightarrow> sched_step w w'"

definition peers_ok :: "sched_env \<Rightarrow> bool" where
  "peers_ok env \<longleftrightarrow> (\<forall>k w. sched_step\<^sup>*\<^sup>* w (others env k w))"

lemma sched_step_slots:
  assumes "sched_step w w'" "slots_ok (sw_slots w)"
  shows "slots_ok (sw_slots w') \<and> settled (sw_slots w) \<subseteq> settled (sw_slots w')"
  using assms(1)
proof cases
  case (submit env k mode at a b r)
  from submit show ?thesis
  proof (cases rule: submit_cases)
    case 1
    then show ?thesis using assms(2) by simp
  next
    case 2
    from 2(2) show ?thesis
    proof (cases rule: open_slot_call)
      case (1 e)
      then show ?thesis using assms(2) by simp
    next
      case (2 s)
      have d: "distinct (map slot_key (sw_slots w))" using assms(2) by (simp add: slots_ok_def)
      show ?thesis
        using put_slot_ok [OF assms(2) \<open>open_slot _ _ _ _ _\<close> 2(3,4)]
          put_slot_keeps_settled [OF d \<open>open_slot _ _ _ _ _\<close>] 2(2) by simp
    qed
  qed
next
  case elsewhere
  then show ?thesis using assms(2) by simp
qed

lemma sched_steps_slots:
  assumes "sched_step\<^sup>*\<^sup>* w w'" "slots_ok (sw_slots w)"
  shows "slots_ok (sw_slots w') \<and> settled (sw_slots w) \<subseteq> settled (sw_slots w')"
  using assms by (induction rule: rtranclp_induct) (auto dest: sched_step_slots)

lemma sched_call_steps:
  assumes "sched_call env f s = (r, s')" "peers_ok env"
    and "\<And>k w x w'. f k w = (x, w') \<Longrightarrow> sched_step\<^sup>*\<^sup>* w w'"
  shows "sched_step\<^sup>*\<^sup>* (snd s) (snd s')"
proof -
  obtain k w where s: "s = (k, w)" by (cases s)
  obtain x w2 where f: "f k (others env k w) = (x, w2)" by (cases "f k (others env k w)")
  have o: "sched_step\<^sup>*\<^sup>* w (others env k w)" using assms(2) by (simp add: peers_ok_def)
  have "sched_step\<^sup>*\<^sup>* w w2" using o assms(3) [OF f] by simp
  then show ?thesis using assms(1) f o
    by (auto simp: sched_call_def s db_call_def split: delivery.splits prod.splits)
qed

lemma submit_database_slot_steps:
  assumes "submit_database_slot env mode at a b origin s = (e, s')" "peers_ok env"
  shows "sched_step\<^sup>*\<^sup>* (snd s) (snd s')"
proof -
  obtain r s2 where c: "sched_call env (\<lambda>k. submit_scheduled_catalog_scan env k mode at a b) s = (r, s2)"
    by (cases "sched_call env (\<lambda>k. submit_scheduled_catalog_scan env k mode at a b) s")
  have "sched_step\<^sup>*\<^sup>* (snd s) (snd s2)"
    using c assms(2) by (rule sched_call_steps) (rule r_into_rtranclp, rule sched_step.submit)
  then show ?thesis using assms(1) c by (auto simp: submit_database_slot_def split: sum.splits)
qed

lemma mark_full_sweep_steps:
  assumes "mark_full_sweep_required env s = (r, s')" "peers_ok env"
  shows "sched_step\<^sup>*\<^sup>* (snd s) (snd s')"
proof -
  let ?f = "\<lambda>k w. case mark_catalog_full_sweep_required (sw_sync w) of (r, sync) \<Rightarrow> (r, w\<lparr>sw_sync := sync\<rparr>)"
  obtain x s2 where c: "sched_call env ?f s = (x, s2)" by (cases "sched_call env ?f s")
  have "sched_step\<^sup>*\<^sup>* (snd s) (snd s2)"
    using c assms(2) by (rule sched_call_steps) (auto intro!: sched_step.elsewhere split: prod.splits)
  then show ?thesis using assms(1) c by (auto simp: mark_full_sweep_required_def split: sum.splits)
qed

lemma daily_window_steps:
  assumes "daily_window env day s = (r, s')" "peers_ok env"
  shows "sched_step\<^sup>*\<^sup>* (snd s) (snd s')"
proof -
  let ?f = "\<lambda>k w. (Inr (sw_sync w ''daily_sync''), w)"
  obtain x s2 where c: "sched_call env ?f s = (x, s2)" by (cases "sched_call env ?f s")
  have s2: "sched_step\<^sup>*\<^sup>* (snd s) (snd s2)" using c assms(2) by (rule sched_call_steps) auto
  obtain y s3 where m: "mark_full_sweep_required env s2 = (y, s3)" by (cases "mark_full_sweep_required env s2")
  have "sched_step\<^sup>*\<^sup>* (snd s) (snd s3)" using s2 mark_full_sweep_steps [OF m assms(2)] by simp
  moreover have "s' = s2 \<or> s' = s3"
    using assms(1) c m by (auto simp: daily_window_def Let_def split: sum.splits option.splits if_splits)
  ultimately show ?thesis using s2 by auto
qed

lemma submit_slot_steps:
  assumes "submit_slot env c slot s = (e, s')" "peers_ok env"
  shows "sched_step\<^sup>*\<^sup>* (snd s) (snd s')"
proof (cases "cs_mode c = ''daily_sync''")
  case True
  obtain r s2 where d: "daily_window env (date_naive slot) s = (r, s2)" by (cases "daily_window env (date_naive slot) s")
  note step = daily_window_steps [OF d assms(2)]
  show ?thesis
  proof (cases r)
    case (Inl u)
    then show ?thesis using assms(1) True d step by (simp add: submit_slot_def Let_def)
  next
    case (Inr window)
    obtain a b where "window = (a, b)" by (cases window)
    then have "submit_database_slot env (cs_mode c) (z_utc slot div 1000) (Some a) (Some b) CurrentSlot s2 = (e, s')"
      using assms(1) True d Inr by (simp add: submit_slot_def Let_def)
    then show ?thesis using submit_database_slot_steps [OF _ assms(2)] step by (meson rtranclp_trans)
  qed
next
  case False
  then show ?thesis using assms submit_database_slot_steps by (auto simp: submit_slot_def Let_def)
qed

lemma retry_rows_steps:
  "retry_rows env rows s = (es, s') \<Longrightarrow> peers_ok env \<Longrightarrow> sched_step\<^sup>*\<^sup>* (snd s) (snd s')"
proof (induction rows arbitrary: s es)
  case (Cons r rs)
  obtain e s1 where e: "submit_database_slot env (ss_mode r) (ss_at r) (ss_start r) (ss_end r) PendingRetry s = (e, s1)"
    by (cases "submit_database_slot env (ss_mode r) (ss_at r) (ss_start r) (ss_end r) PendingRetry s")
  obtain es2 where rest: "retry_rows env rs s1 = (es2, s')" using Cons.prems(1) e by (auto split: prod.splits)
  show ?case
    using submit_database_slot_steps [OF e Cons.prems(2)] Cons.IH [OF rest Cons.prems(2)] by simp
qed simp

lemma retry_pending_steps:
  assumes "retry_pending_slots env s = (es, s')" "peers_ok env"
  shows "sched_step\<^sup>*\<^sup>* (snd s) (snd s')"
proof -
  let ?f = "\<lambda>k w. (Inr (pending_slots (sw_slots w)), w)"
  obtain x s2 where c: "sched_call env ?f s = (x, s2)" by (cases "sched_call env ?f s")
  have s2: "sched_step\<^sup>*\<^sup>* (snd s) (snd s2)" using c assms(2) by (rule sched_call_steps) auto
  show ?thesis
  proof (cases x)
    case (Inl e)
    then show ?thesis using assms(1) c s2 by (simp add: retry_pending_slots_def)
  next
    case (Inr rows)
    then have "retry_rows env rows s2 = (es, s')" using assms(1) c by (simp add: retry_pending_slots_def)
    then show ?thesis using retry_rows_steps assms(2) s2 by (meson rtranclp_trans)
  qed
qed

lemma run_schedules_steps:
  "run_schedules env slot cs s = (es, s') \<Longrightarrow> peers_ok env \<Longrightarrow> sched_step\<^sup>*\<^sup>* (snd s) (snd s')"
proof (induction cs arbitrary: s es)
  case (Cons c cs)
  obtain es1 s1 where h: "(case cs_cron c slot of
            Inr True \<Rightarrow> (case submit_slot env c slot s of (e, s1) \<Rightarrow> ([e], s1))
          | Inr False \<Rightarrow> ([], s)
          | Inl _ \<Rightarrow> ([Evaluation_failed (cs_mode c) (cs_expression c)], s)) = (es1, s1)"
    by (rule prod.exhaust)
  obtain es2 where rest: "run_schedules env slot cs s1 = (es2, s')"
    using Cons.prems(1) h by (auto simp: Let_def split: prod.splits)
  have "sched_step\<^sup>*\<^sup>* (snd s) (snd s1)"
    using h submit_slot_steps [OF _ Cons.prems(2)] by (auto split: sum.splits bool.splits prod.splits)
  then show ?case using Cons.IH [OF rest Cons.prems(2)] by simp
qed simp

lemma scheduler_tick_steps:
  assumes "scheduler_tick c env now w = (es, w')" "peers_ok env"
  shows "sched_step\<^sup>*\<^sup>* w w'"
proof -
  obtain es1 s1 where r: "retry_pending_slots env (0, w) = (es1, s1)" by (cases "retry_pending_slots env (0, w)")
  let ?slot = "minute_slot (sc_timezone c) (with_timezone (sc_timezone c) now)"
  obtain es2 s2 where q: "run_schedules env ?slot (sc_schedules c) s1 = (es2, s2)"
    by (cases "run_schedules env ?slot (sc_schedules c) s1")
  have "w' = snd s2" using assms(1) r q by (simp add: scheduler_tick_def)
  then show ?thesis using retry_pending_steps [OF r assms(2)] run_schedules_steps [OF q assms(2)] by simp
qed

lemma scheduler_run_steps:
  "scheduler_run c ticks w = (es, w') \<Longrightarrow> list_all (\<lambda>(env, now). peers_ok env) ticks \<Longrightarrow> sched_step\<^sup>*\<^sup>* w w'"
proof (induction ticks arbitrary: w es)
  case (Cons x ticks)
  obtain env now where x: "x = (env, now)" by (cases x)
  obtain es1 w1 where t: "scheduler_tick c env now w = (es1, w1)" by (cases "scheduler_tick c env now w")
  obtain es2 where rest: "scheduler_run c ticks w1 = (es2, w')"
    using Cons.prems(1) x t by (auto split: prod.splits)
  show ?case
    using scheduler_tick_steps [OF t] Cons.IH [OF rest] Cons.prems(2) x by simp
qed simp

section \<open>The job of a slot\<close>

lemma scheduled_mode:
  assumes "\<not> schedule_rejected mode at a b"
  obtains m where "scan_mode_name m = mode" "m \<in> {DailySync, MissingOnly, Reconcile}" "window_ok a b"
    "m \<noteq> DailySync \<Longrightarrow> a = None \<and> b = None" "m = DailySync \<Longrightarrow> a \<noteq> None" "mode_of mode = Some m"
proof -
  have "mode \<in> {scan_mode_name DailySync, scan_mode_name MissingOnly, scan_mode_name Reconcile}"
    using assms by (auto simp: schedule_rejected_def scan_mode_name_def)
  then obtain m where m: "scan_mode_name m = mode" "m \<in> {DailySync, MissingOnly, Reconcile}" by auto
  moreover have "mode_of mode = Some m" using m(1) enum_round_trips(2) by metis
  moreover have "window_ok a b" "m \<noteq> DailySync \<Longrightarrow> a = None \<and> b = None" "m = DailySync \<Longrightarrow> a \<noteq> None"
    using assms m by (auto simp: schedule_rejected_def scan_mode_name_def window_ok_def split: option.splits)
  ultimately show thesis using that by blast
qed

text \<open>The payload the database writes is a scan job from its start over both media types, with the window.\<close>

lemma scheduled_payload_parses:
  assumes "\<not> schedule_rejected mode at a b" "dates_round_trip lib"
  shows "parse_job lib ''admin.scan'' 1 (scheduled_payload lib mode a b) =
    Inr (AdminScan (the (mode_of mode)) [Movie, Tv] Start 0 0 a b)"
proof -
  obtain m where m: "scan_mode_name m = mode" "m \<in> {DailySync, MissingOnly, Reconcile}" "window_ok a b"
    "m \<noteq> DailySync \<Longrightarrow> a = None \<and> b = None" "mode_of mode = Some m"
    using scheduled_mode [OF assms(1)] by metis
  let ?p = "\<lparr>sp_mode = m, sp_media = [Movie, Tv], sp_phase = Start, sp_cursor = 0, sp_poll = 0, sp_start = a, sp_end = b\<rparr>"
  have ok: "\<not> scan_rejected ?p"
    using m(2-4) unfolding scan_rejected_def window_rejected_iff by auto
  have media: "de_array (de_variant media_type_from_str) (JArr [JStr ''movie'', JStr ''tv'']) = Some [Movie, Tv]"
    by (simp add: de_array_def de_variant_def media_type_from_str_def)
  have kind: "mode = ''daily_sync'' \<longleftrightarrow> m = DailySync" using m(1) by (auto simp: scan_mode_name_def split: admin_scan_mode.splits)
  show ?thesis
  proof (cases "m = DailySync")
    case True
    moreover have "mode_of ''daily_sync'' = Some DailySync" by (simp add: mode_of_def scan_mode_name_def)
    ultimately show ?thesis using ok m(1,5) kind
      by (simp add: payload_simps scheduled_payload_def de_scan_payload_def media de_date_json [OF assms(2)] Let_def
          de_variant_def flip: m(1))
  next
    case False
    then show ?thesis using ok m(1,4,5) kind
      by (simp add: payload_simps scheduled_payload_def de_scan_payload_def media Let_def de_variant_def flip: m(1))
  qed
qed

lemma settled_slot_found:
  assumes "distinct (map slot_key slots)" "s \<in> settled slots" "slot_is mode at s"
  shows "find (slot_is mode at) slots = Some s" "ss_outcome s \<noteq> ''pending''"
  using assms find_slot by (auto simp: settled_def)

lemma submit_fresh:
  assumes "submit_job enabled tj year now i ty v p pr n av key q = (Inr (job, dup), q')"
    and "\<And>r. r \<in> set (q_rows q) \<Longrightarrow> jr_type r = ty \<Longrightarrow> \<not> active (jr_status r)"
  shows "\<exists>r payload. q_rows q' = q_rows q @ [r] \<and> jr_id r = job \<and> jr_type r = ty \<and> jr_version r = v \<and>
    jr_status r = Queued \<and> jr_dedup_key r = key \<and> tj p = Some payload \<and> jr_payload r = payload"
proof -
  have none: "find (\<lambda>r. jr_type r = ty \<and> jr_dedup_key r = key \<and> active (jr_status r)) (q_rows q) = None"
    using assms(2) by (auto simp: find_None_iff)
  show ?thesis using assms(1)
    by (auto simp: submit_job_def none log_event_def split: if_splits option.splits)
qed

text \<open>C29: Scheduled scans never overlap other catalog work. When the database answers a schedule slot, the slot is
  recorded with that answer, and either the queue is as before or exactly one job has been added to it: no scan and no
  ingestion job was active, no full sweep was required of a daily synchronization, and the job is one that the worker's
  parser reads as a scan of that mode from its start over both media types with that window.\<close>

theorem scheduled_scan_guarded:
  assumes "submit_scheduled_catalog_scan env k mode at a b w = (Inr r, w')"
    and "dates_round_trip (sched_lib env)"
    and "to_jsonb env (jsonb_text env (scheduled_payload (sched_lib env) mode a b)) =
         Some (scheduled_payload (sched_lib env) mode a b)"
  shows "(\<exists>s. find (slot_is mode at) (sw_slots w') = Some s \<and> ss_outcome s = su_outcome r \<and> ss_job s = su_job_id r) \<and>
    sw_sync w' = sw_sync w \<and>
    (sw_queue w' = sw_queue w \<or>
     \<not> catalog_busy (sw_queue w) \<and>
     (mode = ''daily_sync'' \<longrightarrow> map_option sweep_required (sw_sync w mode) \<noteq> Some True) \<and>
     su_outcome r = ''submitted'' \<and>
     (\<exists>row. q_rows (sw_queue w') = q_rows (sw_queue w) @ [row] \<and> su_job_id r = Some (jr_id row) \<and>
        jr_status row = Queued \<and>
        parse_job (sched_lib env) (jr_type row) (jr_version row) (jr_payload row) =
          Inr (AdminScan (the (mode_of mode)) [Movie, Tv] Start 0 0 a b)))"
  using assms(1)
proof (cases rule: submit_cases)
  case 1
  then show ?thesis by auto
next
  case 2
  have slot: "\<exists>s. find (slot_is mode at) (sw_slots w') = Some s \<and> ss_outcome s = su_outcome r \<and> ss_job s = su_job_id r"
    using 2(2) by (cases rule: open_slot_call) (use find_put_slot in fastforce)+
  have good: "\<not> schedule_rejected mode at a b" using 2(1) by (simp add: open_slot_def)
  show ?thesis
  proof (cases "sw_queue w' = sw_queue w")
    case True
    then show ?thesis using slot 2(2) by (auto simp: submit_open_slot_def Let_def split: if_splits prod.splits sum.splits)
  next
    case False
    then obtain job dup where s: "submit_job (registry env) (to_jsonb env) (year_of env) (clock env k) (fresh_id env k)
          ''admin.scan'' 1 (jsonb_text env (scheduled_payload (sched_lib env) mode a b)) 100 100 None
          (''catalog-schedule:'' @ mode @ '':'' @ instant_text env at) (sw_queue w) = (Inr (job, dup), sw_queue w')"
      and idle: "\<not> catalog_busy (sw_queue w)"
        "\<not> (mode = ''daily_sync'' \<and> (case sw_sync w mode of Some r \<Rightarrow> sweep_required r | None \<Rightarrow> False))"
      and r: "r = \<lparr>su_job_id = Some job, su_outcome = ''submitted'', su_full_sweep_required = False\<rparr>"
      and sync: "sw_sync w' = sw_sync w"
      using 2(2) by (auto simp: submit_open_slot_def Let_def split: if_splits prod.splits sum.splits)
    have "\<not> active (jr_status x)" if "x \<in> set (q_rows (sw_queue w))" "jr_type x = ''admin.scan''" for x
      using idle(1) that by (auto simp: catalog_busy_def list_ex_iff)
    from submit_fresh [OF s this] obtain row where row: "q_rows (sw_queue w') = q_rows (sw_queue w) @ [row]"
      "jr_id row = job" "jr_type row = ''admin.scan''" "jr_version row = 1" "jr_status row = Queued"
      "jr_payload row = scheduled_payload (sched_lib env) mode a b"
      using assms(3) by auto
    have "mode = ''daily_sync'' \<longrightarrow> map_option sweep_required (sw_sync w mode) \<noteq> Some True"
      using idle(2) by (auto split: option.splits)
    then show ?thesis
      using slot sync idle(1) r row scheduled_payload_parses [OF good assms(2)] by auto
  qed
qed

text \<open>C30: Whatever the scheduler and the other sessions do, among them other schedulers, the table of slots keeps at most
  one row for each mode and minute, every row satisfies its checks and names a job exactly when it is submitted, and a
  slot that is settled keeps its outcome, its job and its window for ever: a slot submits at most one job, and one that
  was given up for a full sweep is never submitted.\<close>

theorem slots_settle_once:
  assumes "scheduler_run c ticks w = (es, w')" "slots_ok (sw_slots w)"
    and "list_all (\<lambda>(env, now). peers_ok env) ticks"
  shows "slots_ok (sw_slots w') \<and> settled (sw_slots w) \<subseteq> settled (sw_slots w')"
  using scheduler_run_steps [OF assms(1,3)] assms(2) by (rule sched_steps_slots)

section \<open>Progress\<close>

lemma pending_slots_member:
  "s \<in> set (pending_slots slots) \<Longrightarrow> s \<in> set slots \<and> ss_outcome s = ''pending''"
  unfolding pending_slots_def by (auto dest!: in_set_takeD)

text \<open>The conditions under which \<open>ops.submit_job\<close> accepts the job of a slot.\<close>

definition slot_submittable :: "sched_env \<Rightarrow> nat \<Rightarrow> sched_slot \<Rightarrow> job_queue \<Rightarrow> bool" where
  "slot_submittable env k s q \<longleftrightarrow>
     (let p = scheduled_payload (sched_lib env) (ss_mode s) (ss_start s) (ss_end s)
      in registry env ''admin.scan'' 1 \<and> length (jsonb_text env p) \<le> 65536 \<and>
         to_jsonb env (jsonb_text env p) = Some p \<and>
         job_valid_ascii (''catalog-schedule:'' @ ss_mode s @ '':'' @ instant_text env (ss_at s)) 256 \<and>
         find_row (fresh_id env k) q = None)"

definition settled_outcome :: "sched_world \<Rightarrow> sched_slot \<Rightarrow> string" where
  "settled_outcome w s =
     (if ss_mode s = ''daily_sync'' \<and> map_option sweep_required (sw_sync w ''daily_sync'') = Some True
      then ''full_sweep_required'' else ''submitted'')"

lemma scheduled_payload_object: "is_object (scheduled_payload lib mode a b)"
  by (simp add: scheduled_payload_def is_object_def Let_def)

lemma admin_scan_ascii: "job_valid_ascii ''admin.scan'' 128"
  by code_simp

lemma idle_submission:
  assumes "slots_ok (sw_slots w)" "s \<in> set (sw_slots w)" "ss_outcome s = ''pending''"
    and "\<not> catalog_busy (sw_queue w)" "slot_submittable env k s (sw_queue w)"
    and "submit_scheduled_catalog_scan env k (ss_mode s) (ss_at s) (ss_start s) (ss_end s) w = (x, w')"
  shows "\<exists>s'. find (slot_is (ss_mode s) (ss_at s)) (sw_slots w') = Some s' \<and> ss_outcome s' = settled_outcome w s"
proof -
  let ?find = "find (slot_is (ss_mode s) (ss_at s))"
  have found: "?find (sw_slots w) = Some s"
    using find_slot [OF _ assms(2)] assms(1) by (simp add: slots_ok_def slot_is_def)
  have good: "\<not> schedule_rejected (ss_mode s) (ss_at s) (ss_start s) (ss_end s)"
    using assms(1,2) by (auto simp: slots_ok_def list_all_iff slot_ok_def)
  have open_call: "submit_open_slot env k (ss_mode s) (ss_at s) (ss_start s) (ss_end s) w = (x, w')"
    using assms(3,6) found good by (simp add: submit_scheduled_catalog_scan_def)
  have none: "find (\<lambda>r. jr_type r = ''admin.scan'' \<and> P r \<and> active (jr_status r)) (q_rows (sw_queue w)) = None" for P
    using assms(4) by (auto simp: find_None_iff catalog_busy_def list_ex_iff)
  show ?thesis
  proof (cases "settled_outcome w s = ''submitted''")
    case False
    then have "sw_slots w' = put_slot (ss_mode s) (ss_at s) None ''full_sweep_required'' (ss_start s) (ss_end s) (sw_slots w)"
      using open_call by (auto simp: submit_open_slot_def settled_outcome_def Let_def split: if_splits)
    then show ?thesis
      using False find_put_slot [of "ss_mode s" "ss_at s" None "''full_sweep_required''" "ss_start s" "ss_end s" "sw_slots w"] by (auto simp: settled_outcome_def split: if_splits)
  next
    case True
    then have sweep: "\<not> (ss_mode s = ''daily_sync'' \<and>
        (case sw_sync w (ss_mode s) of Some r \<Rightarrow> sweep_required r | None \<Rightarrow> False))"
      by (auto simp: settled_outcome_def split: if_splits option.splits)
    obtain job q where "submit_job (registry env) (to_jsonb env) (year_of env) (clock env k) (fresh_id env k) ''admin.scan'' 1
          (jsonb_text env (scheduled_payload (sched_lib env) (ss_mode s) (ss_start s) (ss_end s))) 100 100 None
          (''catalog-schedule:'' @ ss_mode s @ '':'' @ instant_text env (ss_at s)) (sw_queue w) = (Inr (job, False), q)"
      using assms(5) none [of "\<lambda>r. jr_dedup_key r = _"]
      by (auto simp: submit_job_def slot_submittable_def Let_def admin_scan_ascii scheduled_payload_object)
    then have "sw_slots w' = put_slot (ss_mode s) (ss_at s) (Some job) ''submitted'' (ss_start s) (ss_end s) (sw_slots w)"
      using open_call assms(4) sweep by (auto simp: submit_open_slot_def Let_def split: if_splits)
    then show ?thesis
      using True find_put_slot [of "ss_mode s" "ss_at s" "Some job" "''submitted''" "ss_start s" "ss_end s" "sw_slots w"] by auto
  qed
qed

text \<open>C31: A slot that had to wait is not forgotten: when no scan or ingestion job is active any more, the next tick whose
  first two calls are answered settles the oldest pending slot, with a job or, for a daily synchronization while a full
  sweep is required, by giving it up, whatever becomes of the other calls of the tick.\<close>

theorem idle_tick_settles_oldest:
  assumes "scheduler_tick c env now w = (es, w')" "pending_slots (sw_slots w) = s # rest"
    and "slots_ok (sw_slots w)" "\<not> catalog_busy (sw_queue w)" "slot_submittable env 1 s (sw_queue w)"
    and "others env = (\<lambda>k w. w)" "network env 0 = Delivered" "network env 1 = Delivered"
  shows "\<exists>s'. find (slot_is (ss_mode s) (ss_at s)) (sw_slots w') = Some s' \<and> ss_outcome s' = settled_outcome w s"
proof -
  have s: "s \<in> set (sw_slots w)" "ss_outcome s = ''pending''"
    using pending_slots_member [of s "sw_slots w"] assms(2) by simp_all
  have peers: "peers_ok env" using assms(6) by (simp add: peers_ok_def)
  let ?call = "submit_scheduled_catalog_scan env 1 (ss_mode s) (ss_at s) (ss_start s) (ss_end s) w"
  obtain x w1 where x: "?call = (x, w1)" by (cases ?call)
  obtain s1 where s1: "find (slot_is (ss_mode s) (ss_at s)) (sw_slots w1) = Some s1" "ss_outcome s1 = settled_outcome w s"
    using idle_submission [OF assms(3) s assms(4,5) x] by blast
  obtain e where e: "submit_database_slot env (ss_mode s) (ss_at s) (ss_start s) (ss_end s) PendingRetry (1, w) = (e, (2, w1))"
    using x assms(6,8) by (cases x) (simp_all add: submit_database_slot_def sched_call_def db_call_def numeral_2_eq_2)
  obtain es2 s2 where rows: "retry_rows env rest (2, w1) = (es2, s2)" by (cases "retry_rows env rest (2, w1)")
  have retry: "retry_pending_slots env (0, w) = (e # es2, s2)"
    using assms(2,6,7) e rows by (simp add: retry_pending_slots_def sched_call_def db_call_def)
  let ?slot = "minute_slot (sc_timezone c) (with_timezone (sc_timezone c) now)"
  obtain es3 s3 where q: "run_schedules env ?slot (sc_schedules c) s2 = (es3, s3)"
    by (cases "run_schedules env ?slot (sc_schedules c) s2")
  have w': "w' = snd s3" using assms(1) retry q by (simp add: scheduler_tick_def)
  have "sched_step\<^sup>*\<^sup>* w1 w'"
    using retry_rows_steps [OF rows peers] run_schedules_steps [OF q peers] w' by simp
  moreover have ok1: "slots_ok (sw_slots w1)"
    using sched_step_slots [OF sched_step.submit [OF x] assms(3)] by simp
  ultimately have keep: "slots_ok (sw_slots w')" "settled (sw_slots w1) \<subseteq> settled (sw_slots w')"
    using sched_steps_slots by blast+
  have "s1 \<in> settled (sw_slots w')" "slot_is (ss_mode s) (ss_at s) s1"
    using find_slot_Some [OF s1(1)] s1(2) keep(2) by (auto simp: settled_def settled_outcome_def split: if_splits)
  then have "find (slot_is (ss_mode s) (ss_at s)) (sw_slots w') = Some s1"
    using settled_slot_found(1) keep(1) by (auto simp: slots_ok_def)
  then show ?thesis using s1(2) by blast
qed

section \<open>Times a schedule misses\<close>

lemma unaligned_rejected:
  "at mod 60000000 \<noteq> 0 \<Longrightarrow> submit_scheduled_catalog_scan env k mode at a b w = (Inl ''22023'', w)"
  by (simp add: submit_scheduled_catalog_scan_def schedule_rejected_def)

abbreviation same_plan :: "sched_world \<Rightarrow> sched_world \<Rightarrow> bool" where
  "same_plan w w' \<equiv> sw_slots w' = sw_slots w \<and> sw_queue w' = sw_queue w"

lemma daily_window_plan:
  assumes "daily_window env day s = (r, s')" "others env = (\<lambda>k w. w)"
  shows "same_plan (snd s) (snd s')"
  using assms
  by (cases s) (auto simp: daily_window_def mark_full_sweep_required_def sched_call_def db_call_def Let_def
      split: sum.splits option.splits if_splits delivery.splits prod.splits)

lemma submit_unaligned:
  assumes "submit_database_slot env mode at a b origin s = (e, s')" "others env = (\<lambda>k w. w)" "at mod 60000000 \<noteq> 0"
  shows "snd s' = snd s \<and> e = Submission_failed mode"
  using assms(1) unaligned_rejected [OF assms(3)] assms(2)
  by (cases s) (auto simp: submit_database_slot_def sched_call_def db_call_def split: delivery.splits)

lemma submit_slot_unaligned:
  assumes "submit_slot env c slot s = (e, s')" "others env = (\<lambda>k w. w)" "z_utc slot div 1000 mod 60000000 \<noteq> 0"
  shows "same_plan (snd s) (snd s') \<and> e = Submission_failed (cs_mode c)"
proof (cases "cs_mode c = ''daily_sync''")
  case True
  obtain r s2 where d: "daily_window env (date_naive slot) s = (r, s2)" by (cases "daily_window env (date_naive slot) s")
  note plan = daily_window_plan [OF d assms(2)]
  show ?thesis
  proof (cases r)
    case (Inl u)
    then show ?thesis using assms(1) True d plan by (simp add: submit_slot_def Let_def)
  next
    case (Inr window)
    obtain a b where "window = (a, b)" by (cases window)
    then have "submit_database_slot env (cs_mode c) (z_utc slot div 1000) (Some a) (Some b) CurrentSlot s2 = (e, s')"
      using assms(1) True d Inr by (simp add: submit_slot_def Let_def)
    then show ?thesis using submit_unaligned [OF _ assms(2,3)] plan by metis
  qed
next
  case False
  then show ?thesis using assms(1) submit_unaligned [OF _ assms(2,3)] by (auto simp: submit_slot_def Let_def)
qed

lemma run_schedules_unaligned:
  "run_schedules env slot cs s = (es, s') \<Longrightarrow> others env = (\<lambda>k w. w) \<Longrightarrow> z_utc slot div 1000 mod 60000000 \<noteq> 0 \<Longrightarrow>
   same_plan (snd s) (snd s')"
proof (induction cs arbitrary: s es)
  case (Cons c cs)
  obtain es1 s1 where h: "(case cs_cron c slot of
            Inr True \<Rightarrow> (case submit_slot env c slot s of (e, s1) \<Rightarrow> ([e], s1))
          | Inr False \<Rightarrow> ([], s)
          | Inl _ \<Rightarrow> ([Evaluation_failed (cs_mode c) (cs_expression c)], s)) = (es1, s1)"
    by (rule prod.exhaust)
  obtain es2 where rest: "run_schedules env slot cs s1 = (es2, s')"
    using Cons.prems(1) h by (auto simp: Let_def split: prod.splits)
  have "same_plan (snd s) (snd s1)"
    using h submit_slot_unaligned [OF _ Cons.prems(2,3)] by (auto split: sum.splits bool.splits prod.splits)
  then show ?case using Cons.IH [OF rest Cons.prems(2,3)] by simp
qed simp

text \<open>C32: During a local hour that occurs twice (the end of daylight saving) schedules are lost: \<open>minute_slot\<close> cannot
  change the seconds of an ambiguous time and answers the time itself, so unless the tick falls on the exact microsecond of
  a minute the database rejects its slot, whatever the cron expressions match: the tick leaves slots and jobs as its retries
  left them, and no slot remembers the minute.\<close>

theorem ambiguous_minutes_lost:
  assumes "tz_single tz (l - l div ns_per_second mod 60 * ns_per_second) = None"
    and "l = naive_local (with_timezone tz now)" "now div 1000 mod 60000000 \<noteq> 0"
    and "sc_timezone c = tz" "others env = (\<lambda>k w. w)"
  shows "minute_slot tz (with_timezone tz now) = with_timezone tz now \<and>
    same_plan (snd (snd (retry_pending_slots env (0, w)))) (snd (scheduler_tick c env now w))"
proof -
  let ?z = "with_timezone tz now"
  have slot: "minute_slot tz ?z = ?z"
    using assms(1,2) by (simp add: minute_slot_def with_second_0_def Let_def)
  obtain es s where r: "retry_pending_slots env (0, w) = (es, s)" by (cases "retry_pending_slots env (0, w)")
  obtain es2 s2 where q: "run_schedules env ?z (sc_schedules c) s = (es2, s2)"
    by (cases "run_schedules env ?z (sc_schedules c) s")
  have "same_plan (snd s) (snd s2)"
    using run_schedules_unaligned [OF q assms(5)] assms(3) by (simp add: with_timezone_def)
  then show ?thesis using slot r q assms(4) by (simp add: scheduler_tick_def)
qed

text \<open>A watermark after the local day (it is written in UTC, the scheduler reads it in its zone) gives a window that ends
  before it starts: the database rejects the slot, which is reported as a failure of the database and not kept.\<close>

lemma watermark_ahead_refused:
  assumes "others env = (\<lambda>k w. w)" "network env k = Delivered" "network env (Suc k) = Delivered"
    and "cs_mode c = ''daily_sync''" "sw_sync w ''daily_sync'' = Some \<lparr>sync_end = Some e, sweep_required = False\<rparr>"
    and "e > date_naive slot"
  shows "submit_slot env c slot (k, w) = (Submission_failed ''daily_sync'', (Suc (Suc k), w))"
  using assms
  by (simp add: submit_slot_def daily_window_def sched_call_def db_call_def Let_def submit_database_slot_def
      submit_scheduled_catalog_scan_def schedule_rejected_def)

section \<open>Examples\<close>

definition demo_scan_payload :: json where
  "demo_scan_payload = scheduled_payload demo_ingest_lib ''missing_only'' None None"

definition demo_sched_env :: sched_env where
  "demo_sched_env =
     \<lparr>registry = (\<lambda>t v. True), claim_switch = (\<lambda>s. True), media_switch = True, to_jsonb = (\<lambda>s. Some demo_scan_payload),
      year_of = (\<lambda>t. 2026), render_json = (\<lambda>v. Some ''{}''), row_locked = (\<lambda>i. False), clock = (\<lambda>n. 9),
      network = (\<lambda>k. Delivered), fresh_id = (\<lambda>k. 7), sched_lib = demo_ingest_lib, jsonb_text = (\<lambda>v. ''{}''),
      instant_text = (\<lambda>t. ''t''), others = (\<lambda>k w. w)\<rparr>"

definition demo_slot :: sched_slot where
  "demo_slot = \<lparr>ss_mode = ''missing_only'', ss_at = 60000000, ss_job = None, ss_outcome = ''pending'', ss_start = None,
     ss_end = None\<rparr>"

definition demo_plan :: sched_world where
  "demo_plan = \<lparr>sw_slots = [demo_slot], sw_queue = empty_queue, sw_sync = Map.empty\<rparr>"

text \<open>A zone that goes back from one hour ahead at the hundredth hour.\<close>

definition demo_tz :: tz_rules where
  "demo_tz =
     \<lparr>tz_offset = (\<lambda>u. if u < 360000 * ns_per_second then 3600 else 0),
      tz_single = (\<lambda>l. if l < 360000 * ns_per_second then Some (l - 3600 * ns_per_second)
                        else if l < 363600 * ns_per_second then None else Some l)\<rparr>"

definition demo_scheduler :: scheduler_config where
  "demo_scheduler = \<lparr>sc_timezone = demo_tz, sc_schedules =
     [\<lparr>cs_mode = ''missing_only'', cs_expression = ''* * * * *'', cs_cron = (\<lambda>z. Inr True)\<rparr>]\<rparr>"

lemmas demo_sched_defs = demo_sched_env_def demo_slot_def demo_plan_def empty_queue_def

lemma demo_sched_ascii: "job_valid_ascii ''catalog-schedule:missing_only:t'' 256"
  by code_simp

lemma demo_slots_ok: "slots_ok (sw_slots demo_plan)"
  by (simp add: slots_ok_def slot_ok_def schedule_rejected_def demo_plan_def demo_slot_def)

lemma demo_idle: "\<not> catalog_busy (sw_queue demo_plan)" "sw_queue demo_plan = empty_queue"
  by (simp_all add: catalog_busy_def demo_plan_def empty_queue_def)

lemma demo_submittable: "slot_submittable demo_sched_env k demo_slot empty_queue"
  using demo_sched_ascii
  by (simp add: slot_submittable_def Let_def demo_sched_defs demo_scan_payload_def find_row_def)

lemma demo_pending: "pending_slots (sw_slots demo_plan) = [demo_slot]"
  by (simp add: pending_slots_def demo_plan_def demo_slot_def)

lemma demo_submission:
  "\<exists>r w'. submit_scheduled_catalog_scan demo_sched_env 0 ''missing_only'' 60000000 None None demo_plan = (Inr r, w') \<and>
     sw_queue w' \<noteq> sw_queue demo_plan"
  using demo_sched_ascii
  by (simp add: submit_scheduled_catalog_scan_def submit_open_slot_def schedule_rejected_def catalog_busy_def Let_def
      submit_job_def admin_scan_ascii slot_is_def demo_sched_defs demo_scan_payload_def scheduled_payload_object find_row_def
      log_event_def)

theorem scheduled_scan_guarded_witness:
  "\<exists>row. q_rows (sw_queue (snd (submit_scheduled_catalog_scan demo_sched_env 0 ''missing_only'' 60000000 None None
       demo_plan))) = [row] \<and>
     parse_job demo_ingest_lib (jr_type row) (jr_version row) (jr_payload row) =
       Inr (AdminScan MissingOnly [Movie, Tv] Start 0 0 None None)"
proof -
  obtain r w' where c: "submit_scheduled_catalog_scan demo_sched_env 0 ''missing_only'' 60000000 None None demo_plan = (Inr r, w')"
    "sw_queue w' \<noteq> sw_queue demo_plan"
    using demo_submission by blast
  have lib: "sched_lib demo_sched_env = demo_ingest_lib" by (simp add: demo_sched_env_def)
  have mode: "mode_of ''missing_only'' = Some MissingOnly" by (simp add: mode_of_def scan_mode_name_def)
  have parsed: "to_jsonb demo_sched_env (jsonb_text demo_sched_env (scheduled_payload (sched_lib demo_sched_env) ''missing_only'' None None)) =
      Some (scheduled_payload (sched_lib demo_sched_env) ''missing_only'' None None)"
    by (simp add: demo_sched_env_def demo_scan_payload_def)
  show ?thesis
    using scheduled_scan_guarded [OF c(1) _ parsed] c demo_lib_dates mode
    by (auto simp: lib demo_plan_def empty_queue_def)
qed

theorem slots_settle_once_witness:
  "slots_ok (sw_slots (snd (scheduler_run demo_scheduler [(demo_sched_env, 0), (demo_sched_env, 15)] demo_plan)))"
proof -
  have peers: "list_all (\<lambda>(env, now). peers_ok env) [(demo_sched_env, 0), (demo_sched_env, 15)]"
    by (simp add: peers_ok_def demo_sched_env_def)
  show ?thesis
    using slots_settle_once [OF prod.collapse [symmetric] demo_slots_ok peers] by blast
qed

theorem idle_tick_settles_oldest_witness:
  "\<exists>s. find (slot_is ''missing_only'' 60000000)
         (sw_slots (snd (scheduler_tick demo_scheduler demo_sched_env 15 demo_plan))) = Some s \<and>
       ss_outcome s = ''submitted''"
proof -
  have env: "others demo_sched_env = (\<lambda>k w. w)" "network demo_sched_env k = Delivered" for k
    by (simp_all add: demo_sched_env_def)
  show ?thesis
    using idle_tick_settles_oldest [OF prod.collapse [symmetric] demo_pending demo_slots_ok demo_idle(1), unfolded demo_idle(2),
        OF demo_submittable env(1,2,2)]
    by (simp add: demo_slot_def settled_outcome_def)
qed

theorem ambiguous_minutes_lost_witness:
  "minute_slot demo_tz (with_timezone demo_tz 360017000000000) = with_timezone demo_tz 360017000000000 \<and>
   same_plan (snd (snd (retry_pending_slots demo_sched_env (0, demo_plan))))
     (snd (scheduler_tick demo_scheduler demo_sched_env 360017000000000 demo_plan))"
  by (rule ambiguous_minutes_lost [of demo_tz "naive_local (with_timezone demo_tz 360017000000000)"])
    (simp_all add: demo_tz_def with_timezone_def naive_local_def demo_scheduler_def demo_sched_env_def)

end
