(* ===== verification/Tmdb_Model.thy ===== *)
theory Tmdb_Model
  imports Ingest_Payload Http_Endpoints "HOL-Library.Monad_Syntax"
begin

text \<open>
  The typed responses of the upstream API, \<open>src/crates/tmdb-upstream/src/model.rs\<close>, with the decoding that serde derives
  for them: a field with \<open>#[serde(default)]\<close> may be absent, an \<open>Option\<close> may be \<open>null\<close>, unknown fields are ignored,
  integers are checked against their width, and the hand-written decoders are spelled out. A floating-point number is kept
  as the JSON number it was written as; a struct written as an array, which serde also reads, is left out.
\<close>

section \<open>Fields\<close>

type_synonym number = json

definition de_f64 :: "json \<Rightarrow> number option" where
  "de_f64 v = (case v of JInt _ \<Rightarrow> Some v | JFloat _ \<Rightarrow> Some v | _ \<Rightarrow> None)"

definition de_uint :: "nat \<Rightarrow> json \<Rightarrow> nat option" where
  "de_uint bound v = (case as_u64 v of None \<Rightarrow> None | Some n \<Rightarrow> if n \<le> bound then Some n else None)"

definition de_int32 :: "json \<Rightarrow> int option" where
  "de_int32 v = (case as_i64 v of None \<Rightarrow> None
     | Some n \<Rightarrow> if - 2147483648 \<le> n \<and> n \<le> 2147483647 then Some n else None)"

definition de_required :: "json \<Rightarrow> string \<Rightarrow> (json \<Rightarrow> 'a option) \<Rightarrow> 'a option" where
  "de_required v k d = Option.bind (json_get v k) d"

definition de_default :: "json \<Rightarrow> string \<Rightarrow> (json \<Rightarrow> 'a option) \<Rightarrow> 'a \<Rightarrow> 'a option" where
  "de_default v k d dflt = (case json_get v k of None \<Rightarrow> Some dflt | Some x \<Rightarrow> d x)"

text \<open>\<open>deserialize_bool_or_false\<close> and \<open>deserialize_optional_numeric_identifier\<close>.\<close>

definition deserialize_bool_or_false :: "json \<Rightarrow> bool option" where
  "deserialize_bool_or_false v = map_option (\<lambda>b. case b of None \<Rightarrow> False | Some b \<Rightarrow> b) (de_option de_bool v)"

definition deserialize_optional_numeric_identifier :: "json \<Rightarrow> string option option" where
  "deserialize_optional_numeric_identifier v =
     (case v of
        JNull \<Rightarrow> Some None
      | JStr s \<Rightarrow> Some (Some s)
      | JInt _ \<Rightarrow> map_option (\<lambda>n. Some (dec n)) (as_u64 v)
      | _ \<Rightarrow> None)"

text \<open>A list that arrives as itself, as \<open>null\<close>, or inside an object under one of two names.\<close>

definition de_wrapped_list :: "string \<Rightarrow> string \<Rightarrow> (json \<Rightarrow> 'a option) \<Rightarrow> json \<Rightarrow> 'a list option" where
  "de_wrapped_list first second d v =
     (if v = JNull then Some []
      else de_array d
        (if is_object v
         then (case json_get v first of Some x \<Rightarrow> x
               | None \<Rightarrow> (case json_get v second of Some x \<Rightarrow> x | None \<Rightarrow> JArr []))
         else v))"

section \<open>Records and their decoders\<close>

record tmdb_image =
  img_file_path :: string
  img_width :: nat
  img_height :: nat
  img_aspect_ratio :: "number option"
  img_iso_639_1 :: "string option"
  img_vote_average :: "number option"
  img_vote_count :: "nat option"
  img_file_type :: "string option"

definition de_tmdb_image :: "json \<Rightarrow> tmdb_image option" where
  "de_tmdb_image v =
     (if \<not> is_object v then None else do {
       x1 \<leftarrow> de_required v ''file_path'' as_str;
       x2 \<leftarrow> de_default v ''width'' de_u32 0;
       x3 \<leftarrow> de_default v ''height'' de_u32 0;
       x4 \<leftarrow> de_default v ''aspect_ratio'' (de_option de_f64) None;
       x5 \<leftarrow> de_default v ''iso_639_1'' (de_option as_str) None;
       x6 \<leftarrow> de_default v ''vote_average'' (de_option de_f64) None;
       x7 \<leftarrow> de_default v ''vote_count'' (de_option as_u64) None;
       x8 \<leftarrow> de_default v ''file_type'' (de_option as_str) None;
       Some \<lparr>img_file_path = x1, img_width = x2, img_height = x3, img_aspect_ratio = x4, img_iso_639_1 = x5,
          img_vote_average = x6, img_vote_count = x7, img_file_type = x8\<rparr>})"

record tmdb_images =
  imgs_backdrops :: "tmdb_image list"
  imgs_logos :: "tmdb_image list"
  imgs_posters :: "tmdb_image list"
  imgs_profiles :: "tmdb_image list"
  imgs_stills :: "tmdb_image list"

definition no_tmdb_images :: tmdb_images where
  "no_tmdb_images = \<lparr>imgs_backdrops = [], imgs_logos = [], imgs_posters = [], imgs_profiles = [], imgs_stills = []\<rparr>"

definition de_tmdb_images :: "json \<Rightarrow> tmdb_images option" where
  "de_tmdb_images v =
     (if \<not> is_object v then None else do {
       x1 \<leftarrow> de_default v ''backdrops'' (de_array de_tmdb_image) [];
       x2 \<leftarrow> de_default v ''logos'' (de_array de_tmdb_image) [];
       x3 \<leftarrow> de_default v ''posters'' (de_array de_tmdb_image) [];
       x4 \<leftarrow> de_default v ''profiles'' (de_array de_tmdb_image) [];
       x5 \<leftarrow> de_default v ''stills'' (de_array de_tmdb_image) [];
       Some \<lparr>imgs_backdrops = x1, imgs_logos = x2, imgs_posters = x3, imgs_profiles = x4, imgs_stills = x5\<rparr>})"

record tmdb_video =
  vid_key :: "string option"
  vid_site :: "string option"
  vid_video_type :: "string option"
  vid_name :: "string option"
  vid_official :: bool
  vid_iso_639_1 :: "string option"
  vid_iso_3166_1 :: "string option"
  vid_published_at :: "string option"
  vid_video_size :: "nat option"

definition de_tmdb_video :: "json \<Rightarrow> tmdb_video option" where
  "de_tmdb_video v =
     (if \<not> is_object v then None else do {
       x1 \<leftarrow> de_default v ''key'' (de_option as_str) None;
       x2 \<leftarrow> de_default v ''site'' (de_option as_str) None;
       x3 \<leftarrow> de_default v ''type'' (de_option as_str) None;
       x4 \<leftarrow> de_default v ''name'' (de_option as_str) None;
       x5 \<leftarrow> de_default v ''official'' de_bool False;
       x6 \<leftarrow> de_default v ''iso_639_1'' (de_option as_str) None;
       x7 \<leftarrow> de_default v ''iso_3166_1'' (de_option as_str) None;
       x8 \<leftarrow> de_default v ''published_at'' (de_option as_str) None;
       x9 \<leftarrow> de_default v ''size'' (de_option (de_uint 65535)) None;
       Some \<lparr>vid_key = x1, vid_site = x2, vid_video_type = x3, vid_name = x4, vid_official = x5,
          vid_iso_639_1 = x6, vid_iso_3166_1 = x7, vid_published_at = x8, vid_video_size = x9\<rparr>})"

record tmdb_videos =
  vids_results :: "tmdb_video list"

definition no_tmdb_videos :: tmdb_videos where
  "no_tmdb_videos = \<lparr>vids_results = []\<rparr>"

definition de_tmdb_videos :: "json \<Rightarrow> tmdb_videos option" where
  "de_tmdb_videos v =
     (if \<not> is_object v then None else do {
       x1 \<leftarrow> de_default v ''results'' (de_array de_tmdb_video) [];
       Some \<lparr>vids_results = x1\<rparr>})"

record tmdb_translation_data =
  trd_title :: "string option"
  trd_name :: "string option"
  trd_overview :: "string option"
  trd_tagline :: "string option"
  trd_homepage :: "string option"

definition no_tmdb_translation_data :: tmdb_translation_data where
  "no_tmdb_translation_data = \<lparr>trd_title = None, trd_name = None, trd_overview = None, trd_tagline = None, trd_homepage = None\<rparr>"

definition de_tmdb_translation_data :: "json \<Rightarrow> tmdb_translation_data option" where
  "de_tmdb_translation_data v =
     (if \<not> is_object v then None else do {
       x1 \<leftarrow> de_default v ''title'' (de_option as_str) None;
       x2 \<leftarrow> de_default v ''name'' (de_option as_str) None;
       x3 \<leftarrow> de_default v ''overview'' (de_option as_str) None;
       x4 \<leftarrow> de_default v ''tagline'' (de_option as_str) None;
       x5 \<leftarrow> de_default v ''homepage'' (de_option as_str) None;
       Some \<lparr>trd_title = x1, trd_name = x2, trd_overview = x3, trd_tagline = x4, trd_homepage = x5\<rparr>})"

record tmdb_translation =
  trl_iso_639_1 :: "string option"
  trl_iso_3166_1 :: "string option"
  trl_data :: tmdb_translation_data

definition de_tmdb_translation :: "json \<Rightarrow> tmdb_translation option" where
  "de_tmdb_translation v =
     (if \<not> is_object v then None else do {
       x1 \<leftarrow> de_default v ''iso_639_1'' (de_option as_str) None;
       x2 \<leftarrow> de_default v ''iso_3166_1'' (de_option as_str) None;
       x3 \<leftarrow> de_default v ''data'' de_tmdb_translation_data no_tmdb_translation_data;
       Some \<lparr>trl_iso_639_1 = x1, trl_iso_3166_1 = x2, trl_data = x3\<rparr>})"

record tmdb_translations =
  trls_translations :: "tmdb_translation list"

definition no_tmdb_translations :: tmdb_translations where
  "no_tmdb_translations = \<lparr>trls_translations = []\<rparr>"

definition de_tmdb_translations :: "json \<Rightarrow> tmdb_translations option" where
  "de_tmdb_translations v =
     (if \<not> is_object v then None else do {
       x1 \<leftarrow> de_default v ''translations'' (de_array de_tmdb_translation) [];
       Some \<lparr>trls_translations = x1\<rparr>})"

record tmdb_alternate_title =
  alt_title :: "string option"
  alt_iso_3166_1 :: "string option"
  alt_title_type :: "string option"

definition de_tmdb_alternate_title :: "json \<Rightarrow> tmdb_alternate_title option" where
  "de_tmdb_alternate_title v =
     (if \<not> is_object v then None else do {
       x1 \<leftarrow> de_default v ''title'' (de_option as_str) None;
       x2 \<leftarrow> de_default v ''iso_3166_1'' (de_option as_str) None;
       x3 \<leftarrow> de_default v ''type'' (de_option as_str) None;
       Some \<lparr>alt_title = x1, alt_iso_3166_1 = x2, alt_title_type = x3\<rparr>})"

definition deserialize_alternate_titles :: "json \<Rightarrow> tmdb_alternate_title list option" where
  "deserialize_alternate_titles = de_wrapped_list ''titles'' ''results'' de_tmdb_alternate_title"


record tmdb_external_ids =
  ext_imdb_id :: "string option"
  ext_tvdb_id :: "string option"
  ext_wikidata_id :: "string option"
  ext_facebook_id :: "string option"
  ext_instagram_id :: "string option"
  ext_twitter_id :: "string option"

definition no_tmdb_external_ids :: tmdb_external_ids where
  "no_tmdb_external_ids = \<lparr>ext_imdb_id = None, ext_tvdb_id = None, ext_wikidata_id = None, ext_facebook_id = None, ext_instagram_id = None, ext_twitter_id = None\<rparr>"

definition de_tmdb_external_ids :: "json \<Rightarrow> tmdb_external_ids option" where
  "de_tmdb_external_ids v =
     (if \<not> is_object v then None else do {
       x1 \<leftarrow> de_default v ''imdb_id'' (de_option as_str) None;
       x2 \<leftarrow> de_default v ''tvdb_id'' deserialize_optional_numeric_identifier None;
       x3 \<leftarrow> de_default v ''wikidata_id'' (de_option as_str) None;
       x4 \<leftarrow> de_default v ''facebook_id'' (de_option as_str) None;
       x5 \<leftarrow> de_default v ''instagram_id'' (de_option as_str) None;
       x6 \<leftarrow> de_default v ''twitter_id'' (de_option as_str) None;
       Some \<lparr>ext_imdb_id = x1, ext_tvdb_id = x2, ext_wikidata_id = x3, ext_facebook_id = x4,
          ext_instagram_id = x5, ext_twitter_id = x6\<rparr>})"

record tmdb_release_date =
  rel_certification :: "string option"
  rel_release_date :: "string option"
  rel_release_type :: "nat option"
  rel_note :: "string option"

definition de_tmdb_release_date :: "json \<Rightarrow> tmdb_release_date option" where
  "de_tmdb_release_date v =
     (if \<not> is_object v then None else do {
       x1 \<leftarrow> de_default v ''certification'' (de_option as_str) None;
       x2 \<leftarrow> de_default v ''release_date'' (de_option as_str) None;
       x3 \<leftarrow> de_default v ''type'' (de_option (de_uint 255)) None;
       x4 \<leftarrow> de_default v ''note'' (de_option as_str) None;
       Some \<lparr>rel_certification = x1, rel_release_date = x2, rel_release_type = x3, rel_note = x4\<rparr>})"

record tmdb_release_date_country =
  relc_iso_3166_1 :: "string option"
  relc_release_dates :: "tmdb_release_date list"

definition de_tmdb_release_date_country :: "json \<Rightarrow> tmdb_release_date_country option" where
  "de_tmdb_release_date_country v =
     (if \<not> is_object v then None else do {
       x1 \<leftarrow> de_default v ''iso_3166_1'' (de_option as_str) None;
       x2 \<leftarrow> de_default v ''release_dates'' (de_array de_tmdb_release_date) [];
       Some \<lparr>relc_iso_3166_1 = x1, relc_release_dates = x2\<rparr>})"

record tmdb_release_dates =
  rels_results :: "tmdb_release_date_country list"

definition no_tmdb_release_dates :: tmdb_release_dates where
  "no_tmdb_release_dates = \<lparr>rels_results = []\<rparr>"

definition de_tmdb_release_dates :: "json \<Rightarrow> tmdb_release_dates option" where
  "de_tmdb_release_dates v =
     (if \<not> is_object v then None else do {
       x1 \<leftarrow> de_default v ''results'' (de_array de_tmdb_release_date_country) [];
       Some \<lparr>rels_results = x1\<rparr>})"

record tmdb_content_rating =
  rat_iso_3166_1 :: "string option"
  rat_rating :: "string option"

definition de_tmdb_content_rating :: "json \<Rightarrow> tmdb_content_rating option" where
  "de_tmdb_content_rating v =
     (if \<not> is_object v then None else do {
       x1 \<leftarrow> de_default v ''iso_3166_1'' (de_option as_str) None;
       x2 \<leftarrow> de_default v ''rating'' (de_option as_str) None;
       Some \<lparr>rat_iso_3166_1 = x1, rat_rating = x2\<rparr>})"

record tmdb_content_ratings =
  rats_results :: "tmdb_content_rating list"

definition no_tmdb_content_ratings :: tmdb_content_ratings where
  "no_tmdb_content_ratings = \<lparr>rats_results = []\<rparr>"

definition de_tmdb_content_ratings :: "json \<Rightarrow> tmdb_content_ratings option" where
  "de_tmdb_content_ratings v =
     (if \<not> is_object v then None else do {
       x1 \<leftarrow> de_default v ''results'' (de_array de_tmdb_content_rating) [];
       Some \<lparr>rats_results = x1\<rparr>})"

record tmdb_credit =
  cred_id :: nat
  cred_name :: "string option"
  cred_original_name :: "string option"
  cred_department :: "string option"
  cred_job :: "string option"
  cred_character :: "string option"
  cred_credit_id :: "string option"
  cred_order :: "int option"
  cred_total_episode_count :: "int option"
  cred_profile_path :: "string option"
  cred_adult :: bool
  cred_images :: tmdb_images

definition de_tmdb_credit :: "json \<Rightarrow> tmdb_credit option" where
  "de_tmdb_credit v =
     (if \<not> is_object v then None else do {
       x1 \<leftarrow> de_required v ''id'' as_u64;
       x2 \<leftarrow> de_default v ''name'' (de_option as_str) None;
       x3 \<leftarrow> de_default v ''original_name'' (de_option as_str) None;
       x4 \<leftarrow> de_default v ''department'' (de_option as_str) None;
       x5 \<leftarrow> de_default v ''job'' (de_option as_str) None;
       x6 \<leftarrow> de_default v ''character'' (de_option as_str) None;
       x7 \<leftarrow> de_default v ''credit_id'' (de_option as_str) None;
       x8 \<leftarrow> de_default v ''order'' (de_option de_int32) None;
       x9 \<leftarrow> de_default v ''total_episode_count'' (de_option de_int32) None;
       x10 \<leftarrow> de_default v ''profile_path'' (de_option as_str) None;
       x11 \<leftarrow> de_default v ''adult'' de_bool False;
       x12 \<leftarrow> de_default v ''images'' de_tmdb_images no_tmdb_images;
       Some \<lparr>cred_id = x1, cred_name = x2, cred_original_name = x3, cred_department = x4, cred_job = x5,
          cred_character = x6, cred_credit_id = x7, cred_order = x8, cred_total_episode_count = x9,
          cred_profile_path = x10, cred_adult = x11, cred_images = x12\<rparr>})"

record tmdb_credits =
  creds_cast :: "tmdb_credit list"
  creds_crew :: "tmdb_credit list"

definition no_tmdb_credits :: tmdb_credits where
  "no_tmdb_credits = \<lparr>creds_cast = [], creds_crew = []\<rparr>"

definition de_tmdb_credits :: "json \<Rightarrow> tmdb_credits option" where
  "de_tmdb_credits v =
     (if \<not> is_object v then None else do {
       x1 \<leftarrow> de_default v ''cast'' (de_array de_tmdb_credit) [];
       x2 \<leftarrow> de_default v ''crew'' (de_array de_tmdb_credit) [];
       Some \<lparr>creds_cast = x1, creds_crew = x2\<rparr>})"

record tmdb_genre =
  genre_id :: nat
  genre_name :: "string option"

definition de_tmdb_genre :: "json \<Rightarrow> tmdb_genre option" where
  "de_tmdb_genre v =
     (if \<not> is_object v then None else do {
       x1 \<leftarrow> de_required v ''id'' as_u64;
       x2 \<leftarrow> de_default v ''name'' (de_option as_str) None;
       Some \<lparr>genre_id = x1, genre_name = x2\<rparr>})"

record tmdb_keyword =
  kw_id :: nat
  kw_name :: "string option"

definition de_tmdb_keyword :: "json \<Rightarrow> tmdb_keyword option" where
  "de_tmdb_keyword v =
     (if \<not> is_object v then None else do {
       x1 \<leftarrow> de_required v ''id'' as_u64;
       x2 \<leftarrow> de_default v ''name'' (de_option as_str) None;
       Some \<lparr>kw_id = x1, kw_name = x2\<rparr>})"

definition deserialize_keywords :: "json \<Rightarrow> tmdb_keyword list option" where
  "deserialize_keywords = de_wrapped_list ''keywords'' ''results'' de_tmdb_keyword"


record tmdb_company =
  comp_id :: nat
  comp_name :: "string option"
  comp_logo_path :: "string option"
  comp_origin_country :: "string option"
  comp_images :: tmdb_images

definition de_tmdb_company :: "json \<Rightarrow> tmdb_company option" where
  "de_tmdb_company v =
     (if \<not> is_object v then None else do {
       x1 \<leftarrow> de_required v ''id'' as_u64;
       x2 \<leftarrow> de_default v ''name'' (de_option as_str) None;
       x3 \<leftarrow> de_default v ''logo_path'' (de_option as_str) None;
       x4 \<leftarrow> de_default v ''origin_country'' (de_option as_str) None;
       x5 \<leftarrow> de_default v ''images'' de_tmdb_images no_tmdb_images;
       Some \<lparr>comp_id = x1, comp_name = x2, comp_logo_path = x3, comp_origin_country = x4, comp_images = x5\<rparr>})"

record tmdb_network =
  nw_id :: nat
  nw_name :: "string option"
  nw_logo_path :: "string option"
  nw_origin_country :: "string option"
  nw_images :: tmdb_images

definition de_tmdb_network :: "json \<Rightarrow> tmdb_network option" where
  "de_tmdb_network v =
     (if \<not> is_object v then None else do {
       x1 \<leftarrow> de_required v ''id'' as_u64;
       x2 \<leftarrow> de_default v ''name'' (de_option as_str) None;
       x3 \<leftarrow> de_default v ''logo_path'' (de_option as_str) None;
       x4 \<leftarrow> de_default v ''origin_country'' (de_option as_str) None;
       x5 \<leftarrow> de_default v ''images'' de_tmdb_images no_tmdb_images;
       Some \<lparr>nw_id = x1, nw_name = x2, nw_logo_path = x3, nw_origin_country = x4, nw_images = x5\<rparr>})"

record tmdb_collection =
  coll_id :: nat
  coll_name :: "string option"
  coll_poster_path :: "string option"
  coll_backdrop_path :: "string option"
  coll_images :: tmdb_images

definition de_tmdb_collection :: "json \<Rightarrow> tmdb_collection option" where
  "de_tmdb_collection v =
     (if \<not> is_object v then None else do {
       x1 \<leftarrow> de_required v ''id'' as_u64;
       x2 \<leftarrow> de_default v ''name'' (de_option as_str) None;
       x3 \<leftarrow> de_default v ''poster_path'' (de_option as_str) None;
       x4 \<leftarrow> de_default v ''backdrop_path'' (de_option as_str) None;
       x5 \<leftarrow> de_default v ''images'' de_tmdb_images no_tmdb_images;
       Some \<lparr>coll_id = x1, coll_name = x2, coll_poster_path = x3, coll_backdrop_path = x4, coll_images = x5\<rparr>})"

record tmdb_season_summary =
  ssum_id :: nat
  ssum_season_number :: nat
  ssum_name :: "string option"
  ssum_overview :: "string option"
  ssum_air_date :: "string option"
  ssum_episode_count :: "nat option"
  ssum_poster_path :: "string option"

definition de_tmdb_season_summary :: "json \<Rightarrow> tmdb_season_summary option" where
  "de_tmdb_season_summary v =
     (if \<not> is_object v then None else do {
       x1 \<leftarrow> de_required v ''id'' as_u64;
       x2 \<leftarrow> de_required v ''season_number'' de_u32;
       x3 \<leftarrow> de_default v ''name'' (de_option as_str) None;
       x4 \<leftarrow> de_default v ''overview'' (de_option as_str) None;
       x5 \<leftarrow> de_default v ''air_date'' (de_option as_str) None;
       x6 \<leftarrow> de_default v ''episode_count'' (de_option (de_uint 65535)) None;
       x7 \<leftarrow> de_default v ''poster_path'' (de_option as_str) None;
       Some \<lparr>ssum_id = x1, ssum_season_number = x2, ssum_name = x3, ssum_overview = x4, ssum_air_date = x5,
          ssum_episode_count = x6, ssum_poster_path = x7\<rparr>})"

record tmdb_episode =
  epi_id :: nat
  epi_episode_number :: nat
  epi_name :: "string option"
  epi_overview :: "string option"
  epi_air_date :: "string option"
  epi_runtime :: "nat option"
  epi_still_path :: "string option"
  epi_vote_average :: "number option"
  epi_vote_count :: "nat option"
  epi_credits :: tmdb_credits
  epi_images :: tmdb_images

definition de_tmdb_episode :: "json \<Rightarrow> tmdb_episode option" where
  "de_tmdb_episode v =
     (if \<not> is_object v then None else do {
       x1 \<leftarrow> de_required v ''id'' as_u64;
       x2 \<leftarrow> de_required v ''episode_number'' (de_uint 65535);
       x3 \<leftarrow> de_default v ''name'' (de_option as_str) None;
       x4 \<leftarrow> de_default v ''overview'' (de_option as_str) None;
       x5 \<leftarrow> de_default v ''air_date'' (de_option as_str) None;
       x6 \<leftarrow> de_default v ''runtime'' (de_option (de_uint 65535)) None;
       x7 \<leftarrow> de_default v ''still_path'' (de_option as_str) None;
       x8 \<leftarrow> de_default v ''vote_average'' (de_option de_f64) None;
       x9 \<leftarrow> de_default v ''vote_count'' (de_option as_u64) None;
       x10 \<leftarrow> de_default v ''credits'' de_tmdb_credits no_tmdb_credits;
       x11 \<leftarrow> de_default v ''images'' de_tmdb_images no_tmdb_images;
       Some \<lparr>epi_id = x1, epi_episode_number = x2, epi_name = x3, epi_overview = x4, epi_air_date = x5,
          epi_runtime = x6, epi_still_path = x7, epi_vote_average = x8, epi_vote_count = x9,
          epi_credits = x10, epi_images = x11\<rparr>})"

record tmdb_season =
  sea_id :: nat
  sea_show_id :: "nat option"
  sea_season_number :: nat
  sea_name :: "string option"
  sea_overview :: "string option"
  sea_air_date :: "string option"
  sea_poster_path :: "string option"
  sea_images :: tmdb_images
  sea_episodes :: "tmdb_episode list"

definition de_tmdb_season :: "json \<Rightarrow> tmdb_season option" where
  "de_tmdb_season v =
     (if \<not> is_object v then None else do {
       x1 \<leftarrow> de_required v ''id'' as_u64;
       x2 \<leftarrow> de_default v ''show_id'' (de_option as_u64) None;
       x3 \<leftarrow> de_required v ''season_number'' de_u32;
       x4 \<leftarrow> de_default v ''name'' (de_option as_str) None;
       x5 \<leftarrow> de_default v ''overview'' (de_option as_str) None;
       x6 \<leftarrow> de_default v ''air_date'' (de_option as_str) None;
       x7 \<leftarrow> de_default v ''poster_path'' (de_option as_str) None;
       x8 \<leftarrow> de_default v ''images'' de_tmdb_images no_tmdb_images;
       x9 \<leftarrow> de_default v ''episodes'' (de_array de_tmdb_episode) [];
       Some \<lparr>sea_id = x1, sea_show_id = x2, sea_season_number = x3, sea_name = x4, sea_overview = x5,
          sea_air_date = x6, sea_poster_path = x7, sea_images = x8, sea_episodes = x9\<rparr>})"

record tmdb_movie =
  mov_id :: nat
  mov_title :: "string option"
  mov_original_title :: "string option"
  mov_overview :: "string option"
  mov_original_language :: "string option"
  mov_release_date :: "string option"
  mov_poster_path :: "string option"
  mov_backdrop_path :: "string option"
  mov_runtime :: "nat option"
  mov_popularity :: "number option"
  mov_vote_average :: "number option"
  mov_vote_count :: "nat option"
  mov_keywords :: "tmdb_keyword list"
  mov_genres :: "tmdb_genre list"
  mov_production_companies :: "tmdb_company list"
  mov_belongs_to_collection :: "tmdb_collection option"
  mov_credits :: tmdb_credits
  mov_translations :: tmdb_translations
  mov_alternate_titles :: "tmdb_alternate_title list"
  mov_external_ids :: tmdb_external_ids
  mov_videos :: tmdb_videos
  mov_images :: tmdb_images
  mov_release_dates :: tmdb_release_dates

definition de_tmdb_movie :: "json \<Rightarrow> tmdb_movie option" where
  "de_tmdb_movie v =
     (if \<not> is_object v then None else do {
       x1 \<leftarrow> de_required v ''id'' as_u64;
       x2 \<leftarrow> de_default v ''title'' (de_option as_str) None;
       x3 \<leftarrow> de_default v ''original_title'' (de_option as_str) None;
       x4 \<leftarrow> de_default v ''overview'' (de_option as_str) None;
       x5 \<leftarrow> de_default v ''original_language'' (de_option as_str) None;
       x6 \<leftarrow> de_default v ''release_date'' (de_option as_str) None;
       x7 \<leftarrow> de_default v ''poster_path'' (de_option as_str) None;
       x8 \<leftarrow> de_default v ''backdrop_path'' (de_option as_str) None;
       x9 \<leftarrow> de_default v ''runtime'' (de_option (de_uint 65535)) None;
       x10 \<leftarrow> de_default v ''popularity'' (de_option de_f64) None;
       x11 \<leftarrow> de_default v ''vote_average'' (de_option de_f64) None;
       x12 \<leftarrow> de_default v ''vote_count'' (de_option as_u64) None;
       x13 \<leftarrow> de_default v ''keywords'' deserialize_keywords [];
       x14 \<leftarrow> de_default v ''genres'' (de_array de_tmdb_genre) [];
       x15 \<leftarrow> de_default v ''production_companies'' (de_array de_tmdb_company) [];
       x16 \<leftarrow> de_default v ''belongs_to_collection'' (de_option de_tmdb_collection) None;
       x17 \<leftarrow> de_default v ''credits'' de_tmdb_credits no_tmdb_credits;
       x18 \<leftarrow> de_default v ''translations'' de_tmdb_translations no_tmdb_translations;
       x19 \<leftarrow> de_default v ''alternate_titles'' deserialize_alternate_titles [];
       x20 \<leftarrow> de_default v ''external_ids'' de_tmdb_external_ids no_tmdb_external_ids;
       x21 \<leftarrow> de_default v ''videos'' de_tmdb_videos no_tmdb_videos;
       x22 \<leftarrow> de_default v ''images'' de_tmdb_images no_tmdb_images;
       x23 \<leftarrow> de_default v ''release_dates'' de_tmdb_release_dates no_tmdb_release_dates;
       Some \<lparr>mov_id = x1, mov_title = x2, mov_original_title = x3, mov_overview = x4,
          mov_original_language = x5, mov_release_date = x6, mov_poster_path = x7, mov_backdrop_path = x8,
          mov_runtime = x9, mov_popularity = x10, mov_vote_average = x11, mov_vote_count = x12,
          mov_keywords = x13, mov_genres = x14, mov_production_companies = x15,
          mov_belongs_to_collection = x16, mov_credits = x17, mov_translations = x18,
          mov_alternate_titles = x19, mov_external_ids = x20, mov_videos = x21, mov_images = x22,
          mov_release_dates = x23\<rparr>})"

record tmdb_tv =
  ser_id :: nat
  ser_name :: "string option"
  ser_original_name :: "string option"
  ser_overview :: "string option"
  ser_original_language :: "string option"
  ser_first_air_date :: "string option"
  ser_poster_path :: "string option"
  ser_backdrop_path :: "string option"
  ser_number_of_episodes :: "nat option"
  ser_number_of_seasons :: "nat option"
  ser_popularity :: "number option"
  ser_vote_average :: "number option"
  ser_vote_count :: "nat option"
  ser_genres :: "tmdb_genre list"
  ser_keywords :: "tmdb_keyword list"
  ser_production_companies :: "tmdb_company list"
  ser_networks :: "tmdb_network list"
  ser_seasons :: "tmdb_season_summary list"
  ser_credits :: tmdb_credits
  ser_translations :: tmdb_translations
  ser_alternate_titles :: "tmdb_alternate_title list"
  ser_external_ids :: tmdb_external_ids
  ser_videos :: tmdb_videos
  ser_images :: tmdb_images
  ser_content_ratings :: tmdb_content_ratings

definition de_tmdb_tv :: "json \<Rightarrow> tmdb_tv option" where
  "de_tmdb_tv v =
     (if \<not> is_object v then None else do {
       x1 \<leftarrow> de_required v ''id'' as_u64;
       x2 \<leftarrow> de_default v ''name'' (de_option as_str) None;
       x3 \<leftarrow> de_default v ''original_name'' (de_option as_str) None;
       x4 \<leftarrow> de_default v ''overview'' (de_option as_str) None;
       x5 \<leftarrow> de_default v ''original_language'' (de_option as_str) None;
       x6 \<leftarrow> de_default v ''first_air_date'' (de_option as_str) None;
       x7 \<leftarrow> de_default v ''poster_path'' (de_option as_str) None;
       x8 \<leftarrow> de_default v ''backdrop_path'' (de_option as_str) None;
       x9 \<leftarrow> de_default v ''number_of_episodes'' (de_option de_u32) None;
       x10 \<leftarrow> de_default v ''number_of_seasons'' (de_option (de_uint 65535)) None;
       x11 \<leftarrow> de_default v ''popularity'' (de_option de_f64) None;
       x12 \<leftarrow> de_default v ''vote_average'' (de_option de_f64) None;
       x13 \<leftarrow> de_default v ''vote_count'' (de_option as_u64) None;
       x14 \<leftarrow> de_default v ''genres'' (de_array de_tmdb_genre) [];
       x15 \<leftarrow> de_default v ''keywords'' deserialize_keywords [];
       x16 \<leftarrow> de_default v ''production_companies'' (de_array de_tmdb_company) [];
       x17 \<leftarrow> de_default v ''networks'' (de_array de_tmdb_network) [];
       x18 \<leftarrow> de_default v ''seasons'' (de_array de_tmdb_season_summary) [];
       x19 \<leftarrow> de_default v ''credits'' de_tmdb_credits no_tmdb_credits;
       x20 \<leftarrow> de_default v ''translations'' de_tmdb_translations no_tmdb_translations;
       x21 \<leftarrow> de_default v ''alternate_titles'' deserialize_alternate_titles [];
       x22 \<leftarrow> de_default v ''external_ids'' de_tmdb_external_ids no_tmdb_external_ids;
       x23 \<leftarrow> de_default v ''videos'' de_tmdb_videos no_tmdb_videos;
       x24 \<leftarrow> de_default v ''images'' de_tmdb_images no_tmdb_images;
       x25 \<leftarrow> de_default v ''content_ratings'' de_tmdb_content_ratings no_tmdb_content_ratings;
       Some \<lparr>ser_id = x1, ser_name = x2, ser_original_name = x3, ser_overview = x4,
          ser_original_language = x5, ser_first_air_date = x6, ser_poster_path = x7,
          ser_backdrop_path = x8, ser_number_of_episodes = x9, ser_number_of_seasons = x10,
          ser_popularity = x11, ser_vote_average = x12, ser_vote_count = x13, ser_genres = x14,
          ser_keywords = x15, ser_production_companies = x16, ser_networks = x17, ser_seasons = x18,
          ser_credits = x19, ser_translations = x20, ser_alternate_titles = x21, ser_external_ids = x22,
          ser_videos = x23, ser_images = x24, ser_content_ratings = x25\<rparr>})"

record tmdb_trending_item =
  trend_id :: nat
  trend_popularity :: "number option"

definition de_tmdb_trending_item :: "json \<Rightarrow> tmdb_trending_item option" where
  "de_tmdb_trending_item v =
     (if \<not> is_object v then None else do {
       x1 \<leftarrow> de_required v ''id'' as_u64;
       x2 \<leftarrow> de_default v ''popularity'' (de_option de_f64) None;
       Some \<lparr>trend_id = x1, trend_popularity = x2\<rparr>})"

record tmdb_trending_page =
  trends_page :: nat
  trends_total_pages :: nat
  trends_results :: "tmdb_trending_item list"

definition de_tmdb_trending_page :: "json \<Rightarrow> tmdb_trending_page option" where
  "de_tmdb_trending_page v =
     (if \<not> is_object v then None else do {
       x1 \<leftarrow> de_default v ''page'' de_u32 0;
       x2 \<leftarrow> de_default v ''total_pages'' de_u32 0;
       x3 \<leftarrow> de_default v ''results'' (de_array de_tmdb_trending_item) [];
       Some \<lparr>trends_page = x1, trends_total_pages = x2, trends_results = x3\<rparr>})"

record tmdb_changed_id =
  chg_id :: nat
  chg_adult :: bool
  chg_video :: bool
  chg_popularity :: "number option"

definition de_tmdb_changed_id :: "json \<Rightarrow> tmdb_changed_id option" where
  "de_tmdb_changed_id v =
     (if \<not> is_object v then None else do {
       x1 \<leftarrow> de_required v ''id'' as_u64;
       x2 \<leftarrow> de_default v ''adult'' deserialize_bool_or_false False;
       x3 \<leftarrow> de_default v ''video'' deserialize_bool_or_false False;
       x4 \<leftarrow> de_default v ''popularity'' (de_option de_f64) None;
       Some \<lparr>chg_id = x1, chg_adult = x2, chg_video = x3, chg_popularity = x4\<rparr>})"

record tmdb_change_page =
  chgs_results :: "tmdb_changed_id list"
  chgs_page :: nat
  chgs_total_pages :: nat
  chgs_total_results :: "nat option"

definition de_tmdb_change_page :: "json \<Rightarrow> tmdb_change_page option" where
  "de_tmdb_change_page v =
     (if \<not> is_object v then None else do {
       x1 \<leftarrow> de_default v ''results'' (de_array de_tmdb_changed_id) [];
       x2 \<leftarrow> de_required v ''page'' de_u32;
       x3 \<leftarrow> de_default v ''total_pages'' de_u32 0;
       x4 \<leftarrow> de_default v ''total_results'' (de_option de_u32) None;
       Some \<lparr>chgs_results = x1, chgs_page = x2, chgs_total_pages = x3, chgs_total_results = x4\<rparr>})"

section \<open>Members the decoders read\<close>

text \<open>
  The appended documents are requested as \<open>alternative_titles\<close>, and that is the name under which they arrive; the field
  is called \<open>alternate_titles\<close> and has no other name.
\<close>

lemma json_get_other: "k \<noteq> k' \<Longrightarrow> json_get (JObj (a @ (k, x) # b)) k' = json_get (JObj (a @ b)) k'"
  by (simp add: map_add_def split: option.splits)

lemma decode_other:
  assumes "k \<noteq> k'"
  shows "de_default (JObj (a @ (k, x) # b)) k' d z = de_default (JObj (a @ b)) k' d z"
    and "de_required (JObj (a @ (k, x) # b)) k' d = de_required (JObj (a @ b)) k' d"
  using json_get_other [OF assms, of a x b] by (simp_all add: de_default_def de_required_def del: json_get.simps)


text \<open>Keywords are read from both shapes the API uses.\<close>

lemma keywords_shapes:
  "deserialize_keywords (JObj [(''id'', i), (''keywords'', JArr xs)]) = de_array de_tmdb_keyword (JArr xs)"
  "deserialize_keywords (JObj [(''id'', i), (''results'', JArr xs)]) = de_array de_tmdb_keyword (JArr xs)"
  "deserialize_keywords (JArr xs) = de_array de_tmdb_keyword (JArr xs)" "deserialize_keywords JNull = Some []"
  by (simp_all add: deserialize_keywords_def de_wrapped_list_def is_object_def)

end
