(* ===== verification/Catalog_Locks.thy ===== *)
theory Catalog_Locks
  imports Tmdb_Model Ingest_Submission "HOL-Library.Countable"
begin

text \<open>
  The advisory locks a catalog write takes before it writes: \<open>src/apps/tmdb-ingest/src/catalog_locks.rs\<close>,
  \<open>ops.lock_catalog_write_resources\<close> of \<open>0020_catalog_write_resource_locks.sql\<close>, and the checks of
  \<open>src/apps/tmdb-ingest/src/jobs.rs\<close> that both use. A set of resources is the list of its insertions. The order of
  the database's collation, the hash of a resource and the parsing of dates are fields of \<open>catalog_lib\<close>; a statement may
  fail. Transactions that lock are a transition system.
\<close>

section \<open>Checked values\<close>

record catalog_lib =
  parse_ymd :: "string \<Rightarrow> int option"
  parse_rfc3339 :: "string \<Rightarrow> int option"
  collation :: "string \<Rightarrow> int"
  lock_hash :: "string \<Rightarrow> int"

definition source_id :: "nat \<Rightarrow> job_execution_error + int" where
  "source_id raw =
     (if raw > i64_max then Inl invalid_payload
      else if 0 < raw then Inr (int raw) else Inl invalid_payload)"

definition trimmed_text :: "string option \<Rightarrow> string option" where
  "trimmed_text value =
     (case value of None \<Rightarrow> None | Some s \<Rightarrow> if trim s = [] then None else Some (trim s))"

definition parse_source_date :: "catalog_lib \<Rightarrow> string option \<Rightarrow> job_execution_error + int option" where
  "parse_source_date lib value =
     (case trimmed_text value of
        None \<Rightarrow> Inr None
      | Some s \<Rightarrow> (case parse_ymd lib s of Some d \<Rightarrow> Inr (Some d) | None \<Rightarrow> Inl invalid_payload))"

definition normalize_language :: "string \<Rightarrow> job_execution_error + string" where
  "normalize_language value =
     (let s = to_ascii_lowercase (trim value)
      in if \<not> (2 \<le> length s \<and> length s \<le> 3) \<or> \<not> list_all is_alpha s then Inl invalid_payload else Inr s)"

section \<open>Resources\<close>

definition title_resource :: "string \<Rightarrow> int \<Rightarrow> string" where
  "title_resource media i = ''catalog:title:'' @ media @ '':'' @ dec_int i"

definition resource :: "string \<Rightarrow> int \<Rightarrow> string" where
  "resource kind i = ''catalog:'' @ kind @ '':'' @ dec_int i"

fun validate_source_ids :: "nat list \<Rightarrow> job_execution_error + unit" where
  "validate_source_ids [] = Inr ()"
| "validate_source_ids (i # is) = bindR (source_id i) (\<lambda>_. validate_source_ids is)"

definition validate_credit_ids :: "tmdb_credits \<Rightarrow> job_execution_error + unit" where
  "validate_credit_ids credits = validate_source_ids (map cred_id (creds_cast credits @ creds_crew credits))"

definition validate_language :: "string option \<Rightarrow> job_execution_error + unit" where
  "validate_language language =
     (case trimmed_text language of
        None \<Rightarrow> Inr ()
      | Some s \<Rightarrow> mapR (\<lambda>_. ()) (normalize_language s))"

definition insert_source_resource :: "string \<Rightarrow> nat \<Rightarrow> job_execution_error + string" where
  "insert_source_resource kind raw = mapR (resource kind) (source_id raw)"

definition insert_episode_resource :: "tmdb_episode \<Rightarrow> job_execution_error + string" where
  "insert_episode_resource episode =
     bindR (insert_source_resource ''episode'' (epi_id episode)) (\<lambda>r.
     bindR (validate_credit_ids (epi_credits episode)) (\<lambda>_. Inr r))"

definition insert_season_resources :: "tmdb_season_summary list \<Rightarrow> job_execution_error + string list" where
  "insert_season_resources seasons = collectR (map (\<lambda>s. insert_source_resource ''season'' (ssum_id s)) seasons)"

definition movie_write_resources :: "tmdb_movie \<Rightarrow> int \<Rightarrow> job_execution_error + string list" where
  "movie_write_resources movie tmdb_id =
     bindR (validate_source_ids (map genre_id (mov_genres movie))) (\<lambda>_.
     bindR (validate_source_ids (map kw_id (mov_keywords movie))) (\<lambda>_.
     bindR (validate_credit_ids (mov_credits movie)) (\<lambda>_.
     bindR (validate_source_ids (map comp_id (mov_production_companies movie))) (\<lambda>_.
     bindR (validate_language (mov_original_language movie)) (\<lambda>_.
     bindR (case mov_belongs_to_collection movie of None \<Rightarrow> Inr 0 | Some c \<Rightarrow> source_id (coll_id c)) (\<lambda>_.
     Inr [title_resource ''movie'' tmdb_id]))))))"

definition tv_write_resources :: "tmdb_tv \<Rightarrow> int \<Rightarrow> job_execution_error + string list" where
  "tv_write_resources series tmdb_id =
     bindR (validate_source_ids (map genre_id (ser_genres series))) (\<lambda>_.
     bindR (validate_source_ids (map kw_id (ser_keywords series))) (\<lambda>_.
     bindR (validate_credit_ids (ser_credits series)) (\<lambda>_.
     bindR (insert_season_resources (ser_seasons series)) (\<lambda>seasons.
     bindR (validate_source_ids (map comp_id (ser_production_companies series))) (\<lambda>_.
     bindR (validate_source_ids (map nw_id (ser_networks series))) (\<lambda>_.
     bindR (validate_language (ser_original_language series)) (\<lambda>_.
     Inr (title_resource ''tv'' tmdb_id # seasons))))))))"

definition season_write_resources :: "int \<Rightarrow> tmdb_season \<Rightarrow> int \<Rightarrow> job_execution_error + string list" where
  "season_write_resources tv_id season season_id =
     bindR (collectR (map insert_episode_resource (sea_episodes season))) (\<lambda>episodes.
     Inr (title_resource ''tv'' tv_id # resource ''season'' season_id # episodes))"

definition changes_write_resources :: "media_type \<Rightarrow> tmdb_change_page \<Rightarrow> job_execution_error + string list" where
  "changes_write_resources media page =
     collectR (map (\<lambda>c. mapR (title_resource (media_type_as_str media)) (source_id (chg_id c))) (chgs_results page))"

section \<open>The statements of a lock\<close>

text \<open>\<open>ops.lock_catalog_write_resources\<close>: the advisory locks it asks for, in order.\<close>

definition lock_sequence :: "catalog_lib \<Rightarrow> string list \<Rightarrow> string list" where
  "lock_sequence lib keys = sort_key (collation lib) (remdups (filter (\<lambda>k. k \<noteq> []) keys))"

definition lock_catalog_write_resources :: "catalog_lib \<Rightarrow> string list \<Rightarrow> int list" where
  "lock_catalog_write_resources lib keys = map (lock_hash lib) (lock_sequence lib keys)"

text \<open>What the session sees: its two timeouts, and the locks it holds with the timeouts they were taken under.\<close>

record lock_session =
  statement_timeout :: string
  lock_timeout :: string
  held :: "(int \<times> string \<times> string) list"

definition set_local_setting :: "bool \<Rightarrow> (lock_session \<Rightarrow> lock_session) \<Rightarrow> lock_session \<Rightarrow> (job_execution_error + unit) \<times> lock_session" where
  "set_local_setting answered update s = (if answered then (Inr (), update s) else (Inl database_retry, s))"

text \<open>\<open>answered k\<close>: whether the \<open>k\<close>-th of its six statements succeeds.\<close>

definition prelock_catalog_write_resources ::
    "catalog_lib \<Rightarrow> (nat \<Rightarrow> bool) \<Rightarrow> string list \<Rightarrow> lock_session \<Rightarrow> (job_execution_error + unit) \<times> lock_session" where
  "prelock_catalog_write_resources lib answered resources s =
     (if resources = [] then (Inr (), s)
      else if \<not> answered 0 then (Inl database_retry, s)
      else
        let st = statement_timeout s; lt = lock_timeout s
        in case set_local_setting (answered 1) (lock_timeout_update (\<lambda>_. ''0'')) s of
          (Inl e, s) \<Rightarrow> (Inl e, s)
        | (Inr _, s) \<Rightarrow>
            (case set_local_setting (answered 2) (statement_timeout_update (\<lambda>_. ''0'')) s of
               (Inl e, s) \<Rightarrow> (Inl e, s)
             | (Inr _, s) \<Rightarrow>
                 if \<not> answered 3 then (Inl database_retry, s)
                 else
                   let s = s\<lparr>held := held s @ map (\<lambda>l. (l, statement_timeout s, lock_timeout s))
                                                (lock_catalog_write_resources lib resources)\<rparr>
                   in case set_local_setting (answered 4) (statement_timeout_update (\<lambda>_. st)) s of
                     (Inl e, s) \<Rightarrow> (Inl e, s)
                   | (Inr _, s) \<Rightarrow> set_local_setting (answered 5) (lock_timeout_update (\<lambda>_. lt)) s))"

text \<open>After the lock the session has its own timeouts again, and every lock was awaited without one.\<close>

lemma prelock_session:
  assumes "prelock_catalog_write_resources lib answered resources s = (Inr (), s')"
  shows "statement_timeout s' = statement_timeout s \<and> lock_timeout s' = lock_timeout s \<and>
    held s' = held s @ map (\<lambda>l. (l, ''0'', ''0'')) (if resources = [] then [] else lock_catalog_write_resources lib resources)"
  using assms by (auto simp: prelock_catalog_write_resources_def set_local_setting_def Let_def split: if_splits)

section \<open>Transactions that wait for each other\<close>

text \<open>
  The owner of each advisory lock, and what each open transaction still asks for. A lock is owned until the end of the
  transaction, and a transaction may ask again for a lock it owns.
\<close>

record lock_state =
  lk_owner :: "int \<Rightarrow> nat option"
  lk_wants :: "nat \<Rightarrow> string list option"

definition no_locks :: lock_state where
  "no_locks = \<lparr>lk_owner = (\<lambda>l. None), lk_wants = (\<lambda>t. None)\<rparr>"

definition release :: "nat \<Rightarrow> lock_state \<Rightarrow> lock_state" where
  "release t s =
     \<lparr>lk_owner = (\<lambda>l. if lk_owner s l = Some t then None else lk_owner s l), lk_wants = (lk_wants s)(t := None)\<rparr>"

definition acquire :: "catalog_lib \<Rightarrow> nat \<Rightarrow> string \<Rightarrow> string list \<Rightarrow> lock_state \<Rightarrow> lock_state" where
  "acquire lib t k ks s =
     \<lparr>lk_owner = (lk_owner s)(lock_hash lib k \<mapsto> t), lk_wants = (lk_wants s)(t \<mapsto> ks)\<rparr>"

inductive lock_step :: "catalog_lib \<Rightarrow> lock_state \<Rightarrow> lock_state \<Rightarrow> bool" for lib where
  opened: "lk_wants s t = None \<Longrightarrow> lock_step lib s (s\<lparr>lk_wants := (lk_wants s)(t \<mapsto> lock_sequence lib keys)\<rparr>)"
| granted: "lk_wants s t = Some (k # ks) \<Longrightarrow> lk_owner s (lock_hash lib k) \<in> {None, Some t} \<Longrightarrow>
    lock_step lib s (acquire lib t k ks s)"
| closed: "lk_wants s t = Some ks \<Longrightarrow> lock_step lib s (release t s)"

text \<open>A transaction that has its locks can go on to its end; one that asks for a lock needs it free.\<close>

definition can_move :: "catalog_lib \<Rightarrow> lock_state \<Rightarrow> nat \<Rightarrow> bool" where
  "can_move lib s t \<longleftrightarrow>
     (case lk_wants s t of
        None \<Rightarrow> False
      | Some [] \<Rightarrow> True
      | Some (k # _) \<Rightarrow> lk_owner s (lock_hash lib k) \<in> {None, Some t})"

definition waits_for :: "catalog_lib \<Rightarrow> lock_state \<Rightarrow> nat \<Rightarrow> nat \<Rightarrow> bool" where
  "waits_for lib s t t' \<longleftrightarrow>
     (\<exists>k ks. lk_wants s t = Some (k # ks) \<and> lk_owner s (lock_hash lib k) = Some t' \<and> t' \<noteq> t)"

abbreviation before :: "catalog_lib \<Rightarrow> string \<Rightarrow> string \<Rightarrow> bool" where
  "before lib a b \<equiv> collation lib a < collation lib b"

definition lock_inv :: "catalog_lib \<Rightarrow> lock_state \<Rightarrow> bool" where
  "lock_inv lib s \<longleftrightarrow>
     finite (dom (lk_wants s)) \<and>
     (\<forall>t ks. lk_wants s t = Some ks \<longrightarrow> sorted_wrt (before lib) ks) \<and>
     (\<forall>l t. lk_owner s l = Some t \<longrightarrow>
        (\<exists>k ks. lk_wants s t = Some ks \<and> lock_hash lib k = l \<and> (\<forall>k'\<in>set ks. before lib k k')))"

lemma lock_sequence_sorted:
  assumes "inj (collation lib)"
  shows "sorted_wrt (before lib) (lock_sequence lib keys)"
proof -
  have "sorted (map (collation lib) (lock_sequence lib keys))" "distinct (map (collation lib) (lock_sequence lib keys))"
    using assms by (simp_all add: lock_sequence_def distinct_map inj_on_def)
  then show ?thesis by (simp add: strict_sorted_iff sorted_wrt_map flip: sorted_wrt_map)
qed

lemma lock_step_inv:
  assumes "lock_step lib s s'" "lock_inv lib s" "inj (collation lib)"
  shows "lock_inv lib s'"
  using assms(1)
proof cases
  case (opened t keys)
  have own: "\<exists>k' ks'. lk_wants s' u = Some ks' \<and> lock_hash lib k' = l \<and> (\<forall>x\<in>set ks'. before lib k' x)"
    if "lk_owner s' l = Some u" for l u
  proof -
    have "lk_owner s l = Some u" using opened(1) that by simp
    then obtain k' ks' where o: "lk_wants s u = Some ks'" "lock_hash lib k' = l" "\<forall>x\<in>set ks'. before lib k' x"
      using assms(2) unfolding lock_inv_def by blast
    then have "u \<noteq> t" using opened(2) by auto
    then show ?thesis using o opened(1) by auto
  qed
  show ?thesis
    using own assms(2) opened(1) lock_sequence_sorted [OF assms(3), of keys] unfolding lock_inv_def by auto
next
  case (granted t k ks)
  have keys: "sorted_wrt (before lib) (k # ks)" using granted(2) assms(2) unfolding lock_inv_def by blast
  have own: "\<exists>k' ks'. lk_wants s' u = Some ks' \<and> lock_hash lib k' = l \<and> (\<forall>x\<in>set ks'. before lib k' x)"
    if "lk_owner s' l = Some u" for l u
  proof (cases "l = lock_hash lib k")
    case True
    have "\<forall>x\<in>set ks. before lib k x" using keys by simp
    moreover have "u = t" "lk_wants s' t = Some ks" using True granted(1) that by (simp_all add: acquire_def)
    ultimately show ?thesis using True by blast
  next
    case False
    then have "lk_owner s l = Some u" using granted(1) that by (simp add: acquire_def)
    then obtain k' ks' where "lk_wants s u = Some ks'" "lock_hash lib k' = l" "\<forall>x\<in>set ks'. before lib k' x"
      using assms(2) unfolding lock_inv_def by blast
    then show ?thesis using granted(1,2) by (cases "u = t") (auto simp: acquire_def)
  qed
  show ?thesis
    using own assms(2) granted(1,2) keys unfolding lock_inv_def by (auto simp: acquire_def)
next
  case (closed t ks)
  have own: "\<exists>k' ks'. lk_wants s' u = Some ks' \<and> lock_hash lib k' = l \<and> (\<forall>x\<in>set ks'. before lib k' x)"
    if "lk_owner s' l = Some u" for l u
  proof -
    have u: "lk_owner s l = Some u" "u \<noteq> t" using closed(1) that by (auto simp: release_def split: if_splits)
    then obtain k' ks' where "lk_wants s u = Some ks'" "lock_hash lib k' = l" "\<forall>x\<in>set ks'. before lib k' x"
      using assms(2) unfolding lock_inv_def by blast
    then show ?thesis using u(2) closed(1) by (auto simp: release_def)
  qed
  show ?thesis
    using own assms(2) closed(1) unfolding lock_inv_def by (auto simp: release_def)
qed

lemma lock_steps_inv:
  assumes "(lock_step lib)\<^sup>*\<^sup>* no_locks s" "inj (collation lib)"
  shows "lock_inv lib s"
  using assms(1)
proof (induction rule: rtranclp_induct)
  case base
  show ?case by (simp add: lock_inv_def no_locks_def)
next
  case (step y z)
  then show ?case using lock_step_inv assms(2) by blast
qed


section \<open>Examples\<close>

definition demo_lock_lib :: catalog_lib where
  "demo_lock_lib =
     \<lparr>parse_ymd = (\<lambda>s. None), parse_rfc3339 = (\<lambda>s. None), collation = (\<lambda>s. int (to_nat s)), lock_hash = (\<lambda>s. int (to_nat s))\<rparr>"

definition demo_locks :: lock_state where
  "demo_locks = no_locks\<lparr>lk_wants := (lk_wants no_locks)(1 \<mapsto> lock_sequence demo_lock_lib [''catalog:title:tv:7''])\<rparr>"


text \<open>
  A comment in the migration says that a collision of hashes only serializes unrelated writes. It can also deadlock the
  writes of one show: a season with its episode, and the show itself, when the episode and the show share a hash.
\<close>

definition collision_lib :: catalog_lib where
  "collision_lib = demo_lock_lib\<lparr>
     collation := (\<lambda>s. if s = ''catalog:episode:1'' then 1 else if s = ''catalog:season:5'' then 2 else 3),
     lock_hash := (\<lambda>s. if s = ''catalog:season:5'' then 1 else 0)\<rparr>"

definition demo_season_json :: json where
  "demo_season_json = JObj [(''id'', JInt 5), (''season_number'', JInt 1),
     (''episodes'', JArr [JObj [(''id'', JInt 1), (''episode_number'', JInt 1)]])]"

definition demo_series_json :: json where
  "demo_series_json = JObj [(''id'', JInt 7), (''seasons'', JArr [JObj [(''id'', JInt 5), (''season_number'', JInt 1)]])]"

lemma demo_digit_chars: "char_of (55::nat) = CHR ''7''" "char_of (53::nat) = CHR ''5''" "char_of (49::nat) = CHR ''1''"
  by code_simp+

lemma demo_resources:
  "bindR (ok_or invalid_payload (de_tmdb_season demo_season_json)) (\<lambda>s. season_write_resources 7 s 5) =
     Inr [''catalog:title:tv:7'', ''catalog:season:5'', ''catalog:episode:1'']"
  "bindR (ok_or invalid_payload (de_tmdb_tv demo_series_json)) (\<lambda>s. tv_write_resources s 7) =
     Inr [''catalog:title:tv:7'', ''catalog:season:5'']"
  by (simp_all add: demo_season_json_def demo_series_json_def de_tmdb_season_def de_tmdb_tv_def de_tmdb_episode_def
      de_tmdb_season_summary_def is_object_def de_required_def de_default_def de_option_def de_array_def de_u32_def de_uint_def
      season_write_resources_def tv_write_resources_def insert_episode_resource_def insert_source_resource_def
      insert_season_resources_def source_id_def title_resource_def resource_def validate_credit_ids_def validate_language_def
      trimmed_text_def no_tmdb_credits_def dec_int_def dec_digit digit_char_def demo_digit_chars)

lemma demo_sequences:
  "lock_sequence collision_lib [''catalog:title:tv:7'', ''catalog:season:5'', ''catalog:episode:1''] =
     [''catalog:episode:1'', ''catalog:season:5'', ''catalog:title:tv:7'']"
  "lock_sequence collision_lib [''catalog:title:tv:7'', ''catalog:season:5''] = [''catalog:season:5'', ''catalog:title:tv:7'']"
  by (simp_all add: lock_sequence_def collision_lib_def)

lemma hash_collision_deadlock:
  "\<exists>s. (lock_step collision_lib)\<^sup>*\<^sup>* no_locks s \<and> waits_for collision_lib s 1 2 \<and> waits_for collision_lib s 2 1"
proof -
  let ?e = "''catalog:episode:1''" and ?s = "''catalog:season:5''" and ?t = "''catalog:title:tv:7''"
  let ?w1 = "no_locks\<lparr>lk_wants := (lk_wants no_locks)(1 \<mapsto> [?e, ?s, ?t])\<rparr>"
  let ?w2 = "?w1\<lparr>lk_wants := (lk_wants ?w1)(2 \<mapsto> [?s, ?t])\<rparr>"
  let ?w3 = "acquire collision_lib 1 ?e [?s, ?t] ?w2"
  let ?w4 = "acquire collision_lib 2 ?s [?t] ?w3"
  have "lock_step collision_lib no_locks ?w1"
    using lock_step.opened [of no_locks 1 collision_lib "[?t, ?s, ?e]"] unfolding demo_sequences by (simp add: no_locks_def)
  moreover have "lock_step collision_lib ?w1 ?w2"
    using lock_step.opened [of ?w1 2 collision_lib "[?t, ?s]"] unfolding demo_sequences by (simp add: no_locks_def)
  moreover have "lock_step collision_lib ?w2 ?w3"
    by (rule lock_step.granted) (simp_all add: no_locks_def)
  moreover have "lock_step collision_lib ?w3 ?w4"
    by (rule lock_step.granted) (simp_all add: no_locks_def acquire_def collision_lib_def)
  ultimately have "(lock_step collision_lib)\<^sup>*\<^sup>* no_locks ?w4" by (meson converse_rtranclp_into_rtranclp rtranclp.rtrancl_refl)
  moreover have "waits_for collision_lib ?w4 1 2" "waits_for collision_lib ?w4 2 1"
    by (simp_all add: waits_for_def acquire_def collision_lib_def)
  ultimately show ?thesis by blast
qed

end
