(* ===== verification/Spec2Isabelle.thy ===== *)
theory Spec2Isabelle
  imports Worker Http_Endpoints Catalog_Start Media_Requests Media_Server Scheduler Catalog_Locks
begin

text \<open>
  Verification of the TMDB mirror: a Rust workspace (\<open>src/crates\<close>, \<open>src/apps\<close>) that copies the
  catalog of The Movie Database into PostgreSQL. An ingestion worker runs durable jobs from a leased
  queue; a job fetches documents or daily exports through a rate-limited HTTP client, writes the
  catalog and submits further jobs; images are stored under public paths of a media root.

  \<^bold>\<open>Theories and the code they model.\<close>

  \<^item> \<open>Prelude\<close>: results as sums (\<open>bindR\<close>, \<open>mapR\<close>, \<open>collectR\<close> for Rust's \<open>?\<close> and \<open>collect\<close>), bytes,
    UTF-8, trimming, decimal text, durations in nanoseconds, bounded retry loops (\<open>for_attempts\<close>).
    Strings are byte strings. \<open>Domain\<close>: media types (\<open>crates/tmdb-domain/src/media.rs\<close>) and JSON values.
  \<^item> \<open>Policy\<close>: \<open>crates/tmdb-upstream/src/policy.rs\<close>: rate-limit and retry policies, backoff, the request
    gate (one transition per acquisition).
  \<^item> \<open>Http_Client\<close>, \<open>Http_Endpoints\<close>, \<open>Export_Download\<close>: \<open>crates/tmdb-upstream/src/client.rs\<close>: the request
    loop as a function of what the network answers at each attempt, with a trace of permits, requests
    and sleeps; every typed endpoint as its path and query; the streamed download with its files.
  \<^item> \<open>Export_Parser\<close>: \<open>parser.rs\<close>: the bounded line scanner over buffers and the identifier file.
  \<^item> \<open>Job_Model\<close>: \<open>crates/tmdb-jobs/src/model.rs\<close>, \<open>error.rs\<close>. \<open>Lease_Queue\<close>: the SQL functions of the queue
    (\<open>ops.submit_job\<close>, \<open>claim_job\<close>, \<open>complete_job\<close>, \<open>fail_job\<close>, ...) as functions on a list of rows and
    events, and \<open>queue_step\<close>, the step relation they span. \<open>Job_Repository\<close>: \<open>repository.rs\<close>; a call to the
    database may fail or lose its reply (\<open>delivery\<close>). \<open>Worker\<close>: \<open>worker.rs\<close>: one turn claims, runs with
    heartbeats, and records; other sessions act in between (\<open>exchange\<close>).
  \<^item> \<open>Media_Layout\<close>: \<open>crates/tmdb-media/src/lib.rs\<close>: asset paths, the public-path test, runtime storage.
  \<^item> \<open>Ingest_Payload\<close>: payload parsing, deduplication keys and job builders of
    \<open>apps/tmdb-ingest/src/jobs.rs\<close>. \<open>Ingest_Submission\<close>: children and capacity-guarded refresh batches, one
    transaction each. \<open>Export_Batches\<close>: the daily export as a chain of jobs over the identifier file.
    \<open>Catalog_Scan\<close>: enrichment, seasons, waiting and completion of a scan. \<open>Export_Site\<close>: upstream errors as
    job errors and the daily-export job as a whole. \<open>Catalog_Start\<close>: the six modes in which a scan starts,
    pruning and reconciliation.

  The model keeps the code's names. State is passed explicitly: \<open>job_queue\<close> is the table \<open>ops.jobs\<close> with
  its events, \<open>scan_world\<close> adds the titles, the seasons and \<open>ops.catalog_sync_state\<close>, \<open>client_world\<close> holds the
  files and the trace of the client. What the outside world answers is a field of an environment record
  (\<open>client_env\<close>, \<open>repo_env\<close>, \<open>tx_env\<close>, \<open>scan_env\<close>, \<open>export_site\<close>), so every theorem holds for every
  behaviour of the network, the file system and the database. Third-party code (URL parsing, SHA-256,
  chrono's dates, serde's decoder, gzip) is a parameter; where a theorem needs a law of it, the law is a
  hypothesis (\<open>dates_round_trip\<close>, \<open>plain_texts\<close>) and a witness instantiates it.

  \<^bold>\<open>Interfaces.\<close> The retry loop (\<open>bounded_attempts\<close>), text built from separated words (\<open>text_codec\<close>), the
  leased store the repository and the worker rely on (\<open>lease_store\<close>), the submission of a
  batch (\<open>atomic_submission\<close>) and keyset paging (\<open>paged_scan\<close>) are locales; each is interpreted on the
  functions that model the code, and the properties rest on those interpretations.

  \<^bold>\<open>What the lemmas show.\<close> Queue: every reachable queue satisfies its invariant, leases exclude each other,
  terminal rows are final, a resubmission is a duplicate. Worker: it only makes queue steps and stays in
  service under every lost lease and failed call, except for one delay. Client: permits are balanced, only
  transient failures are retried, the token is never sent with an export. Export: the scanner does not
  depend on how the input is cut, the identifier file is published atomically and read back completely,
  an export job skips nothing. Payloads: what the worker submits it accepts, and keys name the work. Scan:
  a phase visits every row once and ends, its jobs form a state machine, the watermark moves only after
  success, pruning keeps exactly the export. Layout: different assets have different public paths.

  \<^bold>\<open>Bounds and fuel.\<close> Retry loops run at most \<open>max_attempts\<close> times by construction. \<open>follow_batches\<close> and
  \<open>follow_scan\<close> follow a chain of jobs and take fuel; the theorems give enough of it (records div 500 + 1,
  rows div 100 + 1) and show that the result is then a value. The line scanner has as much fuel as its
  input has bytes. Machine integers are natural numbers with their bound written out (\<open>u32_max\<close>,
  \<open>i64_max\<close>, \<open>u64_max\<close>) and the code's checks kept; timestamps are microseconds as integers.

  \<^bold>\<open>Not modelled.\<close> Logging and metrics (\<open>tmdb-observability\<close>); connection pools, migrations and readiness
  (\<open>tmdb-db\<close>); the serde types of the upstream documents and the SQL that writes them to the catalog
  (\<open>catalog_write.rs\<close>): I/O without logic of their own. The image worker, the scheduler, the configuration
  loader and the query side of the API are components still to come. SQL outside the queue and the
  synchronization state is modelled only as far as a query in the Rust code states it.
\<close>

section \<open>The export pipeline\<close>



end
